(* ===== verification/Prelude.thy ===== *)
theory Prelude
  imports Main "HOL-Library.List_Lexorder" "HOL-Library.Char_ord" "HOL-Library.Product_Lexorder"
begin

text \<open>
  Shared material of the development: the result type of fallible code, tables of rows
  that are looked up and updated by a key (the model of the SQLite tables), decimal
  numerals and separated strings, and the collections of facts that the component
  theories extend.

  A Python \<open>str\<close> is a \<^typ>\<open>string\<close>: a list of code points below 256.
\<close>

named_theorems enum_values \<open>the string values of the enumerations\<close>
named_theorems row_simps \<open>fields of rows and states after an update\<close>
named_theorems op_defs \<open>unfolding of the operations of a component\<close>

section \<open>Results\<close>

definition bind_sum :: "'e + 'a \<Rightarrow> ('a \<Rightarrow> 'e + 'b) \<Rightarrow> 'e + 'b" where
  "bind_sum m f = (case m of Inl e \<Rightarrow> Inl e | Inr x \<Rightarrow> f x)"

lemma bind_sum_simps [simp]:
  "bind_sum (Inl e) f = Inl e"
  "bind_sum (Inr x) f = f x"
  by (simp_all add: bind_sum_def)

lemma bind_sum_eq_Inr [simp]:
  "bind_sum m f = Inr y \<longleftrightarrow> (\<exists>x. m = Inr x \<and> f x = Inr y)"
  by (cases m) simp_all

lemma bind_sum_eq_Inl [simp]:
  "bind_sum m f = Inl e \<longleftrightarrow> m = Inl e \<or> (\<exists>x. m = Inr x \<and> f x = Inl e)"
  by (cases m) auto

definition require :: "bool \<Rightarrow> 'e \<Rightarrow> 'e + unit" where
  "require b e = (if b then Inr () else Inl e)"

lemma require_simps [simp]:
  "require True e = Inr ()"
  "require False e = Inl e"
  "require b e = Inr u \<longleftrightarrow> b"
  "require b e = Inl e' \<longleftrightarrow> \<not> b \<and> e' = e"
  by (auto simp: require_def)

text \<open>A \<open>for\<close> loop whose body updates the state and may raise.\<close>

fun for_each :: "('x \<Rightarrow> 's \<Rightarrow> 'e + 's) \<Rightarrow> 'x list \<Rightarrow> 's \<Rightarrow> 'e + 's" where
  "for_each body [] s = Inr s"
| "for_each body (x # xs) s = bind_sum (body x s) (for_each body xs)"

section \<open>Tables\<close>

text \<open>
  A table is the list of its rows in insertion (rowid) order. \<open>lookup_by\<close> is
  \<open>SELECT * ... WHERE key = ?\<close> followed by \<open>fetchone\<close>, \<open>update_by\<close> is
  \<open>UPDATE ... WHERE key = ?\<close>.
\<close>

definition lookup_by :: "('r \<Rightarrow> 'k) \<Rightarrow> 'k \<Rightarrow> 'r list \<Rightarrow> 'r option" where
  "lookup_by key k rows = find (\<lambda>r. key r = k) rows"

definition update_by :: "('r \<Rightarrow> 'k) \<Rightarrow> 'k \<Rightarrow> ('r \<Rightarrow> 'r) \<Rightarrow> 'r list \<Rightarrow> 'r list" where
  "update_by key k f rows = map (\<lambda>r. if key r = k then f r else r) rows"

lemma lookup_by_Nil [simp]: "lookup_by key k [] = None"
  by (simp add: lookup_by_def)

lemma lookup_by_Cons [simp]:
  "lookup_by key k (r # rs) = (if key r = k then Some r else lookup_by key k rs)"
  by (simp add: lookup_by_def)

lemma lookup_by_None_iff: "lookup_by key k rows = None \<longleftrightarrow> k \<notin> key ` set rows"
  by (induction rows) auto

lemma lookup_by_SomeD:
  "lookup_by key k rows = Some r \<Longrightarrow> r \<in> set rows \<and> key r = k"
  by (induction rows) (auto split: if_splits)

lemma lookup_by_append:
  "lookup_by key k (xs @ ys) =
     (case lookup_by key k xs of None \<Rightarrow> lookup_by key k ys | Some r \<Rightarrow> Some r)"
  by (induction xs) auto

lemma lookup_by_unique:
  assumes "distinct (map key rows)" and "r \<in> set rows"
  shows "lookup_by key (key r) rows = Some r"
  using assms by (induction rows) auto

lemma lookup_by_iff:
  assumes "distinct (map key rows)"
  shows "lookup_by key k rows = Some r \<longleftrightarrow> r \<in> set rows \<and> key r = k"
  using assms lookup_by_unique lookup_by_SomeD by metis

lemma update_by_simps [simp]:
  "update_by key k f [] = []"
  "update_by key k f (r # rs) = (if key r = k then f r else r) # update_by key k f rs"
  by (simp_all add: update_by_def)

lemma length_update_by [simp]: "length (update_by key k f rows) = length rows"
  by (simp add: update_by_def)

lemma update_by_absent: "k \<notin> key ` set rows \<Longrightarrow> update_by key k f rows = rows"
  by (induction rows) auto

lemma in_set_update_by:
  "r \<in> set (update_by key k f rows) \<longleftrightarrow>
     (\<exists>q \<in> set rows. r = (if key q = k then f q else q))"
  by (simp only: update_by_def set_map image_iff)

text \<open>What an update that keeps the key column guarantees.\<close>

locale keyed_update =
  fixes key :: "'r \<Rightarrow> 'k" and f :: "'r \<Rightarrow> 'r"
  assumes key_kept: "key (f r) = key r"
begin

lemma keys_kept [simp]: "map key (update_by key k f rows) = map key rows"
  by (induction rows) (auto simp: key_kept)

lemma lookup_updated:
  "lookup_by key k' (update_by key k f rows) =
     (if k' = k then map_option f (lookup_by key k rows) else lookup_by key k' rows)"
  by (induction rows) (auto simp: key_kept)

lemma distinct_kept: "distinct (map key rows) \<Longrightarrow> distinct (map key (update_by key k f rows))"
  by simp

lemma other_column_kept:
  assumes "\<And>r. g (f r) = g r"
  shows "map g (update_by key k f rows) = map g rows"
  by (induction rows) (auto simp: assms)

end

text \<open>A table that only evolves: every row keeps its place and changes within the relation,
  and new rows come last.\<close>

definition grows :: "('a \<Rightarrow> 'a \<Rightarrow> bool) \<Rightarrow> 'a list \<Rightarrow> 'a list \<Rightarrow> bool" where
  "grows R xs ys \<longleftrightarrow> length xs \<le> length ys \<and> (\<forall>i < length xs. R (xs ! i) (ys ! i))"

lemma grows_map: "(\<And>x. x \<in> set xs \<Longrightarrow> R x (f x)) \<Longrightarrow> grows R xs (map f xs)"
  by (auto simp: grows_def)

lemma grows_append: "(\<And>x. R x x) \<Longrightarrow> grows R xs (xs @ ys)"
  by (auto simp: grows_def nth_append)

lemma grows_refl: "(\<And>x. R x x) \<Longrightarrow> grows R xs xs"
  by (auto simp: grows_def)

lemma grows_trans:
  assumes "\<And>x y z. R x y \<Longrightarrow> R y z \<Longrightarrow> R x z" and "grows R xs ys" and "grows R ys zs"
  shows "grows R xs zs"
  using assms unfolding grows_def by (meson le_trans less_le_trans)

lemma grows_in_set: "grows R xs ys \<Longrightarrow> x \<in> set xs \<Longrightarrow> \<exists>y \<in> set ys. R x y"
  unfolding grows_def by (metis in_set_conv_nth less_le_trans)

section \<open>Dictionaries\<close>

text \<open>A Python \<open>dict\<close> is the list of its items in insertion order; reading is
  \<^const>\<open>map_of\<close>. Storing to an existing key keeps its place, a new key goes last.\<close>

fun dict_set :: "'k \<Rightarrow> 'v \<Rightarrow> ('k \<times> 'v) list \<Rightarrow> ('k \<times> 'v) list" where
  "dict_set k v [] = [(k, v)]"
| "dict_set k v ((k', v') # kvs) = (if k' = k then (k, v) # kvs else (k', v') # dict_set k v kvs)"

lemma map_of_dict_set [simp]:
  "map_of (dict_set k v kvs) k' = (if k' = k then Some v else map_of kvs k')"
  by (induction kvs) auto

lemma keys_dict_set: "fst ` set (dict_set k v kvs) = insert k (fst ` set kvs)"
  by (induction kvs) force+

lemma distinct_dict_set: "distinct (map fst kvs) \<Longrightarrow> distinct (map fst (dict_set k v kvs))"
  by (induction kvs) (auto simp: keys_dict_set)

lemma dict_set_new: "k \<notin> fst ` set kvs \<Longrightarrow> dict_set k v kvs = kvs @ [(k, v)]"
  by (induction kvs) auto

lemma length_dict_set:
  "length (dict_set k v kvs) = (if k \<in> fst ` set kvs then length kvs else Suc (length kvs))"
  by (induction kvs) force+

section \<open>Decimal numerals\<close>

definition digit_char :: "nat \<Rightarrow> char" where
  "digit_char d = char_of (48 + d)"

fun nat_digits :: "nat \<Rightarrow> string" where
  "nat_digits n =
     (if n < 10 then [digit_char n] else nat_digits (n div 10) @ [digit_char (n mod 10)])"

declare nat_digits.simps [simp del]

text \<open>Python's \<open>str(i)\<close> for an integer.\<close>

definition str_int :: "int \<Rightarrow> string" where
  "str_int i = (if i < 0 then CHR ''-'' # nat_digits (nat (- i)) else nat_digits (nat i))"

definition is_digit :: "char \<Rightarrow> bool" where
  "is_digit c \<longleftrightarrow> 48 \<le> (of_char c :: nat) \<and> (of_char c :: nat) \<le> 57"

definition digits_value :: "string \<Rightarrow> nat" where
  "digits_value s = foldl (\<lambda>a c. 10 * a + (of_char c - 48)) 0 s"

lemma of_digit_char [simp]: "d < 10 \<Longrightarrow> (of_char (digit_char d) :: nat) = 48 + d"
  by (simp add: digit_char_def of_char_of)

lemma is_digit_digit_char [simp]: "d < 10 \<Longrightarrow> is_digit (digit_char d)"
  by (simp add: is_digit_def)

lemma nat_digits_nonempty [simp]: "nat_digits n \<noteq> []"
  by (subst nat_digits.simps) simp

lemma nat_digits_digits: "c \<in> set (nat_digits n) \<Longrightarrow> is_digit c"
proof (induction n rule: nat_digits.induct)
  case (1 n)
  then show ?case
    by (cases "n < 10") (auto simp: nat_digits.simps [of n])
qed

lemma digits_value_nat_digits [simp]: "digits_value (nat_digits n) = n"
proof (induction n rule: nat_digits.induct)
  case (1 n)
  show ?case
  proof (cases "n < 10")
    case True
    then show ?thesis by (simp add: nat_digits.simps [of n] digits_value_def)
  next
    case False
    with 1 have "digits_value (nat_digits (n div 10)) = n div 10" by simp
    with False show ?thesis by (simp add: nat_digits.simps [of n] digits_value_def)
  qed
qed

lemma nat_digits_inj [simp]: "nat_digits m = nat_digits n \<longleftrightarrow> m = n"
  by (metis digits_value_nat_digits)

lemma minus_not_digit [simp]: "\<not> is_digit (CHR ''-'')"
  by (simp add: is_digit_def)

lemma minus_notin_nat_digits: "CHR ''-'' \<notin> set (nat_digits n)"
  using nat_digits_digits minus_not_digit by blast

lemma str_int_inj [simp]: "str_int i = str_int j \<longleftrightarrow> i = j"
proof -
  have "nat_digits n \<noteq> CHR ''-'' # s" for n s
    using minus_notin_nat_digits [of n] by (metis list.set_intros(1))
  then show ?thesis
    by (auto simp: str_int_def split: if_splits) metis+
qed

lemma str_int_chars: "c \<in> set (str_int i) \<Longrightarrow> is_digit c \<or> c = CHR ''-''"
  by (auto simp: str_int_def dest: nat_digits_digits split: if_splits)

lemma str_int_nonempty [simp]: "str_int i \<noteq> []"
  by (simp add: str_int_def)

section \<open>Separated strings\<close>

text \<open>Python's \<open>sep.join(parts)\<close> for a one-character separator.\<close>

fun join :: "char \<Rightarrow> string list \<Rightarrow> string" where
  "join sep [] = []"
| "join sep [s] = s"
| "join sep (s # t # ts) = s @ sep # join sep (t # ts)"

lemma append_sep_eq:
  assumes "sep \<notin> set s" and "sep \<notin> set t"
  shows "s @ sep # u = t @ sep # v \<longleftrightarrow> s = t \<and> u = v"
  using assms
proof (induction s arbitrary: t)
  case Nil
  then show ?case by (cases t) auto
next
  case (Cons c s)
  then show ?case by (cases t) auto
qed

lemma join_inj:
  assumes "length ss = length ts"
    and "\<And>s. s \<in> set ss \<Longrightarrow> sep \<notin> set s" and "\<And>t. t \<in> set ts \<Longrightarrow> sep \<notin> set t"
    and "join sep ss = join sep ts"
  shows "ss = ts"
  using assms
proof (induction sep ss arbitrary: ts rule: join.induct)
  case (1 sep)
  then show ?case by simp
next
  case (2 sep s)
  then show ?case by (cases ts) auto
next
  case (3 sep s s' ss)
  from "3.prems"(1) obtain t t' us where ts: "ts = t # t' # us"
    by (cases ts; cases "tl ts") auto
  have "s @ sep # join sep (s' # ss) = t @ sep # join sep (t' # us)"
    using "3.prems"(4) ts by simp
  then have "s = t" and rest: "join sep (s' # ss) = join sep (t' # us)"
    using "3.prems"(2,3) ts by (auto simp: append_sep_eq)
  moreover have "s' # ss = t' # us"
    by (rule "3.IH") (use "3.prems" ts rest in auto)
  ultimately show ?case by (simp add: ts)
qed

text \<open>It is enough that the separator does not occur in the parts on one side: the number of
  separators then rules it out on the other side.\<close>

lemma count_join: "count_list (join sep ss) sep = (length ss - 1) + sum_list (map (\<lambda>s. count_list s sep) ss)"
  by (induction sep ss rule: join.induct) auto

lemma count_list_0: "count_list s c = 0 \<longleftrightarrow> c \<notin> set s"
  by (induction s) auto

lemma join_inj_one_side:
  assumes len: "length ss = length ts" and free: "\<And>s. s \<in> set ss \<Longrightarrow> sep \<notin> set s"
    and eq: "join sep ss = join sep ts"
  shows "ss = ts"
proof (rule join_inj [OF len free _ eq])
  have 0: "sum_list (map (\<lambda>s. count_list s sep) ss) = 0"
    using free by (auto simp: sum_list_eq_0_iff count_list_0)
  have "(length ss - 1) + sum_list (map (\<lambda>s. count_list s sep) ss) =
      (length ts - 1) + sum_list (map (\<lambda>s. count_list s sep) ts)"
    using eq count_join by metis
  then have "sum_list (map (\<lambda>s. count_list s sep) ts) = 0"
    unfolding 0 len by linarith
  then show "sep \<notin> set t" if "t \<in> set ts" for t
    using that by (auto simp: sum_list_eq_0_iff count_list_0)
qed

text \<open>\<open>sep.join(parts)\<close> for any separator.\<close>

fun join_with :: "string \<Rightarrow> string list \<Rightarrow> string" where
  "join_with sep [] = []"
| "join_with sep [s] = s"
| "join_with sep (s # t # ts) = s @ sep @ join_with sep (t # ts)"

text \<open>\<open>repr\<close> of a string as an f-string's \<open>!r\<close> writes it, for strings without quotes,
  backslashes and unprintable characters: the identifiers of the program.\<close>

definition py_repr_ident :: "string \<Rightarrow> string" where
  "py_repr_ident s = CHR 0x27 # s @ [CHR 0x27]"

end
