(* ===== verification/PyJson.thy ===== *)
theory PyJson
  imports Prelude
begin

text \<open>
  JSON values as Python holds them and \<open>json.dumps(value, sort_keys=True,
  separators=(",", ":"))\<close>, the canonical encoding every digest and audit payload of the
  program is computed over. An object is the list of its items in insertion order; a
  \<open>float\<close> is represented by the token \<open>json.dumps\<close> writes for it (its
  \<open>repr\<close>, or \<open>NaN\<close>, \<open>Infinity\<close>, \<open>-Infinity\<close>). The section on
  unique readability shows that two well-formed values have the same encoding only when
  they are equal up to the order of object keys.
\<close>

datatype json =
    JNull
  | JBool bool
  | JInt int
  | JFloat string
  | JStr string
  | JList "json list"
  | JObj "(string \<times> json) list"

type_synonym json_object = "(string \<times> json) list"

text \<open>\<open>d.get(key)\<close> of a dictionary.\<close>

definition obj_get :: "json_object \<Rightarrow> string \<Rightarrow> json option" where
  "obj_get kvs k = map_of kvs k"

text \<open>\<open>{**a, **b}\<close>.\<close>

definition obj_merge :: "json_object \<Rightarrow> json_object \<Rightarrow> json_object" where
  "obj_merge a b = foldl (\<lambda>acc (k, v). dict_set k v acc) a b"

definition opt_json :: "('a \<Rightarrow> json) \<Rightarrow> 'a option \<Rightarrow> json" where
  "opt_json f x = (case x of None \<Rightarrow> JNull | Some y \<Rightarrow> f y)"

lemma distinct_obj_merge: "distinct (map fst a) \<Longrightarrow> distinct (map fst (obj_merge a b))"
  unfolding obj_merge_def
  by (induction b arbitrary: a) (auto simp: distinct_dict_set split: prod.splits)

lemma obj_get_append:
  "obj_get (xs @ ys) k = (case obj_get xs k of None \<Rightarrow> obj_get ys k | Some v \<Rightarrow> Some v)"
  by (simp add: obj_get_def map_add_def split: option.split)

lemma obj_get_Cons [simp]:
  "obj_get ((k, v) # kvs) k' = (if k' = k then Some v else obj_get kvs k')"
  by (simp add: obj_get_def)

lemma obj_get_Nil [simp]: "obj_get [] k = None"
  by (simp add: obj_get_def)

lemma obj_get_merge:
  "obj_get (obj_merge a b) k =
     (case obj_get (rev b) k of None \<Rightarrow> obj_get a k | Some v \<Rightarrow> Some v)"
  unfolding obj_merge_def
  by (induction b arbitrary: a) (auto simp: obj_get_def map_add_def split: option.splits prod.splits)

section \<open>Canonical encoding\<close>

definition hex_digit :: "nat \<Rightarrow> char" where
  "hex_digit d = (if d < 10 then char_of (48 + d) else char_of (87 + d))"

text \<open>One character of a JSON string, escaped as \<open>ensure_ascii\<close> does.\<close>

definition escape_char :: "char \<Rightarrow> string" where
  "escape_char c =
     (if c = CHR 0x22 then [CHR 0x5C, CHR 0x22]
      else if c = CHR 0x5C then [CHR 0x5C, CHR 0x5C]
      else if c = CHR 0x0A then [CHR 0x5C, CHR ''n'']
      else if c = CHR 0x0D then [CHR 0x5C, CHR ''r'']
      else if c = CHR 0x09 then [CHR 0x5C, CHR ''t'']
      else if c = CHR 0x0C then [CHR 0x5C, CHR ''f'']
      else if c = CHR 0x08 then [CHR 0x5C, CHR ''b'']
      else if 32 \<le> (of_char c :: nat) \<and> (of_char c :: nat) \<le> 126 then [c]
      else [CHR 0x5C, CHR ''u'', CHR ''0'', CHR ''0'',
            hex_digit (of_char c div 16), hex_digit (of_char c mod 16)])"

definition json_quote :: "string \<Rightarrow> string" where
  "json_quote s = CHR 0x22 # concat (map escape_char s) @ [CHR 0x22]"

fun json_dumps :: "json \<Rightarrow> string" where
  "json_dumps JNull = ''null''"
| "json_dumps (JBool b) = (if b then ''true'' else ''false'')"
| "json_dumps (JInt i) = str_int i"
| "json_dumps (JFloat t) = t"
| "json_dumps (JStr s) = json_quote s"
| "json_dumps (JList vs) = CHR ''['' # join (CHR '','') (map json_dumps vs) @ '']''"
| "json_dumps (JObj kvs) =
     CHR ''{'' # join (CHR '','')
       (map snd (sort_key fst (map (\<lambda>(k, v). (k, json_quote k @ CHR '':'' # json_dumps v)) kvs))) @ ''}''"

section \<open>Well-formed values and their normal form\<close>

text \<open>The characters of a number token; none of them delimits a value.\<close>

definition number_char :: "char \<Rightarrow> bool" where
  "number_char c \<longleftrightarrow> is_digit c \<or> c \<in> set ''+-.eE''"

definition float_token :: "string \<Rightarrow> bool" where
  "float_token t \<longleftrightarrow> t = ''NaN'' \<or> t = ''Infinity'' \<or> t = ''-Infinity'' \<or>
     (t \<noteq> [] \<and> list_all number_char t \<and> (is_digit (hd t) \<or> hd t = CHR ''-'') \<and>
      list_ex (\<lambda>c. c = CHR ''.'' \<or> c = CHR ''e'') t)"

fun json_wf :: "json \<Rightarrow> bool" where
  "json_wf (JFloat t) = float_token t"
| "json_wf (JList vs) = list_all json_wf vs"
| "json_wf (JObj kvs) = (distinct (map fst kvs) \<and> list_all (\<lambda>(k, v). json_wf v) kvs)"
| "json_wf _ = True"

text \<open>The value with the items of every object in key order: equality of Python dictionaries
  is equality of normal forms.\<close>

fun json_norm :: "json \<Rightarrow> json" where
  "json_norm (JList vs) = JList (map json_norm vs)"
| "json_norm (JObj kvs) = JObj (sort_key fst (map (\<lambda>(k, v). (k, json_norm v)) kvs))"
| "json_norm v = v"

section \<open>Unique readability\<close>

text \<open>The encoding without the sorting step; \<open>json_dumps\<close> renders the normal form.\<close>

fun render :: "json \<Rightarrow> string" where
  "render (JList vs) = CHR ''['' # join (CHR '','') (map render vs) @ '']''"
| "render (JObj kvs) =
     CHR ''{'' # join (CHR '','') (map (\<lambda>(k, v). json_quote k @ CHR '':'' # render v) kvs) @ ''}''"
| "render v = json_dumps v"

lemma insort_key_map:
  assumes "\<And>x. g (h x) = g' x"
  shows "insort_key g (h x) (map h xs) = map h (insort_key g' x xs)"
  by (induction xs) (simp_all add: assms)

lemma sort_key_map:
  assumes "\<And>x. g (h x) = g' x"
  shows "sort_key g (map h xs) = map h (sort_key g' xs)"
proof (induction xs)
  case (Cons x xs)
  then show ?case by (simp add: insort_key_map [where g = g and h = h and g' = g', OF assms])
qed simp

lemma json_dumps_render: "json_dumps v = render (json_norm v)"
proof (induction v)
  case (JList vs)
  then have eq: "map json_dumps vs = map (\<lambda>v. render (json_norm v)) vs" by simp
  show ?case
    by (simp only: json_dumps.simps json_norm.simps render.simps map_map comp_def eq)
next
  case (JObj kvs)
  let ?item = "\<lambda>(k, w). (k, json_quote k @ CHR '':'' # render w)"
  have items: "map (\<lambda>(k, v). (k, json_quote k @ CHR '':'' # json_dumps v)) kvs =
    map ?item (map (\<lambda>(k, v). (k, json_norm v)) kvs)"
    using JObj by (auto simp: snds.simps)
  have sorted: "sort_key fst (map ?item ys) = map ?item (sort_key fst ys)" for ys
    by (rule sort_key_map) auto
  show ?case
    unfolding json_dumps.simps json_norm.simps render.simps items sorted
    by (simp add: comp_def case_prod_unfold)
qed simp_all

text \<open>A value ends where the text ends or where one of the three closing characters follows.\<close>

definition stop :: "string \<Rightarrow> bool" where
  "stop r \<longleftrightarrow> r = [] \<or> hd r \<in> {CHR '','', CHR '']'', CHR ''}''}"

definition token_char :: "char \<Rightarrow> bool" where
  "token_char c \<longleftrightarrow> c \<notin> {CHR '','', CHR '']'', CHR ''}'', CHR 0x22, CHR ''['', CHR ''{''}"

fun scalar :: "json \<Rightarrow> bool" where
  "scalar (JStr _) = False"
| "scalar (JList _) = False"
| "scalar (JObj _) = False"
| "scalar _ = True"

lemma stop_Cons: "c \<in> {CHR '','', CHR '']'', CHR ''}''} \<Longrightarrow> stop (c # r)"
  by (simp add: stop_def)

lemma digit_token_char: "is_digit c \<Longrightarrow> token_char c"
  by (auto simp: is_digit_def token_char_def)

lemma number_token_char: "number_char c \<Longrightarrow> token_char c"
  by (auto simp: number_char_def dest: digit_token_char simp: token_char_def)

lemma token_append:
  assumes "list_all token_char a" and "list_all token_char b" and "stop r" and "stop s"
    and "a @ r = b @ s"
  shows "a = b \<and> r = s"
  using assms
proof (induction a arbitrary: b)
  case Nil
  then show ?case by (cases b) (auto simp: stop_def token_char_def)
next
  case (Cons c a)
  then show ?case by (cases b) (auto simp: stop_def token_char_def)
qed

lemma str_int_token: "list_all token_char (str_int i)"
proof -
  have "token_char c" if "c \<in> set (str_int i)" for c
    using str_int_chars [OF that] by (auto simp: digit_token_char) (simp add: token_char_def)
  then show ?thesis by (simp add: list_all_iff)
qed

lemma float_token_token: "float_token t \<Longrightarrow> list_all token_char t"
proof -
  assume "float_token t"
  then consider "t \<in> {''NaN'', ''Infinity'', ''-Infinity''}" | "list_all number_char t"
    by (auto simp: float_token_def)
  then show ?thesis
  proof cases
    case 1
    then show ?thesis by (auto simp: token_char_def)
  next
    case 2
    then show ?thesis by (simp add: list_all_iff number_token_char)
  qed
qed

lemma render_scalar_token:
  "scalar v \<Longrightarrow> json_wf v \<Longrightarrow> list_all token_char (render v) \<and> render v \<noteq> []"
proof (cases v)
  case (JFloat t)
  moreover assume "json_wf v"
  ultimately show ?thesis by (auto simp: float_token_token) (simp add: float_token_def)
qed (auto simp: token_char_def str_int_token)

lemma str_int_not_float: "float_token t \<Longrightarrow> str_int i \<noteq> t"
proof
  assume t: "float_token t" and eq: "str_int i = t"
  have "\<exists>c \<in> set t. \<not> is_digit c \<and> c \<noteq> CHR ''-''"
    using t unfolding float_token_def by (auto simp: list_ex_iff is_digit_def
        intro: bexI [of _ "CHR ''.''"] bexI [of _ "CHR ''e''"])
  then show False
    using str_int_chars eq by blast
qed

lemma hd_str_int: "is_digit (hd (str_int i)) \<or> hd (str_int i) = CHR ''-''"
  using str_int_chars [of "hd (str_int i)" i] hd_in_set [OF str_int_nonempty] by blast

lemma str_int_not_word: "str_int i \<noteq> ''null''" "str_int i \<noteq> ''true''" "str_int i \<noteq> ''false''"
  using hd_str_int [of i] by (auto simp: is_digit_def)

lemma float_token_not_word:
  "\<not> float_token ''null''" "\<not> float_token ''true''" "\<not> float_token ''false''"
  by (simp_all add: float_token_def is_digit_def)

lemma scalar_inj:
  assumes "scalar v" and "scalar w" and "json_wf v" and "json_wf w" and "render v = render w"
  shows "v = w"
  using assms str_int_not_word str_int_not_word [symmetric] float_token_not_word
    str_int_not_float str_int_not_float [symmetric]
  by (cases v; cases w) (auto split: if_splits)

definition unhex :: "char \<Rightarrow> nat" where
  "unhex c = (if is_digit c then of_char c - 48 else of_char c - 87)"

text \<open>Reading one escaped character back.\<close>

fun unescape_char :: "string \<Rightarrow> (char \<times> string) option" where
  "unescape_char (c # r) =
     (if c = CHR 0x22 then None
      else if c \<noteq> CHR 0x5C then Some (c, r)
      else (case r of
          [] \<Rightarrow> None
        | e # r' \<Rightarrow>
            if e = CHR ''n'' then Some (CHR 0x0A, r')
            else if e = CHR ''r'' then Some (CHR 0x0D, r')
            else if e = CHR ''t'' then Some (CHR 0x09, r')
            else if e = CHR ''f'' then Some (CHR 0x0C, r')
            else if e = CHR ''b'' then Some (CHR 0x08, r')
            else if e = CHR ''u'' then
              (case r' of _ # _ # a # b # r'' \<Rightarrow> Some (char_of (16 * unhex a + unhex b), r'') | _ \<Rightarrow> None)
            else Some (e, r')))"
| "unescape_char [] = None"

lemma unhex_hex_digit: "d < 16 \<Longrightarrow> unhex (hex_digit d) = d"
  by (auto simp: unhex_def hex_digit_def is_digit_def)

lemma unescape_escape [simp]: "unescape_char (escape_char c @ r) = Some (c, r)"
proof -
  have "(of_char c :: nat) < 256" by (rule nat_of_char_less_256)
  then have "(of_char c :: nat) div 16 < 16" by (simp add: less_mult_imp_div_less)
  then have "unhex (hex_digit (of_char c div 16)) = of_char c div 16"
    and "unhex (hex_digit (of_char c mod 16)) = of_char c mod 16"
    by (auto intro!: unhex_hex_digit)
  then show ?thesis
    by (auto simp: escape_char_def mult.commute)
qed

lemma escape_chars_unique:
  assumes "concat (map escape_char s) @ CHR 0x22 # r = concat (map escape_char t) @ CHR 0x22 # u"
  shows "s = t \<and> r = u"
  using assms
proof (induction s arbitrary: t)
  case Nil
  show ?case
  proof (cases t)
    case (Cons d t')
    with Nil have "CHR 0x22 # r = escape_char d @ concat (map escape_char t') @ CHR 0x22 # u"
      by simp
    then have "unescape_char (CHR 0x22 # r) = Some (d, concat (map escape_char t') @ CHR 0x22 # u)"
      by (simp only: unescape_escape)
    then show ?thesis by simp
  qed (use Nil in simp)
next
  case (Cons c s)
  show ?case
  proof (cases t)
    case Nil
    with Cons.prems have "escape_char c @ concat (map escape_char s) @ CHR 0x22 # r = CHR 0x22 # u"
      by simp
    then have "unescape_char (CHR 0x22 # u) = Some (c, concat (map escape_char s) @ CHR 0x22 # r)"
      by (simp only: unescape_escape flip: \<open>_ = CHR 0x22 # u\<close>)
    then show ?thesis by simp
  next
    case (Cons d t')
    with Cons.prems have "unescape_char (escape_char c @ concat (map escape_char s) @ CHR 0x22 # r) =
      unescape_char (escape_char d @ concat (map escape_char t') @ CHR 0x22 # u)"
      by simp
    then have "c = d" and "concat (map escape_char s) @ CHR 0x22 # r =
      concat (map escape_char t') @ CHR 0x22 # u"
      unfolding unescape_escape by simp_all
    with Cons.IH Cons show ?thesis by simp
  qed
qed

lemma json_quote_unique: "json_quote s @ r = json_quote t @ u \<Longrightarrow> s = t \<and> r = u"
  by (auto simp: json_quote_def dest: escape_chars_unique)

text \<open>Comma-separated items that are uniquely readable up to a stop are uniquely readable as a
  bracketed sequence.\<close>

lemma join_items_unique:
  assumes items: "\<And>x y r u. x \<in> set xs \<Longrightarrow> y \<in> set ys \<Longrightarrow> stop r \<Longrightarrow> stop u \<Longrightarrow>
      R x @ r = R y @ u \<Longrightarrow> x = y \<and> r = u"
    and heads: "\<And>x r. x \<in> set xs \<union> set ys \<Longrightarrow> \<not> stop (R x @ r)"
    and close: "close \<in> {CHR '']'', CHR ''}''}"
    and eq: "join (CHR '','') (map R xs) @ close # r = join (CHR '','') (map R ys) @ close # u"
  shows "xs = ys \<and> r = u"
  using items heads eq
proof (induction xs arbitrary: ys)
  case Nil
  show ?case
  proof (cases ys)
    case (Cons y ys')
    obtain rest where "join (CHR '','') (map R ys) @ close # u = R y @ rest"
      using Cons by (cases ys') auto
    moreover have "stop (close # r)" using close by (auto simp: stop_def)
    ultimately show ?thesis using Nil.prems(2,3) Cons by (metis UnCI append_Nil join.simps(1) list.set_intros(1) list.simps(8))
  qed (use Nil in simp)
next
  case (Cons x xs)
  let ?tail = "\<lambda>zs v. (if zs = [] then close # v else CHR '','' # join (CHR '','') (map R zs) @ close # v)"
  have tail: "join (CHR '','') (map R (z # zs)) @ close # v = R z @ ?tail zs v" for z zs v
    by (cases zs) auto
  have stop_tail: "stop (?tail zs v)" for zs v
    using close by (auto simp: stop_def)
  show ?case
  proof (cases ys)
    case Nil
    have "stop (close # u)" using close by (auto simp: stop_def)
    with Nil Cons.prems(2) [of x "?tail xs r"] Cons.prems(3) tail [of x xs r] show ?thesis by simp
  next
    case ys: (Cons y ys')
    have "R x @ ?tail xs r = R y @ ?tail ys' u"
      using Cons.prems(3) ys tail by metis
    then have "x = y \<and> ?tail xs r = ?tail ys' u"
      by (intro Cons.prems(1) stop_tail) (simp_all add: ys)
    then have "x = y" and rest: "?tail xs r = ?tail ys' u" by blast+
    have "xs = ys' \<and> r = u"
    proof (cases "xs = []")
      case True
      with rest close show ?thesis by (auto split: if_splits)
    next
      case False
      with rest close have "join (CHR '','') (map R xs) @ close # r = join (CHR '','') (map R ys') @ close # u"
        by (auto split: if_splits)
      then show ?thesis
        by (intro Cons.IH) (use Cons.prems(1,2) ys in auto)
    qed
    with \<open>x = y\<close> ys show ?thesis by simp
  qed
qed

lemma render_head: "json_wf v \<Longrightarrow> \<not> stop (render v @ r)"
proof (cases "scalar v")
  case True
  assume "json_wf v"
  with True have "list_all token_char (render v)" and "render v \<noteq> []"
    using render_scalar_token by auto
  then show ?thesis by (cases "render v") (auto simp: stop_def token_char_def)
next
  case False
  then show ?thesis by (cases v) (auto simp: stop_def json_quote_def)
qed

lemma render_item_unique:
  assumes "\<And>r u. stop r \<Longrightarrow> stop u \<Longrightarrow> render v @ r = render w @ u \<Longrightarrow> v = w \<and> r = u"
    and "stop r" and "stop u"
    and "(json_quote k @ CHR '':'' # render v) @ r = (json_quote k' @ CHR '':'' # render w) @ u"
  shows "k = k' \<and> v = w \<and> r = u"
proof -
  from assms(4) have "json_quote k @ CHR '':'' # render v @ r = json_quote k' @ CHR '':'' # render w @ u"
    by simp
  from json_quote_unique [OF this] have "k = k'" and "render v @ r = render w @ u" by auto
  with assms(1-3) show ?thesis by blast
qed

text \<open>The three structured shapes start with a character no token has.\<close>

lemma scalar_or_structured:
  assumes "scalar v" and "json_wf v" and "render v @ r = render w @ u" and "json_wf w"
  shows "scalar w"
proof (rule ccontr)
  assume "\<not> scalar w"
  then have "render w \<noteq> [] \<and> \<not> token_char (hd (render w))"
    by (cases w) (auto simp: token_char_def json_quote_def)
  moreover have "render v \<noteq> [] \<and> token_char (hd (render v))"
    using render_scalar_token [OF assms(1,2)] by (cases "render v") auto
  ultimately show False using assms(3) by (metis hd_append2)
qed

lemma render_unique_scalar:
  assumes "scalar v" and "json_wf v" and "json_wf w" and "stop r" and "stop u"
    and "render v @ r = render w @ u"
  shows "v = w \<and> r = u"
proof -
  have w: "scalar w" using scalar_or_structured assms by blast
  then have "render v = render w \<and> r = u"
    by (intro token_append) (use assms render_scalar_token in auto)
  with w assms scalar_inj show ?thesis by blast
qed

lemma render_unique:
  assumes "json_wf v" and "json_wf w" and "stop r" and "stop u" and "render v @ r = render w @ u"
  shows "v = w \<and> r = u"
  using assms
proof (induction v arbitrary: w r u)
  case (JStr s)
  then have "\<not> scalar w" using scalar_or_structured [of w u "JStr s" r] by auto
  with JStr show ?case by (cases w) (auto simp: json_quote_def dest: escape_chars_unique)
next
  case (JList vs)
  then have "\<not> scalar w" using scalar_or_structured [of w u "JList vs" r] by auto
  with JList.prems(5) obtain ws where w: "w = JList ws"
    by (cases w) (auto simp: json_quote_def)
  have "vs = ws \<and> r = u"
  proof (rule join_items_unique)
    show "join (CHR '','') (map render vs) @ CHR '']'' # r = join (CHR '','') (map render ws) @ CHR '']'' # u"
      using JList.prems(5) w by simp
    show "x = y \<and> r' = u'"
      if "x \<in> set vs" "y \<in> set ws" "stop r'" "stop u'" "render x @ r' = render y @ u'" for x y r' u'
      using JList.IH [OF that(1)] JList.prems(1,2) that w by (auto simp: list_all_iff)
    show "\<not> stop (render x @ r')" if "x \<in> set vs \<union> set ws" for x r'
      using that JList.prems(1,2) w by (intro render_head) (auto simp: list_all_iff)
  qed simp
  then show ?case by (simp add: w)
next
  case (JObj kvs)
  then have "\<not> scalar w" using scalar_or_structured [of w u "JObj kvs" r] by auto
  with JObj.prems(5) obtain kws where w: "w = JObj kws"
    by (cases w) (auto simp: json_quote_def)
  let ?R = "\<lambda>(k, v). json_quote k @ CHR '':'' # render v"
  have "kvs = kws \<and> r = u"
  proof (rule join_items_unique)
    show "join (CHR '','') (map ?R kvs) @ CHR ''}'' # r = join (CHR '','') (map ?R kws) @ CHR ''}'' # u"
      using JObj.prems(5) w by simp
    show "x = y \<and> r' = u'"
      if xy: "x \<in> set kvs" "y \<in> set kws" and stops: "stop r'" "stop u'" and eq: "?R x @ r' = ?R y @ u'"
      for x y r' u'
    proof -
      obtain k v k' v' where x: "x = (k, v)" and y: "y = (k', v')" by (cases x; cases y) auto
      have "json_wf v" "json_wf v'"
        using JObj.prems(1,2) xy x y w by (auto simp: list_all_iff)
      then have "v = v' \<and> r'' = u''"
        if "stop r''" "stop u''" "render v @ r'' = render v' @ u''" for r'' u''
        using JObj.IH [of x v v' r'' u''] xy(1) x that by (simp add: snds.simps)
      then show ?thesis using render_item_unique [of v v' r' u' k k'] stops eq x y by simp
    qed
    show "\<not> stop (?R x @ r')" for x r'
      by (cases x) (simp add: stop_def json_quote_def)
  qed simp
  then show ?case by (simp add: w)
qed (rule render_unique_scalar; simp)+

lemma distinct_map_sort_key: "distinct (map f (sort_key g xs)) \<longleftrightarrow> distinct (map f xs)"
  by (simp add: distinct_map)

lemma json_norm_wf: "json_wf v \<Longrightarrow> json_wf (json_norm v)"
proof (induction v)
  case (JObj kvs)
  have "map fst (map (\<lambda>(k, v). (k, json_norm v)) kvs) = map fst kvs" by auto
  then have "distinct (map fst (sort_key fst (map (\<lambda>(k, v). (k, json_norm v)) kvs)))"
    unfolding distinct_map_sort_key using JObj.prems by (simp only: json_wf.simps)
  with JObj show ?case by (auto simp: list_all_iff snds.simps)
qed (auto simp: list_all_iff)

theorem json_dumps_inj:
  assumes "json_wf v" and "json_wf w" and "json_dumps v = json_dumps w"
  shows "json_norm v = json_norm w"
  using render_unique [of "json_norm v" "json_norm w" "[]" "[]"] assms
  by (simp add: json_dumps_render json_norm_wf stop_def)

section \<open>Encodings are printable ASCII\<close>

definition printable :: "char \<Rightarrow> bool" where
  "printable c \<longleftrightarrow> 32 \<le> (of_char c :: nat) \<and> (of_char c :: nat) \<le> 126"

lemma printable_lits [simp]:
  "printable (CHR 0x22)" "printable (CHR 0x5C)" "printable (CHR '','')" "printable (CHR '':'')"
  "printable (CHR ''['')" "printable (CHR '']'')" "printable (CHR ''{'')" "printable (CHR ''}'')"
  by (simp_all add: printable_def)

lemma digit_printable: "is_digit c \<Longrightarrow> printable c"
  by (simp add: is_digit_def printable_def)

lemma hex_digit_printable: "d < 16 \<Longrightarrow> printable (hex_digit d)"
  by (auto simp: hex_digit_def printable_def)

lemma escape_char_printable: "c \<in> set (escape_char d) \<Longrightarrow> printable c"
proof -
  assume c: "c \<in> set (escape_char d)"
  have "(of_char d :: nat) div 16 < 16"
    using nat_of_char_less_256 [of d] by (simp add: less_mult_imp_div_less)
  then have "printable (hex_digit (of_char d div 16))" and "printable (hex_digit (of_char d mod 16))"
    by (simp_all add: hex_digit_printable)
  with c show ?thesis
    by (auto simp: escape_char_def split: if_splits) (auto simp: printable_def)
qed

lemma json_quote_printable: "c \<in> set (json_quote s) \<Longrightarrow> printable c"
  by (auto simp: json_quote_def dest: escape_char_printable)

lemma float_token_printable: "float_token t \<Longrightarrow> c \<in> set t \<Longrightarrow> printable c"
proof -
  assume "float_token t" and c: "c \<in> set t"
  then consider "t \<in> {''NaN'', ''Infinity'', ''-Infinity''}" | "number_char c"
    by (auto simp: float_token_def list_all_iff)
  then show ?thesis
  proof cases
    case 1
    with c show ?thesis by (auto simp: printable_def)
  next
    case 2
    then show ?thesis by (auto simp: number_char_def digit_printable) (auto simp: printable_def)
  qed
qed

lemma join_chars: "c \<in> set (join sep ss) \<Longrightarrow> c = sep \<or> (\<exists>s \<in> set ss. c \<in> set s)"
  by (induction sep ss rule: join.induct) auto

lemma json_dumps_printable: "json_wf v \<Longrightarrow> c \<in> set (json_dumps v) \<Longrightarrow> printable c"
proof (induction v)
  case (JBool b)
  then show ?case by (cases b) (auto simp: printable_def)
next
  case (JInt i)
  then show ?case by (auto dest!: str_int_chars simp: digit_printable) (simp add: printable_def)
next
  case (JFloat t)
  then show ?case by (simp add: float_token_printable)
next
  case (JList vs)
  then show ?case by (auto simp: list_all_iff dest!: join_chars)
next
  case (JObj kvs)
  then show ?case
    by (auto simp: list_all_iff snds.simps dest!: join_chars json_quote_printable) force
qed (auto simp: printable_def dest: json_quote_printable)

end
