(* ===== verification/PyTime.thy ===== *)
theory PyTime
  imports Prelude
begin

text \<open>
  Timestamps. An instant is the number of microseconds since 0001-01-01T00:00:00 UTC, the
  start of Python's \<open>datetime\<close> range; \<open>isoformat\<close> is the text that
  \<open>datetime.isoformat()\<close> writes for a UTC instant and that the database columns hold.
  The columns are compared and ordered as text, so what the program means by \<open><\<close> on
  them is the lexicographic order of these strings. The theory shows that this order is
  the chronological one over the whole range of \<open>datetime\<close>, although \<open>isoformat\<close>
  leaves the fraction out when the microseconds are zero.
\<close>

type_synonym instant = int

definition seconds :: "int \<Rightarrow> int" where
  "seconds s = s * 1000000"

section \<open>Calendar\<close>

definition leap :: "nat \<Rightarrow> bool" where
  "leap y \<longleftrightarrow> y mod 4 = 0 \<and> (y mod 100 \<noteq> 0 \<or> y mod 400 = 0)"

definition year_length :: "nat \<Rightarrow> nat" where
  "year_length y = (if leap y then 366 else 365)"

definition month_length :: "nat \<Rightarrow> nat \<Rightarrow> nat" where
  "month_length y m =
     (if m = 2 then (if leap y then 29 else 28)
      else if m = 4 \<or> m = 6 \<or> m = 9 \<or> m = 11 then 30 else 31)"

text \<open>The year of a day counted from the first of January of \<open>y\<close>, and the day in that year.\<close>

function split_year :: "nat \<Rightarrow> nat \<Rightarrow> nat \<times> nat" where
  "split_year y d =
     (if d < year_length y then (y, d) else split_year (Suc y) (d - year_length y))"
  by pat_completeness auto
termination
  by (relation "measure snd") (auto simp: year_length_def)

text \<open>The month of a day counted from the first of month \<open>m\<close>, and the day of that month.\<close>

function split_month :: "nat \<Rightarrow> nat \<Rightarrow> nat \<Rightarrow> nat \<times> nat" where
  "split_month y m d =
     (if m \<ge> 12 \<or> d < month_length y m then (m, Suc d)
      else split_month y (Suc m) (d - month_length y m))"
  by pat_completeness auto
termination
  by (relation "measure (\<lambda>(y, m, d). 12 - m)") auto

declare split_year.simps [simp del] split_month.simps [simp del]

section \<open>The text of an instant\<close>

fun pad :: "nat \<Rightarrow> nat \<Rightarrow> string" where
  "pad 0 n = []"
| "pad (Suc w) n = pad w (n div 10) @ [digit_char (n mod 10)]"

definition fraction :: "nat \<Rightarrow> string" where
  "fraction us = (if us = 0 then ''+00:00'' else CHR ''.'' # pad 6 us @ ''+00:00'')"

definition time_text :: "nat \<Rightarrow> string" where
  "time_text t =
     pad 2 (t div 3600000000) @ CHR '':'' # pad 2 (t div 60000000 mod 60) @ CHR '':'' #
     pad 2 (t div 1000000 mod 60) @ fraction (t mod 1000000)"

definition date_text :: "nat \<Rightarrow> string" where
  "date_text d =
     (let (y, r) = split_year 1 d; (m, day) = split_month y 1 r
      in pad 4 y @ CHR ''-'' # pad 2 m @ CHR ''-'' # pad 2 day)"

definition isoformat :: "instant \<Rightarrow> string" where
  "isoformat t = date_text (nat t div 86400000000) @ CHR ''T'' # time_text (nat t mod 86400000000)"

text \<open>The instants of \<open>datetime\<close>: from year 1 up to the end of year 9999.\<close>

definition instant_ok :: "instant \<Rightarrow> bool" where
  "instant_ok t \<longleftrightarrow> 0 \<le> t \<and> t < 3652059 * 86400000000"

text \<open>\<open>column < ?\<close> of two timestamp columns, as SQLite compares text.\<close>

definition sql_before :: "instant \<Rightarrow> instant \<Rightarrow> bool" where
  "sql_before s t \<longleftrightarrow> isoformat s < isoformat t"

section \<open>Lexicographic order of concatenations\<close>

lemma less_append_same_length:
  fixes s t :: string
  assumes "s < t" and "length s = length t"
  shows "s @ u < t @ v"
  using assms
proof (induction s arbitrary: t)
  case (Cons c s)
  then show ?case by (cases t) auto
qed simp

lemma less_append_same_prefix:
  fixes u v :: string
  shows "s @ u < s @ v \<longleftrightarrow> u < v"
  by (induction s) auto

lemma length_pad [simp]: "length (pad w n) = w"
  by (induction w arbitrary: n) auto

lemma digit_char_less: "m < n \<Longrightarrow> n < 10 \<Longrightarrow> digit_char m < digit_char n"
  by (simp add: less_char_def)

lemma pad_less: "m < n \<Longrightarrow> n < 10 ^ w \<Longrightarrow> pad w m < pad w n"
proof (induction w arbitrary: m n)
  case (Suc w)
  show ?case
  proof (cases "m div 10 < n div 10")
    case True
    moreover have "n div 10 < 10 ^ w" using Suc.prems(2) by (simp add: less_mult_imp_div_less mult.commute)
    ultimately have "pad w (m div 10) < pad w (n div 10)" by (rule Suc.IH)
    then show ?thesis by (simp add: less_append_same_length)
  next
    case False
    then have "m div 10 = n div 10" using Suc.prems(1) by (meson div_le_mono le_antisym less_imp_le not_less)
    moreover from this have "m mod 10 < n mod 10"
      using Suc.prems(1) by (metis div_mult_mod_eq nat_add_left_cancel_less)
    ultimately show ?thesis by (simp add: less_append_same_prefix digit_char_less)
  qed
qed simp

text \<open>A fixed-width field followed by anything: the field decides unless it is equal.\<close>

lemma pad_field_less:
  assumes "m < n \<or> m = n \<and> u < v" and "n < 10 ^ w"
  shows "pad w m @ u < pad w n @ v"
  using assms by (auto simp: less_append_same_prefix intro: less_append_same_length pad_less)

lemma div_mod_less:
  fixes a b :: nat
  assumes "a < b"
  shows "a div k < b div k \<or> a div k = b div k \<and> a mod k < b mod k"
  using assms by (metis div_le_mono div_mult_mod_eq le_neq_implies_less less_imp_le nat_add_left_cancel_less)

section \<open>Chronological order\<close>

lemma fraction_less: "m < n \<Longrightarrow> n < 1000000 \<Longrightarrow> fraction m < fraction n"
  by (auto simp: fraction_def pad_less intro!: less_append_same_length)

lemma mod_field_less:
  assumes "a < b \<or> a = b \<and> u < v" and "a div k = b div k" and "0 < k" and "k \<le> 10 ^ w"
  shows "pad w (a mod k) @ u < pad w (b mod k) @ v"
proof (rule pad_field_less)
  show "b mod k < 10 ^ w" using assms(3,4) by (meson mod_less_divisor order_less_le_trans)
  show "a mod k < b mod k \<or> a mod k = b mod k \<and> u < v"
    using assms(1,2) div_mod_less [of a b k] by auto
qed

lemma div_less_or_eq:
  fixes a b :: nat
  assumes "a < b \<or> a = b \<and> P" and "a div k = b div k \<Longrightarrow> Q"
  shows "a div k < b div k \<or> a div k = b div k \<and> Q"
  using assms div_le_mono [of a b k] by (auto simp: le_less)

lemma time_text_less:
  assumes "a < b" and "b < 86400000000"
  shows "time_text a < time_text b"
proof -
  let ?sa = "a div 1000000" and ?sb = "b div 1000000"
  have fields: "t div 3600000000 = t div 1000000 div 60 div 60" "t div 60000000 mod 60 = t div 1000000 div 60 mod 60"
    for t :: nat by (simp_all flip: div_mult2_eq)
  have hour: "?sb div 60 div 60 < 10 ^ 2" using assms(2) by (simp flip: div_mult2_eq)
  have "?sa < ?sb \<or> ?sa = ?sb \<and> fraction (a mod 1000000) < fraction (b mod 1000000)"
    using div_mod_less [OF assms(1), of 1000000] by (auto intro: fraction_less)
  note sec = this and low = mod_field_less [OF this, of 60 2]
  have "?sa div 60 < ?sb div 60 \<or> ?sa div 60 = ?sb div 60 \<and>
      CHR '':'' # pad 2 (?sa mod 60) @ fraction (a mod 1000000)
      < CHR '':'' # pad 2 (?sb mod 60) @ fraction (b mod 1000000)"
    by (rule div_less_or_eq [OF sec]) (use low in simp)
  note minutes = this and mid = mod_field_less [OF this, of 60 2]
  have "?sa div 60 div 60 < ?sb div 60 div 60 \<or> ?sa div 60 div 60 = ?sb div 60 div 60 \<and>
      CHR '':'' # pad 2 (?sa div 60 mod 60) @ CHR '':'' # pad 2 (?sa mod 60) @ fraction (a mod 1000000)
      < CHR '':'' # pad 2 (?sb div 60 mod 60) @ CHR '':'' # pad 2 (?sb mod 60) @ fraction (b mod 1000000)"
    by (rule div_less_or_eq [OF minutes]) (use mid in simp)
  from pad_field_less [OF this hour] show ?thesis
    unfolding time_text_def fields .
qed

lemma split_year_ge: "y \<le> fst (split_year y d)"
proof (induction y d rule: split_year.induct)
  case (1 y d)
  then show ?case by (auto simp: split_year.simps [of y d])
qed

lemma split_year_less:
  assumes "d < e"
  shows "fst (split_year y d) < fst (split_year y e) \<or>
    fst (split_year y d) = fst (split_year y e) \<and> snd (split_year y d) < snd (split_year y e)"
  using assms
proof (induction y d arbitrary: e rule: split_year.induct)
  case (1 y d)
  show ?case
  proof (cases "d < year_length y")
    case True
    show ?thesis
    proof (cases "e < year_length y")
      case False
      then have "y < fst (split_year y e)"
        using split_year_ge [of "Suc y" "e - year_length y"] by (simp add: split_year.simps [of y e])
      with True show ?thesis by (simp add: split_year.simps [of y d])
    qed (use True "1.prems" in \<open>simp add: split_year.simps [of y]\<close>)
  next
    case False
    with 1 show ?thesis by (simp add: split_year.simps [of y])
  qed
qed

lemma split_year_rest: "snd (split_year y d) < year_length (fst (split_year y d))"
proof (induction y d rule: split_year.induct)
  case (1 y d)
  then show ?case by (cases "d < year_length y") (simp_all add: split_year.simps [of y d])
qed

text \<open>Days before the first of January of year \<open>Suc m\<close>.\<close>

definition days_before :: "nat \<Rightarrow> nat" where
  "days_before m = 365 * m + m div 4 + m div 400 - m div 100"

lemma days_before_Suc: "days_before (Suc m) = days_before m + year_length (Suc m)"
proof -
  have "m div 100 \<le> m div 4" by (simp add: div_le_mono2)
  moreover have "Suc m mod 400 = 0 \<Longrightarrow> Suc m mod 100 = 0"
    by presburger
  moreover have "Suc m mod 100 = 0 \<Longrightarrow> Suc m mod 4 = 0"
    by presburger
  ultimately show ?thesis
    unfolding days_before_def year_length_def leap_def div_Suc [of m]
    by (auto simp: add_ac)
qed

lemma days_before_mono: "m \<le> n \<Longrightarrow> days_before m \<le> days_before n"
  by (induction rule: dec_induct) (simp_all add: days_before_Suc)

lemma split_year_days: "days_before (fst (split_year (Suc m) d) - 1) \<le> days_before m + d"
proof (induction "Suc m" d arbitrary: m rule: split_year.induct)
  case (1 d)
  then show ?case
    by (cases "d < year_length (Suc m)")
      (auto simp: split_year.simps [of "Suc m"] days_before_Suc not_less)
qed

lemma split_year_bound: "d < 3652059 \<Longrightarrow> fst (split_year 1 d) < 10000"
proof (rule ccontr)
  assume d: "d < 3652059" and "\<not> fst (split_year 1 d) < 10000"
  then have "days_before 9999 \<le> days_before (fst (split_year (Suc 0) d) - 1)"
    by (intro days_before_mono) simp
  also have "\<dots> \<le> days_before 0 + d" by (rule split_year_days)
  finally show False using d by (simp add: days_before_def)
qed

lemma split_month_ge: "m \<le> fst (split_month y m d)"
proof (induction y m d rule: split_month.induct)
  case (1 y m d)
  then show ?case by (auto simp: split_month.simps [of y m d])
qed

lemma split_month_le: "m \<le> 12 \<Longrightarrow> fst (split_month y m d) \<le> 12"
proof (induction y m d rule: split_month.induct)
  case (1 y m d)
  then show ?case by (auto simp: split_month.simps [of y m d])
qed

lemma split_month_less:
  assumes "d < e"
  shows "fst (split_month y m d) < fst (split_month y m e) \<or>
    fst (split_month y m d) = fst (split_month y m e) \<and> snd (split_month y m d) < snd (split_month y m e)"
  using assms
proof (induction y m d arbitrary: e rule: split_month.induct)
  case (1 y m d)
  show ?case
  proof (cases "12 \<le> m \<or> d < month_length y m")
    case True
    show ?thesis
    proof (cases "12 \<le> m \<or> e < month_length y m")
      case False
      then have "m < fst (split_month y m e)"
        using split_month_ge [of "Suc m" y "e - month_length y m"] by (simp add: split_month.simps [of y m e])
      with True show ?thesis by (simp add: split_month.simps [of y m d])
    qed (use True "1.prems" in \<open>simp add: split_month.simps [of y m]\<close>)
  next
    case False
    then have "d - month_length y m < e - month_length y m"
      using "1.prems" by (simp add: not_less diff_less_mono)
    from "1.IH" [OF False this] show ?thesis
      using False "1.prems" by (auto simp: split_month.simps [of y m])
  qed
qed

text \<open>Days left in the year from the first of month \<open>m\<close> on.\<close>

fun days_left :: "nat \<Rightarrow> nat \<Rightarrow> nat" where
  "days_left y 0 = 0"
| "days_left y (Suc n) = month_length y (12 - n) + days_left y n"

lemma month_length_le: "month_length y m \<le> 31"
  by (simp add: month_length_def)

lemma split_month_day:
  "d < days_left y n \<Longrightarrow> n \<le> 12 \<Longrightarrow> snd (split_month y (13 - n) d) \<le> 31"
proof (induction n arbitrary: d)
  case (Suc n)
  let ?m = "12 - n"
  show ?case
  proof (cases "12 \<le> ?m \<or> d < month_length y ?m")
    case True
    then have "d < month_length y ?m"
      using Suc.prems by (cases "n = 0") auto
    with True show ?thesis
      using month_length_le [of y ?m] by (simp add: split_month.simps [of y ?m])
  next
    case False
    then have "d - month_length y ?m < days_left y n" using Suc.prems by auto
    then have "snd (split_month y (13 - n) (d - month_length y ?m)) \<le> 31"
      using Suc by simp
    moreover have "Suc ?m = 13 - n" using Suc.prems by simp
    ultimately show ?thesis
      using False by (simp add: split_month.simps [of y ?m])
  qed
qed simp

lemma days_left_year: "days_left y 12 = year_length y"
  by (simp add: numeral_eq_Suc days_left.simps month_length_def year_length_def)

lemma date_text_less:
  assumes "d < e" and "e < 3652059"
  shows "date_text d < date_text e"
proof -
  obtain y r y' r' where yr: "split_year 1 d = (y, r)" "split_year 1 e = (y', r')"
    by fastforce
  obtain m k m' k' where mk: "split_month y 1 r = (m, k)" "split_month y' 1 r' = (m', k')"
    by fastforce
  have "r' < days_left y' 12" using split_year_rest [of 1 e] yr by (simp add: days_left_year)
  then have "k' \<le> 31" using split_month_day [of r' y' 12] mk by simp
  moreover have "m' \<le> 12" using split_month_le [of 1 y' r'] mk by simp
  moreover have "y' < 10000" using split_year_bound [OF assms(2)] yr by simp
  moreover have "y < y' \<or> y = y' \<and> r < r'" using split_year_less [OF assms(1), of 1] yr by simp
  moreover have "m < m' \<or> m = m' \<and> k < k'" if "y = y'" "r < r'"
    using split_month_less [OF that(2), of y 1] mk that(1) by simp
  ultimately show ?thesis
    unfolding date_text_def yr mk Let_def prod.case
    by (intro pad_field_less) (auto intro!: pad_field_less pad_less)
qed

lemma length_date_text: "length (date_text d) = 10"
  by (simp add: date_text_def Let_def split: prod.split)

lemma isoformat_less:
  assumes "s < t" and "instant_ok s" and "instant_ok t"
  shows "isoformat s < isoformat t"
proof -
  let ?k = "86400000000 :: nat"
  have "nat s < nat t" and day: "nat t div ?k < 3652059"
    using assms by (auto simp: instant_ok_def nat_less_iff less_mult_imp_div_less)
  then have "nat s div ?k < nat t div ?k \<or> nat s div ?k = nat t div ?k \<and> nat s mod ?k < nat t mod ?k"
    by (intro div_mod_less)
  then show ?thesis
    using date_text_less [OF _ day] time_text_less [of "nat s mod ?k" "nat t mod ?k"]
    unfolding isoformat_def
    by (auto simp: less_append_same_prefix length_date_text intro: less_append_same_length)
qed

lemma sql_before_iff:
  assumes "instant_ok s" and "instant_ok t"
  shows "sql_before s t \<longleftrightarrow> s < t"
  unfolding sql_before_def using isoformat_less assms
  by (metis linorder_neqE not_less_iff_gr_or_eq)

lemma isoformat_inj:
  assumes "instant_ok s" and "instant_ok t" and "isoformat s = isoformat t"
  shows "s = t"
  using isoformat_less assms by (metis linorder_neqE less_irrefl)

section \<open>The characters of a timestamp\<close>

lemma digit_char_mod_code: "48 \<le> (of_char (digit_char (n mod 10)) :: nat)"
  by simp

lemma pad_chars: "c \<in> set (pad w n) \<Longrightarrow> 48 \<le> (of_char c :: nat)"
  by (induction w arbitrary: n) (auto simp: digit_char_mod_code)

lemma isoformat_chars: "c \<in> set (isoformat t) \<Longrightarrow> 32 \<le> (of_char c :: nat)"
  unfolding isoformat_def date_text_def time_text_def fraction_def Let_def
  by (auto split: prod.splits if_splits dest!: pad_chars)

end
