(* ===== verification/Models.thy ===== *)
theory Models
  imports PyJson PyTime
begin

text \<open>
  The data model of the broker, \<open>models.py\<close>: its enumerations, its strict models as
  records, the field constraints that pydantic enforces on them (\<open>*_ok\<close>), and the JSON
  form (\<open>model_dump(mode="json")\<close>) that the digests and audit payloads encode.
\<close>

section \<open>Enumerations\<close>

datatype risk_class = READ | LOCAL | REVERSIBLE | DISRUPTIVE | DESTRUCTIVE | SAFETY_SENSITIVE

fun risk_value :: "risk_class \<Rightarrow> string" where
  "risk_value READ = ''read''"
| "risk_value LOCAL = ''local''"
| "risk_value REVERSIBLE = ''reversible''"
| "risk_value DISRUPTIVE = ''disruptive''"
| "risk_value DESTRUCTIVE = ''destructive''"
| "risk_value SAFETY_SENSITIVE = ''safety_sensitive''"

datatype job_state =
    RECEIVED | VALIDATED | AUTHORIZED | AWAITING_CONFIRMATION | QUEUED | RUNNING | VERIFYING
  | SUCCEEDED | DENIED | REJECTED | EXPIRED | CANCELLED | FAILED | UNKNOWN_OUTCOME

fun job_state_value :: "job_state \<Rightarrow> string" where
  "job_state_value RECEIVED = ''received''"
| "job_state_value VALIDATED = ''validated''"
| "job_state_value AUTHORIZED = ''authorized''"
| "job_state_value AWAITING_CONFIRMATION = ''awaiting_confirmation''"
| "job_state_value QUEUED = ''queued''"
| "job_state_value RUNNING = ''running''"
| "job_state_value VERIFYING = ''verifying''"
| "job_state_value SUCCEEDED = ''succeeded''"
| "job_state_value DENIED = ''denied''"
| "job_state_value REJECTED = ''rejected''"
| "job_state_value EXPIRED = ''expired''"
| "job_state_value CANCELLED = ''cancelled''"
| "job_state_value FAILED = ''failed''"
| "job_state_value UNKNOWN_OUTCOME = ''unknown_outcome''"

definition all_job_states :: "job_state list" where
  "all_job_states = [RECEIVED, VALIDATED, AUTHORIZED, AWAITING_CONFIRMATION, QUEUED, RUNNING,
     VERIFYING, SUCCEEDED, DENIED, REJECTED, EXPIRED, CANCELLED, FAILED, UNKNOWN_OUTCOME]"

datatype retry_disposition = RETRY_NEVER | RETRY_SAFE | RECONCILE_FIRST

fun retry_value :: "retry_disposition \<Rightarrow> string" where
  "retry_value RETRY_NEVER = ''never''"
| "retry_value RETRY_SAFE = ''safe''"
| "retry_value RECONCILE_FIRST = ''reconcile_first''"

definition TERMINAL_JOB_STATES :: "job_state list" where
  "TERMINAL_JOB_STATES = [SUCCEEDED, DENIED, REJECTED, EXPIRED, CANCELLED, FAILED]"

abbreviation terminal :: "job_state \<Rightarrow> bool" where
  "terminal s \<equiv> s \<in> set TERMINAL_JOB_STATES"

datatype confirmation_mode =
    MODE_NONE | MODE_CONFIRM | MODE_HOLD | MODE_TYPED | MODE_DUAL_CONTROL | MODE_POLICY

fun mode_value :: "confirmation_mode \<Rightarrow> string" where
  "mode_value MODE_NONE = ''none''"
| "mode_value MODE_CONFIRM = ''confirm''"
| "mode_value MODE_HOLD = ''hold''"
| "mode_value MODE_TYPED = ''typed''"
| "mode_value MODE_DUAL_CONTROL = ''dual_control''"
| "mode_value MODE_POLICY = ''policy''"

section \<open>Patterns of the string fields\<close>

fun split_on :: "char \<Rightarrow> string \<Rightarrow> string list" where
  "split_on sep [] = [[]]"
| "split_on sep (c # s) =
     (if c = sep then [] # split_on sep s
      else (case split_on sep s of [] \<Rightarrow> [[c]] | p # ps \<Rightarrow> (c # p) # ps))"

definition lower_alpha :: "char \<Rightarrow> bool" where
  "lower_alpha c \<longleftrightarrow> 97 \<le> (of_char c :: nat) \<and> (of_char c :: nat) \<le> 122"

definition lower_alnum :: "char \<Rightarrow> bool" where
  "lower_alnum c \<longleftrightarrow> lower_alpha c \<or> is_digit c"

text \<open>\<open>[a-z][a-z0-9_]*\<close>\<close>

definition ident_ok :: "string \<Rightarrow> bool" where
  "ident_ok s = (case s of [] \<Rightarrow> False
     | c # r \<Rightarrow> lower_alpha c \<and> list_all (\<lambda>d. lower_alnum d \<or> d = CHR ''_'') r)"

text \<open>\<open>ident(.ident)+\<close>, the shape of an action ID\<close>

definition action_id_ok :: "string \<Rightarrow> bool" where
  "action_id_ok s = (let ps = split_on (CHR ''.'') s in 2 \<le> length ps \<and> list_all ident_ok ps)"

text \<open>\<open>dh-[a-z][a-z0-9]*(?:-[a-z0-9]+)*\<close>, the shape of a plugin ID\<close>

definition plugin_id_ok :: "string \<Rightarrow> bool" where
  "plugin_id_ok s = (case split_on (CHR ''-'') s of
       dh # p # ps \<Rightarrow> dh = ''dh'' \<and>
         (case p of [] \<Rightarrow> False | c # r \<Rightarrow> lower_alpha c \<and> list_all lower_alnum r) \<and>
         list_all (\<lambda>q. q \<noteq> [] \<and> list_all lower_alnum q) ps
     | _ \<Rightarrow> False)"

text \<open>A plugin ID followed by one or more dotted identifiers: the shape of an adapter ID\<close>

definition adapter_id_ok :: "string \<Rightarrow> bool" where
  "adapter_id_ok s = (case split_on (CHR ''.'') s of
       p # q # qs \<Rightarrow> plugin_id_ok p \<and> list_all ident_ok (q # qs)
     | _ \<Rightarrow> False)"

definition len_between :: "nat \<Rightarrow> nat \<Rightarrow> string \<Rightarrow> bool" where
  "len_between lo hi s \<longleftrightarrow> lo \<le> length s \<and> length s \<le> hi"

definition opt_ok :: "('a \<Rightarrow> bool) \<Rightarrow> 'a option \<Rightarrow> bool" where
  "opt_ok p x = (case x of None \<Rightarrow> True | Some y \<Rightarrow> p y)"

section \<open>Requests\<close>

record target =
  tg_type :: string
  tg_id :: string

definition target_ok :: "target \<Rightarrow> bool" where
  "target_ok t \<longleftrightarrow> len_between 1 64 (tg_type t) \<and> ident_ok (tg_type t) \<and> len_between 1 256 (tg_id t)"

definition target_json :: "target \<Rightarrow> json" where
  "target_json t = JObj [(''type'', JStr (tg_type t)), (''id'', JStr (tg_id t))]"

record request_context =
  cx_profile :: "string option"
  cx_frontmost_app :: "string option"
  cx_client :: string
  cx_control :: "string option"

definition context_ok :: "request_context \<Rightarrow> bool" where
  "context_ok c \<longleftrightarrow> opt_ok (len_between 0 128) (cx_profile c) \<and>
     opt_ok (len_between 0 256) (cx_frontmost_app c) \<and> len_between 1 128 (cx_client c) \<and>
     opt_ok (len_between 0 128) (cx_control c)"

definition context_json :: "request_context \<Rightarrow> json" where
  "context_json c = JObj [(''profile'', opt_json JStr (cx_profile c)),
     (''frontmost_app'', opt_json JStr (cx_frontmost_app c)), (''client'', JStr (cx_client c)),
     (''control'', opt_json JStr (cx_control c))]"

text \<open>The idempotency key is a \<open>UUID\<close>; the model holds its canonical text.\<close>

record action_request =
  rq_action_id :: string
  rq_action_version :: int
  rq_target :: target
  rq_parameters :: json_object
  rq_context :: request_context
  rq_idempotency_key :: string
  rq_dry_run :: bool
  rq_confirmation_token :: "string option"
  rq_confirmation_response :: "string option"

definition request_ok :: "action_request \<Rightarrow> bool" where
  "request_ok r \<longleftrightarrow> action_id_ok (rq_action_id r) \<and> 1 \<le> rq_action_version r \<and>
     target_ok (rq_target r) \<and> json_wf (JObj (rq_parameters r)) \<and> context_ok (rq_context r) \<and>
     opt_ok (len_between 32 256) (rq_confirmation_token r) \<and>
     opt_ok (len_between 0 256) (rq_confirmation_response r)"

section \<open>Actions, subjects and decisions\<close>

record action_definition =
  ad_id :: string
  ad_version :: int
  ad_title :: string
  ad_description :: string
  ad_risk_class :: risk_class
  ad_plugin :: string
  ad_adapter :: string
  ad_target_types :: "string list"
  ad_parameter_schema :: json_object
  ad_policy_action :: string
  ad_confirmation :: confirmation_mode
  ad_timeout_seconds :: int
  ad_idempotency :: string
  ad_mutation :: bool

definition mutation_matches_risk :: "action_definition \<Rightarrow> bool" where
  "mutation_matches_risk a \<longleftrightarrow> \<not> (ad_risk_class a = READ \<and> ad_mutation a)"

definition action_ok :: "action_definition \<Rightarrow> bool" where
  "action_ok a \<longleftrightarrow> action_id_ok (ad_id a) \<and> 1 \<le> ad_version a \<and> len_between 1 128 (ad_title a) \<and>
     len_between 1 1024 (ad_description a) \<and> plugin_id_ok (ad_plugin a) \<and> adapter_id_ok (ad_adapter a) \<and>
     ad_target_types a \<noteq> [] \<and> 0 < ad_timeout_seconds a \<and> ad_timeout_seconds a \<le> 3600 \<and>
     mutation_matches_risk a"

definition action_json :: "action_definition \<Rightarrow> json" where
  "action_json a = JObj [(''id'', JStr (ad_id a)), (''version'', JInt (ad_version a)),
     (''title'', JStr (ad_title a)), (''description'', JStr (ad_description a)),
     (''risk_class'', JStr (risk_value (ad_risk_class a))), (''plugin'', JStr (ad_plugin a)),
     (''adapter'', JStr (ad_adapter a)), (''target_types'', JList (map JStr (ad_target_types a))),
     (''parameter_schema'', JObj (ad_parameter_schema a)), (''policy_action'', JStr (ad_policy_action a)),
     (''confirmation'', JStr (mode_value (ad_confirmation a))),
     (''timeout_seconds'', JInt (ad_timeout_seconds a)), (''idempotency'', JStr (ad_idempotency a)),
     (''mutation'', JBool (ad_mutation a))]"

record subject =
  sj_name :: string
  sj_device :: string
  sj_channel :: string

definition subject_json :: "subject \<Rightarrow> json" where
  "subject_json s = JObj [(''name'', JStr (sj_name s)), (''device'', JStr (sj_device s)),
     (''channel'', JStr (sj_channel s))]"

record policy_decision =
  pd_allow :: bool
  pd_reason :: string
  pd_required_confirmation :: confirmation_mode
  pd_decision_id :: "string option"

record confirmation_challenge =
  cc_id :: string
  cc_token :: string
  cc_mode :: confirmation_mode
  cc_expires_at :: instant
  cc_prompt :: string

record plan_view =
  pv_request_digest :: string
  pv_confirmation_digest :: string
  pv_action_id :: string
  pv_action_version :: int
  pv_target :: target
  pv_mutation :: bool
  pv_executable :: bool
  pv_steps :: "string list"
  pv_required_confirmation :: confirmation_mode
  pv_confirmation :: "confirmation_challenge option"
  pv_denial_reason :: "string option"

section \<open>Jobs and status values\<close>

record job_error =
  je_code :: string
  je_message :: string
  je_retry :: retry_disposition
  je_reconciliation_required :: bool
  je_details :: json_object

definition job_error_ok :: "job_error \<Rightarrow> bool" where
  "job_error_ok e \<longleftrightarrow> len_between 1 64 (je_code e) \<and> ident_ok (je_code e) \<and>
     len_between 1 1024 (je_message e)"

definition job_error_json :: "job_error \<Rightarrow> json" where
  "job_error_json e = JObj [(''code'', JStr (je_code e)), (''message'', JStr (je_message e)),
     (''retry'', JStr (retry_value (je_retry e))),
     (''reconciliation_required'', JBool (je_reconciliation_required e)),
     (''details'', JObj (je_details e))]"

record job_view =
  jv_id :: string
  jv_state :: job_state
  jv_action_id :: string
  jv_target :: target
  jv_created_at :: instant
  jv_updated_at :: instant
  jv_result :: "json_object option"
  jv_error :: "job_error option"

record status_value =
  sv_state :: string
  sv_observed_at :: instant
  sv_stale_after_seconds :: int
  sv_details :: json_object

section \<open>Errors\<close>

datatype adapter_error_kind =
    K_CONFIGURATION | K_AUTHENTICATION | K_AUTHORIZATION | K_NOT_FOUND | K_CONFLICT
  | K_RATE_LIMITED | K_UNAVAILABLE | K_TIMEOUT | K_PROTOCOL | K_UNEXPECTED

fun kind_value :: "adapter_error_kind \<Rightarrow> string" where
  "kind_value K_CONFIGURATION = ''configuration''"
| "kind_value K_AUTHENTICATION = ''authentication''"
| "kind_value K_AUTHORIZATION = ''authorization''"
| "kind_value K_NOT_FOUND = ''not_found''"
| "kind_value K_CONFLICT = ''conflict''"
| "kind_value K_RATE_LIMITED = ''rate_limited''"
| "kind_value K_UNAVAILABLE = ''unavailable''"
| "kind_value K_TIMEOUT = ''timeout''"
| "kind_value K_PROTOCOL = ''protocol''"
| "kind_value K_UNEXPECTED = ''unexpected''"

text \<open>\<open>AdapterError\<close>; the class tells the subclasses that handlers catch by name.\<close>

datatype adapter_error_class = PlainAdapterError | UnknownOutcomeError | WasmErrorClass | HostTransportErrorClass

record adapter_error =
  ae_class :: adapter_error_class
  ae_message :: string
  ae_kind :: adapter_error_kind
  ae_retry :: retry_disposition
  ae_reconciliation_required :: bool
  ae_details :: json_object

text \<open>The exceptions that cross a component boundary. \<open>StaleLease\<close> is a subclass of
  \<open>StoreError\<close>; the detail of an \<open>HTTPException\<close> is text or a small object.\<close>

datatype exn =
    StoreError string
  | StaleLease string
  | InvalidTransition job_state job_state
  | CatalogError string
  | AdapterExn adapter_error
  | CancellationError string
  | PolicyUnavailable string
  | IdentityError string
  | PluginError string
  | HostProtocolError string
  | LocalActionError string
  | ObsError string
  | HTTPException int json
  | ValidationError string
  | PyTypeError string
  | PyKeyError string
  | PyValueError string
  | PyOSError string
  | IncompleteRead
  | OtherException string

end
