(* ===== verification/Digests.thy ===== *)
theory Digests
  imports Models
begin

text \<open>
  \<open>digests.py\<close>: the replay digest over the whole request and the confirmation digest
  over its authority-bearing part. The hash functions are parameters of the model
  (\<open>crypto\<close>): a theorem that needs the absence of a collision says for which texts.
\<close>

record crypto =
  sha256_hex :: "string \<Rightarrow> string"
  hmac_sha256_hex :: "string \<Rightarrow> string \<Rightarrow> string"

text \<open>What \<open>hexdigest()\<close> documents of its result: lower-case hexadecimal digits.\<close>

definition hex_char :: "char \<Rightarrow> bool" where
  "hex_char c \<longleftrightarrow> is_digit c \<or> (97 \<le> (of_char c :: nat) \<and> (of_char c :: nat) \<le> 102)"

definition hex_output :: "crypto \<Rightarrow> bool" where
  "hex_output cr \<longleftrightarrow> (\<forall>s. list_all hex_char (sha256_hex cr s)) \<and>
     (\<forall>k s. list_all hex_char (hmac_sha256_hex cr k s))"

text \<open>\<open>hmac.compare_digest\<close> on strings: equality, but a \<open>TypeError\<close> when one of them is not
  ASCII.\<close>

definition ascii :: "string \<Rightarrow> bool" where
  "ascii s \<longleftrightarrow> list_all (\<lambda>c. (of_char c :: nat) < 128) s"

definition compare_digest :: "string \<Rightarrow> string \<Rightarrow> exn + bool" where
  "compare_digest a b =
     (if ascii a \<and> ascii b then Inr (a = b)
      else Inl (PyTypeError ''comparing strings with non-ASCII characters is not supported''))"

definition request_payload :: "action_request \<Rightarrow> json" where
  "request_payload r = JObj [(''action_id'', JStr (rq_action_id r)),
     (''action_version'', JInt (rq_action_version r)), (''target'', target_json (rq_target r)),
     (''parameters'', JObj (rq_parameters r)), (''context'', context_json (rq_context r)),
     (''idempotency_key'', JStr (rq_idempotency_key r)), (''dry_run'', JBool (rq_dry_run r))]"

definition request_digest :: "crypto \<Rightarrow> action_request \<Rightarrow> string" where
  "request_digest cr r = sha256_hex cr (json_dumps (request_payload r))"

definition confirmation_payload :: "action_request \<Rightarrow> json" where
  "confirmation_payload r = JObj [(''action_id'', JStr (rq_action_id r)),
     (''action_version'', JInt (rq_action_version r)), (''target'', target_json (rq_target r)),
     (''parameters'', JObj (rq_parameters r))]"

definition confirmation_digest :: "crypto \<Rightarrow> action_request \<Rightarrow> string" where
  "confirmation_digest cr r = sha256_hex cr (json_dumps (confirmation_payload r))"

lemma hex_char_ascii: "list_all hex_char s \<Longrightarrow> ascii s"
  by (auto simp: ascii_def hex_char_def is_digit_def list_all_iff)

lemma compare_digest_True [simp]: "compare_digest a b = Inr True \<longleftrightarrow> ascii a \<and> a = b"
  by (auto simp: compare_digest_def)

section \<open>What the digests bind\<close>

text \<open>What a confirmation authorises: the parameters count up to the order of object keys.\<close>

definition authority :: "action_request \<Rightarrow> string \<times> int \<times> target \<times> json" where
  "authority r = (rq_action_id r, rq_action_version r, rq_target r, json_norm (JObj (rq_parameters r)))"

text \<open>What a replayed submission must repeat.\<close>

definition replay_identity :: "action_request \<Rightarrow>
    (string \<times> int \<times> target \<times> json) \<times> request_context \<times> string \<times> bool" where
  "replay_identity r = (authority r, rq_context r, rq_idempotency_key r, rq_dry_run r)"

lemma opt_json_JStr_wf [simp]: "json_wf (opt_json JStr x)" "json_norm (opt_json JStr x) = opt_json JStr x"
  by (cases x; simp add: opt_json_def)+

lemma opt_json_JStr_inj [simp]: "opt_json JStr x = opt_json JStr y \<longleftrightarrow> x = y"
  by (cases x; cases y) (simp_all add: opt_json_def)

lemma confirmation_payload_wf: "json_wf (JObj (rq_parameters r)) \<Longrightarrow> json_wf (confirmation_payload r)"
  by (simp add: confirmation_payload_def target_json_def)

lemma request_payload_wf: "json_wf (JObj (rq_parameters r)) \<Longrightarrow> json_wf (request_payload r)"
  by (simp add: request_payload_def target_json_def context_json_def)

lemma confirmation_payload_norm:
  "json_norm (confirmation_payload r) = json_norm (confirmation_payload r') \<longleftrightarrow> authority r = authority r'"
  by (auto simp: confirmation_payload_def target_json_def authority_def)

lemma request_payload_norm:
  "json_norm (request_payload r) = json_norm (request_payload r') \<longleftrightarrow>
     replay_identity r = replay_identity r'"
  by (auto simp: request_payload_def target_json_def context_json_def authority_def replay_identity_def)

lemma json_dumps_norm: "json_norm v = json_norm w \<Longrightarrow> json_dumps v = json_dumps w"
  by (simp only: json_dumps_render)

lemma payload_digest_iff:
  assumes "json_wf v" and "json_wf w" and "inj_on h {json_dumps v, json_dumps w}"
  shows "h (json_dumps v) = h (json_dumps w) \<longleftrightarrow> json_norm v = json_norm w"
proof
  assume "h (json_dumps v) = h (json_dumps w)"
  then have "json_dumps v = json_dumps w" by (rule inj_onD [OF assms(3)]) simp_all
  then show "json_norm v = json_norm w" by (rule json_dumps_inj [OF assms(1,2)])
next
  assume "json_norm v = json_norm w"
  then have "json_dumps v = json_dumps w" by (rule json_dumps_norm)
  then show "h (json_dumps v) = h (json_dumps w)" by (rule arg_cong)
qed

text \<open>(C23) A confirmation is bound to exactly the action, its version, the target and the
  parameters: two requests have the same confirmation digest if and only if these agree
  (parameters up to the order of object keys), whatever their transport fields (dry run,
  idempotency key, context, token, response) are; SHA-256 is only assumed not to collide
  on the two encoded payloads.\<close>

theorem confirmation_digest_binds:
  assumes "json_wf (JObj (rq_parameters r))" and "json_wf (JObj (rq_parameters r'))"
    and "inj_on (sha256_hex cr)
      {json_dumps (confirmation_payload r), json_dumps (confirmation_payload r')}"
  shows "confirmation_digest cr r = confirmation_digest cr r' \<longleftrightarrow> authority r = authority r'"
  unfolding confirmation_digest_def
  using payload_digest_iff assms confirmation_payload_wf confirmation_payload_norm by metis

text \<open>Concrete hash functions for examples: the hexadecimal text of the message behind a
  fixed first digit, which never collides.\<close>

definition hex_text :: "string \<Rightarrow> string" where
  "hex_text s = CHR ''a'' # concat (map (\<lambda>c. [hex_digit (of_char c div 16), hex_digit (of_char c mod 16)]) s)"

definition demo_crypto :: crypto where
  "demo_crypto = \<lparr>sha256_hex = hex_text, hmac_sha256_hex = (\<lambda>k s. hex_text s)\<rparr>"

lemma hex_digit_inj: "d < 16 \<Longrightarrow> e < 16 \<Longrightarrow> hex_digit d = hex_digit e \<Longrightarrow> d = e"
  using unhex_hex_digit by metis

lemma hex_text_inj: "inj hex_text"
proof (rule injI)
  fix s t :: string
  assume "hex_text s = hex_text t"
  then show "s = t" unfolding hex_text_def
  proof (induction s arbitrary: t)
    case Nil
    then show ?case by (cases t) auto
  next
    case (Cons c s)
    then obtain d t' where t: "t = d # t'" by (cases t) auto
    have "(of_char x :: nat) div 16 < 16" for x
      using nat_of_char_less_256 [of x] by (simp add: less_mult_imp_div_less)
    then have "(of_char c :: nat) div 16 = of_char d div 16" "(of_char c :: nat) mod 16 = of_char d mod 16"
      using Cons.prems by (auto simp: t intro: hex_digit_inj)
    then have "(of_char c :: nat) = of_char d" by (metis div_mult_mod_eq)
    then show ?case using Cons t by simp
  qed
qed

lemma hex_digit_hex_char: "d < 16 \<Longrightarrow> hex_char (hex_digit d)"
  by (auto simp: hex_char_def hex_digit_def is_digit_def)

lemma demo_hex_output: "hex_output demo_crypto"
proof -
  have "hex_char c" if "c \<in> set (hex_text s)" for c s
  proof -
    have "(of_char x :: nat) div 16 < 16" for x
      using nat_of_char_less_256 [of x] by (simp add: less_mult_imp_div_less)
    then show ?thesis using that
      by (auto simp: hex_text_def intro: hex_digit_hex_char) (simp add: hex_char_def)
  qed
  then show ?thesis by (simp add: hex_output_def demo_crypto_def list_all_iff)
qed

lemma demo_crypto_inj [simp]: "inj_on (sha256_hex demo_crypto) A" "inj_on (hmac_sha256_hex demo_crypto k) A"
  using hex_text_inj by (auto simp: demo_crypto_def intro: inj_on_subset)

definition demo_request :: action_request where
  "demo_request = \<lparr>rq_action_id = ''pve.vm.start'', rq_action_version = 1,
     rq_target = \<lparr>tg_type = ''vm'', tg_id = ''100''\<rparr>,
     rq_parameters = [(''force'', JBool True), (''delay'', JInt 5)],
     rq_context = \<lparr>cx_profile = None, cx_frontmost_app = None, cx_client = ''deck'', cx_control = Some ''k1''\<rparr>,
     rq_idempotency_key = ''u1'', rq_dry_run = True, rq_confirmation_token = None,
     rq_confirmation_response = None\<rparr>"

lemma demo_request_wf: "json_wf (JObj (rq_parameters demo_request))"
  by (simp add: demo_request_def)

theorem confirmation_digest_binds_witness:
  "confirmation_digest demo_crypto demo_request =
     confirmation_digest demo_crypto (demo_request\<lparr>rq_dry_run := False, rq_idempotency_key := ''u2'',
       rq_parameters := [(''delay'', JInt 5), (''force'', JBool True)]\<rparr>) \<and>
   confirmation_digest demo_crypto demo_request \<noteq>
     confirmation_digest demo_crypto (demo_request\<lparr>rq_target := \<lparr>tg_type = ''vm'', tg_id = ''101''\<rparr>\<rparr>)"
proof -
  let ?same = "demo_request\<lparr>rq_dry_run := False, rq_idempotency_key := ''u2'',
       rq_parameters := [(''delay'', JInt 5), (''force'', JBool True)]\<rparr>"
  let ?other = "demo_request\<lparr>rq_target := \<lparr>tg_type = ''vm'', tg_id = ''101''\<rparr>\<rparr>"
  have "authority demo_request = authority ?same" "authority demo_request \<noteq> authority ?other"
    by (simp_all add: demo_request_def authority_def)
  then show ?thesis
    using confirmation_digest_binds [OF demo_request_wf _ demo_crypto_inj(1), of ?same]
      confirmation_digest_binds [OF demo_request_wf _ demo_crypto_inj(1), of ?other] demo_request_wf
    by (simp add: demo_request_def)
qed

text \<open>The idempotency digest separates any two submissions that differ in a field of
  their replay identity (action, version, target, parameters, context, idempotency key,
  dry run), and ignores the proof-of-approval fields.\<close>

theorem request_digest_binds:
  assumes "json_wf (JObj (rq_parameters r))" and "json_wf (JObj (rq_parameters r'))"
    and "inj_on (sha256_hex cr) {json_dumps (request_payload r), json_dumps (request_payload r')}"
  shows "request_digest cr r = request_digest cr r' \<longleftrightarrow> replay_identity r = replay_identity r'"
  unfolding request_digest_def
  using payload_digest_iff assms request_payload_wf request_payload_norm by metis

theorem request_digest_binds_witness:
  "request_digest demo_crypto demo_request =
     request_digest demo_crypto (demo_request\<lparr>rq_confirmation_token := Some ''t''\<rparr>) \<and>
   request_digest demo_crypto demo_request \<noteq>
     request_digest demo_crypto (demo_request\<lparr>rq_dry_run := False\<rparr>)"
proof -
  let ?same = "demo_request\<lparr>rq_confirmation_token := Some ''t''\<rparr>"
  let ?other = "demo_request\<lparr>rq_dry_run := False\<rparr>"
  have "replay_identity demo_request = replay_identity ?same"
    "replay_identity demo_request \<noteq> replay_identity ?other"
    by (simp_all add: demo_request_def replay_identity_def authority_def)
  then show ?thesis
    using request_digest_binds [OF demo_request_wf _ demo_crypto_inj(1), of ?same]
      request_digest_binds [OF demo_request_wf _ demo_crypto_inj(1), of ?other] demo_request_wf
    by (simp add: demo_request_def)
qed

end
