(* ===== verification/Catalog.thy ===== *)
theory Catalog
  imports Models
begin

text \<open>
  \<open>catalog.py\<close>: the dictionary of actions by ID and version and the validation of a
  request against it. The JSON Schema validator is third-party code: the catalog
  operations take it as the parameter \<open>iter_errors\<close>, which maps a schema and an instance
  to the errors with their paths.
\<close>

text \<open>An element of \<open>error.path\<close>, with an order so that \<open>sorted\<close> applies to paths. Two
  errors of one instance never compare a key with an index: where their paths first
  differ they point into the same object or the same array.\<close>

datatype path_elem = PIdx nat | PKey string

instantiation path_elem :: linorder
begin

fun less_eq_path_elem :: "path_elem \<Rightarrow> path_elem \<Rightarrow> bool" where
  "less_eq_path_elem (PIdx i) (PIdx j) = (i \<le> j)"
| "less_eq_path_elem (PIdx i) (PKey k) = True"
| "less_eq_path_elem (PKey k) (PIdx i) = False"
| "less_eq_path_elem (PKey k) (PKey l) = (k \<le> l)"

definition less_path_elem :: "path_elem \<Rightarrow> path_elem \<Rightarrow> bool" where
  "less_path_elem x y \<longleftrightarrow> x \<le> y \<and> \<not> y \<le> x"

instance
proof
  fix x y z :: path_elem
  show "x < y \<longleftrightarrow> x \<le> y \<and> \<not> y \<le> x" by (rule less_path_elem_def)
  show "x \<le> x" by (cases x) auto
  show "x \<le> y \<Longrightarrow> y \<le> z \<Longrightarrow> x \<le> z" by (cases x; cases y; cases z) auto
  show "x \<le> y \<Longrightarrow> y \<le> x \<Longrightarrow> x = y" by (cases x; cases y) auto
  show "x \<le> y \<or> y \<le> x" by (cases x; cases y) auto
qed

end

type_synonym schema_validator = "json_object \<Rightarrow> json_object \<Rightarrow> (path_elem list \<times> string) list"

type_synonym catalog = "((string \<times> int) \<times> action_definition) list"

abbreviation action_key :: "action_definition \<Rightarrow> string \<times> int" where
  "action_key a \<equiv> (ad_id a, ad_version a)"

definition catalog_dict :: "action_definition list \<Rightarrow> catalog" where
  "catalog_dict actions = foldl (\<lambda>d a. dict_set (action_key a) a d) [] actions"

definition catalog_init :: "action_definition list \<Rightarrow> exn + catalog" where
  "catalog_init actions =
     (let d = catalog_dict actions
      in if length d \<noteq> length actions then Inl (CatalogError ''duplicate action ID/version'') else Inr d)"

text \<open>\<open>from_path\<close>: the extra actions, then one action per JSON file in name order. Reading a
  file and validating it as an \<open>ActionDefinition\<close> is the parameter \<open>read_action\<close>.\<close>

fun read_actions :: "('f \<Rightarrow> exn + action_definition) \<Rightarrow> 'f list \<Rightarrow> exn + action_definition list" where
  "read_actions read_action [] = Inr []"
| "read_actions read_action (f # fs) =
     bind_sum (read_action f) (\<lambda>a. bind_sum (read_actions read_action fs) (\<lambda>as. Inr (a # as)))"

definition catalog_from_path ::
  "(string \<Rightarrow> exn + action_definition) \<Rightarrow> string list option \<Rightarrow> action_definition list \<Rightarrow> exn + catalog" where
  "catalog_from_path read_action files additional =
     (case files of
        None \<Rightarrow> catalog_init additional
      | Some names \<Rightarrow> bind_sum (read_actions read_action (sort names)) (\<lambda>as. catalog_init (additional @ as)))"

definition list_actions :: "catalog \<Rightarrow> action_definition list" where
  "list_actions c = sort_key action_key (map snd c)"

definition catalog_get :: "catalog \<Rightarrow> string \<Rightarrow> int \<Rightarrow> exn + action_definition" where
  "catalog_get c aid v =
     (case map_of c (aid, v) of
        Some a \<Rightarrow> Inr a
      | None \<Rightarrow> Inl (CatalogError (''unknown action '' @ aid @ ''@'' @ str_int v)))"

text \<open>\<open>max(xs, key=...)\<close>: the first of the greatest elements.\<close>

fun max_by :: "('a \<Rightarrow> 'b::linorder) \<Rightarrow> 'a \<Rightarrow> 'a list \<Rightarrow> 'a" where
  "max_by f m [] = m"
| "max_by f m (x # xs) = max_by f (if f m < f x then x else m) xs"

definition catalog_latest :: "catalog \<Rightarrow> string \<Rightarrow> exn + action_definition" where
  "catalog_latest c aid =
     (case [a. ((i, _), a) \<leftarrow> c, i = aid] of
        [] \<Rightarrow> Inl (CatalogError (''unknown action '' @ aid))
      | a # as \<Rightarrow> Inr (max_by ad_version a as))"

definition validate_request :: "schema_validator \<Rightarrow> catalog \<Rightarrow> action_request \<Rightarrow> exn + action_definition" where
  "validate_request iter_errors c r =
     bind_sum (catalog_get c (rq_action_id r) (rq_action_version r)) (\<lambda>action.
       if tg_type (rq_target r) \<notin> set (ad_target_types action)
       then Inl (CatalogError (''target type '' @ py_repr_ident (tg_type (rq_target r)) @ '' is not allowed''))
       else
         let errors = sort_key fst (iter_errors (ad_parameter_schema action) (rq_parameters r))
         in if errors \<noteq> []
            then Inl (CatalogError (''invalid parameters: '' @ join_with ''; '' (map snd errors)))
            else Inr action)"

definition catalog_serializable :: "catalog \<Rightarrow> json list" where
  "catalog_serializable c = map action_json (list_actions c)"

section \<open>Building a catalog\<close>

lemma catalog_dict_snoc: "catalog_dict (as @ [a]) = dict_set (action_key a) a (catalog_dict as)"
  by (simp add: catalog_dict_def)

lemma catalog_dict_keys: "fst ` set (catalog_dict as) = action_key ` set as"
  by (induction as rule: rev_induct) (simp_all add: catalog_dict_snoc keys_dict_set, simp add: catalog_dict_def)

lemma catalog_dict_length: "length (catalog_dict as) \<le> length as"
  by (induction as rule: rev_induct) (auto simp: catalog_dict_snoc length_dict_set, simp add: catalog_dict_def)

lemma catalog_dict_distinct:
  "distinct (map action_key as) \<Longrightarrow> catalog_dict as = map (\<lambda>a. (action_key a, a)) as"
proof (induction as rule: rev_induct)
  case Nil
  then show ?case by (simp add: catalog_dict_def)
next
  case (snoc a as)
  have "action_key a \<notin> fst ` set (catalog_dict as)"
    using snoc.prems by (auto simp: catalog_dict_keys)
  then have "catalog_dict (as @ [a]) = catalog_dict as @ [(action_key a, a)]"
    unfolding catalog_dict_snoc by (rule dict_set_new)
  with snoc show ?case by simp
qed

lemma catalog_dict_full: "length (catalog_dict as) = length as \<Longrightarrow> distinct (map action_key as)"
proof (induction as rule: rev_induct)
  case (snoc a as)
  then have "action_key a \<notin> fst ` set (catalog_dict as)" and "length (catalog_dict as) = length as"
    using catalog_dict_length [of as] by (auto simp: catalog_dict_snoc length_dict_set split: if_splits)
  with snoc.IH show ?case by (auto simp: catalog_dict_keys)
qed simp

lemma catalog_init_Inr:
  "catalog_init as = Inr c \<longleftrightarrow> distinct (map action_key as) \<and> c = map (\<lambda>a. (action_key a, a)) as"
  using catalog_dict_full catalog_dict_distinct by (auto simp: catalog_init_def Let_def)

lemma catalog_init_get:
  assumes "catalog_init as = Inr c"
  shows "catalog_get c i v = Inr a \<longleftrightarrow> a \<in> set as \<and> ad_id a = i \<and> ad_version a = v"
proof -
  have d: "distinct (map action_key as)" and c: "c = map (\<lambda>a. (action_key a, a)) as"
    using assms by (simp_all add: catalog_init_Inr)
  have "distinct (map fst c)" using d by (simp add: c comp_def)
  then have "map_of c (i, v) = Some a \<longleftrightarrow> ((i, v), a) \<in> set c" by (metis map_of_eq_Some_iff)
  then show ?thesis by (auto simp: catalog_get_def c split: option.splits)
qed

lemma max_by_in: "max_by f m xs \<in> insert m (set xs)"
proof (induction xs arbitrary: m)
  case (Cons x xs)
  then show ?case using Cons.IH [of "if f m < f x then x else m"] by (auto split: if_splits)
qed simp

lemma max_by_ge: "x \<in> insert m (set xs) \<Longrightarrow> f x \<le> f (max_by f m xs)"
proof (induction xs arbitrary: m x)
  case (Cons y xs)
  have "f m \<le> f (max_by f (if f m < f y then y else m) xs)"
    and "f y \<le> f (max_by f (if f m < f y then y else m) xs)"
    using Cons.IH [of "if f m < f y then y else m" "if f m < f y then y else m"] by (auto split: if_splits)
  with Cons show ?case by auto
qed simp

section \<open>Properties\<close>

text \<open>A catalog is built exactly when no two actions share ID and version, and then
  \<open>latest\<close> returns, among the given actions of that ID, one whose version is the highest,
  and fails exactly when there is none.\<close>

theorem catalog_latest_correct:
  assumes "catalog_init as = Inr c"
  shows "(\<forall>a. catalog_latest c i = Inr a \<longrightarrow> a \<in> set as \<and> ad_id a = i \<and>
            (\<forall>b \<in> set as. ad_id b = i \<longrightarrow> ad_version b \<le> ad_version a)) \<and>
         ((\<exists>e. catalog_latest c i = Inl e) \<longleftrightarrow> (\<forall>b \<in> set as. ad_id b \<noteq> i))"
proof -
  have c: "c = map (\<lambda>a. (action_key a, a)) as"
    using assms by (simp add: catalog_init_Inr)
  have vs: "[a. ((j, _), a) \<leftarrow> c, j = i] = filter (\<lambda>a. ad_id a = i) as" (is "?vs = _")
    unfolding c by (induction as) auto
  show ?thesis
  proof (cases "filter (\<lambda>a. ad_id a = i) as")
    case Nil
    then have "catalog_latest c i = Inl (CatalogError (''unknown action '' @ i))"
      by (simp add: catalog_latest_def vs)
    moreover have "\<forall>b \<in> set as. ad_id b \<noteq> i" using Nil by (simp add: filter_empty_conv)
    ultimately show ?thesis by auto
  next
    case (Cons b bs)
    then have eq: "catalog_latest c i = Inr (max_by ad_version b bs)"
      by (simp add: catalog_latest_def vs)
    have members: "insert b (set bs) = {a \<in> set as. ad_id a = i}"
      using Cons by (metis list.simps(15) set_filter)
    then show ?thesis
      using max_by_in [of ad_version b bs] max_by_ge [of _ b bs ad_version] eq by (auto simp: members)
  qed
qed

definition demo_action :: action_definition where
  "demo_action = \<lparr>ad_id = ''pve.vm.start'', ad_version = 1, ad_title = ''Start VM'',
     ad_description = ''Start one guest'', ad_risk_class = DISRUPTIVE, ad_plugin = ''dh-core'',
     ad_adapter = ''dh-core.fake'', ad_target_types = [''vm''], ad_parameter_schema = [],
     ad_policy_action = ''pve.start'', ad_confirmation = MODE_CONFIRM, ad_timeout_seconds = 10,
     ad_idempotency = ''ensure'', ad_mutation = True\<rparr>"

definition demo_actions :: "action_definition list" where
  "demo_actions = [demo_action\<lparr>ad_version := 2\<rparr>, demo_action]"

theorem catalog_latest_correct_witness:
  "\<exists>c. catalog_init demo_actions = Inr c \<and>
     catalog_latest c ''pve.vm.start'' = Inr (demo_action\<lparr>ad_version := 2\<rparr>) \<and>
     ad_version demo_action \<le> 2 \<and> (\<exists>e. catalog_latest c ''x.y'' = Inl e)"
proof -
  let ?c = "map (\<lambda>a. (action_key a, a)) demo_actions"
  have c: "catalog_init demo_actions = Inr ?c"
    by (simp add: catalog_init_Inr demo_actions_def demo_action_def)
  have latest: "catalog_latest ?c ''pve.vm.start'' = Inr (demo_action\<lparr>ad_version := 2\<rparr>)"
    by (simp add: catalog_latest_def demo_actions_def demo_action_def)
  have mem: "demo_action \<in> set demo_actions" and "ad_id demo_action = ''pve.vm.start''"
    by (simp_all add: demo_actions_def demo_action_def)
  then have "ad_version demo_action \<le> ad_version (demo_action\<lparr>ad_version := 2\<rparr>)"
    using catalog_latest_correct [OF c, of "''pve.vm.start''"] latest by blast
  moreover have "\<forall>b \<in> set demo_actions. ad_id b \<noteq> ''x.y''"
    by (simp add: demo_actions_def demo_action_def)
  then have "\<exists>e. catalog_latest ?c ''x.y'' = Inl e"
    using catalog_latest_correct [OF c, of "''x.y''"] by blast
  ultimately show ?thesis using c latest by (intro exI [of _ ?c] conjI) simp_all
qed

text \<open>A request passes \<open>validate_request\<close> exactly when the catalog holds its action and
  version, its target type is one the action lists and the schema validator reports no error
  on its parameters; the action returned is that catalog entry. Everything else is a
  \<open>CatalogError\<close>.\<close>

theorem validate_request_correct:
  "(validate_request iter_errors c r = Inr a \<longleftrightarrow>
      map_of c (rq_action_id r, rq_action_version r) = Some a \<and>
      tg_type (rq_target r) \<in> set (ad_target_types a) \<and>
      iter_errors (ad_parameter_schema a) (rq_parameters r) = []) \<and>
   (\<forall>e. validate_request iter_errors c r = Inl e \<longrightarrow> (\<exists>m. e = CatalogError m))"
proof -
  have "sort_key fst xs = [] \<longleftrightarrow> xs = []" for xs :: "(path_elem list \<times> string) list"
    by (metis set_empty set_sort)
  then show ?thesis
    by (auto simp: validate_request_def catalog_get_def Let_def split: option.splits if_splits)
qed

theorem validate_request_correct_witness:
  "(\<exists>c r. validate_request (\<lambda>_ _. []) c r = Inr demo_action) \<and>
   (\<exists>c r m. validate_request (\<lambda>_ _. []) c r = Inl (CatalogError m))"
proof -
  let ?r = "\<lparr>rq_action_id = ''pve.vm.start'', rq_action_version = 1,
     rq_target = \<lparr>tg_type = ''vm'', tg_id = ''100''\<rparr>, rq_parameters = [],
     rq_context = \<lparr>cx_profile = None, cx_frontmost_app = None, cx_client = ''deck'', cx_control = None\<rparr>,
     rq_idempotency_key = ''u1'', rq_dry_run = False, rq_confirmation_token = None,
     rq_confirmation_response = None\<rparr>"
  have "validate_request (\<lambda>_ _. []) [(action_key demo_action, demo_action)] ?r = Inr demo_action"
    using validate_request_correct [of "\<lambda>_ _. []" "[(action_key demo_action, demo_action)]" ?r demo_action]
    by (simp add: demo_action_def)
  moreover have "validate_request (\<lambda>_ _. []) [] ?r \<noteq> Inr a" for a
    using validate_request_correct [of "\<lambda>_ _. []" "[]" ?r a] by simp
  then obtain e where "validate_request (\<lambda>_ _. []) [] ?r = Inl e" by (metis sum.exhaust)
  moreover from this have "\<exists>m. e = CatalogError m"
    using validate_request_correct [of "\<lambda>_ _. []" "[]" ?r] by blast
  ultimately show ?thesis by blast
qed

end
