(* ===== verification/Inventory.thy ===== *)
theory Inventory
  imports Models
begin

text \<open>
  The inventory of protected targets, \<open>inventory.py\<close>: reading a parsed YAML or JSON document into
  protected types and protected \<open>(type, id)\<close> pairs, and the test on a target. Reading and parsing
  the file is a parameter: the document, the fact that it is missing, or that it does not parse.
\<close>

record protected_inventory =
  pi_pairs :: "(string \<times> string) list"
  pi_types :: "string list"

definition no_inventory :: protected_inventory where
  "no_inventory = \<lparr>pi_pairs = [], pi_types = []\<rparr>"

definition is_protected :: "protected_inventory \<Rightarrow> target \<Rightarrow> bool" where
  "is_protected pinv t = (tg_type t \<in> set (pi_types pinv) \<or> (tg_type t, tg_id t) \<in> set (pi_pairs pinv))"

text \<open>\<open>str(v)\<close> of a parsed value; strings inside containers are written with plain quotes.\<close>

fun py_repr :: "json \<Rightarrow> string" where
  "py_repr JNull = ''None''"
| "py_repr (JBool b) = (if b then ''True'' else ''False'')"
| "py_repr (JInt i) = str_int i"
| "py_repr (JFloat s) = s"
| "py_repr (JStr s) = py_repr_ident s"
| "py_repr (JList vs) = ''['' @ join_with '', '' (map py_repr vs) @ '']''"
| "py_repr (JObj kvs) = ''{'' @ join_with '', '' (map (\<lambda>(k, v). py_repr_ident k @ '': '' @ py_repr v) kvs) @ ''}''"

definition py_str :: "json \<Rightarrow> string" where
  "py_str v = (case v of JStr s \<Rightarrow> s | _ \<Rightarrow> py_repr v)"

definition needs_type_and_id :: exn where
  "needs_type_and_id =
     OtherException (''each protected target needs a '' @ py_repr_ident ''type'' @ '' and '' @ py_repr_ident ''id'')"

fun coerce_targets :: "json list \<Rightarrow> exn + (string \<times> string) list" where
  "coerce_targets [] = Inr []"
| "coerce_targets (entry # entries) =
     (case entry of
        JObj d \<Rightarrow> (case (obj_get d ''type'', obj_get d ''id'') of
            (Some ty, Some i) \<Rightarrow> bind_sum (coerce_targets entries) (\<lambda>ps. Inr ((py_str ty, py_str i) # ps))
          | _ \<Rightarrow> Inl needs_type_and_id)
      | _ \<Rightarrow> Inl needs_type_and_id)"

fun as_strings :: "json list \<Rightarrow> string list option" where
  "as_strings [] = Some []"
| "as_strings (v # vs) = (case (v, as_strings vs) of (JStr s, Some ss) \<Rightarrow> Some (s # ss) | _ \<Rightarrow> None)"

definition coerce_entries :: "json \<Rightarrow> exn + protected_inventory" where
  "coerce_entries raw =
     (case raw of
        JNull \<Rightarrow> Inr no_inventory
      | JObj d \<Rightarrow>
          (case (case obj_get d ''protected'' of None \<Rightarrow> JObj [] | Some p \<Rightarrow> p) of
             JObj p \<Rightarrow>
               (case (case obj_get p ''types'' of None \<Rightarrow> JList [] | Some v \<Rightarrow> v) of
                  JList tys \<Rightarrow> (case as_strings tys of
                      None \<Rightarrow> Inl (OtherException (py_repr_ident ''protected.types'' @ '' must be a list of strings''))
                    | Some types \<Rightarrow>
                        (case (case obj_get p ''targets'' of None \<Rightarrow> JList [] | Some v \<Rightarrow> v) of
                           JList tgs \<Rightarrow> bind_sum (coerce_targets tgs) (\<lambda>pairs.
                             Inr \<lparr>pi_pairs = pairs, pi_types = types\<rparr>)
                         | _ \<Rightarrow> Inl (OtherException (py_repr_ident ''protected.targets'' @ '' must be a list''))))
                | _ \<Rightarrow> Inl (OtherException (py_repr_ident ''protected.types'' @ '' must be a list of strings'')))
           | _ \<Rightarrow> Inl (OtherException (py_repr_ident ''protected'' @ '' must be a mapping of types and targets'')))
      | _ \<Rightarrow> Inl (OtherException ''protected inventory root must be a mapping''))"

datatype document = Unavailable string | Malformed | Document json

definition load_protected_inventory :: "document option \<Rightarrow> exn + protected_inventory" where
  "load_protected_inventory path =
     (case path of
        None \<Rightarrow> Inr no_inventory
      | Some (Unavailable e) \<Rightarrow> Inl (OtherException (''protected inventory unavailable: '' @ e))
      | Some Malformed \<Rightarrow> Inl (OtherException ''protected inventory is not valid YAML/JSON'')
      | Some (Document raw) \<Rightarrow> coerce_entries raw)"

section \<open>Properties\<close>

text \<open>The members of a list of strings, read back.\<close>

lemma as_strings_Some: "as_strings vs = Some ss \<Longrightarrow> vs = map JStr ss"
  by (induction vs arbitrary: ss) (auto split: json.splits option.splits)

lemma coerce_targets_pair:
  assumes "coerce_targets es = Inr ps" and "JObj d \<in> set es"
    and "obj_get d ''type'' = Some (JStr ty)" and "obj_get d ''id'' = Some (JStr i)"
  shows "(ty, i) \<in> set ps"
  using assms by (induction es arbitrary: ps) (auto split: json.splits option.splits simp: py_str_def)

text \<open>Nothing that the inventory lists escapes it: once a document is accepted, every target whose
  type is listed under \<open>protected.types\<close> and every target listed by type and ID under
  \<open>protected.targets\<close> is protected.\<close>

theorem listed_targets_protected:
  assumes "load_protected_inventory (Some (Document (JObj d))) = Inr pinv"
    and "obj_get d ''protected'' = Some (JObj p)"
  shows "(\<forall>vs ty i. obj_get p ''types'' = Some (JList vs) \<and> JStr ty \<in> set vs \<longrightarrow>
      is_protected pinv \<lparr>tg_type = ty, tg_id = i\<rparr>) \<and>
    (\<forall>vs e ty i. obj_get p ''targets'' = Some (JList vs) \<and> JObj e \<in> set vs \<and>
      obj_get e ''type'' = Some (JStr ty) \<and> obj_get e ''id'' = Some (JStr i) \<longrightarrow>
      is_protected pinv \<lparr>tg_type = ty, tg_id = i\<rparr>)"
  using assms
  by (auto simp: load_protected_inventory_def coerce_entries_def is_protected_def
      split: option.splits json.splits dest: coerce_targets_pair dest!: as_strings_Some)

theorem listed_targets_protected_witness:
  "\<exists>pinv. load_protected_inventory (Some (Document (JObj [(''protected'', JObj [(''types'', JList [JStr ''physical_estop'']),
       (''targets'', JList [JObj [(''type'', JStr ''pve_vm''), (''id'', JStr ''100'')]])])]))) = Inr pinv \<and>
     is_protected pinv \<lparr>tg_type = ''physical_estop'', tg_id = ''7''\<rparr> \<and>
     is_protected pinv \<lparr>tg_type = ''pve_vm'', tg_id = ''100''\<rparr>"
proof -
  let ?p = "[(''types'', JList [JStr ''physical_estop'']),
       (''targets'', JList [JObj [(''type'', JStr ''pve_vm''), (''id'', JStr ''100'')]])]"
  obtain pinv where "load_protected_inventory (Some (Document (JObj [(''protected'', JObj ?p)]))) = Inr pinv"
    by (simp add: load_protected_inventory_def coerce_entries_def)
  with listed_targets_protected [OF this, of ?p] show ?thesis by auto
qed

end
