(* ===== verification/Policy.thy ===== *)
theory Policy
  imports Digests Catalog Inventory
begin

text \<open>
  Policy decisions: the input document that \<open>api.py\<close> builds, the two engines of \<open>policy.py\<close> and the
  Rego policy \<open>deckhand.rego\<close> that the Open Policy Agent evaluates for the first of them. The agent
  itself is a parameter: what its reply to a query is. The locale \<open>policy_gate\<close> states what the
  execute endpoint relies on; it is interpreted on the development engine and on the agent
  serving the Rego policy.
\<close>

section \<open>The policy input\<close>

record policy_env =
  pe_crypto :: crypto
  pe_allow_mutations :: bool
  pe_environment :: string
  pe_inventory :: protected_inventory

definition policy_input ::
  "policy_env \<Rightarrow> bool \<Rightarrow> action_definition \<Rightarrow> action_request \<Rightarrow> subject \<Rightarrow> string \<Rightarrow> bool \<Rightarrow> json_object" where
  "policy_input pe audit_writable action request subject phase confirmation_valid =
     [(''action'', action_json action),
      (''subject'', subject_json subject),
      (''target'', JObj [(''type'', JStr (tg_type (rq_target request))), (''id'', JStr (tg_id (rq_target request))),
         (''protected'', JBool (is_protected (pe_inventory pe) (rq_target request)))]),
      (''parameters'', JObj (rq_parameters request)),
      (''runtime'', JObj [(''mutations_enabled'', JBool (pe_allow_mutations pe)),
         (''audit_writable'', JBool audit_writable), (''environment'', JStr (pe_environment pe))]),
      (''context'', JObj [(''profile'', opt_json JStr (cx_profile (rq_context request))),
         (''control'', opt_json JStr (cx_control (rq_context request)))]),
      (''request'', JObj [(''digest'', JStr (request_digest (pe_crypto pe) request)), (''phase'', JStr phase)]),
      (''confirmation'', JObj [(''valid'', JBool confirmation_valid),
         (''request_digest'', if confirmation_valid then JStr (request_digest (pe_crypto pe) request) else JNull)])]"

section \<open>Reading JSON values\<close>

text \<open>Python's \<open>d[key]\<close> on a parsed value, and the truth of one.\<close>

definition item :: "json \<Rightarrow> string \<Rightarrow> exn + json" where
  "item v key = (case v of
     JObj d \<Rightarrow> (case obj_get d key of None \<Rightarrow> Inl (PyKeyError key) | Some x \<Rightarrow> Inr x)
   | _ \<Rightarrow> Inl (PyTypeError ''not subscriptable by a string''))"

definition truthy :: "json \<Rightarrow> bool" where
  "truthy v = (case v of JNull \<Rightarrow> False | JBool b \<Rightarrow> b | JInt i \<Rightarrow> i \<noteq> 0 | JFloat s \<Rightarrow> s \<noteq> ''0.0'' \<and> s \<noteq> ''-0.0''
     | JStr s \<Rightarrow> s \<noteq> [] | JList vs \<Rightarrow> vs \<noteq> [] | JObj d \<Rightarrow> d \<noteq> [])"

definition mode_of_value :: "string \<Rightarrow> confirmation_mode option" where
  "mode_of_value s = find (\<lambda>m. mode_value m = s)
     [MODE_NONE, MODE_CONFIRM, MODE_HOLD, MODE_TYPED, MODE_DUAL_CONTROL, MODE_POLICY]"

lemma mode_of_value [simp]: "mode_of_value (mode_value m) = Some m"
  by (cases m) (simp_all add: mode_of_value_def)

lemma mode_value_none [simp]: "mode_value m = ''none'' \<longleftrightarrow> m = MODE_NONE" "''none'' = mode_value m \<longleftrightarrow> m = MODE_NONE"
  by (cases m; simp)+

section \<open>The development engine\<close>

definition ConfirmationMode :: "json \<Rightarrow> exn + confirmation_mode" where
  "ConfirmationMode v = (case v of
     JStr s \<Rightarrow> (case mode_of_value s of Some m \<Rightarrow> Inr m | None \<Rightarrow> Inl (OtherException ''not a valid ConfirmationMode''))
   | _ \<Rightarrow> Inl (OtherException ''not a valid ConfirmationMode''))"

definition development_decide :: "json_object \<Rightarrow> exn + policy_decision" where
  "development_decide inp =
     bind_sum (item (JObj inp) ''action'') (\<lambda>action.
     bind_sum (item action ''mutation'') (\<lambda>mutation.
     bind_sum (if truthy mutation
               then bind_sum (item (JObj inp) ''runtime'') (\<lambda>rt. bind_sum (item rt ''mutations_enabled'') (\<lambda>b. Inr (\<not> truthy b)))
               else Inr False) (\<lambda>disabled.
     if disabled
     then Inr \<lparr>pd_allow = False, pd_reason = ''mutations are disabled'', pd_required_confirmation = MODE_NONE, pd_decision_id = None\<rparr>
     else
     bind_sum (if truthy mutation then bind_sum (item action ''confirmation'') ConfirmationMode else Inr MODE_NONE) (\<lambda>required.
     bind_sum (bind_sum (item (JObj inp) ''request'') (\<lambda>r. item r ''phase'')) (\<lambda>phase.
     bind_sum (bind_sum (item (JObj inp) ''confirmation'') (\<lambda>c. item c ''valid'')) (\<lambda>confirmed.
     if phase = JStr ''execute'' \<and> required \<noteq> MODE_NONE \<and> \<not> truthy confirmed
     then Inr \<lparr>pd_allow = False, pd_reason = ''valid confirmation required'', pd_required_confirmation = required, pd_decision_id = None\<rparr>
     else Inr \<lparr>pd_allow = True, pd_reason = [], pd_required_confirmation = required, pd_decision_id = None\<rparr>))))))"

section \<open>The OPA client\<close>

text \<open>\<open>PolicyDecision.model_validate\<close> of a dictionary. A Boolean field also accepts 0, 1 and the usual
  words, as the validation library does outside its strict mode.\<close>

definition lower :: "string \<Rightarrow> string" where
  "lower = map (\<lambda>c. if 65 \<le> (of_char c :: nat) \<and> (of_char c :: nat) \<le> 90 then char_of ((of_char c :: nat) + 32) else c)"

definition lax_bool :: "json \<Rightarrow> bool option" where
  "lax_bool v = (case v of
     JBool b \<Rightarrow> Some b
   | JInt i \<Rightarrow> if i = 1 then Some True else if i = 0 then Some False else None
   | JFloat s \<Rightarrow> if s = ''1.0'' then Some True else if s = ''0.0'' \<or> s = ''-0.0'' then Some False else None
   | JStr s \<Rightarrow> if lower s \<in> set [''1'', ''on'', ''t'', ''true'', ''y'', ''yes''] then Some True
       else if lower s \<in> set [''0'', ''off'', ''f'', ''false'', ''n'', ''no''] then Some False else None
   | _ \<Rightarrow> None)"

definition decision_validate :: "json_object \<Rightarrow> exn + policy_decision" where
  "decision_validate d =
     (let bad = Inl (ValidationError ''PolicyDecision'') in
      if \<not> list_all (\<lambda>(k, _). k \<in> set [''allow'', ''reason'', ''required_confirmation'', ''decision_id'']) d then bad
      else case (case obj_get d ''allow'' of None \<Rightarrow> None | Some v \<Rightarrow> lax_bool v) of None \<Rightarrow> bad | Some allow \<Rightarrow>
      case (case obj_get d ''reason'' of None \<Rightarrow> Some [] | Some (JStr s) \<Rightarrow> Some s | Some _ \<Rightarrow> None) of None \<Rightarrow> bad | Some reason \<Rightarrow>
      case (case obj_get d ''required_confirmation'' of None \<Rightarrow> Some MODE_NONE
            | Some (JStr s) \<Rightarrow> mode_of_value s | Some _ \<Rightarrow> None) of None \<Rightarrow> bad | Some required \<Rightarrow>
      case (case obj_get d ''decision_id'' of None \<Rightarrow> Some None | Some JNull \<Rightarrow> Some None | Some (JStr s) \<Rightarrow> Some (Some s)
            | Some _ \<Rightarrow> None) of None \<Rightarrow> bad | Some did \<Rightarrow>
      Inr \<lparr>pd_allow = allow, pd_reason = reason, pd_required_confirmation = required, pd_decision_id = did\<rparr>)"

text \<open>What the HTTP exchange with the agent can end in.\<close>

datatype opa_reply = TransportError | ErrorStatus | NotJson | Payload json

definition opa_decide :: "(json \<Rightarrow> opa_reply) \<Rightarrow> json_object \<Rightarrow> exn + policy_decision" where
  "opa_decide post inp =
     (case post (JObj [(''input'', JObj inp)]) of
        TransportError \<Rightarrow> Inl (PolicyUnavailable ''policy decision unavailable'')
      | ErrorStatus \<Rightarrow> Inl (PolicyUnavailable ''policy decision unavailable'')
      | NotJson \<Rightarrow> Inl (PolicyUnavailable ''policy decision unavailable'')
      | Payload (JObj payload) \<Rightarrow>
          (case obj_get payload ''result'' of
             Some (JObj result) \<Rightarrow>
               decision_validate (dict_set ''decision_id''
                 (case obj_get payload ''decision_id'' of None \<Rightarrow> JNull | Some v \<Rightarrow> v) result)
           | _ \<Rightarrow> Inl (PolicyUnavailable ''policy returned no structured decision''))
      | Payload _ \<Rightarrow> Inl (OtherException ''payload has no attribute get''))"

definition opa_ready :: "int option \<Rightarrow> bool" where
  "opa_ready status_code = (status_code = Some 200)"

section \<open>The Rego policy\<close>

text \<open>A reference into the input is undefined when a step is missing, and a rule body with an
  undefined reference does not hold.\<close>

fun path :: "json \<Rightarrow> string list \<Rightarrow> json option" where
  "path v [] = Some v"
| "path v (k # ks) = (case v of JObj d \<Rightarrow> (case obj_get d k of None \<Rightarrow> None | Some w \<Rightarrow> path w ks) | _ \<Rightarrow> None)"

record policy_data =
  dt_operators :: "string list"
  dt_managed_devices :: "string list"
  dt_allowed_targets :: "(string \<times> string list) list"

definition member_of :: "json option \<Rightarrow> string list \<Rightarrow> bool" where
  "member_of v xs = (case v of Some (JStr s) \<Rightarrow> s \<in> set xs | _ \<Rightarrow> False)"

definition rego_channels :: "string list" where
  "rego_channels = [''tailscale'', ''mgmt-mtls'', ''mcp'']"

definition rego_confirmation_satisfied :: "json \<Rightarrow> bool" where
  "rego_confirmation_satisfied i =
     (case path i [''action'', ''confirmation''] of
        None \<Rightarrow> False
      | Some c \<Rightarrow> c = JStr ''none'' \<or>
          (c \<noteq> JStr ''none'' \<and> path i [''confirmation'', ''valid''] = Some (JBool True) \<and>
           path i [''confirmation'', ''request_digest''] \<noteq> None \<and>
           path i [''confirmation'', ''request_digest''] = path i [''request'', ''digest'']))"

text \<open>The conditions that both mutation rules share.\<close>

definition rego_mutation_base :: "policy_data \<Rightarrow> json \<Rightarrow> bool" where
  "rego_mutation_base dt i \<longleftrightarrow>
     path i [''action'', ''mutation''] = Some (JBool True) \<and>
     path i [''runtime'', ''mutations_enabled''] = Some (JBool True) \<and>
     path i [''runtime'', ''audit_writable''] = Some (JBool True) \<and>
     member_of (path i [''subject'', ''name'']) (dt_operators dt) \<and>
     member_of (path i [''subject'', ''device'']) (dt_managed_devices dt) \<and>
     member_of (path i [''subject'', ''channel'']) rego_channels \<and>
     (case path i [''action'', ''id''] of
        Some (JStr a) \<Rightarrow> (case map_of (dt_allowed_targets dt) a of
            Some ids \<Rightarrow> member_of (path i [''target'', ''id'']) ids | None \<Rightarrow> False)
      | _ \<Rightarrow> False) \<and>
     path i [''target'', ''protected''] \<in> {None, Some (JBool False)}"

definition rego_allow :: "policy_data \<Rightarrow> json \<Rightarrow> bool" where
  "rego_allow dt i \<longleftrightarrow>
     (path i [''action'', ''risk_class''] = Some (JStr ''read'') \<and>
      path i [''subject'', ''name''] \<noteq> None \<and> path i [''subject'', ''name''] \<noteq> Some (JStr []) \<and>
      path i [''subject'', ''device''] \<noteq> None \<and> path i [''subject'', ''device''] \<noteq> Some (JStr []) \<and>
      member_of (path i [''subject'', ''channel'']) rego_channels) \<or>
     (rego_mutation_base dt i \<and> path i [''request'', ''phase''] = Some (JStr ''plan'')) \<or>
     (rego_mutation_base dt i \<and> path i [''request'', ''phase''] = Some (JStr ''execute'') \<and> rego_confirmation_satisfied i)"

definition rego_decision :: "policy_data \<Rightarrow> json \<Rightarrow> json_object" where
  "rego_decision dt i =
     [(''allow'', JBool (rego_allow dt i)),
      (''reason'', JStr (if rego_allow dt i then ''allowed'' else ''request denied by policy'')),
      (''required_confirmation'',
         if path i [''action'', ''mutation''] = Some (JBool True)
         then (case path i [''action'', ''confirmation''] of Some c \<Rightarrow> c | None \<Rightarrow> JStr ''none'')
         else JStr ''none'')]"

text \<open>The agent serving this policy: it evaluates the decision on the posted input.\<close>

definition rego_service :: "policy_data \<Rightarrow> json \<Rightarrow> opa_reply" where
  "rego_service dt query =
     (case path query [''input''] of
        Some i \<Rightarrow> Payload (JObj [(''result'', JObj (rego_decision dt i))])
      | None \<Rightarrow> Payload (JObj []))"

section \<open>What the engines decide on the broker's input\<close>

lemma development_on_input:
  "development_decide (policy_input pe w action request subj phase valid) =
     (if ad_mutation action \<and> \<not> pe_allow_mutations pe
      then Inr \<lparr>pd_allow = False, pd_reason = ''mutations are disabled'', pd_required_confirmation = MODE_NONE, pd_decision_id = None\<rparr>
      else let required = (if ad_mutation action then ad_confirmation action else MODE_NONE)
      in if phase = ''execute'' \<and> required \<noteq> MODE_NONE \<and> \<not> valid
         then Inr \<lparr>pd_allow = False, pd_reason = ''valid confirmation required'', pd_required_confirmation = required, pd_decision_id = None\<rparr>
         else Inr \<lparr>pd_allow = True, pd_reason = [], pd_required_confirmation = required, pd_decision_id = None\<rparr>)"
  by (cases "ad_mutation action"; cases "pe_allow_mutations pe"; cases valid)
    (auto simp: development_decide_def policy_input_def item_def action_json_def truthy_def ConfirmationMode_def Let_def
      simp del: bind_sum_eq_Inr bind_sum_eq_Inl)

text \<open>The Rego rules read off the request's own fields.\<close>

definition rego_permits :: "policy_data \<Rightarrow> policy_env \<Rightarrow> bool \<Rightarrow> action_definition \<Rightarrow> action_request \<Rightarrow> subject \<Rightarrow> string \<Rightarrow> bool \<Rightarrow> bool" where
  "rego_permits dt pe w action request subj phase valid \<longleftrightarrow>
     (ad_risk_class action = READ \<and> sj_name subj \<noteq> [] \<and> sj_device subj \<noteq> [] \<and> sj_channel subj \<in> set rego_channels) \<or>
     (ad_mutation action \<and> pe_allow_mutations pe \<and> w \<and> sj_name subj \<in> set (dt_operators dt) \<and>
      sj_device subj \<in> set (dt_managed_devices dt) \<and> sj_channel subj \<in> set rego_channels \<and>
      (\<exists>ids. map_of (dt_allowed_targets dt) (ad_id action) = Some ids \<and> tg_id (rq_target request) \<in> set ids) \<and>
      \<not> is_protected (pe_inventory pe) (rq_target request) \<and>
      (phase = ''plan'' \<or> phase = ''execute'' \<and> (ad_confirmation action = MODE_NONE \<or> valid)))"

lemma risk_value_read [simp]: "risk_value r = ''read'' \<longleftrightarrow> r = READ"
  by (cases r) simp_all

lemma rego_allow_input:
  "rego_allow dt (JObj (policy_input pe w action request subj phase valid)) =
     rego_permits dt pe w action request subj phase valid"
proof -
  let ?i = "JObj (policy_input pe w action request subj phase valid)"
  have paths:
    "path ?i [''action'', ''risk_class''] = Some (JStr (risk_value (ad_risk_class action)))"
    "path ?i [''action'', ''mutation''] = Some (JBool (ad_mutation action))"
    "path ?i [''action'', ''confirmation''] = Some (JStr (mode_value (ad_confirmation action)))"
    "path ?i [''action'', ''id''] = Some (JStr (ad_id action))"
    "path ?i [''subject'', ''name''] = Some (JStr (sj_name subj))"
    "path ?i [''subject'', ''device''] = Some (JStr (sj_device subj))"
    "path ?i [''subject'', ''channel''] = Some (JStr (sj_channel subj))"
    "path ?i [''runtime'', ''mutations_enabled''] = Some (JBool (pe_allow_mutations pe))"
    "path ?i [''runtime'', ''audit_writable''] = Some (JBool w)"
    "path ?i [''target'', ''id''] = Some (JStr (tg_id (rq_target request)))"
    "path ?i [''target'', ''protected''] = Some (JBool (is_protected (pe_inventory pe) (rq_target request)))"
    "path ?i [''request'', ''phase''] = Some (JStr phase)"
    "path ?i [''request'', ''digest''] = Some (JStr (request_digest (pe_crypto pe) request))"
    "path ?i [''confirmation'', ''valid''] = Some (JBool valid)"
    "path ?i [''confirmation'', ''request_digest''] =
       Some (if valid then JStr (request_digest (pe_crypto pe) request) else JNull)"
    by (simp_all add: policy_input_def action_json_def subject_json_def)
  have base: "rego_mutation_base dt ?i \<longleftrightarrow> ad_mutation action \<and> pe_allow_mutations pe \<and> w \<and> sj_name subj \<in> set (dt_operators dt) \<and>
      sj_device subj \<in> set (dt_managed_devices dt) \<and> sj_channel subj \<in> set rego_channels \<and>
      (\<exists>ids. map_of (dt_allowed_targets dt) (ad_id action) = Some ids \<and> tg_id (rq_target request) \<in> set ids) \<and>
      \<not> is_protected (pe_inventory pe) (rq_target request)"
    unfolding rego_mutation_base_def paths member_of_def by (auto split: option.splits)
  have conf: "rego_confirmation_satisfied ?i \<longleftrightarrow> ad_confirmation action = MODE_NONE \<or> valid"
    unfolding rego_confirmation_satisfied_def paths by auto
  show ?thesis
    unfolding rego_allow_def rego_permits_def base conf unfolding paths member_of_def by auto
qed

lemma opa_on_input:
  "opa_decide (rego_service dt) (policy_input pe w action request subj phase valid) =
     Inr \<lparr>pd_allow = rego_permits dt pe w action request subj phase valid,
          pd_reason = (if rego_permits dt pe w action request subj phase valid then ''allowed'' else ''request denied by policy''),
          pd_required_confirmation = (if ad_mutation action then ad_confirmation action else MODE_NONE),
          pd_decision_id = None\<rparr>"
proof -
  let ?inp = "policy_input pe w action request subj phase valid"
  have "path (JObj ?inp) [''action'', ''mutation''] = Some (JBool (ad_mutation action))"
    "path (JObj ?inp) [''action'', ''confirmation''] = Some (JStr (mode_value (ad_confirmation action)))"
    by (simp_all add: policy_input_def action_json_def)
  then have dec: "rego_decision dt (JObj ?inp) =
      [(''allow'', JBool (rego_permits dt pe w action request subj phase valid)),
       (''reason'', JStr (if rego_permits dt pe w action request subj phase valid then ''allowed'' else ''request denied by policy'')),
       (''required_confirmation'', if ad_mutation action then JStr (mode_value (ad_confirmation action)) else JStr ''none'')]"
    unfolding rego_decision_def rego_allow_input by simp
  have none: "mode_of_value ''none'' = Some MODE_NONE" using mode_of_value [of MODE_NONE] by simp
  have "path (JObj [(''input'', JObj ?inp)]) [''input''] = Some (JObj ?inp)" by simp
  then have "rego_service dt (JObj [(''input'', JObj ?inp)]) = Payload (JObj [(''result'', JObj (rego_decision dt (JObj ?inp)))])"
    unfolding rego_service_def by simp
  then show ?thesis
    unfolding opa_decide_def by (simp add: dec decision_validate_def lax_bool_def none Let_def)
qed

section \<open>The gate\<close>

text \<open>What the execute endpoint relies on in a policy engine: for a mutating action it allows execution
  only while mutations are enabled, and only with a valid confirmation if the action asks for one.\<close>

locale policy_gate =
  fixes decide :: "json_object \<Rightarrow> exn + policy_decision"
  assumes switch_enforced:
    "decide (policy_input pe w action request subj phase valid) = Inr d \<Longrightarrow> pd_allow d \<Longrightarrow> mutation_matches_risk action \<Longrightarrow>
       ad_mutation action \<Longrightarrow> pe_allow_mutations pe"
    and confirmation_enforced:
    "decide (policy_input pe w action request subj ''execute'' valid) = Inr d \<Longrightarrow> pd_allow d \<Longrightarrow> mutation_matches_risk action \<Longrightarrow>
       ad_mutation action \<Longrightarrow> ad_confirmation action \<noteq> MODE_NONE \<Longrightarrow> valid"
begin

lemma unconfirmed_execution_denied:
  assumes "decide (policy_input pe w action request subj ''execute'' False) = Inr d" and "mutation_matches_risk action"
    and "ad_mutation action" and "ad_confirmation action \<noteq> MODE_NONE"
  shows "\<not> pd_allow d"
  using confirmation_enforced assms by blast

end

interpretation development: policy_gate development_decide
  by unfold_locales (auto simp: development_on_input Let_def split: if_splits)

interpretation rego: policy_gate "opa_decide (rego_service dt)" for dt
  by unfold_locales (auto simp: opa_on_input rego_permits_def mutation_matches_risk_def)

text \<open>(C24) The shipped policy, end to end through the client: a mutating action that is not of risk class
  read is allowed exactly for a listed operator on a managed device over a known channel, on a target
  allowed for the action and not protected, while mutations are enabled and the audit log is
  writable, in the plan phase or, in the execute phase, with no confirmation required or a valid one.
  A protected target is therefore never mutated.\<close>

theorem rego_mutation_exactly:
  assumes "ad_mutation action" and "mutation_matches_risk action"
  shows "\<exists>d. opa_decide (rego_service dt) (policy_input pe w action request subj phase valid) = Inr d \<and>
    pd_required_confirmation d = ad_confirmation action \<and>
    (pd_allow d \<longleftrightarrow> pe_allow_mutations pe \<and> w \<and> sj_name subj \<in> set (dt_operators dt) \<and>
      sj_device subj \<in> set (dt_managed_devices dt) \<and> sj_channel subj \<in> set rego_channels \<and>
      (\<exists>ids. map_of (dt_allowed_targets dt) (ad_id action) = Some ids \<and> tg_id (rq_target request) \<in> set ids) \<and>
      \<not> is_protected (pe_inventory pe) (rq_target request) \<and>
      (phase = ''plan'' \<or> phase = ''execute'' \<and> (ad_confirmation action = MODE_NONE \<or> valid)))"
  unfolding opa_on_input using assms by (auto simp: rego_permits_def mutation_matches_risk_def)

definition demo_data :: policy_data where
  "demo_data = \<lparr>dt_operators = [''operator''], dt_managed_devices = [''deck-1''], dt_allowed_targets = [(''pve.vm.start'', [''100''])]\<rparr>"

definition demo_policy_env :: "protected_inventory \<Rightarrow> policy_env" where
  "demo_policy_env pinv = \<lparr>pe_crypto = demo_crypto, pe_allow_mutations = True, pe_environment = ''test'', pe_inventory = pinv\<rparr>"

definition demo_operator :: subject where
  "demo_operator = \<lparr>sj_name = ''operator'', sj_device = ''deck-1'', sj_channel = ''tailscale''\<rparr>"

theorem rego_mutation_exactly_witness:
  "\<exists>d d'. opa_decide (rego_service demo_data) (policy_input (demo_policy_env no_inventory) True demo_action demo_request demo_operator ''execute'' True) = Inr d \<and>
     pd_allow d \<and>
     opa_decide (rego_service demo_data) (policy_input (demo_policy_env (no_inventory\<lparr>pi_types := [''vm'']\<rparr>)) True demo_action demo_request
       demo_operator ''execute'' True) = Inr d' \<and> \<not> pd_allow d'"
proof -
  have m: "ad_mutation demo_action" "mutation_matches_risk demo_action" "ad_id demo_action = ''pve.vm.start''"
    by (simp_all add: demo_action_def mutation_matches_risk_def)
  from rego_mutation_exactly [OF m(1,2), of demo_data "demo_policy_env no_inventory" True demo_request demo_operator "''execute''" True]
    rego_mutation_exactly [OF m(1,2), of demo_data "demo_policy_env (no_inventory\<lparr>pi_types := [''vm'']\<rparr>)" True demo_request demo_operator "''execute''" True]
  show ?thesis
    by (auto simp: demo_data_def demo_policy_env_def demo_operator_def m(3) is_protected_def no_inventory_def demo_request_def rego_channels_def)
qed

end
