(* ===== verification/AuditChain.thy ===== *)
theory AuditChain
  imports Digests
begin

text \<open>
  The audit log of \<open>store.py\<close>: \<open>_chain_hash\<close>, \<open>_append_audit\<close>, \<open>verify_audit_chain\<close> and
  \<open>list_audit_events\<close>. The table is the list of its rows in primary-key order together
  with the last number \<open>AUTOINCREMENT\<close> handed out. The placeholder hash that an insert
  writes first is overwritten in the same transaction and not modelled.
\<close>

record store_cfg =
  sc_crypto :: crypto
  sc_audit_hmac_key :: "string option"

record audit_event =
  ev_sequence :: int
  ev_occurred_at :: string
  ev_event_type :: string
  ev_payload_json :: string
  ev_previous_hash :: string
  ev_event_hash :: string

record audit_log =
  al_events :: "audit_event list"
  al_last_sequence :: int

definition empty_log :: audit_log where
  "empty_log = \<lparr>al_events = [], al_last_sequence = 0\<rparr>"

definition zero_hash :: string where
  "zero_hash = replicate 64 (CHR ''0'')"

abbreviation sep :: char where
  "sep \<equiv> CHR 0x1F"

definition chain_material :: "int \<Rightarrow> string \<Rightarrow> string \<Rightarrow> string \<Rightarrow> string \<Rightarrow> string" where
  "chain_material sequence previous_hash occurred_at event_type payload_json =
     join sep [str_int sequence, previous_hash, occurred_at, event_type, payload_json]"

definition keyed_hash :: "store_cfg \<Rightarrow> string \<Rightarrow> string" where
  "keyed_hash cfg material =
     (case sc_audit_hmac_key cfg of
        Some key \<Rightarrow> hmac_sha256_hex (sc_crypto cfg) key material
      | None \<Rightarrow> sha256_hex (sc_crypto cfg) material)"

definition chain_hash :: "store_cfg \<Rightarrow> int \<Rightarrow> string \<Rightarrow> string \<Rightarrow> string \<Rightarrow> string \<Rightarrow> string" where
  "chain_hash cfg sequence previous_hash occurred_at event_type payload_json =
     keyed_hash cfg (chain_material sequence previous_hash occurred_at event_type payload_json)"

definition last_hash :: "audit_event list \<Rightarrow> string" where
  "last_hash evs = (if evs = [] then zero_hash else ev_event_hash (last evs))"

definition new_event :: "store_cfg \<Rightarrow> instant \<Rightarrow> string \<Rightarrow> json \<Rightarrow> audit_log \<Rightarrow> audit_event" where
  "new_event cfg now event_type payload log =
     (let previous_hash = last_hash (al_events log);
          occurred_at = isoformat now;
          payload_json = json_dumps payload;
          sequence = al_last_sequence log + 1
      in \<lparr>ev_sequence = sequence, ev_occurred_at = occurred_at, ev_event_type = event_type,
          ev_payload_json = payload_json, ev_previous_hash = previous_hash,
          ev_event_hash = chain_hash cfg sequence previous_hash occurred_at event_type payload_json\<rparr>)"

text \<open>The \<open>UNIQUE\<close> constraint on \<open>event_hash\<close> makes the statement fail, and with it the
  surrounding transaction.\<close>

definition append_audit :: "store_cfg \<Rightarrow> instant \<Rightarrow> string \<Rightarrow> json \<Rightarrow> audit_log \<Rightarrow> exn + audit_log" where
  "append_audit cfg now event_type payload log =
     (let e = new_event cfg now event_type payload log
      in if ev_event_hash e \<in> ev_event_hash ` set (al_events log)
         then Inl (StoreError ''UNIQUE constraint failed: audit_events.event_hash'')
         else Inr \<lparr>al_events = al_events log @ [e], al_last_sequence = ev_sequence e\<rparr>)"

fun verify_from :: "store_cfg \<Rightarrow> string \<Rightarrow> audit_event list \<Rightarrow> exn + bool" where
  "verify_from cfg previous_hash [] = Inr True"
| "verify_from cfg previous_hash (row # rows) =
     (if ev_previous_hash row \<noteq> previous_hash then Inr False
      else bind_sum
        (compare_digest (chain_hash cfg (ev_sequence row) previous_hash (ev_occurred_at row)
            (ev_event_type row) (ev_payload_json row)) (ev_event_hash row))
        (\<lambda>same. if \<not> same then Inr False else verify_from cfg (ev_event_hash row) rows))"

definition verify_audit_chain :: "store_cfg \<Rightarrow> audit_event list \<Rightarrow> exn + bool" where
  "verify_audit_chain cfg evs = verify_from cfg zero_hash evs"

text \<open>A negative \<open>LIMIT\<close> is no limit in SQLite.\<close>

definition sql_limit :: "int \<Rightarrow> 'a list \<Rightarrow> 'a list" where
  "sql_limit n xs = (if n < 0 then xs else take (nat n) xs)"

definition list_audit_events :: "int \<Rightarrow> int \<Rightarrow> audit_log \<Rightarrow> audit_event list" where
  "list_audit_events after_sequence limit log =
     sql_limit (min limit 1000) (filter (\<lambda>e. after_sequence < ev_sequence e) (al_events log))"

section \<open>Invariant\<close>

text \<open>What every writer keeps: the chain verifies, the sequence numbers rise and stay within
  what was handed out, and no hash repeats.\<close>

definition audit_inv :: "store_cfg \<Rightarrow> audit_log \<Rightarrow> bool" where
  "audit_inv cfg log \<longleftrightarrow> verify_audit_chain cfg (al_events log) = Inr True \<and>
     sorted_wrt (<) (map ev_sequence (al_events log)) \<and>
     (\<forall>e \<in> set (al_events log). ev_sequence e \<le> al_last_sequence log) \<and>
     distinct (map ev_event_hash (al_events log))"

text \<open>The link a verified row has to its predecessor.\<close>

definition linked :: "store_cfg \<Rightarrow> string \<Rightarrow> audit_event \<Rightarrow> bool" where
  "linked cfg previous_hash e \<longleftrightarrow> ev_previous_hash e = previous_hash \<and> ascii (ev_event_hash e) \<and>
     ev_event_hash e = chain_hash cfg (ev_sequence e) previous_hash (ev_occurred_at e)
       (ev_event_type e) (ev_payload_json e)"

lemma verify_from_Cons:
  "verify_from cfg p (e # es) = Inr True \<longleftrightarrow> linked cfg p e \<and> verify_from cfg (ev_event_hash e) es = Inr True"
proof (cases "ev_previous_hash e = p")
  case True
  let ?c = "compare_digest (chain_hash cfg (ev_sequence e) p (ev_occurred_at e) (ev_event_type e)
    (ev_payload_json e)) (ev_event_hash e)"
  have "linked cfg p e \<longleftrightarrow> ?c = Inr True"
    using True by (auto simp: linked_def)
  moreover have "bind_sum ?c (\<lambda>same. if \<not> same then Inr False else verify_from cfg (ev_event_hash e) es)
      = Inr True \<longleftrightarrow> ?c = Inr True \<and> verify_from cfg (ev_event_hash e) es = Inr True"
    unfolding bind_sum_eq_Inr by (metis (full_types) Inr_inject)
  ultimately show ?thesis
    using True by (simp only: verify_from.simps simp_thms if_False)
qed (simp add: linked_def)

lemma verify_from_append:
  "verify_from cfg p (es @ fs) = Inr True \<longleftrightarrow>
     verify_from cfg p es = Inr True \<and>
     verify_from cfg (if es = [] then p else ev_event_hash (last es)) fs = Inr True"
proof (induction es arbitrary: p)
  case (Cons e es)
  then show ?case unfolding append_Cons verify_from_Cons by auto
qed simp

lemma verify_snoc:
  "verify_audit_chain cfg (es @ [e]) = Inr True \<longleftrightarrow>
     verify_audit_chain cfg es = Inr True \<and> linked cfg (last_hash es) e"
  unfolding verify_audit_chain_def verify_from_append last_hash_def verify_from_Cons by auto

lemma chain_hash_ascii: "hex_output (sc_crypto cfg) \<Longrightarrow> ascii (chain_hash cfg n p t ty pl)"
  by (auto simp: chain_hash_def keyed_hash_def hex_output_def hex_char_ascii split: option.split)

lemma new_event_linked:
  "hex_output (sc_crypto cfg) \<Longrightarrow> linked cfg (last_hash (al_events log)) (new_event cfg now ty pl log)"
  by (simp add: linked_def new_event_def Let_def chain_hash_ascii)

lemma append_audit_Inr:
  "append_audit cfg now ty pl log = Inr log' \<Longrightarrow>
     al_events log' = al_events log @ [new_event cfg now ty pl log] \<and>
     al_last_sequence log' = al_last_sequence log + 1"
  by (auto simp: append_audit_def new_event_def Let_def split: if_splits)

lemma append_audit_inv:
  assumes "hex_output (sc_crypto cfg)" and "audit_inv cfg log" and "append_audit cfg now ty pl log = Inr log'"
  shows "audit_inv cfg log'"
proof -
  let ?e = "new_event cfg now ty pl log"
  have log': "log' = \<lparr>al_events = al_events log @ [?e], al_last_sequence = al_last_sequence log + 1\<rparr>"
    and fresh: "ev_event_hash ?e \<notin> ev_event_hash ` set (al_events log)"
    using assms(3) by (auto simp: append_audit_def Let_def new_event_def split: if_splits)
  have seq: "ev_sequence ?e = al_last_sequence log + 1" by (simp add: new_event_def Let_def)
  show ?thesis
    using assms(2) fresh new_event_linked [OF assms(1), of log now ty pl]
    by (auto simp: audit_inv_def log' verify_snoc seq sorted_wrt_append)
qed

lemma empty_log_inv: "audit_inv cfg empty_log"
  by (simp add: audit_inv_def empty_log_def verify_audit_chain_def)

section \<open>Tamper evidence\<close>

text \<open>A log as its writers produce it: one append after the other.\<close>

fun append_all :: "store_cfg \<Rightarrow> (instant \<times> string \<times> json) list \<Rightarrow> audit_log \<Rightarrow> exn + audit_log" where
  "append_all cfg [] log = Inr log"
| "append_all cfg ((now, ty, pl) # items) log =
     bind_sum (append_audit cfg now ty pl log) (append_all cfg items)"

definition material_of :: "audit_event \<Rightarrow> string" where
  "material_of e = chain_material (ev_sequence e) (ev_previous_hash e) (ev_occurred_at e)
     (ev_event_type e) (ev_payload_json e)"

text \<open>The column texts of the row do not contain the separator of the hashed material.\<close>

definition sep_free :: "audit_event \<Rightarrow> bool" where
  "sep_free e \<longleftrightarrow> sep \<notin> set (ev_previous_hash e) \<and> sep \<notin> set (ev_occurred_at e) \<and>
     sep \<notin> set (ev_event_type e) \<and> sep \<notin> set (ev_payload_json e)"

lemma sep_notin_str_int: "sep \<notin> set (str_int i)"
  using str_int_chars [of sep i] by (auto simp: is_digit_def)

lemma material_binds:
  assumes "sep_free e" and "material_of e = material_of e'" and "ev_event_hash e = ev_event_hash e'"
  shows "e = e'"
proof -
  have "[str_int (ev_sequence e), ev_previous_hash e, ev_occurred_at e, ev_event_type e, ev_payload_json e] =
    [str_int (ev_sequence e'), ev_previous_hash e', ev_occurred_at e', ev_event_type e', ev_payload_json e']"
    by (rule join_inj_one_side [where sep = sep])
      (use assms(1,2) sep_notin_str_int in \<open>auto simp: sep_free_def material_of_def chain_material_def simp del: join.simps\<close>)
  with assms(3) show ?thesis by (auto intro: audit_event.equality)
qed

lemma linked_hash: "linked cfg p e \<Longrightarrow> ev_event_hash e = keyed_hash cfg (material_of e)"
  by (simp add: linked_def material_of_def chain_hash_def)

lemma same_head_same_log:
  assumes "verify_audit_chain cfg es = Inr True" and "verify_audit_chain cfg fs = Inr True"
    and "last_hash es = last_hash fs" and "\<forall>e \<in> set es. sep_free e"
    and "inj_on (keyed_hash cfg) (material_of ` (set es \<union> set fs))"
    and "zero_hash \<notin> keyed_hash cfg ` material_of ` (set es \<union> set fs)"
  shows "es = fs"
  using assms
proof (induction es arbitrary: fs rule: rev_induct)
  case Nil
  show ?case
  proof (cases fs rule: rev_cases)
    case (snoc fs' f)
    with Nil show ?thesis by (auto simp: last_hash_def verify_snoc dest: linked_hash)
  qed simp
next
  case (snoc e es)
  have e: "verify_audit_chain cfg es = Inr True" "linked cfg (last_hash es) e"
    using snoc.prems(1) by (auto simp: verify_snoc)
  show ?case
  proof (cases fs rule: rev_cases)
    case Nil
    with snoc.prems(3,6) linked_hash [OF e(2)] show ?thesis by (auto simp: last_hash_def)
  next
    case fs: (snoc fs' f)
    have f: "verify_audit_chain cfg fs' = Inr True" "linked cfg (last_hash fs') f"
      using snoc.prems(2) by (auto simp: verify_snoc fs)
    have hash: "ev_event_hash e = ev_event_hash f" using snoc.prems(3) by (simp add: last_hash_def fs)
    have "material_of e = material_of f"
      by (rule inj_onD [OF snoc.prems(5)]) (use hash linked_hash e f fs in auto)
    then have "e = f" using material_binds hash snoc.prems(4) by simp
    moreover have "es = fs'"
    proof (rule snoc.IH)
      show "last_hash es = last_hash fs'" using e(2) f(2) \<open>e = f\<close> by (simp add: linked_def)
      show "inj_on (keyed_hash cfg) (material_of ` (set es \<union> set fs'))"
        by (rule inj_on_subset [OF snoc.prems(5)]) (auto simp: fs)
    qed (use e f snoc.prems fs in auto)
    ultimately show ?thesis by (simp add: fs)
  qed
qed

lemma hex_sep_free: "list_all hex_char s \<Longrightarrow> sep \<notin> set s"
  by (auto simp: list_all_iff hex_char_def is_digit_def)

lemma keyed_hash_hex: "hex_output (sc_crypto cfg) \<Longrightarrow> list_all hex_char (keyed_hash cfg m)"
  by (auto simp: keyed_hash_def hex_output_def split: option.split)

lemma last_hash_sep_free:
  assumes "hex_output (sc_crypto cfg)" and "verify_audit_chain cfg es = Inr True"
  shows "sep \<notin> set (last_hash es)"
proof (cases es rule: rev_cases)
  case Nil
  then show ?thesis by (simp add: last_hash_def zero_hash_def)
next
  case (snoc es' e)
  with assms(2) have "linked cfg (last_hash es') e" by (simp add: verify_snoc)
  then show ?thesis
    using hex_sep_free [OF keyed_hash_hex [OF assms(1)]] linked_hash snoc by (simp add: last_hash_def)
qed

lemma new_event_sep_free:
  assumes "hex_output (sc_crypto cfg)" and "verify_audit_chain cfg (al_events log) = Inr True"
    and "sep \<notin> set ty" and "json_wf pl"
  shows "sep_free (new_event cfg now ty pl log)"
proof -
  have "sep \<notin> set (isoformat now)" using isoformat_chars [of sep now] by auto
  moreover have "sep \<notin> set (json_dumps pl)" using json_dumps_printable [OF assms(4), of sep] by (auto simp: printable_def)
  ultimately show ?thesis
    using assms last_hash_sep_free by (simp add: sep_free_def new_event_def Let_def)
qed

text \<open>Event kinds are plain text and payloads are JSON documents.\<close>

definition auditable :: "instant \<times> string \<times> json \<Rightarrow> bool" where
  "auditable item \<longleftrightarrow> (case item of (now, ty, pl) \<Rightarrow> sep \<notin> set ty \<and> json_wf pl)"

lemma append_all_written:
  assumes "hex_output (sc_crypto cfg)" and "audit_inv cfg log" and "\<forall>e \<in> set (al_events log). sep_free e"
    and "list_all auditable items" and "append_all cfg items log = Inr log'"
  shows "audit_inv cfg log' \<and> (\<forall>e \<in> set (al_events log'). sep_free e)"
  using assms
proof (induction cfg items log rule: append_all.induct)
  case (2 cfg now ty pl items log)
  from "2.prems"(5) obtain l where l: "append_audit cfg now ty pl log = Inr l" "append_all cfg items l = Inr log'"
    by auto
  have "sep_free (new_event cfg now ty pl log)"
    using new_event_sep_free "2.prems" by (simp add: auditable_def audit_inv_def)
  with "2.prems"(3) append_audit_Inr [OF l(1)] have "\<forall>e \<in> set (al_events l). sep_free e" by auto
  moreover have "audit_inv cfg l" by (rule append_audit_inv [OF "2.prems"(1,2) l(1)])
  moreover have "list_all auditable items" using "2.prems"(4) by simp
  ultimately show ?case using "2.IH" "2.prems"(1) l(2) by metis
qed simp

text \<open>(C15) Tamper evidence: take any log the broker wrote and any other table contents that
  pass \<open>verify_audit_chain\<close> and end in the same hash. If the hash function does not collide
  on the rows involved (nor hit the all-zero seed), the two tables are equal row by row and
  column by column: no row was edited, reordered, inserted or deleted below the head.\<close>

theorem audit_chain_tamper_evident:
  assumes "append_all cfg items empty_log = Inr log" and "list_all auditable items"
    and "hex_output (sc_crypto cfg)"
    and "verify_audit_chain cfg stored = Inr True" and "last_hash stored = last_hash (al_events log)"
    and "inj_on (keyed_hash cfg) (material_of ` (set (al_events log) \<union> set stored))"
    and "zero_hash \<notin> keyed_hash cfg ` material_of ` (set (al_events log) \<union> set stored)"
  shows "stored = al_events log"
proof -
  have "audit_inv cfg log \<and> (\<forall>e \<in> set (al_events log). sep_free e)"
    by (rule append_all_written [OF assms(3) empty_log_inv _ assms(2,1)]) (simp add: empty_log_def)
  then show ?thesis
    using same_head_same_log [of cfg "al_events log" stored] assms by (simp add: audit_inv_def)
qed

definition demo_cfg :: store_cfg where
  "demo_cfg = \<lparr>sc_crypto = demo_crypto, sc_audit_hmac_key = None\<rparr>"

lemma demo_keyed_hash: "keyed_hash demo_cfg = hex_text"
  by (rule ext) (simp add: keyed_hash_def demo_cfg_def demo_crypto_def)

lemma demo_hash_not_zero: "zero_hash \<notin> keyed_hash demo_cfg ` A"
proof
  assume "zero_hash \<in> keyed_hash demo_cfg ` A"
  then obtain m where "zero_hash = hex_text m" by (auto simp: demo_keyed_hash)
  then have "hd zero_hash = hd (hex_text m)" by simp
  then show False by (simp add: zero_hash_def hex_text_def)
qed

lemma demo_hash_inj: "inj_on (keyed_hash demo_cfg) A"
  unfolding demo_keyed_hash using hex_text_inj by (rule inj_on_subset) simp

lemma demo_cfg_hex: "hex_output (sc_crypto demo_cfg)"
  by (simp add: demo_cfg_def demo_hex_output)

theorem audit_chain_tamper_evident_witness:
  "\<exists>log edited. append_all demo_cfg [(0, ''job_created'', JObj [])] empty_log = Inr log \<and>
     append_all demo_cfg [(0, ''job_created'', JNull)] empty_log = Inr edited \<and>
     verify_audit_chain demo_cfg (al_events edited) = Inr True \<and>
     last_hash (al_events edited) \<noteq> last_hash (al_events log)"
proof -
  let ?e = "\<lambda>pl. new_event demo_cfg 0 ''job_created'' pl empty_log"
  let ?log = "\<lambda>pl. \<lparr>al_events = [?e pl], al_last_sequence = ev_sequence (?e pl)\<rparr>"
  have run: "append_all demo_cfg [(0, ''job_created'', pl)] empty_log = Inr (?log pl)" for pl
    by (simp add: append_audit_def Let_def empty_log_def)
  have ok: "list_all auditable [(0, ''job_created'', pl)]" if "json_wf pl" for pl
    using that by (simp add: auditable_def)
  have valid: "verify_audit_chain demo_cfg (al_events (?log JNull)) = Inr True"
    using append_all_written [OF demo_cfg_hex empty_log_inv _ ok run, of JNull]
    by (simp add: empty_log_def audit_inv_def)
  have "al_events (?log JNull) \<noteq> al_events (?log (JObj []))"
    by (simp add: new_event_def Let_def)
  then have "last_hash (al_events (?log JNull)) \<noteq> last_hash (al_events (?log (JObj [])))"
    using audit_chain_tamper_evident [OF run ok demo_cfg_hex valid _ demo_hash_inj demo_hash_not_zero] by auto
  with run valid show ?thesis by blast
qed

text \<open>What the chain alone does not detect: every prefix of a verifying log verifies, the
  empty one included, so dropping the newest rows passes \<open>verify_audit_chain\<close> unless the head
  hash is kept elsewhere.\<close>

theorem audit_chain_prefix_verifies:
  assumes "verify_audit_chain cfg evs = Inr True"
  shows "verify_audit_chain cfg (take n evs) = Inr True"
proof -
  have "verify_audit_chain cfg (take n evs @ drop n evs) = Inr True" using assms by simp
  then show ?thesis unfolding verify_audit_chain_def verify_from_append by simp
qed

theorem audit_chain_prefix_verifies_witness:
  "\<exists>log. append_all demo_cfg [(0, ''job_created'', JNull)] empty_log = Inr log \<and>
     verify_audit_chain demo_cfg (take 0 (al_events log)) = Inr True \<and> al_events log \<noteq> []"
proof -
  obtain log where run: "append_all demo_cfg [(0, ''job_created'', JNull)] empty_log = Inr log"
    and "al_events log \<noteq> []"
    by (auto simp: append_audit_def Let_def empty_log_def)
  moreover have "verify_audit_chain demo_cfg (al_events log) = Inr True"
    using append_all_written [OF demo_cfg_hex empty_log_inv _ _ run]
    by (simp add: empty_log_def audit_inv_def auditable_def)
  ultimately show ?thesis using audit_chain_prefix_verifies [of demo_cfg "al_events log" 0] by blast
qed

end
