(* ===== verification/StateMachine.thy ===== *)
theory StateMachine
  imports Models
begin

text \<open>
  The job state machine, \<open>state_machine.py\<close>: the table of allowed transitions and
  \<open>require_transition\<close>, with the facts that every writer of job states relies on.
\<close>

fun ALLOWED_TRANSITIONS :: "job_state \<Rightarrow> job_state list" where
  "ALLOWED_TRANSITIONS RECEIVED = [VALIDATED, REJECTED]"
| "ALLOWED_TRANSITIONS VALIDATED = [AUTHORIZED, DENIED, REJECTED]"
| "ALLOWED_TRANSITIONS AUTHORIZED = [AWAITING_CONFIRMATION, QUEUED]"
| "ALLOWED_TRANSITIONS AWAITING_CONFIRMATION = [QUEUED, EXPIRED, CANCELLED]"
| "ALLOWED_TRANSITIONS QUEUED = [RUNNING, CANCELLED, EXPIRED]"
| "ALLOWED_TRANSITIONS RUNNING = [VERIFYING, FAILED, UNKNOWN_OUTCOME, CANCELLED]"
| "ALLOWED_TRANSITIONS VERIFYING = [SUCCEEDED, FAILED, UNKNOWN_OUTCOME, CANCELLED]"
| "ALLOWED_TRANSITIONS UNKNOWN_OUTCOME = [VERIFYING, SUCCEEDED, FAILED, CANCELLED]"
| "ALLOWED_TRANSITIONS SUCCEEDED = []"
| "ALLOWED_TRANSITIONS DENIED = []"
| "ALLOWED_TRANSITIONS REJECTED = []"
| "ALLOWED_TRANSITIONS EXPIRED = []"
| "ALLOWED_TRANSITIONS CANCELLED = []"
| "ALLOWED_TRANSITIONS FAILED = []"

definition require_transition :: "job_state \<Rightarrow> job_state \<Rightarrow> exn + unit" where
  "require_transition current tgt =
     (if tgt \<notin> set (ALLOWED_TRANSITIONS current) then Inl (InvalidTransition current tgt) else Inr ())"

section \<open>Steps and runs of one job\<close>

inductive job_step :: "job_state \<Rightarrow> job_state \<Rightarrow> bool" where
  step: "require_transition s t = Inr () \<Longrightarrow> job_step s t"

inductive_simps job_step_iff: "job_step s t"

inductive job_steps :: "job_state \<Rightarrow> job_state \<Rightarrow> bool" where
  here: "job_steps s s"
| more: "job_steps s t \<Longrightarrow> job_step t u \<Longrightarrow> job_steps s u"

lemma require_transition_Inr [simp]:
  "require_transition s t = Inr u \<longleftrightarrow> t \<in> set (ALLOWED_TRANSITIONS s)"
  by (simp add: require_transition_def)

lemma require_transition_Inl [simp]:
  "require_transition s t = Inl e \<longleftrightarrow> t \<notin> set (ALLOWED_TRANSITIONS s) \<and> e = InvalidTransition s t"
  by (auto simp: require_transition_def)

lemma job_step_allowed: "job_step s t \<longleftrightarrow> t \<in> set (ALLOWED_TRANSITIONS s)"
  by (simp add: job_step_iff)

lemma terminal_iff_final: "terminal s \<longleftrightarrow> ALLOWED_TRANSITIONS s = []"
  by (cases s) (simp_all add: TERMINAL_JOB_STATES_def)

lemma terminal_no_step: "terminal s \<Longrightarrow> \<not> job_step s t"
  by (simp add: job_step_allowed terminal_iff_final)

lemma into_queued: "job_step s QUEUED \<Longrightarrow> s = AUTHORIZED \<or> s = AWAITING_CONFIRMATION"
  by (cases s) (auto simp: job_step_allowed)

text \<open>The states of a persisted job: a row is created QUEUED, and only these are reachable.\<close>

definition live_states :: "job_state list" where
  "live_states = [QUEUED, RUNNING, VERIFYING, UNKNOWN_OUTCOME, SUCCEEDED, FAILED, CANCELLED, EXPIRED]"

lemma live_step: "s \<in> set live_states \<Longrightarrow> job_step s t \<Longrightarrow> t \<in> set live_states \<and> t \<noteq> QUEUED"
  by (auto simp: live_states_def job_step_allowed)

lemma live_reachable: "job_steps QUEUED s \<Longrightarrow> s \<in> set live_states"
proof (induction QUEUED s rule: job_steps.induct)
  case here
  then show ?case by (simp add: live_states_def)
next
  case (more t u)
  then show ?case using live_step by blast
qed

text \<open>A job that left the queue never returns to it.\<close>

definition started :: "job_state \<Rightarrow> bool" where
  "started s \<longleftrightarrow> s \<in> set live_states \<and> s \<noteq> QUEUED"

lemma started_steps: "job_steps s t \<Longrightarrow> started s \<Longrightarrow> started t"
proof (induction rule: job_steps.induct)
  case (more s t u)
  then show ?case using live_step [of t u] by (auto simp: started_def)
qed

end
