(* ===== verification/Store.thy ===== *)
theory Store
  imports AuditChain StateMachine
begin

text \<open>
  The durable store, \<open>store.py\<close>: the rows of \<open>jobs\<close> and \<open>confirmations\<close> as records, the
  database as the three tables, \<open>connect\<close> as a transaction that keeps nothing of a body
  that raises, and one definition per operation on jobs. The operations on
  confirmations are in \<open>Confirmations\<close>.

  A \<open>TEXT\<close> column that holds a serialised model or a timestamp is a field of the model's
  type; comparisons that the SQL makes on the timestamp text are made on the text
  (\<^const>\<open>sql_before\<close>, \<^const>\<open>isoformat\<close>). The clock, fresh identifiers and fresh tokens are
  arguments; an operation and the audit events it writes share one clock reading.
\<close>

section \<open>Tables\<close>

text \<open>The \<open>error\<close> column: \<open>NULL\<close>, the JSON form of a \<open>JobError\<close>, or text that does not parse as one
  (written by an earlier version).\<close>

datatype error_cell = ErrNull | ErrJson job_error | ErrLegacy string

record job_row =
  jr_id :: string
  jr_idempotency_key :: string
  jr_request :: action_request
  jr_request_digest :: string
  jr_subject :: subject
  jr_state :: job_state
  jr_lease_owner :: "string option"
  jr_lease_token :: "string option"
  jr_lease_expires_at :: "instant option"
  jr_reconcile_attempts :: int
  jr_result :: "json_object option"
  jr_error :: error_cell
  jr_created_at :: instant
  jr_updated_at :: instant

record confirmation_row =
  cr_id :: string
  cr_token_hash :: string
  cr_confirmation_digest :: string
  cr_subject_name :: string
  cr_subject_device :: string
  cr_control :: "string option"
  cr_mode :: confirmation_mode
  cr_expected_response :: "string option"
  cr_expires_at :: instant
  cr_used_at :: "instant option"
  cr_created_at :: instant

text \<open>\<open>db_writable\<close> is false while the file is read-only, locked past the busy timeout, or on a
  full disk.\<close>

record db =
  db_jobs :: "job_row list"
  db_confirmations :: "confirmation_row list"
  db_audit :: audit_log
  db_writable :: bool

definition empty_db :: db where
  "empty_db = \<lparr>db_jobs = [], db_confirmations = [], db_audit = empty_log, db_writable = True\<rparr>"

record claimed_job =
  cl_job :: job_view
  cl_lease_token :: string

text \<open>\<open>with self.connect() as connection: BEGIN IMMEDIATE ...\<close>. An exception in the body closes the
  connection without a commit, so nothing of the body persists.\<close>

definition transaction :: "(db \<Rightarrow> exn + 'a \<times> db) \<Rightarrow> db \<Rightarrow> (exn + 'a) \<times> db" where
  "transaction body db =
     (if \<not> db_writable db then (Inl (StoreError ''attempt to write a readonly database''), db)
      else case body db of Inl e \<Rightarrow> (Inl e, db) | Inr (x, db') \<Rightarrow> (Inr x, db'))"

definition audit :: "store_cfg \<Rightarrow> instant \<Rightarrow> string \<Rightarrow> json \<Rightarrow> db \<Rightarrow> exn + db" where
  "audit cfg now event_type payload db =
     bind_sum (append_audit cfg now event_type payload (db_audit db)) (\<lambda>log. Inr (db\<lparr>db_audit := log\<rparr>))"

section \<open>Views\<close>

definition job_error_of_cell :: "error_cell \<Rightarrow> exn + job_error option" where
  "job_error_of_cell raw =
     (case raw of
        ErrNull \<Rightarrow> Inr None
      | ErrJson e \<Rightarrow> Inr (Some e)
      | ErrLegacy s \<Rightarrow>
          let e = \<lparr>je_code = ''legacy_error'', je_message = s, je_retry = RETRY_NEVER,
                   je_reconciliation_required = False, je_details = []\<rparr>
          in if job_error_ok e then Inr (Some e) else Inl (ValidationError ''JobError''))"

definition job_view_of :: "job_row \<Rightarrow> exn + job_view" where
  "job_view_of row =
     bind_sum (job_error_of_cell (jr_error row)) (\<lambda>err.
       Inr \<lparr>jv_id = jr_id row, jv_state = jr_state row, jv_action_id = rq_action_id (jr_request row),
         jv_target = rq_target (jr_request row), jv_created_at = jr_created_at row,
         jv_updated_at = jr_updated_at row, jv_result = jr_result row, jv_error = err\<rparr>)"

fun job_views_of :: "job_row list \<Rightarrow> exn + job_view list" where
  "job_views_of [] = Inr []"
| "job_views_of (r # rs) = bind_sum (job_view_of r) (\<lambda>v. bind_sum (job_views_of rs) (\<lambda>vs. Inr (v # vs)))"

abbreviation find_job :: "string \<Rightarrow> db \<Rightarrow> job_row option" where
  "find_job job_id db \<equiv> lookup_by jr_id job_id (db_jobs db)"

section \<open>Operations on jobs\<close>

definition new_job_row :: "store_cfg \<Rightarrow> instant \<Rightarrow> string \<Rightarrow> action_request \<Rightarrow> subject \<Rightarrow> job_row" where
  "new_job_row cfg now job_id request subject =
     \<lparr>jr_id = job_id, jr_idempotency_key = rq_idempotency_key request, jr_request = request,
      jr_request_digest = request_digest (sc_crypto cfg) request, jr_subject = subject, jr_state = QUEUED,
      jr_lease_owner = None, jr_lease_token = None, jr_lease_expires_at = None,
      jr_reconcile_attempts = 0, jr_result = None, jr_error = ErrNull, jr_created_at = now,
      jr_updated_at = now\<rparr>"

definition create_job ::
  "store_cfg \<Rightarrow> instant \<Rightarrow> string \<Rightarrow> action_request \<Rightarrow> subject \<Rightarrow> db \<Rightarrow> (exn + job_view) \<times> db" where
  "create_job cfg now uid request subject = transaction (\<lambda>db.
     let digest = request_digest (sc_crypto cfg) request;
         job_id = ''job_'' @ uid
     in case lookup_by jr_idempotency_key (rq_idempotency_key request) (db_jobs db) of
          Some existing \<Rightarrow>
            if jr_request_digest existing \<noteq> digest
            then Inl (StoreError ''idempotency key reused with a different request'')
            else bind_sum (job_view_of existing) (\<lambda>v. Inr (v, db))
        | None \<Rightarrow>
            if job_id \<in> jr_id ` set (db_jobs db) then Inl (StoreError ''UNIQUE constraint failed: jobs.id'')
            else bind_sum
              (audit cfg now ''job.queued''
                (JObj [(''job_id'', JStr job_id), (''request_digest'', JStr digest),
                       (''subject'', subject_json subject)])
                (db\<lparr>db_jobs := db_jobs db @ [new_job_row cfg now job_id request subject]\<rparr>))
              (\<lambda>db'. case find_job job_id db' of
                 None \<Rightarrow> Inl (StoreError ''job write did not persist'')
               | Some row \<Rightarrow> bind_sum (job_view_of row) (\<lambda>v. Inr (v, db'))))"

definition get_job :: "string \<Rightarrow> db \<Rightarrow> exn + job_view option" where
  "get_job job_id db =
     (case find_job job_id db of None \<Rightarrow> Inr None | Some row \<Rightarrow> bind_sum (job_view_of row) (\<lambda>v. Inr (Some v)))"

definition get_job_context :: "string \<Rightarrow> db \<Rightarrow> exn + action_request \<times> subject" where
  "get_job_context job_id db =
     (case find_job job_id db of
        None \<Rightarrow> Inl (StoreError ''job not found'')
      | Some row \<Rightarrow> Inr (jr_request row, jr_subject row))"

definition claimable :: "instant \<Rightarrow> job_row \<Rightarrow> bool" where
  "claimable now row \<longleftrightarrow> jr_state row = QUEUED \<and>
     (case jr_lease_expires_at row of None \<Rightarrow> True | Some t \<Rightarrow> sql_before t now)"

definition next_claimable :: "instant \<Rightarrow> db \<Rightarrow> job_row option" where
  "next_claimable now db =
     (case sort_key (\<lambda>r. isoformat (jr_created_at r)) (filter (claimable now) (db_jobs db)) of
        [] \<Rightarrow> None | r # _ \<Rightarrow> Some r)"

definition lease_row :: "instant \<Rightarrow> string \<Rightarrow> string \<Rightarrow> int \<Rightarrow> job_row \<Rightarrow> job_row" where
  "lease_row now worker_id lease_token lease_seconds row =
     row\<lparr>jr_state := RUNNING, jr_lease_owner := Some worker_id, jr_lease_token := Some lease_token,
         jr_lease_expires_at := Some (now + seconds lease_seconds), jr_updated_at := now\<rparr>"

definition claim_next_job ::
  "store_cfg \<Rightarrow> instant \<Rightarrow> string \<Rightarrow> string \<Rightarrow> int \<Rightarrow> (action_request \<Rightarrow> exn + int) option \<Rightarrow> db \<Rightarrow>
     (exn + claimed_job option) \<times> db" where
  "claim_next_job cfg now lease_token worker_id lease_seconds lease_for = transaction (\<lambda>db.
     case next_claimable now db of
       None \<Rightarrow> Inr (None, db)
     | Some row \<Rightarrow>
         bind_sum (case lease_for of None \<Rightarrow> Inr lease_seconds | Some f \<Rightarrow> f (jr_request row)) (\<lambda>secs.
         bind_sum (require_transition (jr_state row) RUNNING) (\<lambda>_.
         bind_sum
           (audit cfg now ''job.running''
             (JObj [(''job_id'', JStr (jr_id row)), (''worker_id'', JStr worker_id)])
             (db\<lparr>db_jobs := update_by jr_id (jr_id row) (lease_row now worker_id lease_token secs) (db_jobs db)\<rparr>))
           (\<lambda>db'. case find_job (jr_id row) db' of
              None \<Rightarrow> Inl (StoreError ''claimed job disappeared'')
            | Some claimed \<Rightarrow> bind_sum (job_view_of claimed) (\<lambda>v.
                Inr (Some \<lparr>cl_job = v, cl_lease_token = lease_token\<rparr>, db'))))))"

text \<open>The \<open>WHERE\<close> clause of the renewal; the result is whether one row was updated.\<close>

definition renewable :: "string \<Rightarrow> string \<Rightarrow> job_row \<Rightarrow> bool" where
  "renewable job_id lease_token row \<longleftrightarrow> jr_id row = job_id \<and> jr_lease_token row = Some lease_token \<and>
     jr_state row \<in> {RUNNING, VERIFYING}"

definition renew_lease :: "instant \<Rightarrow> string \<Rightarrow> string \<Rightarrow> int \<Rightarrow> db \<Rightarrow> (exn + bool) \<times> db" where
  "renew_lease now job_id lease_token lease_seconds = transaction (\<lambda>db.
     Inr (length (filter (renewable job_id lease_token) (db_jobs db)) = 1,
       db\<lparr>db_jobs := map (\<lambda>row. if renewable job_id lease_token row
            then row\<lparr>jr_lease_expires_at := Some (now + seconds lease_seconds), jr_updated_at := now\<rparr>
            else row) (db_jobs db)\<rparr>))"

definition transition_row ::
  "instant \<Rightarrow> job_state \<Rightarrow> json_object option \<Rightarrow> job_error option \<Rightarrow> job_row \<Rightarrow> job_row" where
  "transition_row now tgt result error row =
     (let keep_lease = (tgt = VERIFYING)
      in row\<lparr>jr_state := tgt, jr_result := result,
             jr_error := (case error of None \<Rightarrow> ErrNull | Some e \<Rightarrow> ErrJson e),
             jr_lease_owner := (if keep_lease then jr_lease_owner row else None),
             jr_lease_token := (if keep_lease then jr_lease_token row else None),
             jr_lease_expires_at := (if keep_lease then jr_lease_expires_at row else None),
             jr_updated_at := now\<rparr>)"

definition transition_job ::
  "store_cfg \<Rightarrow> instant \<Rightarrow> string \<Rightarrow> job_state \<Rightarrow> json_object option \<Rightarrow> job_error option \<Rightarrow> string option \<Rightarrow>
     job_state option \<Rightarrow> db \<Rightarrow> (exn + job_view) \<times> db" where
  "transition_job cfg now job_id tgt result error fence expected_state = transaction (\<lambda>db.
     case find_job job_id db of
       None \<Rightarrow> Inl (StoreError ''job not found'')
     | Some row \<Rightarrow>
         if fence \<noteq> None \<and> jr_lease_token row \<noteq> fence
         then Inl (StaleLease (''lease for '' @ job_id @ '' is no longer held''))
         else if expected_state \<noteq> None \<and> Some (jr_state row) \<noteq> expected_state
         then Inl (StaleLease (''job '' @ job_id @ '' is '' @ job_state_value (jr_state row) @ '', expected ''
                @ job_state_value (the expected_state)))
         else bind_sum (require_transition (jr_state row) tgt) (\<lambda>_.
           bind_sum
             (audit cfg now (''job.'' @ job_state_value tgt)
               (JObj [(''job_id'', JStr job_id), (''result'', opt_json JObj result),
                      (''error'', opt_json job_error_json error)])
               (db\<lparr>db_jobs := update_by jr_id job_id (transition_row now tgt result error) (db_jobs db)\<rparr>))
             (\<lambda>db'. case find_job job_id db' of
                None \<Rightarrow> Inl (StoreError ''updated job disappeared'')
              | Some updated \<Rightarrow> bind_sum (job_view_of updated) (\<lambda>v. Inr (v, db')))))"

definition lease_expired_error :: job_error where
  "lease_expired_error = \<lparr>je_code = ''lease_expired'',
     je_message = ''worker lease expired; reconciliation required'', je_retry = RECONCILE_FIRST,
     je_reconciliation_required = True, je_details = []\<rparr>"

definition lease_lapsed :: "instant \<Rightarrow> job_row \<Rightarrow> bool" where
  "lease_lapsed now row \<longleftrightarrow> jr_state row \<in> {RUNNING, VERIFYING} \<and>
     (case jr_lease_expires_at row of None \<Rightarrow> False | Some t \<Rightarrow> sql_before t now)"

definition unknown_row :: "instant \<Rightarrow> job_row \<Rightarrow> job_row" where
  "unknown_row now row = row\<lparr>jr_state := UNKNOWN_OUTCOME, jr_lease_owner := None, jr_lease_token := None,
     jr_lease_expires_at := None, jr_error := ErrJson lease_expired_error, jr_updated_at := now\<rparr>"

definition expire_lease_row :: "store_cfg \<Rightarrow> instant \<Rightarrow> job_row \<Rightarrow> db \<Rightarrow> exn + db" where
  "expire_lease_row cfg now row db =
     bind_sum (require_transition (jr_state row) UNKNOWN_OUTCOME) (\<lambda>_.
       audit cfg now ''job.unknown_outcome''
         (JObj [(''job_id'', JStr (jr_id row)), (''reason'', JStr ''lease_expired'')])
         (db\<lparr>db_jobs := update_by jr_id (jr_id row) (unknown_row now) (db_jobs db)\<rparr>))"

definition expire_leases :: "store_cfg \<Rightarrow> instant \<Rightarrow> db \<Rightarrow> (exn + nat) \<times> db" where
  "expire_leases cfg now = transaction (\<lambda>db.
     let rows = filter (lease_lapsed now) (db_jobs db)
     in bind_sum (for_each (expire_lease_row cfg now) rows db) (\<lambda>db'. Inr (length rows, db')))"

definition expired_row :: "instant \<Rightarrow> job_row \<Rightarrow> job_row" where
  "expired_row now row = row\<lparr>jr_state := EXPIRED, jr_lease_owner := None, jr_lease_token := None,
     jr_lease_expires_at := None, jr_updated_at := now\<rparr>"

definition stale_queued :: "instant \<Rightarrow> int \<Rightarrow> job_row \<Rightarrow> bool" where
  "stale_queued now ttl_seconds row \<longleftrightarrow> jr_state row = QUEUED \<and>
     sql_before (jr_created_at row) (now - seconds ttl_seconds)"

definition expire_queued_row :: "store_cfg \<Rightarrow> instant \<Rightarrow> job_row \<Rightarrow> db \<Rightarrow> exn + db" where
  "expire_queued_row cfg now row db =
     bind_sum (require_transition (jr_state row) EXPIRED) (\<lambda>_.
       audit cfg now ''job.expired''
         (JObj [(''job_id'', JStr (jr_id row)), (''reason'', JStr ''queue_ttl'')])
         (db\<lparr>db_jobs := update_by jr_id (jr_id row) (expired_row now) (db_jobs db)\<rparr>))"

definition expire_stale_queued :: "store_cfg \<Rightarrow> instant \<Rightarrow> int \<Rightarrow> db \<Rightarrow> (exn + nat) \<times> db" where
  "expire_stale_queued cfg now ttl_seconds = transaction (\<lambda>db.
     let rows = filter (stale_queued now ttl_seconds) (db_jobs db)
     in bind_sum (for_each (expire_queued_row cfg now) rows db) (\<lambda>db'. Inr (length rows, db')))"

definition jobs_in_state :: "job_state \<Rightarrow> int \<Rightarrow> db \<Rightarrow> job_row list" where
  "jobs_in_state state limit db = sql_limit (min limit 1000)
     (sort_key (\<lambda>r. isoformat (jr_updated_at r)) (filter (\<lambda>r. jr_state r = state) (db_jobs db)))"

definition list_jobs :: "job_state \<Rightarrow> int \<Rightarrow> db \<Rightarrow> exn + job_view list" where
  "list_jobs state limit db = job_views_of (jobs_in_state state limit db)"

definition reconcile_row :: "store_cfg \<Rightarrow> instant \<Rightarrow> int \<Rightarrow> job_row \<Rightarrow> db \<Rightarrow> exn + db" where
  "reconcile_row cfg now max_attempts row db =
     (let new_attempts = jr_reconcile_attempts row + 1;
          db1 = db\<lparr>db_jobs := update_by jr_id (jr_id row)
                  (\<lambda>r. r\<lparr>jr_reconcile_attempts := new_attempts\<rparr>) (db_jobs db)\<rparr>
      in if new_attempts = max_attempts
         then audit cfg now ''job.reconcile_exhausted''
           (JObj [(''job_id'', JStr (jr_id row)), (''attempts'', JInt new_attempts)]) db1
         else Inr db1)"

fun reconcile_rows :: "store_cfg \<Rightarrow> instant \<Rightarrow> int \<Rightarrow> job_row list \<Rightarrow> db \<Rightarrow> exn + job_view list \<times> db" where
  "reconcile_rows cfg now max_attempts [] db = Inr ([], db)"
| "reconcile_rows cfg now max_attempts (row # rows) db =
     (if jr_reconcile_attempts row \<ge> max_attempts then reconcile_rows cfg now max_attempts rows db
      else bind_sum (reconcile_row cfg now max_attempts row db) (\<lambda>db1.
           bind_sum (job_view_of row) (\<lambda>v.
           bind_sum (reconcile_rows cfg now max_attempts rows db1) (\<lambda>(vs, db2). Inr (v # vs, db2)))))"

definition claim_reconcile_candidates ::
  "store_cfg \<Rightarrow> instant \<Rightarrow> int \<Rightarrow> int \<Rightarrow> db \<Rightarrow> (exn + job_view list) \<times> db" where
  "claim_reconcile_candidates cfg now max_attempts limit = transaction (\<lambda>db.
     reconcile_rows cfg now max_attempts (jobs_in_state UNKNOWN_OUTCOME limit db) db)"

definition record_policy_denial ::
  "store_cfg \<Rightarrow> instant \<Rightarrow> action_request \<Rightarrow> subject \<Rightarrow> string \<Rightarrow> string \<Rightarrow> db \<Rightarrow> (exn + unit) \<times> db" where
  "record_policy_denial cfg now request subject phase reason = transaction (\<lambda>db.
     bind_sum
       (audit cfg now ''policy.denied''
         (JObj [(''phase'', JStr phase), (''action_id'', JStr (rq_action_id request)),
           (''action_version'', JInt (rq_action_version request)),
           (''target'', target_json (rq_target request)), (''subject'', subject_json subject),
           (''request_digest'', JStr (request_digest (sc_crypto cfg) request)), (''reason'', JStr reason)]) db)
       (\<lambda>db'. Inr ((), db')))"

text \<open>The probe inserts a row and rolls back to the savepoint, so only its success remains.\<close>

definition audit_is_writable :: "db \<Rightarrow> bool" where
  "audit_is_writable db = db_writable db"

end
