(* ===== verification/Confirmations.thy ===== *)
theory Confirmations
  imports Store
begin

text \<open>
  Confirmation challenges, the part of \<open>store.py\<close> that issues, consumes and cancels them:
  \<open>create_confirmation\<close>, \<open>consume_confirmation\<close>, \<open>_confirmation_reject_reason\<close> and
  \<open>cancel_confirmation\<close>.
\<close>

definition new_confirmation_row ::
  "store_cfg \<Rightarrow> instant \<Rightarrow> string \<Rightarrow> string \<Rightarrow> action_request \<Rightarrow> subject \<Rightarrow> confirmation_mode \<Rightarrow> int \<Rightarrow>
     confirmation_row" where
  "new_confirmation_row cfg now confirmation_id token request subject mode ttl_seconds =
     \<lparr>cr_id = confirmation_id, cr_token_hash = sha256_hex (sc_crypto cfg) token,
      cr_confirmation_digest = confirmation_digest (sc_crypto cfg) request,
      cr_subject_name = sj_name subject, cr_subject_device = sj_device subject,
      cr_control = cx_control (rq_context request), cr_mode = mode,
      cr_expected_response = (if mode = MODE_TYPED then Some (tg_id (rq_target request)) else None),
      cr_expires_at = now + seconds ttl_seconds, cr_used_at = None, cr_created_at = now\<rparr>"

definition create_confirmation ::
  "store_cfg \<Rightarrow> instant \<Rightarrow> string \<Rightarrow> string \<Rightarrow> action_request \<Rightarrow> subject \<Rightarrow> confirmation_mode \<Rightarrow> string \<Rightarrow>
     int \<Rightarrow> db \<Rightarrow> (exn + confirmation_challenge) \<times> db" where
  "create_confirmation cfg now uid token request subject mode prompt ttl_seconds = transaction (\<lambda>db.
     let confirmation_id = ''confirm_'' @ uid;
         row = new_confirmation_row cfg now confirmation_id token request subject mode ttl_seconds
     in if confirmation_id \<in> cr_id ` set (db_confirmations db)
        then Inl (StoreError ''UNIQUE constraint failed: confirmations.id'')
        else bind_sum
          (audit cfg now ''confirmation.created''
            (JObj [(''confirmation_id'', JStr confirmation_id),
              (''confirmation_digest'', JStr (cr_confirmation_digest row)),
              (''mode'', JStr (mode_value mode)), (''control'', opt_json JStr (cx_control (rq_context request)))])
            (db\<lparr>db_confirmations := db_confirmations db @ [row]\<rparr>))
          (\<lambda>db'. Inr (\<lparr>cc_id = confirmation_id, cc_token = token, cc_mode = mode,
                 cc_expires_at = now + seconds ttl_seconds, cc_prompt = prompt\<rparr>, db')))"

text \<open>\<open>ORDER BY created_at DESC LIMIT 1\<close>\<close>

fun newest :: "confirmation_row list \<Rightarrow> confirmation_row option" where
  "newest [] = None"
| "newest (r # rs) = (case newest rs of
       None \<Rightarrow> Some r
     | Some q \<Rightarrow> if sql_before (cr_created_at r) (cr_created_at q) then Some q else Some r)"

definition matches :: "string \<Rightarrow> subject \<Rightarrow> confirmation_row \<Rightarrow> bool" where
  "matches digest subject row \<longleftrightarrow> cr_confirmation_digest row = digest \<and>
     cr_subject_name row = sj_name subject \<and> cr_subject_device row = sj_device subject \<and> cr_used_at row = None"

definition confirmation_reject_reason ::
  "confirmation_row option \<Rightarrow> string \<Rightarrow> action_request \<Rightarrow> string option \<Rightarrow> instant \<Rightarrow> exn + string option" where
  "confirmation_reject_reason found token_hash request response now =
     (case found of
        None \<Rightarrow> Inr (Some ''no_matching_confirmation'')
      | Some row \<Rightarrow>
          bind_sum (compare_digest (cr_token_hash row) token_hash) (\<lambda>same.
          if \<not> same then Inr (Some ''token_mismatch'')
          else if cr_expires_at row \<le> now then Inr (Some ''expired'')
          else if cr_control row \<noteq> cx_control (rq_context request) then Inr (Some ''control_mismatch'')
          else case cr_expected_response row of
                 None \<Rightarrow> Inr None
               | Some expected \<Rightarrow>
                   bind_sum (compare_digest expected (case response of None \<Rightarrow> [] | Some s \<Rightarrow> s)) (\<lambda>typed.
                     if typed then Inr None else Inr (Some ''typed_response_mismatch''))))"

definition use_row :: "instant \<Rightarrow> confirmation_row \<Rightarrow> confirmation_row" where
  "use_row now row = row\<lparr>cr_used_at := Some now\<rparr>"

definition consume_confirmation ::
  "store_cfg \<Rightarrow> instant \<Rightarrow> action_request \<Rightarrow> subject \<Rightarrow> string \<Rightarrow> string option \<Rightarrow> db \<Rightarrow> (exn + bool) \<times> db" where
  "consume_confirmation cfg now request subject token response = transaction (\<lambda>db.
     let token_hash = sha256_hex (sc_crypto cfg) token;
         digest = confirmation_digest (sc_crypto cfg) request;
         found = newest (filter (matches digest subject) (db_confirmations db))
     in bind_sum (confirmation_reject_reason found token_hash request response now) (\<lambda>reject.
        case (reject, found) of
          (None, Some row) \<Rightarrow>
            bind_sum
              (audit cfg now ''confirmation.consumed''
                (JObj [(''confirmation_id'', JStr (cr_id row)), (''confirmation_digest'', JStr digest)])
                (db\<lparr>db_confirmations := update_by cr_id (cr_id row) (use_row now) (db_confirmations db)\<rparr>))
              (\<lambda>db'. Inr (True, db'))
        | (None, None) \<Rightarrow> Inl (PyTypeError ''row is None'')
        | (Some reason, _) \<Rightarrow>
            bind_sum
              (audit cfg now ''confirmation.rejected''
                (JObj [(''confirmation_digest'', JStr digest), (''subject'', subject_json subject),
                  (''reason'', JStr reason)]) db)
              (\<lambda>db'. Inr (False, db'))))"

definition cancel_confirmation ::
  "store_cfg \<Rightarrow> instant \<Rightarrow> string \<Rightarrow> subject \<Rightarrow> db \<Rightarrow> (exn + bool) \<times> db" where
  "cancel_confirmation cfg now confirmation_id subject = transaction (\<lambda>db.
     case find (\<lambda>row. cr_id row = confirmation_id \<and> cr_subject_name row = sj_name subject \<and>
         cr_subject_device row = sj_device subject \<and> cr_used_at row = None) (db_confirmations db) of
       None \<Rightarrow> Inr (False, db)
     | Some row \<Rightarrow>
         bind_sum
           (audit cfg now ''confirmation.cancelled''
             (JObj [(''confirmation_id'', JStr confirmation_id), (''subject'', subject_json subject)])
             (db\<lparr>db_confirmations := update_by cr_id confirmation_id (use_row now) (db_confirmations db)\<rparr>))
           (\<lambda>db'. Inr (True, db')))"

end
