(* ===== verification/StoreLaws.thy ===== *)
theory StoreLaws
  imports Confirmations
begin

text \<open>
  What every operation of the store promises: the invariant of the database (\<open>db_inv\<close>), the
  way its tables may change (\<open>db_evolves\<close>: rows are never removed, a job changes its state
  only along the state machine and not at all once it is terminal, a used confirmation
  stays as it is, the audit log is append-only), and the atomicity of a failing operation.
  The contract is the locale \<open>store_operation\<close>, interpreted on every operation; the locales
  \<open>job_row_write\<close> and \<open>row_sweep\<close> carry the proofs for single-row and multi-row writes.
\<close>

section \<open>The invariant\<close>

definition lease_ok :: "job_row \<Rightarrow> bool" where
  "lease_ok r \<longleftrightarrow> (jr_lease_owner r = None \<longleftrightarrow> jr_lease_token r = None) \<and>
     (jr_lease_expires_at r = None \<longleftrightarrow> jr_lease_token r = None) \<and>
     (jr_state r = RUNNING \<longrightarrow> jr_lease_token r \<noteq> None) \<and>
     (jr_state r \<notin> {RUNNING, VERIFYING} \<longrightarrow> jr_lease_token r = None)"

definition not_legacy :: "error_cell \<Rightarrow> bool" where
  "not_legacy c = (case c of ErrLegacy s \<Rightarrow> False | _ \<Rightarrow> True)"

definition row_inv :: "store_cfg \<Rightarrow> job_row \<Rightarrow> bool" where
  "row_inv cfg r \<longleftrightarrow> jr_request_digest r = request_digest (sc_crypto cfg) (jr_request r) \<and>
     jr_idempotency_key r = rq_idempotency_key (jr_request r) \<and> jr_state r \<in> set live_states \<and>
     lease_ok r \<and> not_legacy (jr_error r) \<and> 0 \<le> jr_reconcile_attempts r"

definition db_inv :: "store_cfg \<Rightarrow> db \<Rightarrow> bool" where
  "db_inv cfg db \<longleftrightarrow> distinct (map jr_id (db_jobs db)) \<and> distinct (map jr_idempotency_key (db_jobs db)) \<and>
     (\<forall>r \<in> set (db_jobs db). row_inv cfg r) \<and> distinct (map cr_id (db_confirmations db)) \<and>
     audit_inv cfg (db_audit db)"

section \<open>How the tables evolve\<close>

definition row_evolves :: "job_row \<Rightarrow> job_row \<Rightarrow> bool" where
  "row_evolves r r' \<longleftrightarrow> jr_id r' = jr_id r \<and> jr_idempotency_key r' = jr_idempotency_key r \<and>
     jr_request r' = jr_request r \<and> jr_request_digest r' = jr_request_digest r \<and>
     jr_subject r' = jr_subject r \<and> jr_created_at r' = jr_created_at r \<and>
     job_steps (jr_state r) (jr_state r') \<and> (terminal (jr_state r) \<longrightarrow> r' = r) \<and>
     (started (jr_state r) \<longrightarrow> jr_lease_token r' \<in> {jr_lease_token r, None}) \<and>
     jr_reconcile_attempts r \<le> jr_reconcile_attempts r'"

definition confirmation_evolves :: "confirmation_row \<Rightarrow> confirmation_row \<Rightarrow> bool" where
  "confirmation_evolves c c' \<longleftrightarrow> c' = c \<or> (cr_used_at c = None \<and> (\<exists>t. c' = c\<lparr>cr_used_at := Some t\<rparr>))"

definition log_grows :: "audit_log \<Rightarrow> audit_log \<Rightarrow> bool" where
  "log_grows l l' \<longleftrightarrow> (\<exists>new. al_events l' = al_events l @ new)"

definition db_evolves :: "db \<Rightarrow> db \<Rightarrow> bool" where
  "db_evolves db db' \<longleftrightarrow> grows row_evolves (db_jobs db) (db_jobs db') \<and>
     grows confirmation_evolves (db_confirmations db) (db_confirmations db') \<and>
     log_grows (db_audit db) (db_audit db')"

lemma job_steps_trans: "job_steps s t \<Longrightarrow> job_steps t u \<Longrightarrow> job_steps s u"
  by (rotate_tac, induction rule: job_steps.induct) (auto intro: job_steps.intros)

lemma job_steps_one: "t \<in> set (ALLOWED_TRANSITIONS s) \<Longrightarrow> job_steps s t"
  by (meson job_step_allowed job_steps.intros)

lemma row_evolves_refl [intro, simp]: "row_evolves r r"
  by (simp add: row_evolves_def job_steps.here)

lemma row_evolves_trans: "row_evolves r s \<Longrightarrow> row_evolves s t \<Longrightarrow> row_evolves r t"
  by (auto simp: row_evolves_def intro: job_steps_trans dest: started_steps)

lemma confirmation_evolves_refl [intro, simp]: "confirmation_evolves c c"
  by (simp add: confirmation_evolves_def)

lemma confirmation_evolves_trans:
  "confirmation_evolves c d \<Longrightarrow> confirmation_evolves d e \<Longrightarrow> confirmation_evolves c e"
  by (auto simp: confirmation_evolves_def)

lemma log_grows_refl [intro, simp]: "log_grows l l"
  by (simp add: log_grows_def)

lemma log_grows_trans: "log_grows l m \<Longrightarrow> log_grows m n \<Longrightarrow> log_grows l n"
  by (auto simp: log_grows_def)

lemma db_evolves_refl [intro, simp]: "db_evolves db db"
  by (simp add: db_evolves_def grows_refl)

lemma db_evolves_trans: "db_evolves d e \<Longrightarrow> db_evolves e f \<Longrightarrow> db_evolves d f"
  unfolding db_evolves_def
  by (meson grows_trans row_evolves_trans confirmation_evolves_trans log_grows_trans)

section \<open>Shared steps\<close>

lemma transaction_cases:
  assumes "transaction body db = (res, db')"
  obtains (rolled_back) e where "res = Inl e" "db' = db"
  | (committed) x where "res = Inr x" "body db = Inr (x, db')" "db_writable db"
  using assms by (auto simp: transaction_def split: if_splits sum.splits)

lemma transaction_committed:
  "transaction body db = (Inr x, db') \<longleftrightarrow> db_writable db \<and> body db = Inr (x, db')"
  by (auto simp: transaction_def split: sum.splits prod.splits)

lemma transaction_Inl: "transaction body db = (Inl e, db') \<Longrightarrow> db' = db"
  by (auto elim: transaction_cases)

lemma audit_Inr:
  assumes "audit cfg now ty pl db = Inr db'"
  shows "db_jobs db' = db_jobs db" "db_confirmations db' = db_confirmations db"
    "db_writable db' = db_writable db" "append_audit cfg now ty pl (db_audit db) = Inr (db_audit db')"
  using assms by (auto simp: audit_def)

text \<open>The audit part of a write: the log grows and stays valid.\<close>

definition audit_kept :: "store_cfg \<Rightarrow> audit_log \<Rightarrow> audit_log \<Rightarrow> bool" where
  "audit_kept cfg l l' \<longleftrightarrow> log_grows l l' \<and> (audit_inv cfg l \<longrightarrow> audit_inv cfg l')"

lemma audit_kept_refl [intro, simp]: "audit_kept cfg l l"
  by (simp add: audit_kept_def)

lemma audit_kept_trans: "audit_kept cfg l m \<Longrightarrow> audit_kept cfg m n \<Longrightarrow> audit_kept cfg l n"
  by (auto simp: audit_kept_def intro: log_grows_trans)

lemma append_audit_kept:
  assumes "hex_output (sc_crypto cfg)" and "append_audit cfg now ty pl l = Inr l'"
  shows "audit_kept cfg l l'"
  using append_audit_inv [OF assms(1) _ assms(2)] append_audit_Inr [OF assms(2)]
  by (auto simp: audit_kept_def log_grows_def)

lemma audit_audit_kept:
  "hex_output (sc_crypto cfg) \<Longrightarrow> audit cfg now ty pl db = Inr db' \<Longrightarrow> audit_kept cfg (db_audit db) (db_audit db')"
  using append_audit_kept audit_Inr(4) by blast

text \<open>The idealisation of the chain's hash function under which an append cannot hit the
  \<open>UNIQUE\<close> constraint on \<open>event_hash\<close>.\<close>

definition collision_free :: "store_cfg \<Rightarrow> bool" where
  "collision_free cfg \<longleftrightarrow> inj (keyed_hash cfg)"

lemma verified_hash:
  assumes "verify_audit_chain cfg evs = Inr True" and "e \<in> set evs"
  shows "ev_event_hash e = keyed_hash cfg (material_of e)"
proof -
  from assms(2) obtain xs ys where "evs = xs @ e # ys" by (auto simp: in_set_conv_decomp)
  with assms(1) obtain p where "linked cfg p e"
    by (auto simp only: verify_audit_chain_def verify_from_append verify_from_Cons)
  then show ?thesis by (rule linked_hash)
qed

lemma material_sequence: "material_of e = material_of e' \<Longrightarrow> ev_sequence e = ev_sequence e'"
  by (auto simp: material_of_def chain_material_def append_sep_eq sep_notin_str_int)

lemma append_audit_total:
  assumes "collision_free cfg" and "audit_inv cfg log"
  shows "\<exists>log'. append_audit cfg now ty pl log = Inr log'"
proof -
  let ?e = "new_event cfg now ty pl log"
  have hash: "ev_event_hash ?e = keyed_hash cfg (material_of ?e)" and seq: "ev_sequence ?e = al_last_sequence log + 1"
    by (simp_all add: new_event_def Let_def material_of_def chain_hash_def)
  have "ev_event_hash ?e \<noteq> ev_event_hash e" if "e \<in> set (al_events log)" for e
  proof
    assume "ev_event_hash ?e = ev_event_hash e"
    with hash verified_hash assms that have "material_of ?e = material_of e"
      by (metis audit_inv_def collision_free_def injD)
    then have "ev_sequence ?e = ev_sequence e" by (rule material_sequence)
    with assms(2) that seq show False by (auto simp: audit_inv_def)
  qed
  then show ?thesis by (auto simp: append_audit_def Let_def)
qed

lemma audit_total:
  assumes "collision_free cfg" and "audit_inv cfg (db_audit db)"
  obtains db' where "audit cfg now ty pl db = Inr db'"
  using append_audit_total [OF assms, of now ty pl] by (auto simp: audit_def)

text \<open>Views of the rows of a database within the invariant always succeed.\<close>

lemma job_view_total: "not_legacy (jr_error r) \<Longrightarrow> \<exists>v. job_view_of r = Inr v"
  by (cases "jr_error r") (auto simp: job_view_of_def job_error_of_cell_def not_legacy_def)

lemma job_view_fields:
  "job_view_of r = Inr v \<Longrightarrow> jv_id v = jr_id r \<and> jv_state v = jr_state r \<and> jv_result v = jr_result r \<and>
     jv_action_id v = rq_action_id (jr_request r) \<and> jv_target v = rq_target (jr_request r)"
  by (auto simp: job_view_of_def)

lemma find_job_iff: "db_inv cfg db \<Longrightarrow> find_job i db = Some r \<longleftrightarrow> r \<in> set (db_jobs db) \<and> jr_id r = i"
  by (simp add: db_inv_def lookup_by_iff)

lemma find_job_inv: "db_inv cfg db \<Longrightarrow> find_job i db = Some r \<Longrightarrow> row_inv cfg r \<and> jr_id r = i"
  by (auto simp: db_inv_def dest: lookup_by_SomeD)

section \<open>Writes to job rows\<close>

text \<open>A write \<open>f\<close> to rows that satisfy \<open>pre\<close>: it evolves the row and keeps its invariant.\<close>

locale job_row_write =
  fixes cfg :: store_cfg and pre :: "job_row \<Rightarrow> bool" and f :: "job_row \<Rightarrow> job_row"
  assumes evolves_row: "row_inv cfg r \<Longrightarrow> pre r \<Longrightarrow> row_evolves r (f r)"
    and keeps_row: "row_inv cfg r \<Longrightarrow> pre r \<Longrightarrow> row_inv cfg (f r)"
begin

lemma write_rows:
  assumes "db_inv cfg db" and "\<And>r. r \<in> set (db_jobs db) \<Longrightarrow> P r \<Longrightarrow> pre r"
    and "db_jobs db' = map (\<lambda>r. if P r then f r else r) (db_jobs db)"
    and "db_confirmations db' = db_confirmations db"
    and "audit_kept cfg (db_audit db) (db_audit db')"
  shows "db_inv cfg db' \<and> db_evolves db db'"
proof -
  let ?g = "\<lambda>r. if P r then f r else r"
  have ev: "row_evolves r (?g r)" and inv: "row_inv cfg (?g r)" if "r \<in> set (db_jobs db)" for r
    using that assms(1,2) evolves_row keeps_row by (auto simp: db_inv_def)
  have "map jr_id (map ?g (db_jobs db)) = map jr_id (db_jobs db)"
    and "map jr_idempotency_key (map ?g (db_jobs db)) = map jr_idempotency_key (db_jobs db)"
    using ev by (auto simp: row_evolves_def)
  moreover have "\<forall>r \<in> set (db_jobs db'). row_inv cfg r"
    unfolding assms(3) set_map using inv by blast
  moreover have "grows row_evolves (db_jobs db) (db_jobs db')"
    unfolding assms(3) using ev by (rule grows_map)
  ultimately show ?thesis
    using assms(1,4,5) by (simp add: db_inv_def db_evolves_def audit_kept_def grows_refl assms(3) del: map_map)
qed

lemma write_row:
  assumes "db_inv cfg db" and "find_job i db = Some r" and "pre r"
    and "db_jobs db' = update_by jr_id i f (db_jobs db)"
    and "db_confirmations db' = db_confirmations db"
    and "audit_kept cfg (db_audit db) (db_audit db')"
  shows "db_inv cfg db' \<and> db_evolves db db'"
proof (rule write_rows [OF assms(1) _ _ assms(5,6)])
  show "db_jobs db' = map (\<lambda>r. if jr_id r = i then f r else r) (db_jobs db)"
    using assms(4) by (simp add: update_by_def)
  show "pre q" if "q \<in> set (db_jobs db)" "jr_id q = i" for q
    using that assms(1,2,3) by (metis find_job_iff option.inject)
qed

end

lemma live_write:
  "row_inv cfg r \<Longrightarrow> t \<in> set (ALLOWED_TRANSITIONS (jr_state r)) \<Longrightarrow>
     t \<in> set live_states \<and> \<not> terminal (jr_state r) \<and> job_steps (jr_state r) t"
  using live_step [of "jr_state r" t] terminal_no_step
  by (auto simp: row_inv_def job_step_allowed job_steps_one)

lemmas write_defs = row_evolves_def row_inv_def lease_ok_def not_legacy_def started_def

interpretation lease_write: job_row_write cfg "\<lambda>r. jr_state r = QUEUED" "lease_row now worker_id token secs"
  for cfg now worker_id token secs
proof unfold_locales
  fix r assume r: "row_inv cfg r" "jr_state r = QUEUED"
  note live_write [OF r(1), of RUNNING]
  with r show "row_evolves r (lease_row now worker_id token secs r)" "row_inv cfg (lease_row now worker_id token secs r)"
    by (auto simp: write_defs lease_row_def)
qed

interpretation transition_write: job_row_write cfg
    "\<lambda>r. tgt \<in> set (ALLOWED_TRANSITIONS (jr_state r)) \<and> tgt \<noteq> RUNNING" "transition_row now tgt result err"
  for cfg now tgt result err
proof unfold_locales
  fix r assume r: "row_inv cfg r" "tgt \<in> set (ALLOWED_TRANSITIONS (jr_state r)) \<and> tgt \<noteq> RUNNING"
  note live_write [OF r(1), of tgt]
  with r show "row_evolves r (transition_row now tgt result err r)" "row_inv cfg (transition_row now tgt result err r)"
    by (auto simp: write_defs transition_row_def Let_def split: option.split)
qed

interpretation unknown_write: job_row_write cfg "\<lambda>r. jr_state r \<in> {RUNNING, VERIFYING}" "unknown_row now"
  for cfg now
proof unfold_locales
  fix r assume r: "row_inv cfg r" "jr_state r \<in> {RUNNING, VERIFYING}"
  have "job_steps (jr_state r) UNKNOWN_OUTCOME \<and> \<not> terminal (jr_state r)"
    using live_write [OF r(1), of UNKNOWN_OUTCOME] r(2) by auto
  with r show "row_evolves r (unknown_row now r)" "row_inv cfg (unknown_row now r)"
    by (auto simp: write_defs unknown_row_def live_states_def)
qed

interpretation expired_write: job_row_write cfg "\<lambda>r. jr_state r = QUEUED" "expired_row now"
  for cfg now
proof unfold_locales
  fix r assume r: "row_inv cfg r" "jr_state r = QUEUED"
  note live_write [OF r(1), of EXPIRED]
  with r show "row_evolves r (expired_row now r)" "row_inv cfg (expired_row now r)"
    by (auto simp: write_defs expired_row_def)
qed

interpretation renew_write: job_row_write cfg "renewable job_id token"
    "\<lambda>r. r\<lparr>jr_lease_expires_at := Some t, jr_updated_at := now\<rparr>"
  for cfg job_id token t now
  by unfold_locales
    (auto simp: write_defs renewable_def job_steps.here TERMINAL_JOB_STATES_def)

interpretation attempt_write: job_row_write cfg "\<lambda>r. jr_state r = UNKNOWN_OUTCOME"
    "\<lambda>r. r\<lparr>jr_reconcile_attempts := jr_reconcile_attempts r + 1\<rparr>"
  for cfg
  by unfold_locales (auto simp: write_defs job_steps.here TERMINAL_JOB_STATES_def)

section \<open>Sweeps over many rows\<close>

text \<open>A loop over rows selected beforehand that rewrites each of them by its key and audits it.\<close>

locale row_sweep = keyed_update jr_id f for f :: "job_row \<Rightarrow> job_row" +
  fixes cfg :: store_cfg and body :: "job_row \<Rightarrow> db \<Rightarrow> exn + db" and selected :: "job_row \<Rightarrow> bool"
  assumes idempotent: "f (f r) = f r"
    and body_jobs: "body row db = Inr db' \<Longrightarrow> db_jobs db' = update_by jr_id (jr_id row) f (db_jobs db)"
    and body_confirmations: "body row db = Inr db' \<Longrightarrow> db_confirmations db' = db_confirmations db"
    and body_audit: "hex_output (sc_crypto cfg) \<Longrightarrow> body row db = Inr db' \<Longrightarrow>
      audit_kept cfg (db_audit db) (db_audit db')"
    and body_total: "collision_free cfg \<Longrightarrow> audit_inv cfg (db_audit db) \<Longrightarrow> selected row \<Longrightarrow>
      \<exists>db'. body row db = Inr db'"
    and body_writable: "body row db = Inr db' \<Longrightarrow> db_writable db' = db_writable db"
begin

lemma sweep_total:
  assumes "hex_output (sc_crypto cfg)" and "collision_free cfg"
  shows "audit_inv cfg (db_audit db) \<Longrightarrow> list_all selected rows \<Longrightarrow> \<exists>db'. for_each body rows db = Inr db'"
proof (induction rows arbitrary: db)
  case (Cons row rows)
  then obtain db1 where db1: "body row db = Inr db1" using body_total [OF assms(2) Cons.prems(1), of row] by auto
  with body_audit [OF assms(1) db1] Cons show ?case by (auto simp: audit_kept_def)
qed simp

lemma sweep_writable: "for_each body rows db = Inr db' \<Longrightarrow> db_writable db' = db_writable db"
  by (induction rows arbitrary: db) (auto dest: body_writable)

lemma sweep_jobs:
  "for_each body rows db = Inr db' \<Longrightarrow>
     db_jobs db' = map (\<lambda>r. if jr_id r \<in> jr_id ` set rows then f r else r) (db_jobs db)"
proof (induction rows arbitrary: db)
  case (Cons row rows)
  then obtain db1 where db1: "body row db = Inr db1" "for_each body rows db1 = Inr db'" by auto
  from Cons.IH [OF db1(2)] body_jobs [OF db1(1)] show ?case
    by (auto simp: update_by_def key_kept idempotent)
qed simp

lemma sweep_confirmations:
  "for_each body rows db = Inr db' \<Longrightarrow> db_confirmations db' = db_confirmations db"
  by (induction rows arbitrary: db) (auto dest: body_confirmations)

lemma sweep_audit:
  assumes "hex_output (sc_crypto cfg)"
  shows "for_each body rows db = Inr db' \<Longrightarrow> audit_kept cfg (db_audit db) (db_audit db')"
  by (induction rows arbitrary: db) (auto dest: body_audit [OF assms] intro: audit_kept_trans)

end

lemma selected_ids:
  "distinct (map jr_id js) \<Longrightarrow> r \<in> set js \<Longrightarrow> jr_id r \<in> jr_id ` set (filter P js) \<longleftrightarrow> P r"
  by (auto simp: distinct_map inj_on_def)

interpretation lease_sweep: row_sweep "unknown_row now" cfg "expire_lease_row cfg now" "\<lambda>r. jr_state r \<in> {RUNNING, VERIFYING}"
  for cfg now
proof unfold_locales
  show "audit_kept cfg (db_audit db) (db_audit db')"
    if "hex_output (sc_crypto cfg)" "expire_lease_row cfg now row db = Inr db'" for row db db'
    using that audit_audit_kept by (fastforce simp: expire_lease_row_def)
  show "\<exists>db'. expire_lease_row cfg now row db = Inr db'"
    if "collision_free cfg" "audit_inv cfg (db_audit db)" "(\<lambda>r. jr_state r \<in> {RUNNING, VERIFYING}) row" for row db
  proof -
    have "audit_inv cfg (db_audit (db\<lparr>db_jobs := update_by jr_id (jr_id row) (unknown_row now) (db_jobs db)\<rparr>))"
      using that(2) by simp
    from append_audit_total [OF that(1) this] show ?thesis
      using that(3) by (auto simp: expire_lease_row_def audit_def)
  qed
qed (auto simp: expire_lease_row_def unknown_row_def dest: audit_Inr)

interpretation queue_sweep: row_sweep "expired_row now" cfg "expire_queued_row cfg now" "\<lambda>r. jr_state r = QUEUED"
  for cfg now
proof unfold_locales
  show "audit_kept cfg (db_audit db) (db_audit db')"
    if "hex_output (sc_crypto cfg)" "expire_queued_row cfg now row db = Inr db'" for row db db'
    using that audit_audit_kept by (fastforce simp: expire_queued_row_def)
  show "\<exists>db'. expire_queued_row cfg now row db = Inr db'"
    if "collision_free cfg" "audit_inv cfg (db_audit db)" "(\<lambda>r. jr_state r = QUEUED) row" for row db
  proof -
    have "audit_inv cfg (db_audit (db\<lparr>db_jobs := update_by jr_id (jr_id row) (expired_row now) (db_jobs db)\<rparr>))"
      using that(2) by simp
    from append_audit_total [OF that(1) this] show ?thesis
      using that(3) by (auto simp: expire_queued_row_def audit_def)
  qed
qed (auto simp: expire_queued_row_def expired_row_def dest: audit_Inr)

lemma db_inv_ids: "db_inv cfg db \<Longrightarrow> distinct (map jr_id (db_jobs db))"
  by (simp add: db_inv_def)

lemma expire_leases_jobs:
  assumes "db_inv cfg db" and "expire_leases cfg now db = (Inr n, db')"
  shows "db_jobs db' = map (\<lambda>r. if lease_lapsed now r then unknown_row now r else r) (db_jobs db)"
    and "n = length (filter (lease_lapsed now) (db_jobs db))"
proof -
  let ?rows = "filter (lease_lapsed now) (db_jobs db)"
  have run: "for_each (expire_lease_row cfg now) ?rows db = Inr db'" and n: "n = length ?rows"
    using assms(2) by (auto simp: expire_leases_def transaction_committed Let_def)
  show "n = length ?rows" by (rule n)
  show "db_jobs db' = map (\<lambda>r. if lease_lapsed now r then unknown_row now r else r) (db_jobs db)"
    unfolding lease_sweep.sweep_jobs [OF run]
    by (rule map_cong [OF refl]) (metis selected_ids db_inv_ids assms(1))
qed

lemma expire_stale_queued_jobs:
  assumes "db_inv cfg db" and "expire_stale_queued cfg now ttl db = (Inr n, db')"
  shows "db_jobs db' = map (\<lambda>r. if stale_queued now ttl r then expired_row now r else r) (db_jobs db)"
    and "n = length (filter (stale_queued now ttl) (db_jobs db))"
proof -
  let ?rows = "filter (stale_queued now ttl) (db_jobs db)"
  have run: "for_each (expire_queued_row cfg now) ?rows db = Inr db'" and n: "n = length ?rows"
    using assms(2) by (auto simp: expire_stale_queued_def transaction_committed Let_def)
  show "n = length ?rows" by (rule n)
  show "db_jobs db' = map (\<lambda>r. if stale_queued now ttl r then expired_row now r else r) (db_jobs db)"
    unfolding queue_sweep.sweep_jobs [OF run]
    by (rule map_cong [OF refl]) (metis selected_ids db_inv_ids assms(1))
qed

text \<open>The reconciliation claim: every selected row within the budget has one more attempt.\<close>

abbreviation budgeted :: "int \<Rightarrow> job_row list \<Rightarrow> job_row \<Rightarrow> bool" where
  "budgeted max_attempts rows r \<equiv> r \<in> set rows \<and> jr_reconcile_attempts r < max_attempts"

abbreviation attempt :: "job_row \<Rightarrow> job_row" where
  "attempt r \<equiv> r\<lparr>jr_reconcile_attempts := jr_reconcile_attempts r + 1\<rparr>"

lemma reconcile_row_jobs:
  "reconcile_row cfg now m row db = Inr db' \<Longrightarrow> db_jobs db' =
     update_by jr_id (jr_id row) (\<lambda>r. r\<lparr>jr_reconcile_attempts := jr_reconcile_attempts row + 1\<rparr>) (db_jobs db)"
  by (auto simp: reconcile_row_def Let_def dest: audit_Inr split: if_splits)

lemma reconcile_row_rest:
  "reconcile_row cfg now m row db = Inr db' \<Longrightarrow> db_confirmations db' = db_confirmations db \<and>
     (hex_output (sc_crypto cfg) \<longrightarrow> audit_kept cfg (db_audit db) (db_audit db'))"
  using audit_audit_kept
  by (fastforce simp: reconcile_row_def Let_def dest: audit_Inr(2) split: if_splits)

lemma reconcile_rows_result:
  assumes "reconcile_rows cfg now m rows db = Inr (vs, db')"
    and "distinct (map jr_id rows)" and "distinct (map jr_id (db_jobs db))"
    and "set rows \<subseteq> set (db_jobs db)"
  shows "db_jobs db' = map (\<lambda>r. if budgeted m rows r then attempt r else r) (db_jobs db) \<and>
    db_confirmations db' = db_confirmations db \<and>
    (hex_output (sc_crypto cfg) \<longrightarrow> audit_kept cfg (db_audit db) (db_audit db')) \<and>
    job_views_of (filter (\<lambda>r. jr_reconcile_attempts r < m) rows) = Inr vs"
  using assms
proof (induction cfg now m rows db arbitrary: vs rule: reconcile_rows.induct)
  case (1 cfg now m db)
  then show ?case by simp
next
  case (2 cfg now m row rows db)
  show ?case
  proof (cases "jr_reconcile_attempts row \<ge> m")
    case True
    have "db_jobs db' = map (\<lambda>r. if budgeted m rows r then attempt r else r) (db_jobs db) \<and>
      db_confirmations db' = db_confirmations db \<and>
      (hex_output (sc_crypto cfg) \<longrightarrow> audit_kept cfg (db_audit db) (db_audit db')) \<and>
      job_views_of (filter (\<lambda>r. jr_reconcile_attempts r < m) rows) = Inr vs"
      by (rule "2.IH"(1)) (use True "2.prems" in \<open>auto simp: Let_def\<close>)
    with True show ?thesis by auto
  next
    case False
    from "2.prems"(1) False obtain db2 v vs' where db2: "reconcile_row cfg now m row db = Inr db2"
      and v: "job_view_of row = Inr v" and rest: "reconcile_rows cfg now m rows db2 = Inr (vs', db')"
      and vs: "vs = v # vs'"
      by (auto split: prod.splits)
    have same: "jr_id r = jr_id row \<longleftrightarrow> r = row" if "r \<in> set (db_jobs db)" for r
      using that "2.prems"(3,4) by (auto simp: distinct_map inj_on_def)
    have jobs2: "db_jobs db2 = map (\<lambda>r. if r = row then attempt r else r) (db_jobs db)"
      unfolding reconcile_row_jobs [OF db2] update_by_def using same by (intro map_cong) auto
    note conf2 = reconcile_row_rest [OF db2]
    have rows2: "set rows \<subseteq> set (db_jobs db2)"
      using "2.prems"(2,4) unfolding jobs2 by (force simp: image_iff)
    have ids2: "map jr_id (db_jobs db2) = map jr_id (db_jobs db)" by (simp add: jobs2)
    have IH: "db_jobs db' = map (\<lambda>r. if budgeted m rows r then attempt r else r) (db_jobs db2) \<and>
      db_confirmations db' = db_confirmations db2 \<and>
      (hex_output (sc_crypto cfg) \<longrightarrow> audit_kept cfg (db_audit db2) (db_audit db')) \<and>
      job_views_of (filter (\<lambda>r. jr_reconcile_attempts r < m) rows) = Inr vs'"
      by (rule "2.IH"(2) [OF False rest])
        (use "2.prems" rows2 ids2 in auto)
    have notin: "row \<notin> set rows" "attempt row \<notin> set rows"
      using "2.prems"(2) by (auto simp: image_iff dest: arg_cong [where f = jr_id])
    have "db_jobs db' = map (\<lambda>r. if budgeted m (row # rows) r then attempt r else r) (db_jobs db)"
      using IH notin False unfolding jobs2 by auto
    with IH conf2 vs v False show ?thesis by (auto intro: audit_kept_trans)
  qed
qed

section \<open>The contract of an operation\<close>

locale store_operation =
  fixes cfg :: store_cfg and operation :: "db \<Rightarrow> (exn + 'a) \<times> db"
  assumes rolled_back: "operation db = (Inl e, db') \<Longrightarrow> db' = db"
    and inv_kept: "hex_output (sc_crypto cfg) \<Longrightarrow> db_inv cfg db \<Longrightarrow> operation db = (res, db') \<Longrightarrow> db_inv cfg db'"
    and evolves: "hex_output (sc_crypto cfg) \<Longrightarrow> db_inv cfg db \<Longrightarrow> operation db = (res, db') \<Longrightarrow> db_evolves db db'"

lemma store_operationI:
  assumes "\<And>db e db'. operation db = (Inl e, db') \<Longrightarrow> db' = db"
    and "\<And>db x db'. hex_output (sc_crypto cfg) \<Longrightarrow> db_inv cfg db \<Longrightarrow> operation db = (Inr x, db') \<Longrightarrow>
      db_inv cfg db' \<and> db_evolves db db'"
  shows "store_operation cfg operation"
proof -
  have "db_inv cfg db' \<and> db_evolves db db'"
    if "hex_output (sc_crypto cfg)" "db_inv cfg db" "operation db = (res, db')" for db db' res
    using assms that by (cases res) fastforce+
  with assms(1) show ?thesis by unfold_locales blast+
qed

lemma transaction_store_operation:
  assumes "\<And>db x db'. hex_output (sc_crypto cfg) \<Longrightarrow> db_inv cfg db \<Longrightarrow> body db = Inr (x, db') \<Longrightarrow>
    db_inv cfg db' \<and> db_evolves db db'"
  shows "store_operation cfg (transaction body)"
  by (rule store_operationI) (use assms transaction_Inl in \<open>auto simp: transaction_committed\<close>)

text \<open>The result of a body that ends in an audit append.\<close>

lemma audited_write:
  assumes "hex_output (sc_crypto cfg)" and "audit cfg now ty pl (db\<lparr>db_jobs := js\<rparr>) = Inr db'"
  shows "db_jobs db' = js" "db_confirmations db' = db_confirmations db" "audit_kept cfg (db_audit db) (db_audit db')"
  using audit_Inr [OF assms(2)] audit_audit_kept [OF assms] by simp_all

lemma next_claimable_Some:
  assumes "next_claimable now db = Some r"
  shows "r \<in> set (db_jobs db) \<and> claimable now r"
proof -
  let ?rows = "sort_key (\<lambda>r. isoformat (jr_created_at r)) (filter (claimable now) (db_jobs db))"
  from assms have "r \<in> set ?rows"
    by (cases ?rows) (auto simp: next_claimable_def)
  then show ?thesis by simp
qed

lemma new_row_inv: "row_inv cfg (new_job_row cfg now i r s)"
  by (simp add: write_defs new_job_row_def live_states_def)

interpretation create: store_operation cfg "create_job cfg now uid request subj"
  for cfg now uid request subj
  unfolding create_job_def
proof (rule transaction_store_operation, goal_cases)
  case (1 db x db')
  let ?id = "''job_'' @ uid" and ?row = "new_job_row cfg now (''job_'' @ uid) request subj"
  show ?case
  proof (cases "lookup_by jr_idempotency_key (rq_idempotency_key request) (db_jobs db)")
    case (Some r)
    with 1 show ?thesis by (auto simp: Let_def split: if_splits)
  next
    case None
    with 1(3) obtain ty pl where fresh: "?id \<notin> jr_id ` set (db_jobs db)"
      and w: "audit cfg now ty pl (db\<lparr>db_jobs := db_jobs db @ [?row]\<rparr>) = Inr db'"
      by (auto simp: Let_def split: if_splits option.splits)
    note w = audited_write [OF 1(1) w]
    have "jr_id ?row = ?id" "jr_idempotency_key ?row = rq_idempotency_key request"
      by (simp_all add: new_job_row_def)
    with 1(2) None fresh w new_row_inv show ?thesis
      by (auto simp: db_inv_def db_evolves_def audit_kept_def lookup_by_None_iff grows_append grows_refl)
  qed
qed

interpretation claim: store_operation cfg "claim_next_job cfg now token worker_id secs lease_for"
  for cfg now token worker_id secs lease_for
  unfolding claim_next_job_def
proof (rule transaction_store_operation, goal_cases)
  case (1 db x db')
  show ?case
  proof (cases "next_claimable now db")
    case None
    with 1 show ?thesis by simp
  next
    case (Some r)
    with 1(3) obtain n ty pl where
      w: "audit cfg now ty pl (db\<lparr>db_jobs := update_by jr_id (jr_id r) (lease_row now worker_id token n) (db_jobs db)\<rparr>) = Inr db'"
      by (auto split: option.splits)
    have "find_job (jr_id r) db = Some r" "jr_state r = QUEUED"
      using next_claimable_Some [OF Some] find_job_iff [OF 1(2)] by (auto simp: claimable_def)
    with lease_write.write_row [OF 1(2) _ _ audited_write [OF 1(1) w]] show ?thesis by blast
  qed
qed

interpretation renew: store_operation cfg "renew_lease now job_id token secs"
  for cfg now job_id token secs
  unfolding renew_lease_def
proof (rule transaction_store_operation, goal_cases)
  case (1 db x db')
  then show ?case
    by (intro renew_write.write_rows [OF 1(2), where P = "renewable job_id token"]) auto
qed

text \<open>No caller asks \<open>transition_job\<close> for RUNNING: jobs start only by \<open>claim_next_job\<close>.\<close>

lemma transition_store_operation:
  assumes "tgt \<noteq> RUNNING"
  shows "store_operation cfg (transition_job cfg now job_id tgt result err fence expected)"
  unfolding transition_job_def
proof (rule transaction_store_operation, goal_cases)
  case (1 db x db')
  from 1(3) obtain r ty pl where r: "find_job job_id db = Some r" "tgt \<in> set (ALLOWED_TRANSITIONS (jr_state r))"
    and w: "audit cfg now ty pl (db\<lparr>db_jobs := update_by jr_id job_id (transition_row now tgt result err) (db_jobs db)\<rparr>) = Inr db'"
    by (auto split: option.splits if_splits)
  show ?case
    by (rule transition_write.write_row [OF 1(2) r(1) _ audited_write [OF 1(1) w]]) (simp add: r assms)
qed

interpretation expire: store_operation cfg "expire_leases cfg now" for cfg now
proof (rule store_operationI, goal_cases)
  case (1 db e db')
  then show ?case by (simp add: expire_leases_def transaction_Inl)
next
  case (2 db x db')
  have run: "for_each (expire_lease_row cfg now) (filter (lease_lapsed now) (db_jobs db)) db = Inr db'"
    using 2(3) by (auto simp: expire_leases_def transaction_committed Let_def)
  show ?case
    by (rule unknown_write.write_rows [OF 2(2) _ expire_leases_jobs(1) [OF 2(2,3)]
        lease_sweep.sweep_confirmations [OF run] lease_sweep.sweep_audit [OF 2(1) run]])
      (simp add: lease_lapsed_def)
qed

interpretation expire_queued: store_operation cfg "expire_stale_queued cfg now ttl" for cfg now ttl
proof (rule store_operationI, goal_cases)
  case (1 db e db')
  then show ?case by (simp add: expire_stale_queued_def transaction_Inl)
next
  case (2 db x db')
  have run: "for_each (expire_queued_row cfg now) (filter (stale_queued now ttl) (db_jobs db)) db = Inr db'"
    using 2(3) by (auto simp: expire_stale_queued_def transaction_committed Let_def)
  show ?case
    by (rule expired_write.write_rows [OF 2(2) _ expire_stale_queued_jobs(1) [OF 2(2,3)]
        queue_sweep.sweep_confirmations [OF run] queue_sweep.sweep_audit [OF 2(1) run]])
      (simp add: stale_queued_def)
qed

lemma set_sql_limit: "set (sql_limit n xs) \<subseteq> set xs"
  by (auto simp: sql_limit_def dest: in_set_takeD)

lemma jobs_in_state_subset: "r \<in> set (jobs_in_state st n db) \<Longrightarrow> r \<in> set (db_jobs db) \<and> jr_state r = st"
  using set_sql_limit by (fastforce simp: jobs_in_state_def)

lemma jobs_in_state_distinct:
  assumes "distinct (map jr_id (db_jobs db))"
  shows "distinct (map jr_id (jobs_in_state st n db))"
proof -
  have "distinct (map jr_id (sort_key (\<lambda>r. isoformat (jr_updated_at r)) (filter (\<lambda>r. jr_state r = st) (db_jobs db))))"
    using assms by (auto simp: distinct_map inj_on_def)
  then show ?thesis by (auto simp: jobs_in_state_def sql_limit_def take_map [symmetric] distinct_take)
qed

interpretation reconcile: store_operation cfg "claim_reconcile_candidates cfg now m limit" for cfg now m limit
  unfolding claim_reconcile_candidates_def
proof (rule transaction_store_operation, goal_cases)
  case (1 db vs db')
  let ?rows = "jobs_in_state UNKNOWN_OUTCOME limit db"
  note ids = db_inv_ids [OF 1(2)]
  have "set ?rows \<subseteq> set (db_jobs db)" using jobs_in_state_subset by blast
  note res = reconcile_rows_result [OF 1(3) jobs_in_state_distinct [OF ids] ids this]
  show ?case
    by (rule attempt_write.write_rows [OF 1(2), where P = "budgeted m ?rows"])
      (use res 1(1) jobs_in_state_subset in auto)
qed

interpretation denial: store_operation cfg "record_policy_denial cfg now request subj phase reason"
  for cfg now request subj phase reason
  unfolding record_policy_denial_def
proof (rule transaction_store_operation, goal_cases)
  case (1 db x db')
  from 1(3) obtain ty pl where w: "audit cfg now ty pl (db\<lparr>db_jobs := db_jobs db\<rparr>) = Inr db'" by auto
  from audited_write [OF 1(1) w] 1(2) show ?case
    by (simp add: db_inv_def db_evolves_def audit_kept_def grows_refl)
qed

section \<open>Confirmations\<close>

interpretation use: keyed_update cr_id "use_row now" for now
  by unfold_locales (simp add: use_row_def)

lemma audited_confirmation_write:
  assumes "hex_output (sc_crypto cfg)" and "audit cfg now ty pl (db\<lparr>db_confirmations := cs\<rparr>) = Inr db'"
  shows "db_jobs db' = db_jobs db" "db_confirmations db' = cs" "audit_kept cfg (db_audit db) (db_audit db')"
  using audit_Inr [OF assms(2)] audit_audit_kept [OF assms] by simp_all

lemma use_write:
  assumes "hex_output (sc_crypto cfg)" and "db_inv cfg db"
    and "audit cfg now ty pl
      (db\<lparr>db_confirmations := update_by cr_id (cr_id c) (use_row t) (db_confirmations db)\<rparr>) = Inr db'"
    and "c \<in> set (db_confirmations db)" and "cr_used_at c = None"
  shows "db_inv cfg db' \<and> db_evolves db db'"
proof -
  note w = audited_confirmation_write [OF assms(1,3)]
  have unique: "q = c" if "q \<in> set (db_confirmations db)" "cr_id q = cr_id c" for q
    using that assms(2,4) by (auto simp: db_inv_def distinct_map inj_on_def)
  have "grows confirmation_evolves (db_confirmations db) (db_confirmations db')"
    unfolding w(2) update_by_def
    by (rule grows_map) (auto simp: confirmation_evolves_def use_row_def assms(5) dest: unique)
  with w assms(2) use.keys_kept show ?thesis
    by (simp add: db_inv_def db_evolves_def audit_kept_def grows_refl)
qed

lemma newest_in_set: "newest cs = Some c \<Longrightarrow> c \<in> set cs"
  by (induction cs arbitrary: c) (auto split: option.splits if_splits)

lemma find_Some: "find P xs = Some x \<Longrightarrow> x \<in> set xs \<and> P x"
  by (auto simp: find_Some_iff in_set_conv_nth)

interpretation issue: store_operation cfg
    "create_confirmation cfg now uid token request subj mode prompt ttl"
  for cfg now uid token request subj mode prompt ttl
  unfolding create_confirmation_def
proof (rule transaction_store_operation, goal_cases)
  case (1 db x db')
  let ?c = "new_confirmation_row cfg now (''confirm_'' @ uid) token request subj mode ttl"
  have "cr_id ?c = ''confirm_'' @ uid" by (simp add: new_confirmation_row_def)
  with 1(3) obtain ty pl where fresh: "cr_id ?c \<notin> cr_id ` set (db_confirmations db)"
    and w: "audit cfg now ty pl (db\<lparr>db_confirmations := db_confirmations db @ [?c]\<rparr>) = Inr db'"
    by (auto simp: Let_def split: if_splits)
  from audited_confirmation_write [OF 1(1) w] 1(2) fresh show ?case
    by (simp add: db_inv_def db_evolves_def audit_kept_def grows_refl grows_append)
qed

interpretation consume: store_operation cfg "consume_confirmation cfg now request subj token response"
  for cfg now request subj token response
  unfolding consume_confirmation_def
proof (rule transaction_store_operation, goal_cases)
  case (1 db x db')
  let ?found = "newest (filter (matches (confirmation_digest (sc_crypto cfg) request) subj) (db_confirmations db))"
  from 1(3) consider
      (used) c ty pl where "?found = Some c" and "audit cfg now ty pl
        (db\<lparr>db_confirmations := update_by cr_id (cr_id c) (use_row now) (db_confirmations db)\<rparr>) = Inr db'"
    | (rejected) ty pl where "audit cfg now ty pl (db\<lparr>db_confirmations := db_confirmations db\<rparr>) = Inr db'"
    by (fastforce simp: Let_def split: option.splits)
  then show ?case
  proof cases
    case used
    from newest_in_set [OF used(1)] show ?thesis
      by (intro use_write [OF 1(1,2) used(2)]) (auto simp: matches_def)
  next
    case rejected
    from audited_confirmation_write [OF 1(1) rejected] 1(2) show ?thesis
      by (simp add: db_inv_def db_evolves_def audit_kept_def grows_refl)
  qed
qed

interpretation cancel: store_operation cfg "cancel_confirmation cfg now confirmation_id subj"
  for cfg now confirmation_id subj
  unfolding cancel_confirmation_def
proof (rule transaction_store_operation, goal_cases)
  case (1 db x db')
  show ?case
  proof (cases "db' = db")
    case False
    with 1(3) obtain c ty pl where c: "c \<in> set (db_confirmations db)" "cr_used_at c = None" "cr_id c = confirmation_id"
      and w: "audit cfg now ty pl
        (db\<lparr>db_confirmations := update_by cr_id confirmation_id (use_row now) (db_confirmations db)\<rparr>) = Inr db'"
      by (auto split: option.splits dest!: find_Some)
    from use_write [OF 1(1,2) w [folded c(3)] c(1,2)] show ?thesis .
  qed (use 1 in simp)
qed

end
