(* ===== verification/StoreHistory.thy ===== *)
theory StoreHistory
  imports StoreLaws
begin

text \<open>
  Histories of the database: every operation of the store as one atomic step (SQLite
  serialises the \<open>BEGIN IMMEDIATE\<close> transactions of all processes), in any order and with any
  arguments, and what holds along every such history.
\<close>

inductive db_step :: "store_cfg \<Rightarrow> db \<Rightarrow> db \<Rightarrow> bool" for cfg where
  create: "create_job cfg now uid request subj db = (res, db') \<Longrightarrow> db_step cfg db db'"
| claim: "claim_next_job cfg now token worker_id secs lease_for db = (res, db') \<Longrightarrow> db_step cfg db db'"
| renew: "renew_lease now job_id token secs db = (res, db') \<Longrightarrow> db_step cfg db db'"
| transition: "transition_job cfg now job_id tgt result err fence expected db = (res, db') \<Longrightarrow>
    tgt \<noteq> RUNNING \<Longrightarrow> db_step cfg db db'"
| expire_leases: "Store.expire_leases cfg now db = (res, db') \<Longrightarrow> db_step cfg db db'"
| expire_queued: "expire_stale_queued cfg now ttl db = (res, db') \<Longrightarrow> db_step cfg db db'"
| reconcile: "claim_reconcile_candidates cfg now m limit db = (res, db') \<Longrightarrow> db_step cfg db db'"
| denial: "record_policy_denial cfg now request subj phase reason db = (res, db') \<Longrightarrow> db_step cfg db db'"
| issue: "create_confirmation cfg now uid token request subj mode prompt ttl db = (res, db') \<Longrightarrow> db_step cfg db db'"
| consume: "consume_confirmation cfg now request subj token response db = (res, db') \<Longrightarrow> db_step cfg db db'"
| cancel: "cancel_confirmation cfg now confirmation_id subj db = (res, db') \<Longrightarrow> db_step cfg db db'"
| storage: "db_step cfg db (db\<lparr>db_writable := available\<rparr>)"

inductive db_steps :: "store_cfg \<Rightarrow> db \<Rightarrow> db \<Rightarrow> bool" for cfg where
  start: "db_steps cfg db db"
| step: "db_steps cfg db db1 \<Longrightarrow> db_step cfg db1 db2 \<Longrightarrow> db_steps cfg db db2"

abbreviation reachable :: "store_cfg \<Rightarrow> db \<Rightarrow> bool" where
  "reachable cfg db \<equiv> db_steps cfg empty_db db"

lemma db_steps_trans: "db_steps cfg e f \<Longrightarrow> db_steps cfg d e \<Longrightarrow> db_steps cfg d f"
  by (induction rule: db_steps.induct) (auto intro: db_steps.intros)

lemma db_steps_one: "db_step cfg d e \<Longrightarrow> db_steps cfg d e"
  by (rule db_steps.step [OF db_steps.start])

lemma db_step_safe:
  assumes "db_step cfg db db'" and "hex_output (sc_crypto cfg)" and "db_inv cfg db"
  shows "db_inv cfg db' \<and> db_evolves db db'"
  using assms
proof cases
  case (transition now job_id tgt result err fence expected res)
  note op = transition_store_operation [OF transition(2)]
  from store_operation.inv_kept [OF op assms(2,3) transition(1)]
    store_operation.evolves [OF op assms(2,3) transition(1)] show ?thesis by blast
next
  case (storage available)
  with assms(3) show ?thesis by (simp add: db_inv_def db_evolves_def grows_refl)
qed (use assms(2,3) in \<open>blast intro: create.inv_kept create.evolves claim.inv_kept claim.evolves
   renew.inv_kept renew.evolves expire.inv_kept expire.evolves expire_queued.inv_kept
   expire_queued.evolves reconcile.inv_kept reconcile.evolves denial.inv_kept denial.evolves
   issue.inv_kept issue.evolves consume.inv_kept consume.evolves cancel.inv_kept cancel.evolves\<close>)+

lemma db_steps_safe:
  assumes "db_steps cfg db db'" and "hex_output (sc_crypto cfg)" and "db_inv cfg db"
  shows "db_inv cfg db' \<and> db_evolves db db'"
  using assms
proof (induction rule: db_steps.induct)
  case (step db db1 db2)
  then show ?case using db_step_safe db_evolves_trans by blast
qed simp

lemma empty_db_inv: "db_inv cfg empty_db"
  by (simp add: db_inv_def empty_db_def empty_log_inv)

lemma reachable_inv: "reachable cfg db \<Longrightarrow> hex_output (sc_crypto cfg) \<Longrightarrow> db_inv cfg db"
  using db_steps_safe empty_db_inv by blast

lemma find_job_evolves:
  assumes "db_inv cfg db'" and "db_evolves db db'" and "find_job i db = Some r"
  shows "\<exists>r'. find_job i db' = Some r' \<and> row_evolves r r'"
proof -
  have "r \<in> set (db_jobs db)" "jr_id r = i" using assms(3) by (auto dest: lookup_by_SomeD)
  with assms(2) obtain r' where "r' \<in> set (db_jobs db')" "row_evolves r r'"
    by (auto simp: db_evolves_def dest: grows_in_set)
  with \<open>jr_id r = i\<close> find_job_iff [OF assms(1)] show ?thesis
    by (auto simp: row_evolves_def)
qed


text \<open>(C8) Along every history a job keeps its identity (request, subject, digest, creation time),
  moves only along the state machine, and is frozen once terminal.\<close>

theorem job_history:
  assumes "reachable cfg db" and "db_steps cfg db db'" and "hex_output (sc_crypto cfg)"
    and "find_job i db = Some r"
  shows "\<exists>r'. find_job i db' = Some r' \<and> jr_request r' = jr_request r \<and> jr_subject r' = jr_subject r \<and>
    jr_request_digest r' = jr_request_digest r \<and> jr_created_at r' = jr_created_at r \<and>
    job_steps (jr_state r) (jr_state r') \<and> (terminal (jr_state r) \<longrightarrow> r' = r)"
  using find_job_evolves db_steps_safe [OF assms(2,3) reachable_inv [OF assms(1,3)]] assms(4)
  unfolding row_evolves_def by metis

lemma claim_result:
  assumes "claim_next_job cfg now token worker_id secs lease_for db = (Inr (Some c), db')" and "db_inv cfg db"
  shows "\<exists>r n. next_claimable now db = Some r \<and> find_job (jr_id r) db = Some r \<and>
    (case lease_for of None \<Rightarrow> Inr secs | Some f \<Rightarrow> f (jr_request r)) = Inr n \<and>
    db_jobs db' = update_by jr_id (jr_id r) (lease_row now worker_id token n) (db_jobs db) \<and>
    find_job (jr_id r) db' = Some (lease_row now worker_id token n r) \<and>
    job_view_of (lease_row now worker_id token n r) = Inr (cl_job c) \<and> cl_lease_token c = token"
proof -
  from assms(1) obtain r n ty pl v q where r: "next_claimable now db = Some r"
    and n: "(case lease_for of None \<Rightarrow> Inr secs | Some f \<Rightarrow> f (jr_request r)) = Inr n"
    and w: "audit cfg now ty pl (db\<lparr>db_jobs := update_by jr_id (jr_id r) (lease_row now worker_id token n) (db_jobs db)\<rparr>) = Inr db'"
    and v: "find_job (jr_id r) db' = Some q" "job_view_of q = Inr v"
    and c: "c = \<lparr>cl_job = v, cl_lease_token = token\<rparr>"
    unfolding claim_next_job_def transaction_committed
    by (auto split: option.splits)
  have keep: "keyed_update jr_id (lease_row now worker_id token n)"
    by unfold_locales (simp add: lease_row_def)
  have f: "find_job (jr_id r) db = Some r"
    using next_claimable_Some [OF r] find_job_iff [OF assms(2)] by auto
  have "find_job (jr_id r) db' = Some (lease_row now worker_id token n r)"
    unfolding audit_Inr(1) [OF w] using keyed_update.lookup_updated [OF keep] f by simp
  with r n f v c audit_Inr(1) [OF w] show ?thesis by auto
qed

text \<open>(C2) No job is started twice: once a claim has returned a job, no later claim, after any
  history and by any worker, returns the same job again.\<close>

theorem claim_at_most_once:
  assumes "reachable cfg db" and "hex_output (sc_crypto cfg)"
    and "claim_next_job cfg now token worker_id secs lease_for db = (Inr (Some c), db1)"
    and "db_steps cfg db1 db2"
    and "claim_next_job cfg now' token' worker_id' secs' lease_for' db2 = (Inr (Some c'), db3)"
  shows "jv_id (cl_job c') \<noteq> jv_id (cl_job c)"
proof
  assume same: "jv_id (cl_job c') = jv_id (cl_job c)"
  have inv: "db_inv cfg db" by (rule reachable_inv [OF assms(1,2)])
  have inv1: "db_inv cfg db1" by (rule claim.inv_kept [OF assms(2) inv assms(3)])
  have safe: "db_inv cfg db2 \<and> db_evolves db1 db2" by (rule db_steps_safe [OF assms(4,2) inv1])
  from claim_result [OF assms(3) inv] obtain r1 where r1: "find_job (jv_id (cl_job c)) db1 = Some r1"
    "jr_state r1 = RUNNING"
    by (auto dest!: job_view_fields simp: lease_row_def)
  from claim_result [OF assms(5)] safe obtain r2 where r2: "find_job (jv_id (cl_job c')) db2 = Some r2"
    "jr_state r2 = QUEUED"
    by (auto dest!: job_view_fields next_claimable_Some simp: lease_row_def claimable_def)
  from find_job_evolves [of cfg db2 db1, OF _ _ r1(1)] safe r2 same have "row_evolves r1 r2" by force
  then have "job_steps RUNNING QUEUED" using r1 r2 by (simp add: row_evolves_def)
  then have "started QUEUED" by (rule started_steps) (simp add: started_def live_states_def)
  then show False by (simp add: started_def)
qed

text \<open>(C1) Fencing: once a started job no longer carries the lease token of a former holder, every
  later transition that presents the token, after any history, is refused as a stale lease
  and changes nothing.\<close>

theorem stale_fence_refused:
  assumes "reachable cfg db" and "hex_output (sc_crypto cfg)"
    and "find_job i db = Some r" and "started (jr_state r)" and "jr_lease_token r \<noteq> Some token"
    and "db_steps cfg db db'" and "db_writable db'"
  shows "transition_job cfg now i tgt result err (Some token) expected db' =
    (Inl (StaleLease (''lease for '' @ i @ '' is no longer held'')), db')"
proof -
  from find_job_evolves [OF _ _ assms(3)] db_steps_safe [OF assms(6,2) reachable_inv [OF assms(1,2)]]
  obtain r' where r': "find_job i db' = Some r'" "row_evolves r r'" by blast
  then have "jr_lease_token r' \<noteq> Some token" using assms(4,5) by (auto simp: row_evolves_def)
  with r' assms(7) show ?thesis by (simp add: transition_job_def transaction_def)
qed

section \<open>Submitting jobs\<close>

lemma create_job_new:
  assumes "db_inv cfg db" and "collision_free cfg" and "db_writable db"
    and "''job_'' @ uid \<notin> jr_id ` set (db_jobs db)"
    and "lookup_by jr_idempotency_key (rq_idempotency_key request) (db_jobs db) = None"
  shows "\<exists>v db'. create_job cfg now uid request subj db = (Inr v, db') \<and>
    db_jobs db' = db_jobs db @ [new_job_row cfg now (''job_'' @ uid) request subj] \<and>
    db_confirmations db' = db_confirmations db \<and> db_writable db' \<and>
    jv_id v = ''job_'' @ uid \<and> jv_state v = QUEUED"
proof -
  let ?row = "new_job_row cfg now (''job_'' @ uid) request subj"
  have a: "audit_inv cfg (db_audit (db\<lparr>db_jobs := db_jobs db @ [?row]\<rparr>))" using assms(1) by (simp add: db_inv_def)
  obtain db' where w: "audit cfg now ''job.queued''
      (JObj [(''job_id'', JStr (''job_'' @ uid)), (''request_digest'', JStr (request_digest (sc_crypto cfg) request)),
        (''subject'', subject_json subj)]) (db\<lparr>db_jobs := db_jobs db @ [?row]\<rparr>) = Inr db'"
    by (rule audit_total [OF assms(2) a])
  have "find_job (''job_'' @ uid) db' = Some ?row"
    using assms(4) by (simp add: audit_Inr [OF w] lookup_by_append lookup_by_None_iff [THEN iffD2] new_job_row_def)
  moreover obtain v where "job_view_of ?row = Inr v" "jv_id v = ''job_'' @ uid" "jv_state v = QUEUED"
    using job_view_total [of ?row] job_view_fields [of ?row] by (auto simp: new_job_row_def not_legacy_def)
  ultimately show ?thesis
    using assms(3-5) w audit_Inr [OF w] by (simp add: create_job_def transaction_def Let_def)
qed

text \<open>Submission, on every branch: a new idempotency key queues one job holding the request, a
  replay of the same request returns the job it created and writes nothing, and the key with
  a different request is refused.\<close>

theorem create_job_correct:
  assumes "reachable cfg db" and "hex_output (sc_crypto cfg)" and "collision_free cfg" and "db_writable db"
    and "''job_'' @ uid \<notin> jr_id ` set (db_jobs db)"
  shows "case lookup_by jr_idempotency_key (rq_idempotency_key request) (db_jobs db) of
      None \<Rightarrow> \<exists>v db'. create_job cfg now uid request subj db = (Inr v, db') \<and>
        db_jobs db' = db_jobs db @ [new_job_row cfg now (''job_'' @ uid) request subj] \<and>
        db_confirmations db' = db_confirmations db \<and> db_writable db' \<and>
        jv_id v = ''job_'' @ uid \<and> jv_state v = QUEUED
    | Some r \<Rightarrow> (if jr_request_digest r = request_digest (sc_crypto cfg) request
        then \<exists>v. create_job cfg now uid request subj db = (Inr v, db) \<and> jv_id v = jr_id r \<and> jv_state v = jr_state r
        else create_job cfg now uid request subj db =
          (Inl (StoreError ''idempotency key reused with a different request''), db))"
proof (cases "lookup_by jr_idempotency_key (rq_idempotency_key request) (db_jobs db)")
  case None
  with create_job_new [OF reachable_inv [OF assms(1,2)] assms(3-5)] show ?thesis by simp
next
  case (Some r)
  with reachable_inv [OF assms(1,2)] have "not_legacy (jr_error r)"
    by (auto simp: db_inv_def row_inv_def dest: lookup_by_SomeD)
  then obtain v where v: "job_view_of r = Inr v" using job_view_total by blast
  from job_view_fields [OF v] Some v assms(4) show ?thesis
    by (simp add: create_job_def transaction_def Let_def)
qed

lemma create_job_stored:
  assumes "create_job cfg now uid request subj db = (Inr v, db')"
  shows "\<exists>r \<in> set (db_jobs db'). jr_idempotency_key r = rq_idempotency_key request \<and> jr_id r = jv_id v \<and>
    jr_request_digest r = request_digest (sc_crypto cfg) request"
proof (cases "lookup_by jr_idempotency_key (rq_idempotency_key request) (db_jobs db)")
  case (Some r)
  with assms show ?thesis
    by (auto simp: create_job_def transaction_committed Let_def split: if_splits
      dest!: lookup_by_SomeD job_view_fields)
next
  case None
  let ?row = "new_job_row cfg now (''job_'' @ uid) request subj"
  from None assms obtain ty pl q where w: "audit cfg now ty pl (db\<lparr>db_jobs := db_jobs db @ [?row]\<rparr>) = Inr db'"
    and q: "find_job (''job_'' @ uid) db' = Some q" "job_view_of q = Inr v"
    by (auto simp: create_job_def transaction_committed Let_def split: if_splits option.splits)
  have "jv_id v = ''job_'' @ uid" using lookup_by_SomeD [OF q(1)] job_view_fields [OF q(2)] by simp
  then show ?thesis
    by (intro bexI [of _ ?row]) (simp_all add: audit_Inr [OF w] new_job_row_def)
qed

text \<open>Idempotent submission: replaying a submission with the same idempotency key and the same
  request, after any history, returns the same job and leaves the database as it is, whatever
  fresh identifier and clock the replay would have used.\<close>

theorem create_job_idempotent:
  assumes "reachable cfg db" and "hex_output (sc_crypto cfg)"
    and "create_job cfg now uid request subj db = (Inr v, db1)"
    and "db_steps cfg db1 db2" and "db_writable db2"
  shows "\<exists>v'. create_job cfg now' uid' request subj' db2 = (Inr v', db2) \<and> jv_id v' = jv_id v"
proof -
  let ?key = "rq_idempotency_key request"
  have inv: "db_inv cfg db" by (rule reachable_inv [OF assms(1,2)])
  have inv1: "db_inv cfg db1" by (rule create.inv_kept [OF assms(2) inv assms(3)])
  have safe: "db_inv cfg db2 \<and> db_evolves db1 db2" by (rule db_steps_safe [OF assms(4,2) inv1])
  obtain r where r: "r \<in> set (db_jobs db1)" "jr_idempotency_key r = ?key" "jr_id r = jv_id v"
    "jr_request_digest r = request_digest (sc_crypto cfg) request"
    using create_job_stored [OF assms(3)] by blast
  then obtain r2 where r2: "r2 \<in> set (db_jobs db2)" "row_evolves r r2"
    using safe by (auto simp: db_evolves_def dest: grows_in_set)
  then have l: "lookup_by jr_idempotency_key ?key (db_jobs db2) = Some r2"
    using safe r by (subst lookup_by_iff) (auto simp: db_inv_def row_evolves_def)
  obtain v' where v': "job_view_of r2 = Inr v'"
    using job_view_total [of r2] safe r2(1) by (auto simp: db_inv_def row_inv_def)
  with l r r2 assms(5) job_view_fields [OF v'] show ?thesis
    by (simp add: create_job_def transaction_def Let_def row_evolves_def)
qed

section \<open>Claiming, moving and expiring jobs\<close>

lemma transition_keeps_id: "keyed_update jr_id (transition_row now tgt result err)"
  by unfold_locales (simp add: transition_row_def Let_def)

lemma lease_keeps_id: "keyed_update jr_id (lease_row now worker_id token n)"
  by unfold_locales (simp add: lease_row_def)

lemma oldest_first:
  assumes "sort_key f xs = y # ys" and "x \<in> set xs"
  shows "y \<in> set xs \<and> f y \<le> f x"
proof -
  have "sorted (map f (y # ys))" and "set xs = set (y # ys)"
    using sorted_sort_key [of f xs] set_sort [of f xs] by (simp_all add: assms(1))
  with assms(2) show ?thesis by auto
qed

lemma next_claimable_oldest:
  assumes "db_inv cfg db" and "\<forall>q \<in> set (db_jobs db). instant_ok (jr_created_at q)"
  shows "case next_claimable now db of
      None \<Rightarrow> \<forall>q \<in> set (db_jobs db). jr_state q \<noteq> QUEUED
    | Some r \<Rightarrow> find_job (jr_id r) db = Some r \<and> jr_state r = QUEUED \<and>
        (\<forall>q \<in> set (db_jobs db). jr_state q = QUEUED \<longrightarrow> jr_created_at r \<le> jr_created_at q)"
proof -
  have queued: "claimable now q \<longleftrightarrow> jr_state q = QUEUED" if "q \<in> set (db_jobs db)" for q
    using that assms(1) by (auto simp: claimable_def db_inv_def row_inv_def lease_ok_def split: option.split)
  let ?f = "\<lambda>r. isoformat (jr_created_at r)" and ?rows = "filter (claimable now) (db_jobs db)"
  show ?thesis
  proof (cases "sort_key ?f ?rows")
    case Nil
    then have "?rows = []" by (metis length_0_conv length_sort)
    with Nil queued show ?thesis by (auto simp: next_claimable_def filter_empty_conv)
  next
    case (Cons r rs)
    then have r: "next_claimable now db = Some r" by (simp add: next_claimable_def)
    have in_r: "r \<in> set (db_jobs db)" "claimable now r" using next_claimable_Some [OF r] by auto
    have "jr_created_at r \<le> jr_created_at q" if "q \<in> set (db_jobs db)" "jr_state q = QUEUED" for q
    proof -
      have "isoformat (jr_created_at r) \<le> isoformat (jr_created_at q)"
        using oldest_first [OF Cons, of q] that queued by simp
      then show ?thesis
        using isoformat_less [of "jr_created_at q" "jr_created_at r"] assms(2) in_r(1) that(1) by force
    qed
    with r in_r queued find_job_iff [OF assms(1)] show ?thesis by auto
  qed
qed

lemma claim_oldest:
  assumes "db_inv cfg db" and "collision_free cfg" and "db_writable db" and "next_claimable now db = Some r"
    and "(case lease_for of None \<Rightarrow> Inr secs | Some f \<Rightarrow> f (jr_request r)) = Inr n"
  shows "\<exists>c db'. claim_next_job cfg now token worker_id secs lease_for db = (Inr (Some c), db') \<and>
    db_jobs db' = update_by jr_id (jr_id r) (lease_row now worker_id token n) (db_jobs db) \<and>
    find_job (jr_id r) db' = Some (lease_row now worker_id token n r) \<and>
    (\<forall>j. j \<noteq> jr_id r \<longrightarrow> find_job j db' = find_job j db) \<and> db_writable db' \<and>
    jv_id (cl_job c) = jr_id r \<and> jv_state (cl_job c) = RUNNING \<and> cl_lease_token c = token"
proof -
  let ?row = "lease_row now worker_id token n r"
  let ?js = "update_by jr_id (jr_id r) (lease_row now worker_id token n) (db_jobs db)"
  have r: "find_job (jr_id r) db = Some r" "jr_state r = QUEUED"
    using next_claimable_Some [OF assms(4)] find_job_iff [OF assms(1)] by (auto simp: claimable_def)
  have a: "audit_inv cfg (db_audit (db\<lparr>db_jobs := ?js\<rparr>))" using assms(1) by (simp add: db_inv_def)
  obtain db' where w: "audit cfg now ''job.running''
      (JObj [(''job_id'', JStr (jr_id r)), (''worker_id'', JStr worker_id)]) (db\<lparr>db_jobs := ?js\<rparr>) = Inr db'"
    by (rule audit_total [OF assms(2) a])
  note look = keyed_update.lookup_updated [OF lease_keeps_id, of _ "jr_id r" now worker_id token n "db_jobs db"]
  have jobs: "find_job (jr_id r) db' = Some ?row" "j \<noteq> jr_id r \<Longrightarrow> find_job j db' = find_job j db" for j
    using r by (simp_all add: audit_Inr [OF w] look)
  obtain v where v: "job_view_of ?row = Inr v"
    using job_view_total [of ?row] find_job_inv [OF assms(1) r(1)] by (auto simp: row_inv_def lease_row_def)
  have "claim_next_job cfg now token worker_id secs lease_for db = (Inr (Some \<lparr>cl_job = v, cl_lease_token = token\<rparr>), db')"
    using assms(3-5) r jobs(1) v w by (simp add: claim_next_job_def transaction_def require_transition_def)
  then show ?thesis
    using jobs v job_view_fields [OF v] assms(3) audit_Inr [OF w] by (auto simp: lease_row_def)
qed

text \<open>Claiming, on every branch: with no queued job nothing happens; otherwise the oldest queued
  job becomes RUNNING under a lease of the requested length for this worker, the view and the
  fencing token are returned, and no other job changes.\<close>

theorem claim_next_job_correct:
  assumes "reachable cfg db" and "hex_output (sc_crypto cfg)" and "collision_free cfg" and "db_writable db"
    and "\<forall>q \<in> set (db_jobs db). instant_ok (jr_created_at q)"
    and "\<And>request. \<exists>n. lease_for request = Inr n"
  shows "(if \<forall>q \<in> set (db_jobs db). jr_state q \<noteq> QUEUED
      then claim_next_job cfg now token worker_id secs (Some lease_for) db = (Inr None, db)
      else \<exists>r n c db'. claim_next_job cfg now token worker_id secs (Some lease_for) db = (Inr (Some c), db') \<and>
        find_job (jr_id r) db = Some r \<and> jr_state r = QUEUED \<and>
        (\<forall>q \<in> set (db_jobs db). jr_state q = QUEUED \<longrightarrow> jr_created_at r \<le> jr_created_at q) \<and>
        lease_for (jr_request r) = Inr n \<and> find_job (jr_id r) db' = Some (lease_row now worker_id token n r) \<and>
        (\<forall>j. j \<noteq> jr_id r \<longrightarrow> find_job j db' = find_job j db) \<and> db_writable db' \<and>
        jv_id (cl_job c) = jr_id r \<and> jv_state (cl_job c) = RUNNING \<and> cl_lease_token c = token)"
proof (cases "next_claimable now db")
  case None
  with next_claimable_oldest [OF reachable_inv [OF assms(1,2)] assms(5), of now] assms(4) show ?thesis
    by (simp add: claim_next_job_def transaction_def)
next
  case (Some r)
  have inv: "db_inv cfg db" by (rule reachable_inv [OF assms(1,2)])
  note r = next_claimable_oldest [OF inv assms(5), of now, unfolded Some option.case]
  obtain n where n: "lease_for (jr_request r) = Inr n" using assms(6) by blast
  have "\<not> (\<forall>q \<in> set (db_jobs db). jr_state q \<noteq> QUEUED)" using r lookup_by_SomeD by metis
  moreover note claim_oldest [OF inv assms(3,4) Some, where lease_for = "Some lease_for" and n = n and secs = secs
      and token = token and worker_id = worker_id] n r
  ultimately show ?thesis by auto
qed

lemma transition_allowed:
  assumes "db_inv cfg db" and "collision_free cfg" and "db_writable db" and "find_job i db = Some r"
    and "fence = None \<or> fence = jr_lease_token r" and "expected = None \<or> expected = Some (jr_state r)"
    and "tgt \<in> set (ALLOWED_TRANSITIONS (jr_state r))"
  shows "\<exists>v db' e. transition_job cfg now i tgt result err fence expected db = (Inr v, db') \<and>
    find_job i db' = Some (transition_row now tgt result err r) \<and>
    (\<forall>j. j \<noteq> i \<longrightarrow> find_job j db' = find_job j db) \<and> db_confirmations db' = db_confirmations db \<and>
    al_events (db_audit db') = al_events (db_audit db) @ [e] \<and>
    ev_event_type e = ''job.'' @ job_state_value tgt \<and> db_writable db' \<and>
    jv_id v = i \<and> jv_state v = tgt \<and> jv_result v = result \<and> jv_error v = err"
proof -
  let ?row = "transition_row now tgt result err r"
  let ?js = "update_by jr_id i (transition_row now tgt result err) (db_jobs db)"
  let ?pl = "JObj [(''job_id'', JStr i), (''result'', opt_json JObj result), (''error'', opt_json job_error_json err)]"
  have a: "audit_inv cfg (db_audit (db\<lparr>db_jobs := ?js\<rparr>))" using assms(1) by (simp add: db_inv_def)
  obtain db' where w: "audit cfg now (''job.'' @ job_state_value tgt) ?pl (db\<lparr>db_jobs := ?js\<rparr>) = Inr db'"
    by (rule audit_total [OF assms(2) a])
  have jobs: "find_job i db' = Some ?row" "j \<noteq> i \<Longrightarrow> find_job j db' = find_job j db" for j
    using assms(4) by (simp_all add: audit_Inr [OF w] keyed_update.lookup_updated [OF transition_keeps_id])
  obtain e where e: "al_events (db_audit db') = al_events (db_audit db) @ [e]" "ev_event_type e = ''job.'' @ job_state_value tgt"
    using append_audit_Inr [OF audit_Inr(4) [OF w]] by (simp add: new_event_def Let_def)
  obtain v where v: "job_view_of ?row = Inr v"
      "jv_id v = i" "jv_state v = tgt" "jv_result v = result" "jv_error v = err"
    using find_job_inv [OF assms(1,4)]
    by (cases err) (simp_all add: job_view_of_def job_error_of_cell_def transition_row_def Let_def)
  have "transition_job cfg now i tgt result err fence expected db = (Inr v, db')"
    using assms(3-7) w jobs(1) v(1) by (auto simp: transition_job_def transaction_def require_transition_def)
  with jobs e v assms(3) audit_Inr [OF w] show ?thesis by auto
qed

lemma transition_stale:
  assumes "db_writable db" and "find_job i db = Some r"
    and "fence \<noteq> None \<and> jr_lease_token r \<noteq> fence \<or> expected \<noteq> None \<and> expected \<noteq> Some (jr_state r)"
  shows "\<exists>m. transition_job cfg now i tgt result err fence expected db = (Inl (StaleLease m), db)"
  using assms by (auto simp: transition_job_def transaction_def)

text \<open>A transition, on every branch: an unknown job, a lost fence, an unexpected state and a move
  the state machine forbids are each refused with their own error and no effect; otherwise
  exactly this row changes, the lease is dropped unless the job moves to VERIFYING, and one
  audit event of the new state is appended.\<close>

theorem transition_job_correct:
  assumes "reachable cfg db" and "hex_output (sc_crypto cfg)" and "collision_free cfg" and "db_writable db"
  shows "(case find_job i db of
      None \<Rightarrow> transition_job cfg now i tgt result err fence expected db = (Inl (StoreError ''job not found''), db)
    | Some r \<Rightarrow>
        if fence \<noteq> None \<and> jr_lease_token r \<noteq> fence \<or> expected \<noteq> None \<and> expected \<noteq> Some (jr_state r)
        then \<exists>m. transition_job cfg now i tgt result err fence expected db = (Inl (StaleLease m), db)
        else if tgt \<notin> set (ALLOWED_TRANSITIONS (jr_state r))
        then transition_job cfg now i tgt result err fence expected db = (Inl (InvalidTransition (jr_state r) tgt), db)
        else \<exists>v db' e. transition_job cfg now i tgt result err fence expected db = (Inr v, db') \<and>
          find_job i db' = Some (transition_row now tgt result err r) \<and>
          (\<forall>j. j \<noteq> i \<longrightarrow> find_job j db' = find_job j db) \<and> db_confirmations db' = db_confirmations db \<and>
          al_events (db_audit db') = al_events (db_audit db) @ [e] \<and>
          ev_event_type e = ''job.'' @ job_state_value tgt \<and> db_writable db' \<and>
          jv_id v = i \<and> jv_state v = tgt \<and> jv_result v = result \<and> jv_error v = err)"
proof (cases "find_job i db")
  case None
  with assms(4) show ?thesis by (simp add: transition_job_def transaction_def)
next
  case (Some r)
  let ?stale = "fence \<noteq> None \<and> jr_lease_token r \<noteq> fence \<or> expected \<noteq> None \<and> expected \<noteq> Some (jr_state r)"
  consider (stale) ?stale | (bad) "\<not> ?stale" "tgt \<notin> set (ALLOWED_TRANSITIONS (jr_state r))"
    | (ok) "\<not> ?stale" "tgt \<in> set (ALLOWED_TRANSITIONS (jr_state r))" by blast
  then show ?thesis
  proof cases
    case stale
    with transition_stale [OF assms(4) Some] Some show ?thesis by simp
  next
    case bad
    with Some assms(4) show ?thesis
      by (auto simp: transition_job_def transaction_def bind_sum_def require_transition_def)
  next
    case ok
    with transition_allowed [OF reachable_inv [OF assms(1,2)] assms(3,4) Some, of fence expected tgt now result err]
    show ?thesis unfolding Some option.case if_not_P [OF ok(1)] using ok by auto
  qed
qed

lemma lapsed_iff:
  assumes "instant_ok now" and "\<forall>t. jr_lease_expires_at r = Some t \<longrightarrow> instant_ok t"
  shows "lease_lapsed now r \<longleftrightarrow> jr_state r \<in> {RUNNING, VERIFYING} \<and> (\<exists>t. jr_lease_expires_at r = Some t \<and> t < now)"
  using assms by (cases "jr_lease_expires_at r") (auto simp: lease_lapsed_def sql_before_iff)

lemma expire_leases_runs:
  assumes "db_inv cfg db" and "hex_output (sc_crypto cfg)" and "collision_free cfg" and "db_writable db"
  shows "\<exists>n db'. Store.expire_leases cfg now db = (Inr n, db') \<and> db_writable db' \<and>
    db_jobs db' = map (\<lambda>r. if lease_lapsed now r then unknown_row now r else r) (db_jobs db)"
proof -
  let ?rows = "filter (lease_lapsed now) (db_jobs db)"
  have "list_all (\<lambda>r. jr_state r \<in> {RUNNING, VERIFYING}) ?rows" by (auto simp: list_all_iff lease_lapsed_def)
  from lease_sweep.sweep_total [OF assms(2,3) _ this, of db now] assms(1) obtain db' where
    sweep: "for_each (expire_lease_row cfg now) ?rows db = Inr db'"
    by (auto simp: db_inv_def)
  then have run: "Store.expire_leases cfg now db = (Inr (length ?rows), db')"
    using assms(4) by (simp add: expire_leases_def transaction_def Let_def)
  with expire_leases_jobs(1) [OF assms(1) run] lease_sweep.sweep_writable [OF sweep] assms(4) show ?thesis by blast
qed

text \<open>Lease expiry succeeds and is exact: precisely the RUNNING and VERIFYING jobs whose lease ended
  before now become UNKNOWN_OUTCOME without a lease (never QUEUED, so nothing is replayed), all
  other jobs stay as they are, and afterwards every RUNNING job has an unexpired lease.\<close>

theorem expire_leases_correct:
  assumes "reachable cfg db" and "hex_output (sc_crypto cfg)" and "collision_free cfg" and "db_writable db"
    and "instant_ok now" and "\<forall>r \<in> set (db_jobs db). \<forall>t. jr_lease_expires_at r = Some t \<longrightarrow> instant_ok t"
  shows "\<exists>n db'. Store.expire_leases cfg now db = (Inr n, db') \<and>
    db_jobs db' = map (\<lambda>r. if jr_state r \<in> {RUNNING, VERIFYING} \<and> (\<exists>t. jr_lease_expires_at r = Some t \<and> t < now)
      then unknown_row now r else r) (db_jobs db) \<and>
    (\<forall>r \<in> set (db_jobs db'). jr_state r = RUNNING \<longrightarrow> (\<exists>t. jr_lease_expires_at r = Some t \<and> now \<le> t))"
proof -
  have inv: "db_inv cfg db" by (rule reachable_inv [OF assms(1,2)])
  from expire_leases_runs [OF inv assms(2-4)] obtain n db' where run: "Store.expire_leases cfg now db = (Inr n, db')"
    by blast
  have lapsed: "lease_lapsed now r \<longleftrightarrow> jr_state r \<in> {RUNNING, VERIFYING} \<and> (\<exists>t. jr_lease_expires_at r = Some t \<and> t < now)"
    if "r \<in> set (db_jobs db)" for r
    by (rule lapsed_iff [OF assms(5)]) (use assms(6) that in blast)
  have jobs: "db_jobs db' = map (\<lambda>r. if jr_state r \<in> {RUNNING, VERIFYING} \<and> (\<exists>t. jr_lease_expires_at r = Some t \<and> t < now)
      then unknown_row now r else r) (db_jobs db)"
    unfolding expire_leases_jobs(1) [OF inv run]
    by (rule map_cong [OF refl]) (metis lapsed)
  have "jr_state r = RUNNING \<longrightarrow> (\<exists>t. jr_lease_expires_at r = Some t \<and> now \<le> t)" if "r \<in> set (db_jobs db')" for r
  proof
    assume "jr_state r = RUNNING"
    then have "r \<in> set (db_jobs db)" "\<not> (\<exists>t. jr_lease_expires_at r = Some t \<and> t < now)"
      using that unfolding jobs by (auto simp: unknown_row_def split: if_splits)
    with inv \<open>jr_state r = RUNNING\<close> show "\<exists>t. jr_lease_expires_at r = Some t \<and> now \<le> t"
      by (cases "jr_lease_expires_at r") (auto simp: db_inv_def row_inv_def lease_ok_def)
  qed
  with run jobs show ?thesis by blast
qed

text \<open>Queue expiry succeeds and is exact: precisely the QUEUED jobs created more than the TTL ago
  become EXPIRED, so no job older than the TTL is left for a worker to claim.\<close>

theorem expire_stale_queued_correct:
  assumes "reachable cfg db" and "hex_output (sc_crypto cfg)" and "collision_free cfg" and "db_writable db"
    and "instant_ok (now - seconds ttl)" and "\<forall>r \<in> set (db_jobs db). instant_ok (jr_created_at r)"
  shows "\<exists>n db'. expire_stale_queued cfg now ttl db = (Inr n, db') \<and>
    db_jobs db' = map (\<lambda>r. if jr_state r = QUEUED \<and> jr_created_at r < now - seconds ttl
      then expired_row now r else r) (db_jobs db) \<and>
    (\<forall>r \<in> set (db_jobs db'). jr_state r = QUEUED \<longrightarrow> now - seconds ttl \<le> jr_created_at r)"
proof -
  have inv: "db_inv cfg db" by (rule reachable_inv [OF assms(1,2)])
  let ?rows = "filter (stale_queued now ttl) (db_jobs db)"
  have "list_all (\<lambda>r. jr_state r = QUEUED) ?rows" by (auto simp: list_all_iff stale_queued_def)
  from queue_sweep.sweep_total [OF assms(2,3) _ this, of db now] inv obtain db' where
    "for_each (expire_queued_row cfg now) ?rows db = Inr db'"
    by (auto simp: db_inv_def)
  then have run: "expire_stale_queued cfg now ttl db = (Inr (length ?rows), db')"
    using assms(4) by (simp add: expire_stale_queued_def transaction_def Let_def)
  have jobs: "db_jobs db' = map (\<lambda>r. if jr_state r = QUEUED \<and> jr_created_at r < now - seconds ttl
      then expired_row now r else r) (db_jobs db)"
    unfolding expire_stale_queued_jobs(1) [OF inv run] using sql_before_iff assms(5,6)
    by (intro map_cong) (auto simp: stale_queued_def)
  moreover have "\<forall>r \<in> set (db_jobs db'). jr_state r = QUEUED \<longrightarrow> now - seconds ttl \<le> jr_created_at r"
    unfolding jobs by (auto simp: expired_row_def)
  ultimately show ?thesis using run by blast
qed

section \<open>An example history\<close>

text \<open>One job is submitted, then claimed.\<close>

definition demo_subject :: subject where
  "demo_subject = \<lparr>sj_name = ''operator'', sj_device = ''deck-1'', sj_channel = ''wireguard''\<rparr>"

definition demo_row :: job_row where
  "demo_row = new_job_row demo_cfg 0 ''job_1'' demo_request demo_subject"

definition demo_queued :: db where
  "demo_queued = snd (create_job demo_cfg 0 ''1'' demo_request demo_subject empty_db)"

definition demo_running :: db where
  "demo_running = snd (claim_next_job demo_cfg 0 ''t'' ''w'' 30 (Some (\<lambda>_. Inr 30)) demo_queued)"

lemma demo_collision_free: "collision_free demo_cfg"
  by (simp add: collision_free_def demo_hash_inj)

lemma demo_queued:
  "\<exists>v. create_job demo_cfg 0 ''1'' demo_request demo_subject empty_db = (Inr v, demo_queued) \<and> jv_id v = ''job_1''"
  "db_jobs demo_queued = [demo_row]" "db_confirmations demo_queued = []" "db_writable demo_queued"
  using create_job_new [OF empty_db_inv demo_collision_free, of "''1''" demo_request 0 demo_subject]
  by (auto simp: demo_queued_def demo_row_def empty_db_def)

lemma demo_queued_reachable: "reachable demo_cfg demo_queued"
  using demo_queued(1) by (auto intro: db_steps_one db_step.create)

lemma demo_running:
  "\<exists>c. claim_next_job demo_cfg 0 ''t'' ''w'' 30 (Some (\<lambda>_. Inr 30)) demo_queued = (Inr (Some c), demo_running) \<and>
     jv_id (cl_job c) = ''job_1''"
  "db_jobs demo_running = [lease_row 0 ''w'' ''t'' 30 demo_row]" "db_writable demo_running"
proof -
  have id: "jr_id demo_row = ''job_1''" by (simp add: demo_row_def new_job_row_def)
  have "next_claimable 0 demo_queued = Some demo_row"
    by (simp add: next_claimable_def demo_queued claimable_def) (simp add: demo_row_def new_job_row_def)
  from claim_oldest [OF reachable_inv [OF demo_queued_reachable demo_cfg_hex] demo_collision_free demo_queued(4) this,
      where lease_for = "Some (\<lambda>_. Inr 30)" and secs = 30 and n = 30 and token = "''t''" and worker_id = "''w''"]
  show "\<exists>c. claim_next_job demo_cfg 0 ''t'' ''w'' 30 (Some (\<lambda>_. Inr 30)) demo_queued = (Inr (Some c), demo_running) \<and>
      jv_id (cl_job c) = ''job_1''" "db_jobs demo_running = [lease_row 0 ''w'' ''t'' 30 demo_row]" "db_writable demo_running"
    by (auto simp: demo_running_def demo_queued(2) id)
qed

lemma demo_running_reachable: "reachable demo_cfg demo_running"
  using demo_running(1) db_steps.step [OF demo_queued_reachable db_step.claim] by blast


lemma demo_claim_steps: "db_steps demo_cfg demo_queued demo_running"
  using demo_running(1) db_steps_one [OF db_step.claim] by blast

theorem job_history_witness:
  "\<exists>r. find_job ''job_1'' demo_running = Some r \<and> jr_request r = demo_request \<and> job_steps QUEUED (jr_state r)"
proof -
  have "find_job ''job_1'' demo_queued = Some demo_row" "jr_request demo_row = demo_request" "jr_state demo_row = QUEUED"
    by (simp_all add: demo_queued demo_row_def new_job_row_def)
  with job_history [OF demo_queued_reachable demo_claim_steps demo_cfg_hex this(1)] show ?thesis by auto
qed

text \<open>A second submission, for the claim that must not return the first job again.\<close>

definition demo_request2 :: action_request where
  "demo_request2 = demo_request\<lparr>rq_idempotency_key := ''u2''\<rparr>"

definition demo_two :: db where
  "demo_two = snd (create_job demo_cfg 1 ''2'' demo_request2 demo_subject demo_running)"

definition demo_row2 :: job_row where
  "demo_row2 = new_job_row demo_cfg 1 ''job_2'' demo_request2 demo_subject"

lemma demo_two:
  "\<exists>v. create_job demo_cfg 1 ''2'' demo_request2 demo_subject demo_running = (Inr v, demo_two)"
  "db_jobs demo_two = [lease_row 0 ''w'' ''t'' 30 demo_row, demo_row2]" "db_writable demo_two"
proof -
  have "''job_'' @ ''2'' \<notin> jr_id ` set (db_jobs demo_running)"
    "lookup_by jr_idempotency_key (rq_idempotency_key demo_request2) (db_jobs demo_running) = None"
    by (simp_all add: demo_running(2) lease_row_def demo_row_def new_job_row_def demo_request2_def demo_request_def)
  from create_job_new [OF reachable_inv [OF demo_running_reachable demo_cfg_hex] demo_collision_free demo_running(3) this,
      of 1 demo_subject]
  show "\<exists>v. create_job demo_cfg 1 ''2'' demo_request2 demo_subject demo_running = (Inr v, demo_two)"
    "db_jobs demo_two = [lease_row 0 ''w'' ''t'' 30 demo_row, demo_row2]" "db_writable demo_two"
    by (auto simp: demo_two_def demo_running(2) demo_row2_def)
qed

lemma demo_two_steps: "db_steps demo_cfg demo_running demo_two"
  using demo_two(1) db_steps_one [OF db_step.create] by blast

lemma demo_two_reachable: "reachable demo_cfg demo_two"
  by (rule db_steps_trans [OF demo_two_steps demo_running_reachable])

theorem claim_at_most_once_witness:
  "\<exists>c c' db. claim_next_job demo_cfg 0 ''t'' ''w'' 30 (Some (\<lambda>_. Inr 30)) demo_queued = (Inr (Some c), demo_running) \<and>
     claim_next_job demo_cfg 2 ''s'' ''v'' 30 None demo_two = (Inr (Some c'), db) \<and>
     jv_id (cl_job c') \<noteq> jv_id (cl_job c)"
proof -
  obtain c where c: "claim_next_job demo_cfg 0 ''t'' ''w'' 30 (Some (\<lambda>_. Inr 30)) demo_queued = (Inr (Some c), demo_running)"
    using demo_running(1) by blast
  have "next_claimable 2 demo_two = Some demo_row2"
    by (simp add: next_claimable_def demo_two claimable_def)
      (simp add: demo_row_def demo_row2_def new_job_row_def lease_row_def)
  from claim_oldest [OF reachable_inv [OF demo_two_reachable demo_cfg_hex] demo_collision_free demo_two(3) this,
      where lease_for = None and secs = 30 and n = 30 and token = "''s''" and worker_id = "''v''"]
  obtain c' db where c': "claim_next_job demo_cfg 2 ''s'' ''v'' 30 None demo_two = (Inr (Some c'), db)" by auto
  from claim_at_most_once [OF demo_queued_reachable demo_cfg_hex c demo_two_steps c'] c c' show ?thesis by blast
qed

theorem stale_fence_refused_witness:
  "transition_job demo_cfg 5 ''job_1'' SUCCEEDED None None (Some ''zombie'') None demo_two =
     (Inl (StaleLease ''lease for job_1 is no longer held''), demo_two)"
proof -
  have "find_job ''job_1'' demo_running = Some (lease_row 0 ''w'' ''t'' 30 demo_row)"
    by (simp add: demo_running(2) lease_row_def demo_row_def new_job_row_def)
  moreover have "started (jr_state (lease_row 0 ''w'' ''t'' 30 demo_row))"
    "jr_lease_token (lease_row 0 ''w'' ''t'' 30 demo_row) \<noteq> Some ''zombie''"
    by (simp_all add: lease_row_def started_def live_states_def)
  ultimately show ?thesis
    using stale_fence_refused [OF demo_running_reachable demo_cfg_hex _ _ _ demo_two_steps demo_two(3)] by simp
qed

theorem create_job_correct_witness:
  "\<exists>v db'. create_job demo_cfg 7 ''3'' (demo_request\<lparr>rq_idempotency_key := ''u3''\<rparr>) demo_subject demo_two = (Inr v, db') \<and>
     length (db_jobs db') = 3 \<and> jv_state v = QUEUED"
  using create_job_correct [OF demo_two_reachable demo_cfg_hex demo_collision_free demo_two(3),
      where uid = "''3''" and request = "demo_request\<lparr>rq_idempotency_key := ''u3''\<rparr>" and now = 7 and subj = demo_subject]
  by (auto simp: demo_two(2) demo_row_def demo_row2_def new_job_row_def lease_row_def demo_request2_def demo_request_def)

theorem create_job_idempotent_witness:
  "\<exists>v. create_job demo_cfg 9 ''other'' demo_request demo_subject demo_two = (Inr v, demo_two) \<and> jv_id v = ''job_1''"
proof -
  obtain v where v: "create_job demo_cfg 0 ''1'' demo_request demo_subject empty_db = (Inr v, demo_queued)" "jv_id v = ''job_1''"
    using demo_queued(1) by blast
  from create_job_idempotent [OF db_steps.start demo_cfg_hex v(1) db_steps_trans [OF demo_two_steps demo_claim_steps] demo_two(3),
      of 9 "''other''" demo_subject] v(2) show ?thesis by simp
qed

theorem claim_next_job_correct_witness:
  "\<exists>c db'. claim_next_job demo_cfg 2 ''s'' ''v'' 30 (Some (\<lambda>_. Inr 15)) demo_two = (Inr (Some c), db') \<and>
     jv_id (cl_job c) = ''job_2'' \<and> jv_state (cl_job c) = RUNNING"
proof -
  have "\<forall>q \<in> set (db_jobs demo_two). instant_ok (jr_created_at q)"
    by (simp add: demo_two(2) demo_row_def demo_row2_def new_job_row_def lease_row_def instant_ok_def)
  note claim = claim_next_job_correct [OF demo_two_reachable demo_cfg_hex demo_collision_free demo_two(3) this,
      where lease_for = "\<lambda>_. Inr 15" and now = 2 and token = "''s''" and worker_id = "''v''" and secs = 30]
  have row2: "jr_state demo_row2 = QUEUED" "jr_id demo_row2 = ''job_2''"
    by (simp_all add: demo_row2_def new_job_row_def)
  have only: "r = demo_row2" if "find_job j demo_two = Some r" "jr_state r = QUEUED" for j r
    using that lookup_by_SomeD [of jr_id j "db_jobs demo_two" r] by (auto simp: demo_two(2) lease_row_def)
  have queued: "\<not> (\<forall>q \<in> set (db_jobs demo_two). jr_state q \<noteq> QUEUED)" by (simp add: demo_two(2) row2)
  obtain r c db' where c: "claim_next_job demo_cfg 2 ''s'' ''v'' 30 (Some (\<lambda>_. Inr 15)) demo_two = (Inr (Some c), db')"
    "find_job (jr_id r) demo_two = Some r" "jr_state r = QUEUED" "jv_id (cl_job c) = jr_id r" "jv_state (cl_job c) = RUNNING"
    using claim unfolding if_not_P [OF queued] by auto
  have "r = demo_row2" by (rule only [OF c(2,3)])
  with c row2(2) show ?thesis by auto
qed

theorem transition_job_correct_witness:
  "\<exists>v db'. transition_job demo_cfg 5 ''job_1'' VERIFYING None None (Some ''t'') None demo_running = (Inr v, db') \<and>
     jv_state v = VERIFYING"
  using transition_job_correct [OF demo_running_reachable demo_cfg_hex demo_collision_free demo_running(3),
      where i = "''job_1''" and now = 5 and tgt = VERIFYING and result = None and err = None and fence = "Some ''t''"
      and expected = None]
  by (auto simp: demo_running(2) demo_row_def new_job_row_def lease_row_def)

theorem expire_leases_correct_witness:
  "\<exists>n db'. Store.expire_leases demo_cfg (seconds 31) demo_running = (Inr n, db') \<and>
     map jr_state (db_jobs db') = [UNKNOWN_OUTCOME]"
proof -
  have "\<forall>r \<in> set (db_jobs demo_running). \<forall>t. jr_lease_expires_at r = Some t \<longrightarrow> instant_ok t"
    by (simp add: demo_running(2) lease_row_def instant_ok_def seconds_def)
  from expire_leases_correct [OF demo_running_reachable demo_cfg_hex demo_collision_free demo_running(3) _ this, of "seconds 31"]
  show ?thesis by (auto simp: demo_running(2) lease_row_def unknown_row_def instant_ok_def seconds_def)
qed

theorem expire_stale_queued_correct_witness:
  "\<exists>n db'. expire_stale_queued demo_cfg (seconds 400) 300 demo_queued = (Inr n, db') \<and>
     map jr_state (db_jobs db') = [EXPIRED]"
proof -
  have "\<forall>r \<in> set (db_jobs demo_queued). instant_ok (jr_created_at r)"
    by (simp add: demo_queued(2) demo_row_def new_job_row_def instant_ok_def)
  from expire_stale_queued_correct [OF demo_queued_reachable demo_cfg_hex demo_collision_free demo_queued(4) _ this,
      of "seconds 400" 300]
  show ?thesis by (auto simp: demo_queued(2) demo_row_def new_job_row_def expired_row_def instant_ok_def seconds_def)
qed

end
