(* ===== verification/Adapters.thy ===== *)
theory Adapters
  imports Models
begin

text \<open>
  \<open>adapters.py\<close>: the structured errors of an adapter, the results of the six lifecycle
  operations, the adapter protocol as a record of operations, the two built-in adapters
  and the registry. An operation either returns its result or raises; what it does to the
  remote system is outside the program, so an adapter is a parameter wherever it is used.
\<close>

section \<open>Errors\<close>

definition AdapterError ::
  "string \<Rightarrow> adapter_error_kind \<Rightarrow> retry_disposition \<Rightarrow> bool \<Rightarrow> json_object \<Rightarrow> adapter_error" where
  "AdapterError message kind retry reconciliation_required details =
     \<lparr>ae_class = PlainAdapterError, ae_message = message, ae_kind = kind, ae_retry = retry,
      ae_reconciliation_required = reconciliation_required, ae_details = details\<rparr>"

text \<open>\<open>JobError(...)\<close> checks its fields, so an empty or overlong message makes the conversion raise.\<close>

definition as_job_error :: "adapter_error \<Rightarrow> exn + job_error" where
  "as_job_error e =
     (let j = \<lparr>je_code = kind_value (ae_kind e), je_message = ae_message e, je_retry = ae_retry e,
               je_reconciliation_required = ae_reconciliation_required e, je_details = ae_details e\<rparr>
      in if job_error_ok j then Inr j else Inl (ValidationError ''JobError''))"

definition UnknownOutcome :: "string \<Rightarrow> json_object \<Rightarrow> adapter_error" where
  "UnknownOutcome message details =
     \<lparr>ae_class = UnknownOutcomeError, ae_message = message, ae_kind = K_TIMEOUT,
      ae_retry = RECONCILE_FIRST, ae_reconciliation_required = True, ae_details = details\<rparr>"

section \<open>Results of the lifecycle\<close>

datatype adapter_health_state = H_HEALTHY | H_DEGRADED | H_UNAVAILABLE

record adapter_health =
  ah_state :: adapter_health_state
  ah_checked_at :: instant
  ah_details :: json_object

record adapter_execution =
  ex_reference :: "string option"
  ex_details :: json_object

record adapter_observation =
  ob_state :: string
  ob_observed_at :: instant
  ob_details :: json_object

record adapter_verification =
  ve_satisfied :: bool
  ve_details :: json_object

datatype cancellation_disposition = D_CANCELLED | D_NOT_SUPPORTED | D_ALREADY_TERMINAL | D_UNKNOWN

fun disposition_value :: "cancellation_disposition \<Rightarrow> string" where
  "disposition_value D_CANCELLED = ''cancelled''"
| "disposition_value D_NOT_SUPPORTED = ''not_supported''"
| "disposition_value D_ALREADY_TERMINAL = ''already_terminal''"
| "disposition_value D_UNKNOWN = ''unknown''"

record adapter_cancellation =
  ca_disposition :: cancellation_disposition
  ca_details :: json_object

definition execution_json :: "adapter_execution \<Rightarrow> json" where
  "execution_json e = JObj [(''reference'', opt_json JStr (ex_reference e)), (''details'', JObj (ex_details e))]"

text \<open>How a model writes a UTC \<open>datetime\<close> in JSON mode: the ISO text with \<open>Z\<close> for the offset \<open>+00:00\<close>.\<close>

definition json_instant :: "instant \<Rightarrow> string" where
  "json_instant t = take (length (isoformat t) - 6) (isoformat t) @ ''Z''"

definition observation_json :: "adapter_observation \<Rightarrow> json" where
  "observation_json b = JObj [(''state'', JStr (ob_state b)),
     (''observed_at'', JStr (json_instant (ob_observed_at b))), (''details'', JObj (ob_details b))]"

definition verification_json :: "adapter_verification \<Rightarrow> json" where
  "verification_json v = JObj [(''satisfied'', JBool (ve_satisfied v)), (''details'', JObj (ve_details v))]"

definition cancellation_json :: "adapter_cancellation \<Rightarrow> json" where
  "cancellation_json c = JObj [(''disposition'', JStr (disposition_value (ca_disposition c))),
     (''details'', JObj (ca_details c))]"

text \<open>\<open>AdapterExecution.model_validate\<close> of a dictionary: unknown keys are forbidden, missing
  ones take their defaults.\<close>

definition execution_validate :: "json_object \<Rightarrow> exn + adapter_execution" where
  "execution_validate d =
     (if \<not> list_all (\<lambda>(k, _). k = ''reference'' \<or> k = ''details'') d
      then Inl (ValidationError ''extra fields not permitted'')
      else bind_sum
        (case obj_get d ''reference'' of
           None \<Rightarrow> Inr None | Some JNull \<Rightarrow> Inr None
         | Some (JStr s) \<Rightarrow> if length s \<le> 512 then Inr (Some s) else Inl (ValidationError ''reference too long'')
         | Some _ \<Rightarrow> Inl (ValidationError ''reference must be a string''))
        (\<lambda>ref. case obj_get d ''details'' of
           None \<Rightarrow> Inr \<lparr>ex_reference = ref, ex_details = []\<rparr>
         | Some (JObj o') \<Rightarrow> Inr \<lparr>ex_reference = ref, ex_details = o'\<rparr>
         | Some _ \<Rightarrow> Inl (ValidationError ''details must be an object'')))"

section \<open>The protocol\<close>

record adapter =
  ap_health :: "exn + adapter_health"
  ap_plan :: "action_definition \<Rightarrow> action_request \<Rightarrow> exn + string list"
  ap_execute :: "action_definition \<Rightarrow> action_request \<Rightarrow> exn + adapter_execution"
  ap_observe :: "action_definition \<Rightarrow> action_request \<Rightarrow> exn + adapter_observation"
  ap_verify :: "action_definition \<Rightarrow> action_request \<Rightarrow> adapter_execution \<Rightarrow> adapter_observation
    \<Rightarrow> exn + adapter_verification"
  ap_cancel :: "action_definition \<Rightarrow> action_request \<Rightarrow> adapter_execution option \<Rightarrow> exn + adapter_cancellation"

section \<open>Built-in adapters\<close>

definition FakeAdapter :: "instant \<Rightarrow> adapter" where
  "FakeAdapter now = \<lparr>
     ap_health = Inr \<lparr>ah_state = H_HEALTHY, ah_checked_at = now, ah_details = [(''source'', JStr ''fake'')]\<rparr>,
     ap_plan = (\<lambda>action r. Inr [''observe '' @ tg_type (rq_target r) @ '':'' @ tg_id (rq_target r)]),
     ap_execute = (\<lambda>action r. Inr \<lparr>ex_reference = Some (''fake:'' @ rq_idempotency_key r),
        ex_details = [(''target'', target_json (rq_target r)), (''source'', JStr ''fake'')]\<rparr>),
     ap_observe = (\<lambda>action r. Inr \<lparr>ob_state = ''healthy'', ob_observed_at = now,
        ob_details = [(''target'', target_json (rq_target r)), (''source'', JStr ''fake'')]\<rparr>),
     ap_verify = (\<lambda>action r e b. Inr \<lparr>ve_satisfied = (ob_state b = ''healthy''),
        ve_details = [(''execution_reference'', opt_json JStr (ex_reference e))]\<rparr>),
     ap_cancel = (\<lambda>action r e. Inr \<lparr>ca_disposition = D_ALREADY_TERMINAL, ca_details = []\<rparr>)\<rparr>"

definition DisabledMutationAdapter :: "instant \<Rightarrow> string \<Rightarrow> adapter" where
  "DisabledMutationAdapter now name =
     (let refuse = AdapterExn (AdapterError (name @ '' adapter requires approved production inventory'')
        K_CONFIGURATION RETRY_NEVER False []) in \<lparr>
     ap_health = Inr \<lparr>ah_state = H_UNAVAILABLE, ah_checked_at = now,
        ah_details = [(''reason'', JStr ''configuration_required'')]\<rparr>,
     ap_plan = (\<lambda>action r. Inr [''validate '' @ name @ '' target'', ''execute '' @ ad_id action, ''verify postcondition'']),
     ap_execute = (\<lambda>action r. Inl refuse),
     ap_observe = (\<lambda>action r. Inl refuse),
     ap_verify = (\<lambda>action r e b. Inl (AdapterExn (AdapterError (name @ '' adapter cannot verify an unconfigured target'')
        K_CONFIGURATION RETRY_NEVER False []))),
     ap_cancel = (\<lambda>action r e. Inr \<lparr>ca_disposition = D_NOT_SUPPORTED, ca_details = []\<rparr>)\<rparr>)"

section \<open>Registry\<close>

type_synonym registry = "(string \<times> adapter) list"

definition registry_register :: "string \<Rightarrow> adapter \<Rightarrow> registry \<Rightarrow> exn + registry" where
  "registry_register name a reg =
     (if name \<in> fst ` set reg
      then Inl (OtherException (''adapter '' @ py_repr_ident name @ '' is already registered''))
      else Inr (dict_set name a reg))"

definition registry_get :: "registry \<Rightarrow> string \<Rightarrow> exn + adapter" where
  "registry_get reg name =
     (case map_of reg name of
        Some a \<Rightarrow> Inr a
      | None \<Rightarrow> Inl (AdapterExn (AdapterError (''adapter '' @ py_repr_ident name @ '' is not registered'')
          K_UNEXPECTED RETRY_NEVER False [])))"

definition registry_items :: "registry \<Rightarrow> registry" where
  "registry_items reg = sort_key fst reg"

text \<open>\<open>health()\<close>: an \<open>AdapterError\<close> of one adapter becomes its entry, any other exception ends
  the whole call.\<close>

definition health_of :: "instant \<Rightarrow> adapter \<Rightarrow> exn + adapter_health" where
  "health_of now a =
     (case ap_health a of
        Inr h \<Rightarrow> Inr h
      | Inl (AdapterExn e) \<Rightarrow> Inr \<lparr>ah_state = H_UNAVAILABLE, ah_checked_at = now,
          ah_details = [(''error_code'', JStr (kind_value (ae_kind e))), (''retry'', JStr (retry_value (ae_retry e)))]\<rparr>
      | Inl e \<Rightarrow> Inl e)"

fun health_items :: "instant \<Rightarrow> registry \<Rightarrow> exn + (string \<times> adapter_health) list" where
  "health_items now [] = Inr []"
| "health_items now ((name, a) # rest) =
     bind_sum (health_of now a) (\<lambda>h. bind_sum (health_items now rest) (\<lambda>hs. Inr ((name, h) # hs)))"

definition registry_health :: "instant \<Rightarrow> registry \<Rightarrow> exn + (string \<times> adapter_health) list" where
  "registry_health now reg = health_items now (registry_items reg)"

section \<open>Facts\<close>

lemma UnknownOutcome_fields [simp]:
  "ae_reconciliation_required (UnknownOutcome m d) = True"
  "ae_retry (UnknownOutcome m d) = RECONCILE_FIRST"
  "ae_kind (UnknownOutcome m d) = K_TIMEOUT"
  by (simp_all add: UnknownOutcome_def)

lemma kind_value_ident: "ident_ok (kind_value k) \<and> len_between 1 64 (kind_value k)"
  by (cases k) (simp_all add: ident_ok_def lower_alpha_def lower_alnum_def len_between_def)

lemma as_job_error_Inr:
  "as_job_error e = Inr j \<longleftrightarrow> len_between 1 1024 (ae_message e) \<and>
     j = \<lparr>je_code = kind_value (ae_kind e), je_message = ae_message e, je_retry = ae_retry e,
          je_reconciliation_required = ae_reconciliation_required e, je_details = ae_details e\<rparr>"
  using kind_value_ident [of "ae_kind e"] by (auto simp: as_job_error_def Let_def job_error_ok_def)

lemma as_job_error_total: "len_between 1 1024 (ae_message e) \<Longrightarrow> \<exists>j. as_job_error e = Inr j"
  by (simp add: as_job_error_Inr)

lemma execution_json_roundtrip:
  assumes "\<And>s. ex_reference e = Some s \<Longrightarrow> length s \<le> 512" and "execution_json e = JObj d"
  shows "execution_validate d = Inr e"
proof (cases "ex_reference e")
  case None
  then show ?thesis using assms(2)
    by (cases e) (auto simp: execution_json_def execution_validate_def opt_json_def)
next
  case (Some s)
  then show ?thesis using assms(2) assms(1) [OF Some]
    by (cases e) (auto simp: execution_json_def execution_validate_def opt_json_def)
qed

lemma health_items_total:
  assumes "\<And>n a e. (n, a) \<in> set reg \<Longrightarrow> ap_health a = Inl e \<Longrightarrow> \<exists>x. e = AdapterExn x"
  shows "\<exists>hs. health_items now reg = Inr hs \<and> map fst hs = map fst reg"
  using assms
proof (induction reg)
  case (Cons na reg)
  obtain n a where na: "na = (n, a)" by fastforce
  have "\<exists>h. health_of now a = Inr h"
    using Cons.prems [of n a] na by (auto simp: health_of_def split: sum.splits exn.splits)
  moreover have "\<exists>hs. health_items now reg = Inr hs \<and> map fst hs = map fst reg"
    by (rule Cons.IH, rule Cons.prems) auto
  ultimately show ?case by (auto simp: na)
qed simp

end
