(* ===== verification/Process.thy ===== *)
theory Process
  imports StoreHistory Adapters Catalog
begin

text \<open>
  Programs that call the store: the worker, the reconciler and the canceller are sequences of
  store operations and adapter calls. A program maps the database to a result or an exception
  and the database it leaves; unlike a transaction, it keeps the effects of the store
  operations it completed before an exception. Other processes commit their own transactions
  between two store operations of a program (and while it awaits an adapter): \<open>meanwhile\<close> marks
  these points, and the environment says what happens there.
\<close>

type_synonym 'a program = "db \<Rightarrow> (exn + 'a) \<times> db"

definition returns :: "'a \<Rightarrow> 'a program" where
  "returns x db = (Inr x, db)"

definition raises :: "exn \<Rightarrow> 'a program" where
  "raises e db = (Inl e, db)"

definition lift :: "exn + 'a \<Rightarrow> 'a program" where
  "lift r db = (r, db)"

definition query :: "(db \<Rightarrow> exn + 'a) \<Rightarrow> 'a program" where
  "query f db = (f db, db)"

definition and_then :: "'a program \<Rightarrow> ('a \<Rightarrow> 'b program) \<Rightarrow> 'b program" where
  "and_then m f db = (case m db of (Inl e, db') \<Rightarrow> (Inl e, db') | (Inr x, db') \<Rightarrow> f x db')"

definition handle :: "'a program \<Rightarrow> (exn \<Rightarrow> 'a program) \<Rightarrow> 'a program" where
  "handle m h db = (case m db of (Inl e, db') \<Rightarrow> h e db' | (Inr x, db') \<Rightarrow> (Inr x, db'))"

definition meanwhile :: "(db \<Rightarrow> db) \<Rightarrow> unit program" where
  "meanwhile others db = (Inr (), others db)"

text \<open>What a run of a program meets: the clock at its \<open>k\<close>-th store operation, a fresh lease token,
  and what the other processes commit before it.\<close>

record env =
  env_now :: "nat \<Rightarrow> instant"
  env_token :: string
  env_others :: "nat \<Rightarrow> db \<Rightarrow> db"

definition alone :: "env \<Rightarrow> bool" where
  "alone env \<longleftrightarrow> (\<forall>k db. env_others env k db = db)"

definition others_ok :: "store_cfg \<Rightarrow> env \<Rightarrow> bool" where
  "others_ok cfg env \<longleftrightarrow> (\<forall>k db. db_steps cfg db (env_others env k db))"

section \<open>Runs\<close>

lemmas program_defs = returns_def raises_def lift_def query_def and_then_def handle_def meanwhile_def

lemma program_simps [simp]:
  "returns x db = (Inr x, db)" "raises e db = (Inl e, db)" "lift r db = (r, db)" "query f db = (f db, db)"
  "meanwhile g db = (Inr (), g db)"
  by (simp_all add: program_defs)

lemma and_then_Inr [simp]: "m db = (Inr x, db') \<Longrightarrow> and_then m f db = f x db'"
  by (simp add: and_then_def)

lemma and_then_Inl [simp]: "m db = (Inl e, db') \<Longrightarrow> and_then m f db = (Inl e, db')"
  by (simp add: and_then_def)

lemma handle_Inr [simp]: "m db = (Inr x, db') \<Longrightarrow> handle m h db = (Inr x, db')"
  by (simp add: handle_def)

lemma handle_Inl [simp]: "m db = (Inl e, db') \<Longrightarrow> handle m h db = h e db'"
  by (simp add: handle_def)

text \<open>A program whose every effect is a history of the store.\<close>

definition steps_only :: "store_cfg \<Rightarrow> 'a program \<Rightarrow> bool" where
  "steps_only cfg m \<longleftrightarrow> (\<forall>db. db_steps cfg db (snd (m db)))"

named_theorems program_steps \<open>programs built from operations of the store\<close>

lemma steps_only_pure [program_steps]:
  "steps_only cfg (returns x)" "steps_only cfg (raises e)" "steps_only cfg (lift r)" "steps_only cfg (query f)"
  by (simp_all add: steps_only_def db_steps.start)

lemma steps_only_op: "(\<And>db res db'. m db = (res, db') \<Longrightarrow> db_step cfg db db') \<Longrightarrow> steps_only cfg m"
  unfolding steps_only_def by (metis db_steps_one prod.collapse)

lemma steps_only_ops [program_steps]:
  "steps_only cfg (create_job cfg now uid request subj)"
  "steps_only cfg (claim_next_job cfg now token worker_id secs lease_for)"
  "steps_only cfg (renew_lease now job_id token secs)"
  "tgt \<noteq> RUNNING \<Longrightarrow> steps_only cfg (transition_job cfg now job_id tgt result err fence expected)"
  "steps_only cfg (Store.expire_leases cfg now)"
  "steps_only cfg (expire_stale_queued cfg now ttl)"
  "steps_only cfg (claim_reconcile_candidates cfg now m limit)"
  "steps_only cfg (record_policy_denial cfg now request subj phase reason)"
  "steps_only cfg (create_confirmation cfg now uid token request subj mode prompt ttl)"
  "steps_only cfg (consume_confirmation cfg now request subj token response)"
  "steps_only cfg (cancel_confirmation cfg now confirmation_id subj)"
  by (rule steps_only_op, erule db_step.intros, assumption?)+

lemma steps_only_meanwhile [program_steps]: "others_ok cfg env \<Longrightarrow> steps_only cfg (meanwhile (env_others env k))"
  by (simp add: steps_only_def others_ok_def)

lemma steps_only_and_then [program_steps]:
  assumes "steps_only cfg m" and "\<And>x. steps_only cfg (f x)"
  shows "steps_only cfg (and_then m f)"
proof -
  have "db_steps cfg db (snd (and_then m f db))" for db
  proof (cases "m db")
    case (Pair r db')
    with assms(1) have m: "db_steps cfg db db'" by (metis steps_only_def snd_conv)
    show ?thesis
    proof (cases r)
      case (Inr x)
      with Pair have "and_then m f db = f x db'" by simp
      with assms(2) m db_steps_trans show ?thesis by (metis steps_only_def)
    qed (use Pair m in simp)
  qed
  then show ?thesis by (simp add: steps_only_def)
qed

lemma steps_only_handle [program_steps]:
  assumes "steps_only cfg m" and "\<And>e. steps_only cfg (h e)"
  shows "steps_only cfg (handle m h)"
proof -
  have "db_steps cfg db (snd (handle m h db))" for db
  proof (cases "m db")
    case (Pair r db')
    with assms(1) have m: "db_steps cfg db db'" by (metis steps_only_def snd_conv)
    show ?thesis
    proof (cases r)
      case (Inl e)
      with Pair have "handle m h db = h e db'" by simp
      with assms(2) m db_steps_trans show ?thesis by (metis steps_only_def)
    qed (use Pair m in simp)
  qed
  then show ?thesis by (simp add: steps_only_def)
qed

lemma steps_only_reachable: "steps_only cfg m \<Longrightarrow> reachable cfg db \<Longrightarrow> reachable cfg (snd (m db))"
  using db_steps_trans by (metis steps_only_def)

text \<open>What every process over the store may rely on, whatever the other processes do.\<close>

locale store_program =
  fixes cfg :: store_cfg and env :: env and program :: "'a program"
  assumes steps: "others_ok cfg env \<Longrightarrow> steps_only cfg program"
begin

lemma run_steps: "others_ok cfg env \<Longrightarrow> program db = (res, db') \<Longrightarrow> db_steps cfg db db'"
  using steps by (metis steps_only_def snd_conv)

lemma run_reachable: "others_ok cfg env \<Longrightarrow> reachable cfg db \<Longrightarrow> program db = (res, db') \<Longrightarrow> reachable cfg db'"
  using run_steps db_steps_trans by blast

lemma run_keeps_terminal:
  assumes "others_ok cfg env" and "hex_output (sc_crypto cfg)" and "reachable cfg db" and "program db = (res, db')"
    and "find_job i db = Some r" and "terminal (jr_state r)"
  shows "find_job i db' = Some r"
  using find_job_evolves [OF _ _ assms(5)] db_steps_safe [OF run_steps [OF assms(1,4)] assms(2)]
    reachable_inv [OF assms(3,2)] assms(6) by (fastforce simp: row_evolves_def)

lemma run_audits:
  assumes "others_ok cfg env" and "hex_output (sc_crypto cfg)" and "reachable cfg db" and "program db = (res, db')"
  shows "\<exists>new. al_events (db_audit db') = al_events (db_audit db) @ new \<and>
    verify_audit_chain cfg (al_events (db_audit db')) = Inr True"
  using db_steps_safe [OF run_steps [OF assms(1,4)] assms(2)] reachable_inv [OF assms(3,2)]
  by (auto simp: db_evolves_def log_grows_def db_inv_def audit_inv_def)

end

section \<open>Transitions as programs see them\<close>

lemma transition_inv:
  "hex_output (sc_crypto cfg) \<Longrightarrow> db_inv cfg db \<Longrightarrow> tgt \<noteq> RUNNING \<Longrightarrow>
     transition_job cfg now i tgt result err fence expected db = (res, db') \<Longrightarrow> db_inv cfg db'"
  using store_operation.inv_kept [OF transition_store_operation] by blast

lemma transition_view:
  assumes "hex_output (sc_crypto cfg)" and "collision_free cfg" and "db_inv cfg db" and "db_writable db"
    and "find_job i db = Some r" and "fence = None \<or> fence = jr_lease_token r"
    and "expected = None \<or> expected = Some (jr_state r)"
    and "tgt \<in> set (ALLOWED_TRANSITIONS (jr_state r))" and "tgt \<noteq> RUNNING"
  shows "\<exists>v db'. transition_job cfg now i tgt result err fence expected db = (Inr v, db') \<and>
    find_job i db' = Some (transition_row now tgt result err r) \<and> get_job i db' = Inr (Some v) \<and>
    db_inv cfg db' \<and> db_writable db' \<and>
    jv_id v = i \<and> jv_state v = tgt \<and> jv_result v = result \<and> jv_error v = err"
proof -
  from transition_allowed [OF assms(3,2,4-8), of now result err]
  obtain v db' where t: "transition_job cfg now i tgt result err fence expected db = (Inr v, db')"
    "find_job i db' = Some (transition_row now tgt result err r)" "db_writable db'"
    "jv_id v = i" "jv_state v = tgt" "jv_result v = result" "jv_error v = err" by auto
  then have "job_view_of (transition_row now tgt result err r) = Inr v"
    by (auto simp: transition_job_def transaction_committed assms(5) split: if_splits option.splits)
  with t transition_inv [OF assms(1,3,9) t(1)] show ?thesis by (simp add: get_job_def)
qed

end
