(* ===== verification/Cancellation.thy ===== *)
theory Cancellation
  imports Process
begin

text \<open>
  Cancelling a job, \<open>cancellation.py\<close>: a queued job is cancelled by a compare-and-set on its
  state, a started one only through its adapter, and only for the subject and device that
  submitted it.
\<close>

record canceller =
  cn_catalog :: catalog
  cn_validator :: schema_validator
  cn_adapters :: registry

definition cancel_execution :: "job_view \<Rightarrow> exn + adapter_execution option" where
  "cancel_execution job =
     (case obj_get (case jv_result job of None \<Rightarrow> [] | Some r \<Rightarrow> r) ''execution'' of
        Some (JObj d) \<Rightarrow> bind_sum (execution_validate d) (\<lambda>e. Inr (Some e))
      | _ \<Rightarrow> Inr None)"

definition cancellation_unknown_error :: "adapter_cancellation \<Rightarrow> job_error" where
  "cancellation_unknown_error r = \<lparr>je_code = ''cancellation_unknown'',
     je_message = ''adapter could not determine the cancellation outcome'', je_retry = RECONCILE_FIRST,
     je_reconciliation_required = True, je_details = ca_details r\<rparr>"

definition cancel_apply :: "store_cfg \<Rightarrow> env \<Rightarrow> job_view \<Rightarrow> adapter_cancellation \<Rightarrow> job_view program" where
  "cancel_apply cfg env job result =
     (if ca_disposition result = D_CANCELLED
      then transition_job cfg (env_now env 1) (jv_id job) CANCELLED
             (Some (obj_merge (case jv_result job of None \<Rightarrow> [] | Some r \<Rightarrow> r)
                     [(''cancellation'', cancellation_json result)])) None None None
      else if ca_disposition result = D_UNKNOWN
      then (if jv_state job = UNKNOWN_OUTCOME then returns job
            else transition_job cfg (env_now env 1) (jv_id job) UNKNOWN_OUTCOME (jv_result job)
                   (Some (cancellation_unknown_error result)) None None)
      else raises (CancellationError (''adapter reported cancellation '' @ disposition_value (ca_disposition result))))"

text \<open>The part after the compare-and-set: a job that is not waiting in the queue.\<close>

definition cancel_started :: "store_cfg \<Rightarrow> canceller \<Rightarrow> env \<Rightarrow> action_request \<Rightarrow> job_view \<Rightarrow> job_view program" where
  "cancel_started cfg cn env request job =
     and_then (lift (validate_request (cn_validator cn) (cn_catalog cn) request)) (\<lambda>action.
     and_then (lift (registry_get (cn_adapters cn) (ad_adapter action))) (\<lambda>adapter.
     and_then (lift (cancel_execution job)) (\<lambda>execution.
     case ap_cancel adapter action request execution of
       Inl (AdapterExn error) \<Rightarrow>
         if ae_reconciliation_required error \<and> jv_state job \<noteq> UNKNOWN_OUTCOME
         then and_then (lift (as_job_error error)) (\<lambda>je.
              and_then (meanwhile (env_others env 3)) (\<lambda>_.
              transition_job cfg (env_now env 1) (jv_id job) UNKNOWN_OUTCOME (jv_result job) (Some je) None None))
         else raises (CancellationError (ae_message error))
     | Inl e \<Rightarrow> raises e
     | Inr result \<Rightarrow> and_then (meanwhile (env_others env 3)) (\<lambda>_. cancel_apply cfg env job result))))"

definition already :: "job_view \<Rightarrow> exn" where
  "already job = CancellationError (''job is already '' @ job_state_value (jv_state job))"

text \<open>The compare-and-set on a queued job: its view once cancelled, or the refreshed view when
  another process moved it first.\<close>

definition cancel_queued :: "store_cfg \<Rightarrow> env \<Rightarrow> job_view \<Rightarrow> (job_view + job_view) program" where
  "cancel_queued cfg env job =
     handle
       (and_then (transition_job cfg (env_now env 0) (jv_id job) CANCELLED (jv_result job) (jv_error job) None (Some QUEUED))
         (\<lambda>v. returns (Inl v)))
       (\<lambda>e. case e of
          StaleLease m \<Rightarrow>
            and_then (meanwhile (env_others env 2)) (\<lambda>_.
            and_then (query (get_job (jv_id job))) (\<lambda>refreshed.
            case refreshed of
              None \<Rightarrow> raises (CancellationError ''job not found'')
            | Some v \<Rightarrow> if terminal (jv_state v) then raises (already v) else returns (Inr v)))
        | _ \<Rightarrow> raises e)"

definition cancel_live :: "store_cfg \<Rightarrow> canceller \<Rightarrow> env \<Rightarrow> action_request \<Rightarrow> job_view \<Rightarrow> job_view program" where
  "cancel_live cfg cn env request job =
     and_then (if jv_state job = QUEUED then cancel_queued cfg env job else returns (Inr job)) (\<lambda>step.
     case step of
       Inl cancelled \<Rightarrow> returns cancelled
     | Inr job' \<Rightarrow> cancel_started cfg cn env request job')"

definition cancel_job :: "store_cfg \<Rightarrow> canceller \<Rightarrow> env \<Rightarrow> string \<Rightarrow> subject \<Rightarrow> job_view program" where
  "cancel_job cfg cn env job_id subject =
     and_then (query (get_job job_id)) (\<lambda>found.
     case found of
       None \<Rightarrow> raises (CancellationError ''job not found'')
     | Some job \<Rightarrow>
         and_then (meanwhile (env_others env 0)) (\<lambda>_.
         and_then (query (get_job_context job_id)) (\<lambda>(request, owner).
         if (sj_name owner, sj_device owner) \<noteq> (sj_name subject, sj_device subject)
         then raises (CancellationError ''job belongs to another subject or device'')
         else if terminal (jv_state job) then raises (already job)
         else and_then (meanwhile (env_others env 1)) (\<lambda>_. cancel_live cfg cn env request job))))"

section \<open>Steps\<close>

lemma cancel_started_steps: "others_ok cfg env \<Longrightarrow> steps_only cfg (cancel_started cfg cn env request job)"
  unfolding cancel_started_def cancel_apply_def
  by (auto intro!: program_steps split: sum.splits exn.splits)

lemma cancel_queued_steps: "others_ok cfg env \<Longrightarrow> steps_only cfg (cancel_queued cfg env job)"
  unfolding cancel_queued_def by (auto intro!: program_steps split: exn.splits option.splits)

lemma cancel_job_steps: "others_ok cfg env \<Longrightarrow> steps_only cfg (cancel_job cfg cn env job_id subj)"
  unfolding cancel_job_def cancel_live_def
  by (auto intro!: program_steps cancel_started_steps cancel_queued_steps split: option.splits prod.splits sum.splits)

interpretation canceller: store_program cfg env "cancel_job cfg cn env job_id subj" for cfg env cn job_id subj
  by unfold_locales (rule cancel_job_steps)

section \<open>Properties\<close>

lemma and_then_eq_Inr:
  "and_then m f db = (Inr y, db') \<longleftrightarrow> (\<exists>x db1. m db = (Inr x, db1) \<and> f x db1 = (Inr y, db'))"
  by (auto simp: and_then_def split: prod.splits sum.splits)

lemma handle_eq_Inr:
  "handle m h db = (Inr y, db') \<longleftrightarrow> m db = (Inr y, db') \<or> (\<exists>e db1. m db = (Inl e, db1) \<and> h e db1 = (Inr y, db'))"
  by (auto simp: handle_def split: prod.splits sum.splits)

lemma cancel_queued_lost:
  assumes "cancel_queued cfg env job db = (Inr step, db')"
    and "\<And>w db2. transition_job cfg (env_now env 0) (jv_id job) CANCELLED (jv_result job) (jv_error job) None (Some QUEUED) db \<noteq> (Inr w, db2)"
  shows "\<exists>v. step = Inr v \<and> \<not> terminal (jv_state v)"
proof -
  from assms obtain e db1 where "(case e of
          StaleLease m \<Rightarrow>
            and_then (meanwhile (env_others env 2)) (\<lambda>_.
            and_then (query (get_job (jv_id job))) (\<lambda>refreshed.
            case refreshed of
              None \<Rightarrow> raises (CancellationError ''job not found'')
            | Some v \<Rightarrow> if terminal (jv_state v) then raises (already v) else returns (Inr v)))
        | _ \<Rightarrow> raises e) db1 = (Inr step, db')"
    unfolding cancel_queued_def handle_eq_Inr and_then_eq_Inr by blast
  then show ?thesis
    by (cases e) (auto simp: and_then_eq_Inr split: option.splits if_splits)
qed

lemma transition_view_state:
  assumes "transition_job cfg now i tgt result err fence expected db = (Inr v, db')"
  shows "jv_state v = tgt"
proof -
  from assms obtain r ty pl q where r: "find_job i db = Some r"
    and w: "audit cfg now ty pl (db\<lparr>db_jobs := update_by jr_id i (transition_row now tgt result err) (db_jobs db)\<rparr>) = Inr db'"
    and q: "find_job i db' = Some q" "job_view_of q = Inr v"
    by (auto simp: transition_job_def transaction_committed split: option.splits if_splits)
  have "q = transition_row now tgt result err r"
    using q(1) r by (simp add: audit_Inr [OF w] keyed_update.lookup_updated [OF transition_keeps_id])
  with job_view_fields [OF q(2)] show ?thesis by (simp add: transition_row_def Let_def)
qed

lemma cancel_started_confirmed:
  assumes "cancel_started cfg cn env request job db = (Inr v, db')" and "jv_state v = CANCELLED" and "jv_state job \<noteq> CANCELLED"
  shows "\<exists>action adapter execution result. validate_request (cn_validator cn) (cn_catalog cn) request = Inr action \<and>
    registry_get (cn_adapters cn) (ad_adapter action) = Inr adapter \<and>
    ap_cancel adapter action request execution = Inr result \<and> ca_disposition result = D_CANCELLED"
proof -
  from assms(1) obtain action adapter execution where
    x: "validate_request (cn_validator cn) (cn_catalog cn) request = Inr action"
    "registry_get (cn_adapters cn) (ad_adapter action) = Inr adapter" "cancel_execution job = Inr execution"
    by (auto simp: cancel_started_def and_then_eq_Inr)
  show ?thesis
  proof (cases "ap_cancel adapter action request execution")
    case (Inl e)
    with assms(1,2) x show ?thesis
      by (cases e) (auto simp: cancel_started_def and_then_eq_Inr split: if_splits dest!: transition_view_state)
  next
    case (Inr result)
    with assms x have "ca_disposition result = D_CANCELLED"
      by (auto simp: cancel_started_def cancel_apply_def and_then_eq_Inr split: if_splits dest!: transition_view_state)
    with x Inr show ?thesis by blast
  qed
qed

text \<open>(C13) A started job is cancelled only on the adapter's word: if, when the canceller comes to write,
  a worker has already started the job (in particular in the race where it was still queued when
  the canceller read it), then the canceller reports it CANCELLED only if the adapter of the job's
  action reported the cancellation.\<close>

theorem cancel_started_needs_adapter:
  assumes "reachable cfg db" and "hex_output (sc_crypto cfg)" and "others_ok cfg env"
    and "db1 = env_others env 1 (env_others env 0 db)" and "find_job i db1 = Some r" and "started (jr_state r)"
    and "cancel_job cfg cn env i subj db = (Inr v, db')" and "jv_state v = CANCELLED"
  shows "\<exists>action adapter execution result.
    validate_request (cn_validator cn) (cn_catalog cn) (jr_request r) = Inr action \<and>
    registry_get (cn_adapters cn) (ad_adapter action) = Inr adapter \<and>
    ap_cancel adapter action (jr_request r) execution = Inr result \<and> ca_disposition result = D_CANCELLED"
proof -
  let ?db0 = "env_others env 0 db"
  from assms(7) obtain job request owner where job: "get_job i db = Inr (Some job)" "\<not> terminal (jv_state job)"
    and ctx: "get_job_context i ?db0 = Inr (request, owner)"
    and rest: "cancel_live cfg cn env request job db1 = (Inr v, db')"
    by (auto simp: cancel_job_def and_then_eq_Inr assms(4) split: option.splits prod.splits if_splits)
  have id: "jv_id job = i" using job(1)
    by (auto simp: get_job_def split: option.splits dest!: lookup_by_SomeD job_view_fields)
  have "db_steps cfg db ?db0" "db_steps cfg ?db0 db1" using assms(3,4) by (simp_all add: others_ok_def)
  then have inv0: "db_inv cfg ?db0" and safe: "db_inv cfg db1 \<and> db_evolves ?db0 db1"
    using db_steps_safe [OF _ assms(2)] reachable_inv [OF assms(1,2)] by blast+
  from ctx obtain r0 where "find_job i ?db0 = Some r0" "jr_request r0 = request"
    by (auto simp: get_job_context_def split: option.splits)
  with find_job_evolves [of cfg db1 ?db0 i r0] safe assms(5) have request: "jr_request r = request"
    by (auto simp: row_evolves_def)
  have "jr_state r \<noteq> QUEUED" using assms(6) by (simp add: started_def)
  then have cas: "transition_job cfg (env_now env 0) i CANCELLED (jv_result job) (jv_error job) None (Some QUEUED) db1 = (Inr w, db2)
      \<Longrightarrow> False" for w db2
    using assms(5) by (auto simp: transition_job_def transaction_committed split: if_splits)
  from rest obtain step db3 where step: "(if jv_state job = QUEUED then cancel_queued cfg env job else returns (Inr job)) db1 = (Inr step, db3)"
    "(case step of Inl cancelled \<Rightarrow> returns cancelled | Inr job' \<Rightarrow> cancel_started cfg cn env request job') db3 = (Inr v, db')"
    unfolding cancel_live_def and_then_eq_Inr by blast
  have "\<exists>job'. step = Inr job' \<and> \<not> terminal (jv_state job')"
    using step(1) job(2) cancel_queued_lost [of cfg env job db1 step db3] cas id by (auto split: if_splits)
  with step(2) obtain job' where j: "cancel_started cfg cn env request job' db3 = (Inr v, db')" "\<not> terminal (jv_state job')"
    by auto
  have "jv_state job' \<noteq> CANCELLED" using j(2) by (auto simp: TERMINAL_JOB_STATES_def)
  from cancel_started_confirmed [OF j(1) assms(8) this] request show ?thesis by blast
qed

text \<open>Cancelling without a race, on every guard: an unknown job, a job of another subject or device
  and a job that is already terminal are refused without any write; a queued job of the caller is
  CANCELLED without consulting any adapter.\<close>

theorem cancel_job_guards:
  assumes "reachable cfg db" and "hex_output (sc_crypto cfg)" and "collision_free cfg" and "db_writable db" and "alone env"
  shows "case find_job i db of
      None \<Rightarrow> cancel_job cfg cn env i subj db = (Inl (CancellationError ''job not found''), db)
    | Some r \<Rightarrow>
        if (sj_name (jr_subject r), sj_device (jr_subject r)) \<noteq> (sj_name subj, sj_device subj)
        then cancel_job cfg cn env i subj db = (Inl (CancellationError ''job belongs to another subject or device''), db)
        else if terminal (jr_state r)
        then cancel_job cfg cn env i subj db =
          (Inl (CancellationError (''job is already '' @ job_state_value (jr_state r))), db)
        else if jr_state r = QUEUED
        then \<exists>v db'. cancel_job cfg cn env i subj db = (Inr v, db') \<and> get_job i db' = Inr (Some v) \<and>
          jv_id v = i \<and> jv_state v = CANCELLED
        else True"
proof (cases "find_job i db")
  case None
  then show ?thesis by (simp add: cancel_job_def get_job_def)
next
  case (Some r)
  note env [simp] = assms(5) [unfolded alone_def, rule_format]
  have inv: "db_inv cfg db" by (rule reachable_inv [OF assms(1,2)])
  obtain job where job: "job_view_of r = Inr job"
    using job_view_total find_job_inv [OF inv Some] by (auto simp: row_inv_def)
  have fields: "jv_state job = jr_state r" "jv_id job = i" using job_view_fields [OF job] find_job_inv [OF inv Some] by auto
  have read: "get_job i db = Inr (Some job)" "get_job_context i db = Inr (jr_request r, jr_subject r)"
    using Some job by (simp_all add: get_job_def get_job_context_def)
  have ok: "\<exists>v db'. cancel_job cfg cn env i subj db = (Inr v, db') \<and> get_job i db' = Inr (Some v) \<and> jv_id v = i \<and> jv_state v = CANCELLED"
    if queued: "jr_state r = QUEUED" and owner: "(sj_name (jr_subject r), sj_device (jr_subject r)) = (sj_name subj, sj_device subj)"
  proof -
    have "CANCELLED \<in> set (ALLOWED_TRANSITIONS (jr_state r))" using queued by simp
    from transition_view [OF assms(2,3) inv assms(4) Some _ _ this, of None "Some QUEUED" "env_now env 0" "jv_result job" "jv_error job"] queued
    obtain v db' where t: "transition_job cfg (env_now env 0) i CANCELLED (jv_result job) (jv_error job) None (Some QUEUED) db = (Inr v, db')"
      "get_job i db' = Inr (Some v)" "jv_id v = i" "jv_state v = CANCELLED" by auto
    have "\<not> terminal QUEUED" by (simp add: TERMINAL_JOB_STATES_def)
    with t owner show ?thesis
      by (simp add: cancel_job_def read cancel_live_def cancel_queued_def fields queued)
  qed
  show ?thesis
  proof (cases "jr_state r = QUEUED \<and> (sj_name (jr_subject r), sj_device (jr_subject r)) = (sj_name subj, sj_device subj)")
    case True
    with ok Some show ?thesis by (simp add: TERMINAL_JOB_STATES_def)
  next
    case False
    with Some read fields show ?thesis by (auto simp: cancel_job_def already_def)
  qed
qed

section \<open>An example\<close>

definition demo_canceller :: "(action_definition \<Rightarrow> action_request \<Rightarrow> adapter_execution option \<Rightarrow> exn + adapter_cancellation) \<Rightarrow> canceller" where
  "demo_canceller f = \<lparr>cn_catalog = [(action_key demo_action, demo_action)], cn_validator = (\<lambda>schema params. []),
     cn_adapters = [(''dh-core.fake'', (FakeAdapter 0)\<lparr>ap_cancel := f\<rparr>)]\<rparr>"

definition still :: env where
  "still = \<lparr>env_now = (\<lambda>k. int k), env_token = [], env_others = (\<lambda>k db. db)\<rparr>"

lemma still_ok: "alone still" "others_ok cfg still"
  by (simp_all add: alone_def others_ok_def still_def db_steps.start)

theorem cancel_job_guards_witness:
  "\<exists>v db'. cancel_job demo_cfg (demo_canceller (\<lambda>_ _ _. Inl (OtherException []))) still ''job_1'' demo_subject demo_queued = (Inr v, db') \<and>
     jv_state v = CANCELLED"
proof -
  have r: "find_job ''job_1'' demo_queued = Some demo_row" "jr_state demo_row = QUEUED" "jr_subject demo_row = demo_subject"
    by (simp_all add: demo_queued(2) demo_row_def new_job_row_def)
  from cancel_job_guards [OF demo_queued_reachable demo_cfg_hex demo_collision_free demo_queued(4) still_ok(1),
      where i = "''job_1''" and subj = demo_subject and cn = "demo_canceller (\<lambda>_ _ _. Inl (OtherException []))"]
  show ?thesis by (auto simp: r TERMINAL_JOB_STATES_def)
qed

theorem cancel_started_needs_adapter_witness:
  "\<exists>v db'. cancel_job demo_cfg (demo_canceller (\<lambda>_ _ _. Inr \<lparr>ca_disposition = D_CANCELLED, ca_details = []\<rparr>)) still ''job_1''
       demo_subject demo_running = (Inr v, db') \<and> jv_state v = CANCELLED \<and>
     (\<exists>adapter. registry_get (cn_adapters (demo_canceller (\<lambda>_ _ _. Inr \<lparr>ca_disposition = D_CANCELLED, ca_details = []\<rparr>)))
       (ad_adapter demo_action) = Inr adapter)"
proof -
  let ?cn = "demo_canceller (\<lambda>_ _ _. Inr \<lparr>ca_disposition = D_CANCELLED, ca_details = []\<rparr>)"
  let ?r = "lease_row 0 ''w'' ''t'' 30 demo_row"
  have r: "find_job ''job_1'' demo_running = Some ?r" "jr_state ?r = RUNNING" "jr_request ?r = demo_request" "jr_subject ?r = demo_subject"
    "jr_error ?r = ErrNull" "jr_result ?r = None" "jr_id ?r = ''job_1''"
    by (simp_all add: demo_running(2) lease_row_def demo_row_def new_job_row_def)
  obtain job where job: "job_view_of ?r = Inr job" "jv_state job = RUNNING" "jv_id job = ''job_1''" "jv_result job = None"
    using job_view_total [of ?r] job_view_fields [of ?r] r by (auto simp: not_legacy_def)
  let ?res = "[(''cancellation'', cancellation_json \<lparr>ca_disposition = D_CANCELLED, ca_details = []\<rparr>)]"
  have "CANCELLED \<in> set (ALLOWED_TRANSITIONS (jr_state ?r))" by (simp add: r(2))
  from transition_view [OF demo_cfg_hex demo_collision_free reachable_inv [OF demo_running_reachable demo_cfg_hex]
      demo_running(3) r(1) _ _ this, of None None "env_now still 1" "Some (obj_merge [] ?res)" None]
  obtain v db' where t: "transition_job demo_cfg (env_now still 1) ''job_1'' CANCELLED (Some (obj_merge [] ?res)) None None None demo_running = (Inr v, db')"
    "jv_state v = CANCELLED" by auto
  have read: "get_job ''job_1'' demo_running = Inr (Some job)" "get_job_context ''job_1'' demo_running = Inr (demo_request, demo_subject)"
    using r job(1) by (simp_all add: get_job_def get_job_context_def)
  have v: "validate_request (cn_validator ?cn) (cn_catalog ?cn) demo_request = Inr demo_action"
    by (simp add: demo_canceller_def validate_request_def catalog_get_def demo_action_def demo_request_def)
  have g: "registry_get (cn_adapters ?cn) (ad_adapter demo_action) = Inr ((FakeAdapter 0)\<lparr>ap_cancel :=
      (\<lambda>_ _ _. Inr \<lparr>ca_disposition = D_CANCELLED, ca_details = []\<rparr>)\<rparr>)"
    by (simp add: demo_canceller_def registry_get_def demo_action_def)
  have same: "env_others still k db = db" for k db by (simp add: still_def)
  have run: "cancel_job demo_cfg ?cn still ''job_1'' demo_subject demo_running = (Inr v, db')"
    using t(1) by (simp add: cancel_job_def read cancel_live_def cancel_started_def cancel_apply_def v g job same
        cancel_execution_def obj_get_def TERMINAL_JOB_STATES_def)
  have "started (jr_state ?r)" by (simp add: r(2) started_def live_states_def)
  from cancel_started_needs_adapter [OF demo_running_reachable demo_cfg_hex still_ok(2) _ r(1) this run t(2)] run t(2) r(3) v
  show ?thesis by (auto simp: same)
qed

end
