(* ===== verification/ConfirmationLaws.thy ===== *)
theory ConfirmationLaws
  imports StoreHistory
begin

text \<open>
  What a confirmation is worth: a successful consumption proves that this subject, on this
  device and control, was issued this token for exactly this request and has not used it
  before. The theorems follow one confirmation along arbitrary histories of the store.
\<close>

lemma compare_digest_Inr: "compare_digest a b = Inr t \<Longrightarrow> t \<longleftrightarrow> a = b"
  by (auto simp: compare_digest_def split: if_splits)

lemma reject_reason_None:
  assumes "confirmation_reject_reason found h request response now = Inr None"
  shows "\<exists>c. found = Some c \<and> cr_token_hash c = h \<and> now < cr_expires_at c \<and>
    cr_control c = cx_control (rq_context request) \<and>
    (\<forall>expected. cr_expected_response c = Some expected \<longrightarrow> expected = (case response of None \<Rightarrow> [] | Some s \<Rightarrow> s))"
proof (cases found)
  case (Some c)
  with assms show ?thesis
    by (auto simp: confirmation_reject_reason_def dest!: compare_digest_Inr split: if_splits option.splits)
qed (use assms in \<open>simp add: confirmation_reject_reason_def\<close>)

lemma consume_True:
  assumes "consume_confirmation cfg now request subj token response db = (Inr True, db')"
  shows "\<exists>c \<in> set (db_confirmations db). matches (confirmation_digest (sc_crypto cfg) request) subj c \<and>
    cr_token_hash c = sha256_hex (sc_crypto cfg) token \<and> now < cr_expires_at c \<and>
    cr_control c = cx_control (rq_context request) \<and>
    (\<forall>expected. cr_expected_response c = Some expected \<longrightarrow> expected = (case response of None \<Rightarrow> [] | Some s \<Rightarrow> s)) \<and>
    db_confirmations db' = update_by cr_id (cr_id c) (use_row now) (db_confirmations db)"
proof -
  let ?found = "newest (filter (matches (confirmation_digest (sc_crypto cfg) request) subj) (db_confirmations db))"
  from assms obtain c ty pl where c: "?found = Some c"
    and r: "confirmation_reject_reason ?found (sha256_hex (sc_crypto cfg) token) request response now = Inr None"
    and w: "audit cfg now ty pl (db\<lparr>db_confirmations := update_by cr_id (cr_id c) (use_row now) (db_confirmations db)\<rparr>) = Inr db'"
    by (auto simp: consume_confirmation_def transaction_committed Let_def split: option.splits)
  have "c \<in> set (db_confirmations db)" "matches (confirmation_digest (sc_crypto cfg) request) subj c"
    using newest_in_set [OF c] by auto
  with reject_reason_None [OF r] c audit_Inr(2) [OF w] show ?thesis by auto
qed

lemma confirmation_evolves_fields:
  "confirmation_evolves c c' \<Longrightarrow> c' = c\<lparr>cr_used_at := cr_used_at c'\<rparr> \<and> (cr_used_at c \<noteq> None \<longrightarrow> c' = c)"
  by (auto simp: confirmation_evolves_def)

lemma confirmation_kept:
  assumes "db_steps cfg db db'" and "hex_output (sc_crypto cfg)" and "db_inv cfg db"
    and "c \<in> set (db_confirmations db)"
  shows "\<exists>c' \<in> set (db_confirmations db'). confirmation_evolves c c'"
  using db_steps_safe [OF assms(1-3)] assms(4) by (auto simp: db_evolves_def dest: grows_in_set)

lemma hash_owner:
  assumes "distinct (map cr_token_hash cs)" and "c \<in> set cs" and "d \<in> set cs" and "cr_token_hash c = cr_token_hash d"
  shows "c = d"
  using assms by (auto simp: distinct_map inj_on_def)

lemma digest_authority:
  assumes "json_wf (JObj (rq_parameters r))" and "json_wf (JObj (rq_parameters r'))"
    and "inj_on (sha256_hex cr) {json_dumps (confirmation_payload r), json_dumps (confirmation_payload r')}"
    and "confirmation_digest cr r = confirmation_digest cr r'"
  shows "authority r = authority r'"
  using assms payload_digest_iff confirmation_payload_wf confirmation_payload_norm
  unfolding confirmation_digest_def by metis

lemma issue_result:
  assumes "create_confirmation cfg now uid token request subj mode prompt ttl db = (Inr ch, db')"
  shows "db_confirmations db' = db_confirmations db @ [new_confirmation_row cfg now (cc_id ch) token request subj mode ttl] \<and>
    cc_token ch = token \<and> cc_mode ch = mode \<and> cc_expires_at ch = now + seconds ttl \<and> db_jobs db' = db_jobs db"
  using assms
  by (auto simp: create_confirmation_def transaction_committed Let_def split: if_splits dest: audit_Inr(1,2))

text \<open>(C4) A confirmation authorises exactly what it was issued for: if the token of an issued
  confirmation is ever accepted, after any history, then the accepted request has the action,
  version, target and parameters of the request it was issued for, by the same subject on the
  same device and control, before the expiry, with the target ID typed out when the mode asks
  for it, and the confirmation is marked used. (The digest must not collide on the two requests
  and no other confirmation may have the same token hash.)\<close>

theorem confirmation_binds_request:
  assumes "reachable cfg db" and "hex_output (sc_crypto cfg)"
    and "create_confirmation cfg now uid token request subj mode prompt ttl db = (Inr ch, db1)"
    and "db_steps cfg db1 db2" and "distinct (map cr_token_hash (db_confirmations db2))"
    and "consume_confirmation cfg now' request' subj' (cc_token ch) response db2 = (Inr True, db3)"
    and "json_wf (JObj (rq_parameters request))" and "json_wf (JObj (rq_parameters request'))"
    and "inj_on (sha256_hex (sc_crypto cfg))
      {json_dumps (confirmation_payload request), json_dumps (confirmation_payload request')}"
  shows "authority request' = authority request \<and> sj_name subj' = sj_name subj \<and> sj_device subj' = sj_device subj \<and>
    cx_control (rq_context request') = cx_control (rq_context request) \<and> now' < cc_expires_at ch \<and>
    (mode = MODE_TYPED \<longrightarrow> (case response of None \<Rightarrow> [] | Some s \<Rightarrow> s) = tg_id (rq_target request)) \<and>
    (\<exists>c \<in> set (db_confirmations db3). cr_id c = cc_id ch \<and> cr_used_at c = Some now')"
proof -
  let ?c = "new_confirmation_row cfg now (cc_id ch) token request subj mode ttl"
  have inv: "db_inv cfg db" by (rule reachable_inv [OF assms(1,2)])
  have inv1: "db_inv cfg db1" by (rule issue.inv_kept [OF assms(2) inv assms(3)])
  note ch = issue_result [OF assms(3)]
  then obtain c2 where c2: "c2 \<in> set (db_confirmations db2)" "confirmation_evolves ?c c2"
    using confirmation_kept [OF assms(4,2) inv1, of ?c] by auto
  from consume_True [OF assms(6)] obtain c where c: "c \<in> set (db_confirmations db2)"
    "matches (confirmation_digest (sc_crypto cfg) request') subj' c"
    "cr_token_hash c = sha256_hex (sc_crypto cfg) (cc_token ch)" "now' < cr_expires_at c"
    "cr_control c = cx_control (rq_context request')"
    "\<forall>expected. cr_expected_response c = Some expected \<longrightarrow> expected = (case response of None \<Rightarrow> [] | Some s \<Rightarrow> s)"
    "db_confirmations db3 = update_by cr_id (cr_id c) (use_row now') (db_confirmations db2)" by blast
  have "c = c2"
    by (rule hash_owner [OF assms(5) c(1) c2(1)])
      (use c(3) ch c2(2) in \<open>auto simp: confirmation_evolves_def new_confirmation_row_def\<close>)
  with confirmation_evolves_fields [OF c2(2)] have ceq: "c = ?c\<lparr>cr_used_at := cr_used_at c\<rparr>" by blast
  have fields: "cr_id c = cc_id ch" "cr_confirmation_digest c = confirmation_digest (sc_crypto cfg) request"
    "cr_subject_name c = sj_name subj" "cr_subject_device c = sj_device subj" "cr_expires_at c = now + seconds ttl"
    "cr_control c = cx_control (rq_context request)"
    "cr_expected_response c = (if mode = MODE_TYPED then Some (tg_id (rq_target request)) else None)"
    by (subst ceq, simp add: new_confirmation_row_def)+
  have digest: "confirmation_digest (sc_crypto cfg) request = confirmation_digest (sc_crypto cfg) request'"
    using c(2) fields(2) by (simp add: matches_def)
  have auth: "authority request = authority request'"
    by (rule digest_authority [OF assms(7-9) digest])
  have used: "use_row now' c \<in> set (db_confirmations db3)"
    unfolding c(7) in_set_update_by using c(1) by force
  have rest: "sj_name subj' = sj_name subj" "sj_device subj' = sj_device subj"
    "cx_control (rq_context request') = cx_control (rq_context request)" "now' < cc_expires_at ch"
    "mode = MODE_TYPED \<Longrightarrow> (case response of None \<Rightarrow> [] | Some s \<Rightarrow> s) = tg_id (rq_target request)"
    using c(2,4,5,6) ch fields by (auto simp: matches_def)
  with auth used fields(1) show ?thesis
    by (auto simp: use_row_def intro!: bexI [of _ "use_row now' c"])
qed


lemma newest_last:
  assumes "\<forall>r \<in> set rs. sql_before (cr_created_at r) (cr_created_at c)"
  shows "newest (rs @ [c]) = Some c"
  using assms by (induction rs) auto

lemma issue_total:
  assumes "db_inv cfg db" and "collision_free cfg" and "db_writable db"
    and "''confirm_'' @ uid \<notin> cr_id ` set (db_confirmations db)"
  shows "\<exists>ch db1. create_confirmation cfg now uid token request subj mode prompt ttl db = (Inr ch, db1) \<and>
    db_confirmations db1 = db_confirmations db @ [new_confirmation_row cfg now (''confirm_'' @ uid) token request subj mode ttl] \<and>
    db_jobs db1 = db_jobs db \<and> db_writable db1 \<and> cc_id ch = ''confirm_'' @ uid \<and> cc_token ch = token"
proof -
  let ?c = "new_confirmation_row cfg now (''confirm_'' @ uid) token request subj mode ttl"
  have a: "audit_inv cfg (db_audit (db\<lparr>db_confirmations := db_confirmations db @ [?c]\<rparr>))"
    using assms(1) by (simp add: db_inv_def)
  obtain db1 where w: "audit cfg now ''confirmation.created''
      (JObj [(''confirmation_id'', JStr (''confirm_'' @ uid)),
        (''confirmation_digest'', JStr (cr_confirmation_digest ?c)), (''mode'', JStr (mode_value mode)),
        (''control'', opt_json JStr (cx_control (rq_context request)))])
      (db\<lparr>db_confirmations := db_confirmations db @ [?c]\<rparr>) = Inr db1"
    by (rule audit_total [OF assms(2) a])
  with assms(3,4) audit_Inr [OF w] show ?thesis
    by (simp add: create_confirmation_def transaction_def Let_def)
qed

lemma consume_accepts:
  assumes "db_inv cfg db" and "hex_output (sc_crypto cfg)" and "collision_free cfg" and "db_writable db"
    and "newest (filter (matches (confirmation_digest (sc_crypto cfg) request) subj) (db_confirmations db)) =
      Some (new_confirmation_row cfg now i token request subj mode ttl)"
    and "now' < now + seconds ttl"
    and "mode = MODE_TYPED \<longrightarrow> response = Some (tg_id (rq_target request)) \<and> ascii (tg_id (rq_target request))"
  shows "\<exists>db'. consume_confirmation cfg now' request subj token response db = (Inr True, db') \<and>
    db_confirmations db' = update_by cr_id i (use_row now') (db_confirmations db) \<and> db_jobs db' = db_jobs db \<and> db_writable db'"
proof -
  let ?c = "new_confirmation_row cfg now i token request subj mode ttl"
  have id: "cr_id ?c = i" by (simp add: new_confirmation_row_def)
  have "ascii (sha256_hex (sc_crypto cfg) token)" using assms(2) by (simp add: hex_output_def hex_char_ascii)
  then have accept: "confirmation_reject_reason (Some ?c) (sha256_hex (sc_crypto cfg) token) request response now' = Inr None"
    using assms(6,7) by (simp add: confirmation_reject_reason_def new_confirmation_row_def compare_digest_def)
  have a: "audit_inv cfg (db_audit (db\<lparr>db_confirmations := update_by cr_id i (use_row now') (db_confirmations db)\<rparr>))"
    using assms(1) by (simp add: db_inv_def)
  obtain db' where w: "audit cfg now' ''confirmation.consumed''
      (JObj [(''confirmation_id'', JStr i), (''confirmation_digest'', JStr (confirmation_digest (sc_crypto cfg) request))])
      (db\<lparr>db_confirmations := update_by cr_id i (use_row now') (db_confirmations db)\<rparr>) = Inr db'"
    by (rule audit_total [OF assms(3) a])
  with assms(4,5) audit_Inr [OF w] accept show ?thesis
    by (simp add: consume_confirmation_def transaction_def Let_def id)
qed

text \<open>A genuine approval works: issued and presented back by the same subject for the same
  request, before the expiry and with the typed target ID where the mode asks for one, the
  confirmation is accepted (it must be newer than the subject's older ones for the request, and
  a typed target ID must be ASCII).\<close>

theorem confirmation_accepted:
  assumes "reachable cfg db" and "hex_output (sc_crypto cfg)" and "collision_free cfg" and "db_writable db"
    and "''confirm_'' @ uid \<notin> cr_id ` set (db_confirmations db)"
    and "\<forall>c \<in> set (db_confirmations db). cr_created_at c < now \<and> instant_ok (cr_created_at c)" and "instant_ok now"
    and "now' < now + seconds ttl"
    and "mode = MODE_TYPED \<longrightarrow> response = Some (tg_id (rq_target request)) \<and> ascii (tg_id (rq_target request))"
  shows "\<exists>ch db1 db2. create_confirmation cfg now uid token request subj mode prompt ttl db = (Inr ch, db1) \<and>
    consume_confirmation cfg now' request subj (cc_token ch) response db1 = (Inr True, db2)"
proof -
  let ?c = "new_confirmation_row cfg now (''confirm_'' @ uid) token request subj mode ttl"
  let ?digest = "confirmation_digest (sc_crypto cfg) request"
  have inv: "db_inv cfg db" by (rule reachable_inv [OF assms(1,2)])
  obtain ch db1 where run: "create_confirmation cfg now uid token request subj mode prompt ttl db = (Inr ch, db1)"
    and db1: "db_confirmations db1 = db_confirmations db @ [?c]" "db_writable db1" "cc_token ch = token"
    using issue_total [OF inv assms(3-5)] by blast
  have "matches ?digest subj ?c" by (simp add: matches_def new_confirmation_row_def)
  moreover have "newest (filter (matches ?digest subj) (db_confirmations db) @ [?c]) = Some ?c"
    by (rule newest_last) (use assms(6,7) in \<open>auto simp: new_confirmation_row_def sql_before_iff\<close>)
  ultimately have "newest (filter (matches ?digest subj) (db_confirmations db1)) = Some ?c" by (simp add: db1)
  from consume_accepts [OF issue.inv_kept [OF assms(2) inv run] assms(2,3) db1(2) this assms(8,9)] run db1
  show ?thesis by auto
qed

text \<open>A typed confirmation for a target whose ID is not ASCII cannot be used: the comparison
  of the typed text raises instead of accepting or rejecting, and nothing is recorded.\<close>

theorem typed_non_ascii_raises:
  assumes "db_writable db" and "\<not> ascii (tg_id (rq_target request))"
    and "newest (filter (matches (confirmation_digest (sc_crypto cfg) request) subj) (db_confirmations db)) =
      Some (new_confirmation_row cfg now i token request subj MODE_TYPED ttl)"
    and "hex_output (sc_crypto cfg)" and "now' < now + seconds ttl"
  shows "consume_confirmation cfg now' request subj token response db =
    (Inl (PyTypeError ''comparing strings with non-ASCII characters is not supported''), db)"
proof -
  have "ascii (sha256_hex (sc_crypto cfg) token)" using assms(4) by (simp add: hex_output_def hex_char_ascii)
  with assms show ?thesis
    by (simp add: consume_confirmation_def transaction_def Let_def confirmation_reject_reason_def
        compare_digest_def new_confirmation_row_def)
qed

section \<open>An example\<close>

definition demo_issued :: db where
  "demo_issued = snd (create_confirmation demo_cfg 0 ''1'' ''tok'' demo_request demo_subject MODE_TYPED ''sure?'' 60 demo_running)"

lemma claim_confirmations:
  "claim_next_job cfg now token worker_id secs lease_for db = (Inr x, db') \<Longrightarrow> db_confirmations db' = db_confirmations db"
  by (fastforce simp: claim_next_job_def transaction_committed dest: audit_Inr(2) split: option.splits)

definition demo_confirmation :: confirmation_row where
  "demo_confirmation = new_confirmation_row demo_cfg 0 ''confirm_1'' ''tok'' demo_request demo_subject MODE_TYPED 60"

definition demo_consumed :: db where
  "demo_consumed = snd (consume_confirmation demo_cfg 5 demo_request demo_subject ''tok'' (Some ''100'') demo_issued)"

lemma demo_running_confirmations: "db_confirmations demo_running = []"
  using demo_running(1) demo_queued(3) claim_confirmations by fastforce

lemma demo_issued:
  "\<exists>ch. create_confirmation demo_cfg 0 ''1'' ''tok'' demo_request demo_subject MODE_TYPED ''sure?'' 60 demo_running =
     (Inr ch, demo_issued) \<and> cc_token ch = ''tok'' \<and> cc_id ch = ''confirm_1''"
  "db_confirmations demo_issued = [demo_confirmation]" "db_writable demo_issued"
  using issue_total [OF reachable_inv [OF demo_running_reachable demo_cfg_hex] demo_collision_free demo_running(3),
      where uid = "''1''" and now = 0 and token = "''tok''" and request = demo_request and subj = demo_subject
      and mode = MODE_TYPED and prompt = "''sure?''" and ttl = 60]
  by (auto simp: demo_issued_def demo_confirmation_def demo_running_confirmations)

lemma demo_issued_reachable: "reachable demo_cfg demo_issued"
  using demo_issued(1) db_steps.step [OF demo_running_reachable db_step.issue] by blast

lemma demo_target_ascii: "tg_id (rq_target demo_request) = ''100''" "ascii ''100''"
  by (simp_all add: demo_request_def ascii_def)

lemma demo_consumed:
  "consume_confirmation demo_cfg 5 demo_request demo_subject ''tok'' (Some ''100'') demo_issued = (Inr True, demo_consumed)"
  "map cr_token_hash (db_confirmations demo_consumed) = [sha256_hex demo_crypto ''tok'']"
proof -
  have "newest (filter (matches (confirmation_digest (sc_crypto demo_cfg) demo_request) demo_subject) (db_confirmations demo_issued)) =
      Some (new_confirmation_row demo_cfg 0 ''confirm_1'' ''tok'' demo_request demo_subject MODE_TYPED 60)"
    by (simp add: demo_issued(2) demo_confirmation_def matches_def new_confirmation_row_def)
  from consume_accepts [OF reachable_inv [OF demo_issued_reachable demo_cfg_hex] demo_cfg_hex demo_collision_free
      demo_issued(3) this, where now' = 5 and response = "Some ''100''"]
  have "\<exists>db'. consume_confirmation demo_cfg 5 demo_request demo_subject ''tok'' (Some ''100'') demo_issued = (Inr True, db') \<and>
      db_confirmations db' = update_by cr_id ''confirm_1'' (use_row 5) (db_confirmations demo_issued)"
    by (auto simp: demo_target_ascii seconds_def)
  then show "consume_confirmation demo_cfg 5 demo_request demo_subject ''tok'' (Some ''100'') demo_issued = (Inr True, demo_consumed)"
    "map cr_token_hash (db_confirmations demo_consumed) = [sha256_hex demo_crypto ''tok'']"
    by (auto simp: demo_consumed_def demo_issued(2) demo_confirmation_def new_confirmation_row_def use_row_def demo_cfg_def)
qed

theorem confirmation_binds_request_witness:
  "\<exists>ch. create_confirmation demo_cfg 0 ''1'' ''tok'' demo_request demo_subject MODE_TYPED ''sure?'' 60 demo_running = (Inr ch, demo_issued) \<and>
     5 < cc_expires_at ch \<and> (\<exists>c \<in> set (db_confirmations demo_consumed). cr_id c = cc_id ch \<and> cr_used_at c = Some 5)"
proof -
  obtain ch where ch: "create_confirmation demo_cfg 0 ''1'' ''tok'' demo_request demo_subject MODE_TYPED ''sure?'' 60 demo_running =
     (Inr ch, demo_issued)" "cc_token ch = ''tok''" using demo_issued(1) by blast
  have hashes: "distinct (map cr_token_hash (db_confirmations demo_issued))" by (simp add: demo_issued(2))
  have inj: "inj_on (sha256_hex (sc_crypto demo_cfg)) A" for A by (simp add: demo_cfg_def)
  from confirmation_binds_request [OF demo_running_reachable demo_cfg_hex ch(1) db_steps.start hashes
      demo_consumed(1) [folded ch(2)] demo_request_wf demo_request_wf inj] ch(1)
  show ?thesis by blast
qed


theorem confirmation_accepted_witness:
  "\<exists>ch db1 db2. create_confirmation demo_cfg 0 ''9'' ''tok'' demo_request demo_subject MODE_TYPED ''ok?'' 60 demo_running = (Inr ch, db1) \<and>
     consume_confirmation demo_cfg 59 demo_request demo_subject (cc_token ch) (Some ''100'') db1 = (Inr True, db2)"
  by (rule confirmation_accepted [OF demo_running_reachable demo_cfg_hex demo_collision_free demo_running(3)])
    (auto simp: demo_running_confirmations demo_target_ascii seconds_def instant_ok_def)

text \<open>A target whose ID contains a letter with an accent.\<close>

definition demo_accent :: action_request where
  "demo_accent = demo_request\<lparr>rq_target := \<lparr>tg_type = ''vm'', tg_id = [CHR 0xE9]\<rparr>\<rparr>"

theorem typed_non_ascii_raises_witness:
  "\<exists>ch db. create_confirmation demo_cfg 0 ''1'' ''tok'' demo_accent demo_subject MODE_TYPED ''ok?'' 60 demo_running = (Inr ch, db) \<and>
     consume_confirmation demo_cfg 5 demo_accent demo_subject ''tok'' (Some [CHR 0xE9]) db =
       (Inl (PyTypeError ''comparing strings with non-ASCII characters is not supported''), db)"
proof -
  have fresh: "''confirm_'' @ ''1'' \<notin> cr_id ` set (db_confirmations demo_running)" by (simp add: demo_running_confirmations)
  obtain ch db where db: "create_confirmation demo_cfg 0 ''1'' ''tok'' demo_accent demo_subject MODE_TYPED ''ok?'' 60 demo_running = (Inr ch, db)"
    "db_confirmations db = [new_confirmation_row demo_cfg 0 (''confirm_'' @ ''1'') ''tok'' demo_accent demo_subject MODE_TYPED 60]"
    "db_writable db"
    using issue_total [OF reachable_inv [OF demo_running_reachable demo_cfg_hex] demo_collision_free demo_running(3) fresh]
    unfolding demo_running_confirmations append_Nil by metis
  have "newest (filter (matches (confirmation_digest (sc_crypto demo_cfg) demo_accent) demo_subject) (db_confirmations db)) =
      Some (new_confirmation_row demo_cfg 0 (''confirm_'' @ ''1'') ''tok'' demo_accent demo_subject MODE_TYPED 60)"
    by (simp add: db(2) matches_def new_confirmation_row_def)
  from typed_non_ascii_raises [OF db(3) _ this demo_cfg_hex, of 5 "Some [CHR 0xE9]"] db(1)
  show ?thesis by (auto simp: demo_accent_def ascii_def seconds_def)
qed

end
