(* ===== verification/Api.thy ===== *)
theory Api
  imports Policy Cancellation ConfirmationLaws
begin

text \<open>
  The request handlers of the broker, \<open>api.py\<close>: planning, executing and cancelling actions,
  cancelling confirmations, readiness, and the event feed. A handler is a program over the store;
  an \<open>HTTPException\<close> is the error response it answers with, and an exception that no handler maps
  is the framework's internal error.
\<close>

record runtime =
  rt_catalog :: catalog
  rt_validator :: schema_validator
  rt_adapters :: registry
  rt_decide :: "json_object \<Rightarrow> exn + policy_decision"
  rt_ready :: bool
  rt_policy_env :: policy_env
  rt_confirmation_ttl_seconds :: int

section \<open>Handlers\<close>

definition mismatch :: exn where
  "mismatch = HTTPException 422 (JStr ''action ID mismatch'')"

definition decision_of ::
  "runtime \<Rightarrow> action_definition \<Rightarrow> action_request \<Rightarrow> subject \<Rightarrow> string \<Rightarrow> bool \<Rightarrow> policy_decision program" where
  "decision_of rt action request subject phase valid =
     and_then (query (\<lambda>db. Inr (audit_is_writable db))) (\<lambda>writable.
     lift (rt_decide rt (policy_input (rt_policy_env rt) writable action request subject phase valid)))"

text \<open>The \<open>try\<close> block of the plan handler.\<close>

definition plan_decision ::
  "store_cfg \<Rightarrow> runtime \<Rightarrow> env \<Rightarrow> action_request \<Rightarrow> subject \<Rightarrow> (action_definition \<times> string list \<times> policy_decision) program" where
  "plan_decision cfg rt env request subject =
     and_then (lift (validate_request (rt_validator rt) (rt_catalog rt) request)) (\<lambda>action.
     and_then (lift (registry_get (rt_adapters rt) (ad_adapter action))) (\<lambda>adapter.
     and_then (lift (ap_plan adapter action request)) (\<lambda>steps.
     and_then (meanwhile (env_others env 0)) (\<lambda>_.
     and_then (decision_of rt action request subject ''plan'' False) (\<lambda>decision.
     and_then (meanwhile (env_others env 1)) (\<lambda>_.
     and_then (if \<not> pd_allow decision
               then record_policy_denial cfg (env_now env 0) request subject ''plan'' (pd_reason decision)
               else returns ()) (\<lambda>_.
     returns (action, steps, decision))))))))"

definition plan_error :: "exn \<Rightarrow> 'a program" where
  "plan_error e =
     (case e of
        CatalogError m \<Rightarrow> raises (HTTPException 422 (JStr m))
      | AdapterExn error \<Rightarrow> raises (HTTPException 503
          (JObj [(''code'', JStr (kind_value (ae_kind error))), (''retry'', JStr (retry_value (ae_retry error)))]))
      | PolicyUnavailable m \<Rightarrow> raises (HTTPException 503 (JStr m))
      | _ \<Rightarrow> raises e)"

definition plan ::
  "store_cfg \<Rightarrow> runtime \<Rightarrow> env \<Rightarrow> string \<Rightarrow> string \<Rightarrow> action_request \<Rightarrow> subject \<Rightarrow> plan_view program" where
  "plan cfg rt env uid action_id request subject =
     (if action_id \<noteq> rq_action_id request then raises mismatch
      else
      and_then (handle (plan_decision cfg rt env request subject) plan_error) (\<lambda>(action, steps, decision).
      and_then (if pd_allow decision \<and> ad_mutation action \<and> pd_required_confirmation decision \<noteq> MODE_NONE
                then and_then (create_confirmation cfg (env_now env 1) uid (env_token env) request subject
                       (pd_required_confirmation decision)
                       (''Confirm '' @ ad_title action @ '' for '' @ tg_type (rq_target request) @ '':'' @ tg_id (rq_target request))
                       (rt_confirmation_ttl_seconds rt)) (\<lambda>c. returns (Some c))
                else returns None) (\<lambda>challenge.
      returns \<lparr>pv_request_digest = request_digest (sc_crypto cfg) request,
        pv_confirmation_digest = confirmation_digest (sc_crypto cfg) request,
        pv_action_id = ad_id action, pv_action_version = ad_version action, pv_target = rq_target request,
        pv_mutation = ad_mutation action, pv_executable = pd_allow decision, pv_steps = steps,
        pv_required_confirmation = pd_required_confirmation decision, pv_confirmation = challenge,
        pv_denial_reason = (if pd_allow decision then None else Some (pd_reason decision))\<rparr>)))"

text \<open>\<open>if request.confirmation_token: ...\<close>\<close>

definition consume_if_presented ::
  "store_cfg \<Rightarrow> env \<Rightarrow> action_request \<Rightarrow> subject \<Rightarrow> bool program" where
  "consume_if_presented cfg env request subject =
     (case rq_confirmation_token request of
        None \<Rightarrow> returns False
      | Some token \<Rightarrow> if token = [] then returns False
          else consume_confirmation cfg (env_now env 0) request subject token (rq_confirmation_response request))"

text \<open>The \<open>try\<close> block of the execute handler.\<close>

definition execute_body ::
  "store_cfg \<Rightarrow> runtime \<Rightarrow> env \<Rightarrow> string \<Rightarrow> action_request \<Rightarrow> subject \<Rightarrow> job_view program" where
  "execute_body cfg rt env uid request subject =
     and_then (lift (validate_request (rt_validator rt) (rt_catalog rt) request)) (\<lambda>action.
     and_then (consume_if_presented cfg env request subject) (\<lambda>confirmation_valid.
     and_then (meanwhile (env_others env 0)) (\<lambda>_.
     and_then (decision_of rt action request subject ''execute'' confirmation_valid) (\<lambda>decision.
     and_then (meanwhile (env_others env 1)) (\<lambda>_.
     if \<not> pd_allow decision
     then and_then (record_policy_denial cfg (env_now env 1) request subject ''execute'' (pd_reason decision)) (\<lambda>_.
          raises (HTTPException 403 (JStr (pd_reason decision))))
     else if rq_dry_run request then raises (HTTPException 422 (JStr ''execute rejects dry-run requests''))
     else create_job cfg (env_now env 1) uid request subject)))))"

definition execute_error :: "exn \<Rightarrow> 'a program" where
  "execute_error e =
     (case e of
        CatalogError m \<Rightarrow> raises (HTTPException 422 (JStr m))
      | PolicyUnavailable m \<Rightarrow> raises (HTTPException 503 (JStr m))
      | StoreError m \<Rightarrow> raises (HTTPException 409 (JStr m))
      | StaleLease m \<Rightarrow> raises (HTTPException 409 (JStr m))
      | _ \<Rightarrow> raises e)"

definition execute ::
  "store_cfg \<Rightarrow> runtime \<Rightarrow> env \<Rightarrow> string \<Rightarrow> string \<Rightarrow> action_request \<Rightarrow> subject \<Rightarrow> job_view program" where
  "execute cfg rt env uid action_id request subject =
     (if action_id \<noteq> rq_action_id request then raises mismatch
      else handle (execute_body cfg rt env uid request subject) execute_error)"

definition job :: "string \<Rightarrow> job_view program" where
  "job job_id =
     and_then (query (get_job job_id)) (\<lambda>found.
     case found of None \<Rightarrow> raises (HTTPException 404 (JStr ''job not found'')) | Some v \<Rightarrow> returns v)"

definition cancel_handler :: "store_cfg \<Rightarrow> canceller \<Rightarrow> env \<Rightarrow> string \<Rightarrow> subject \<Rightarrow> job_view program" where
  "cancel_handler cfg cn env job_id subject =
     handle (cancel_job cfg cn env job_id subject) (\<lambda>e.
       case e of
         CancellationError m \<Rightarrow> raises (HTTPException (if m = ''job not found'' then 404 else 409) (JStr m))
       | _ \<Rightarrow> raises e)"

definition cancel_confirmation_handler :: "store_cfg \<Rightarrow> env \<Rightarrow> string \<Rightarrow> subject \<Rightarrow> json program" where
  "cancel_confirmation_handler cfg env confirmation_id subject =
     and_then (cancel_confirmation cfg (env_now env 0) confirmation_id subject) (\<lambda>cancelled.
     if \<not> cancelled then raises (HTTPException 404 (JStr ''confirmation not found or already resolved''))
     else returns (JObj [(''status'', JStr ''cancelled'')]))"

definition ready :: "runtime \<Rightarrow> json program" where
  "ready rt =
     and_then (query (\<lambda>db. Inr (audit_is_writable db))) (\<lambda>writable.
     let failures = (if \<not> writable then [''audit''] else []) @ (if \<not> rt_ready rt then [''policy''] else [])
     in if failures \<noteq> []
        then raises (HTTPException 503 (JStr (''dependencies unavailable: '' @ join_with '', '' failures)))
        else returns (JObj [(''status'', JStr ''ready'')]))"

definition action_detail :: "runtime \<Rightarrow> string \<Rightarrow> action_definition program" where
  "action_detail rt action_id =
     handle (lift (catalog_latest (rt_catalog rt) action_id)) (\<lambda>e.
       case e of CatalogError m \<Rightarrow> raises (HTTPException 404 (JStr m)) | _ \<Rightarrow> raises e)"

text \<open>The startup check of the lifespan handler.\<close>

definition startup :: "store_cfg \<Rightarrow> unit program" where
  "startup cfg =
     and_then (query (\<lambda>db. verify_audit_chain cfg (al_events (db_audit db)))) (\<lambda>ok.
     if \<not> ok then raises (OtherException ''audit chain verification failed at startup'') else returns ())"

section \<open>Steps\<close>

lemma consume_if_presented_steps: "steps_only cfg (consume_if_presented cfg env request subj)"
  unfolding consume_if_presented_def by (auto intro!: program_steps split: option.splits)

lemma decision_of_steps: "steps_only cfg (decision_of rt action request subj phase valid)"
  unfolding decision_of_def by (intro program_steps)

lemma execute_steps: "others_ok cfg env \<Longrightarrow> steps_only cfg (execute cfg rt env uid action_id request subj)"
  unfolding execute_def execute_body_def execute_error_def
  by (auto intro!: program_steps consume_if_presented_steps decision_of_steps split: exn.splits)

lemma plan_steps: "others_ok cfg env \<Longrightarrow> steps_only cfg (plan cfg rt env uid action_id request subj)"
  unfolding plan_def plan_decision_def plan_error_def
  by (auto intro!: program_steps decision_of_steps split: exn.splits prod.splits)

interpretation execute: store_program cfg env "execute cfg rt env uid action_id request subj"
  for cfg env rt uid action_id request subj
  by unfold_locales (rule execute_steps)

interpretation plan: store_program cfg env "plan cfg rt env uid action_id request subj"
  for cfg env rt uid action_id request subj
  by unfold_locales (rule plan_steps)

end
