(* ===== verification/ApiLaws.thy ===== *)
theory ApiLaws
  imports Api
begin

text \<open>
  What the handlers guarantee: a job is only created for a validated, policy-approved, real
  request; a mutating action that asks for confirmation is executed only after its confirmation
  was consumed; a denial is recorded; and a plan that the shipped policy allows can be executed
  once confirmed.
\<close>

section \<open>Store operations and the jobs table\<close>

lemma and_then_cases:
  "and_then m f db = (res, db') \<Longrightarrow>
     (\<exists>e. m db = (Inl e, db') \<and> res = Inl e) \<or> (\<exists>x db1. m db = (Inr x, db1) \<and> f x db1 = (res, db'))"
  by (auto simp: and_then_def split: prod.splits sum.splits)

lemma consume_keeps_jobs: "consume_confirmation cfg now request subj token response db = (res, db') \<Longrightarrow> db_jobs db' = db_jobs db"
  unfolding consume_confirmation_def
  by (erule transaction_cases) (auto simp: Let_def dest: audit_Inr(1) split: option.splits)

lemma denial_keeps_jobs: "record_policy_denial cfg now request subj phase reason db = (res, db') \<Longrightarrow> db_jobs db' = db_jobs db"
  unfolding record_policy_denial_def by (erule transaction_cases) (auto dest: audit_Inr(1))

lemma consume_if_presented_keeps_jobs:
  "consume_if_presented cfg env request subj db = (res, db') \<Longrightarrow> db_jobs db' = db_jobs db"
  by (auto simp: consume_if_presented_def dest: consume_keeps_jobs split: option.splits if_splits)

lemma create_job_jobs:
  assumes "create_job cfg now uid request subj db = (res, db')"
  shows "db_jobs db' = db_jobs db \<or> (\<exists>v. res = Inr v \<and> jv_id v = ''job_'' @ uid \<and> jv_state v = QUEUED \<and>
    db_jobs db' = db_jobs db @ [new_job_row cfg now (''job_'' @ uid) request subj])"
proof (cases res)
  case (Inl e)
  with assms create.rolled_back show ?thesis by fastforce
next
  case (Inr v)
  show ?thesis
  proof (cases "lookup_by jr_idempotency_key (rq_idempotency_key request) (db_jobs db)")
    case (Some r)
    with assms Inr show ?thesis by (auto simp: create_job_def transaction_committed Let_def split: if_splits)
  next
    case None
    let ?row = "new_job_row cfg now (''job_'' @ uid) request subj"
    from None assms Inr obtain ty pl q where w: "audit cfg now ty pl (db\<lparr>db_jobs := db_jobs db @ [?row]\<rparr>) = Inr db'"
      and fresh: "''job_'' @ uid \<notin> jr_id ` set (db_jobs db)"
      and q: "find_job (''job_'' @ uid) db' = Some q" "job_view_of q = Inr v"
      by (auto simp: create_job_def transaction_committed Let_def split: if_splits option.splits)
    have "q = ?row" using q(1) fresh
      by (simp add: audit_Inr [OF w] lookup_by_append lookup_by_None_iff [THEN iffD2] new_job_row_def split: if_splits)
    with job_view_fields [OF q(2)] w Inr show ?thesis by (simp add: audit_Inr new_job_row_def)
  qed
qed

section \<open>Executing\<close>

lemma execute_body_stages:
  assumes "execute_body cfg rt env uid request subj db = (res, db')" and "alone env"
  shows "db_jobs db' = db_jobs db \<or>
    (\<exists>action valid db1 d. validate_request (rt_validator rt) (rt_catalog rt) request = Inr action \<and>
      consume_if_presented cfg env request subj db = (Inr valid, db1) \<and>
      rt_decide rt (policy_input (rt_policy_env rt) (audit_is_writable db1) action request subj ''execute'' valid) = Inr d \<and>
      pd_allow d \<and> \<not> rq_dry_run request \<and> create_job cfg (env_now env 1) uid request subj db1 = (res, db'))"
proof -
  note env [simp] = assms(2) [unfolded alone_def, rule_format]
  from assms(1) show ?thesis
    unfolding execute_body_def decision_of_def
    by (auto dest!: and_then_cases split: if_splits)
      (metis consume_if_presented_keeps_jobs denial_keeps_jobs)+
qed

text \<open>The execute handler adds a job only at the end of all its checks: the catalog accepts the
  request, the policy allows it in the execute phase with the confirmation state found, and it is not
  a dry run; then exactly one queued job with the request and the caller as its subject is appended.
  In every other case, error responses included, the jobs are as before.\<close>

theorem execute_adds_job_only_after_checks:
  assumes "alone env" and "execute cfg rt env uid action_id request subj db = (res, db')"
  shows "db_jobs db' = db_jobs db \<or>
    (\<exists>action valid db1 d v. action_id = rq_action_id request \<and>
      validate_request (rt_validator rt) (rt_catalog rt) request = Inr action \<and>
      consume_if_presented cfg env request subj db = (Inr valid, db1) \<and>
      rt_decide rt (policy_input (rt_policy_env rt) (audit_is_writable db1) action request subj ''execute'' valid) = Inr d \<and>
      pd_allow d \<and> \<not> rq_dry_run request \<and> res = Inr v \<and> jv_id v = ''job_'' @ uid \<and> jv_state v = QUEUED \<and>
      db_jobs db' = db_jobs db @ [new_job_row cfg (env_now env 1) (''job_'' @ uid) request subj])"
proof (cases "action_id = rq_action_id request")
  case True
  obtain r where r: "execute_body cfg rt env uid request subj db = (r, db')" and res: "res = r \<or> (\<exists>e. res = Inl e \<and> (\<exists>e'. r = Inl e'))"
    using assms(2) True by (auto simp: execute_def handle_def execute_error_def split: prod.splits sum.splits exn.splits)
  from execute_body_stages [OF r assms(1)] show ?thesis
  proof
    assume "\<exists>action valid db1 d. validate_request (rt_validator rt) (rt_catalog rt) request = Inr action \<and>
      consume_if_presented cfg env request subj db = (Inr valid, db1) \<and>
      rt_decide rt (policy_input (rt_policy_env rt) (audit_is_writable db1) action request subj ''execute'' valid) = Inr d \<and>
      pd_allow d \<and> \<not> rq_dry_run request \<and> create_job cfg (env_now env 1) uid request subj db1 = (r, db')"
    then obtain action valid db1 d where x: "validate_request (rt_validator rt) (rt_catalog rt) request = Inr action"
      "consume_if_presented cfg env request subj db = (Inr valid, db1)"
      "rt_decide rt (policy_input (rt_policy_env rt) (audit_is_writable db1) action request subj ''execute'' valid) = Inr d"
      "pd_allow d" "\<not> rq_dry_run request" "create_job cfg (env_now env 1) uid request subj db1 = (r, db')" by blast
    have "db_jobs db1 = db_jobs db" by (rule consume_if_presented_keeps_jobs [OF x(2)])
    with create_job_jobs [OF x(6)] x True res show ?thesis by auto
  qed simp
qed (use assms(2) in \<open>simp add: execute_def\<close>)

section \<open>Confirmed execution\<close>

context policy_gate
begin

lemma execute_confirmed:
  assumes "rt_decide rt = decide" and "execute cfg rt env uid action_id request subj db = (Inr v, db')"
    and "validate_request (rt_validator rt) (rt_catalog rt) request = Inr action"
    and "mutation_matches_risk action" and "ad_mutation action" and "ad_confirmation action \<noteq> MODE_NONE"
  shows "\<exists>token db1. rq_confirmation_token request = Some token \<and>
    consume_confirmation cfg (env_now env 0) request subj token (rq_confirmation_response request) db = (Inr True, db1) \<and>
    pe_allow_mutations (rt_policy_env rt)"
proof -
  have "execute_body cfg rt env uid request subj db = (Inr v, db')"
    using assms(2) by (auto simp: execute_def handle_def execute_error_def split: if_splits prod.splits sum.splits exn.splits)
  then obtain valid db1 d w where c: "consume_if_presented cfg env request subj db = (Inr valid, db1)"
    and d: "decide (policy_input (rt_policy_env rt) w action request subj ''execute'' valid) = Inr d" "pd_allow d"
    unfolding execute_body_def decision_of_def
    by (auto simp: assms(1,3) and_then_eq_Inr split: if_splits)
  have "valid" "pe_allow_mutations (rt_policy_env rt)"
    using confirmation_enforced [OF d assms(4-6)] switch_enforced [OF d assms(4,5)] by auto
  with c show ?thesis by (auto simp: consume_if_presented_def split: option.splits if_splits)
qed

end

text \<open>(C5) Under either engine, whatever other processes do meanwhile: the execute handler returns a job for
  a mutating action that asks for confirmation only if mutations are enabled and the confirmation
  token of the request was consumed for this very request and caller in the same call.\<close>

theorem execute_requires_confirmation:
  assumes "rt_decide rt = development_decide \<or> (\<exists>dt. rt_decide rt = opa_decide (rego_service dt))"
    and "execute cfg rt env uid action_id request subj db = (Inr v, db')"
    and "validate_request (rt_validator rt) (rt_catalog rt) request = Inr action"
    and "mutation_matches_risk action" and "ad_mutation action" and "ad_confirmation action \<noteq> MODE_NONE"
  shows "\<exists>token db1. rq_confirmation_token request = Some token \<and>
    consume_confirmation cfg (env_now env 0) request subj token (rq_confirmation_response request) db = (Inr True, db1) \<and>
    pe_allow_mutations (rt_policy_env rt)"
  using assms(1) development.execute_confirmed [OF _ assms(2-6)] rego.execute_confirmed [OF _ assms(2-6)] by blast

section \<open>From plan to job\<close>

text \<open>The execute request that answers a plan: the same request with the token, the typed response and
  without the dry-run flag.\<close>

definition confirmed :: "action_request \<Rightarrow> string \<Rightarrow> string option \<Rightarrow> action_request" where
  "confirmed request token response =
     request\<lparr>rq_dry_run := False, rq_confirmation_token := Some token, rq_confirmation_response := response\<rparr>"

lemma confirmed_same:
  "validate_request iter c (confirmed request token response) = validate_request iter c request"
  "confirmation_digest cr (confirmed request token response) = confirmation_digest cr request"
  "new_confirmation_row cfg now i t (confirmed request token response) subj mode ttl = new_confirmation_row cfg now i t request subj mode ttl"
  "rego_permits dt pe w action (confirmed request token response) subj phase valid = rego_permits dt pe w action request subj phase valid"
  "rq_action_id (confirmed request token response) = rq_action_id request"
  "rq_target (confirmed request token response) = rq_target request"
  "rq_idempotency_key (confirmed request token response) = rq_idempotency_key request"
  by (simp_all add: confirmed_def)
    (simp_all add: validate_request_def Let_def confirmation_digest_def confirmation_payload_def
      new_confirmation_row_def rego_permits_def cong: if_cong)

lemma plan_issues_challenge:
  assumes "db_inv cfg db" and "collision_free cfg" and "db_writable db" and "alone env"
    and "rt_decide rt = opa_decide (rego_service dt)"
    and "validate_request (rt_validator rt) (rt_catalog rt) request = Inr action"
    and "registry_get (rt_adapters rt) (ad_adapter action) = Inr adapter" and "ap_plan adapter action request = Inr steps"
    and "ad_mutation action" and "ad_confirmation action \<noteq> MODE_NONE"
    and "rego_permits dt (rt_policy_env rt) True action request subj ''plan'' False"
    and "''confirm_'' @ uid \<notin> cr_id ` set (db_confirmations db)"
  shows "\<exists>pv ch db1. plan cfg rt env uid (rq_action_id request) request subj db = (Inr pv, db1) \<and>
    pv_executable pv \<and> pv_confirmation pv = Some ch \<and> cc_token ch = env_token env \<and>
    db_confirmations db1 = db_confirmations db @ [new_confirmation_row cfg (env_now env 1) (''confirm_'' @ uid) (env_token env)
      request subj (ad_confirmation action) (rt_confirmation_ttl_seconds rt)] \<and>
    db_jobs db1 = db_jobs db \<and> db_writable db1 \<and> (hex_output (sc_crypto cfg) \<longrightarrow> db_inv cfg db1)"
proof -
  note env [simp] = assms(4) [unfolded alone_def, rule_format]
  let ?prompt = "''Confirm '' @ ad_title action @ '' for '' @ tg_type (rq_target request) @ '':'' @ tg_id (rq_target request)"
  let ?d = "\<lparr>pd_allow = True, pd_reason = ''allowed'', pd_required_confirmation = ad_confirmation action, pd_decision_id = None\<rparr>"
  have d: "decision_of rt action request subj ''plan'' False db = (Inr ?d, db)"
    using assms(3,5,9,11) by (simp add: decision_of_def opa_on_input audit_is_writable_def)
  have "plan_decision cfg rt env request subj db = (Inr (action, steps, ?d), db)"
    using assms(6-8) d by (simp add: plan_decision_def)
  moreover from issue_total [OF assms(1-3,12)] obtain ch db1 where
    t: "create_confirmation cfg (env_now env 1) uid (env_token env) request subj (ad_confirmation action) ?prompt
       (rt_confirmation_ttl_seconds rt) db = (Inr ch, db1)"
    and rest: "db_confirmations db1 = db_confirmations db @ [new_confirmation_row cfg (env_now env 1) (''confirm_'' @ uid) (env_token env)
      request subj (ad_confirmation action) (rt_confirmation_ttl_seconds rt)]" "db_jobs db1 = db_jobs db" "db_writable db1" "cc_token ch = env_token env"
    by blast
  moreover have "hex_output (sc_crypto cfg) \<longrightarrow> db_inv cfg db1" using issue.inv_kept [OF _ assms(1) t] by blast
  ultimately show ?thesis using assms(9,10) by (simp add: plan_def)
qed

lemma execute_confirmed_request:
  assumes "db_inv cfg db" and "hex_output (sc_crypto cfg)" and "collision_free cfg" and "db_writable db" and "alone env"
    and "rt_decide rt = opa_decide (rego_service dt)"
    and "validate_request (rt_validator rt) (rt_catalog rt) req = Inr action"
    and "newest (filter (matches (confirmation_digest (sc_crypto cfg) req) subj) (db_confirmations db)) =
      Some (new_confirmation_row cfg now i token req subj (ad_confirmation action) ttl)"
    and "rq_confirmation_token req = Some token" and "token \<noteq> []" and "\<not> rq_dry_run req"
    and "env_now env 0 < now + seconds ttl"
    and "ad_confirmation action = MODE_TYPED \<longrightarrow> rq_confirmation_response req = Some (tg_id (rq_target req)) \<and> ascii (tg_id (rq_target req))"
    and "rego_permits dt (rt_policy_env rt) True action req subj ''execute'' True"
    and "''job_'' @ uid \<notin> jr_id ` set (db_jobs db)" and "rq_idempotency_key req \<notin> jr_idempotency_key ` set (db_jobs db)"
  shows "\<exists>v db'. execute cfg rt env uid (rq_action_id req) req subj db = (Inr v, db') \<and> jv_id v = ''job_'' @ uid \<and> jv_state v = QUEUED \<and>
    db_jobs db' = db_jobs db @ [new_job_row cfg (env_now env 1) (''job_'' @ uid) req subj] \<and> db_writable db'"
proof -
  note env [simp] = assms(5) [unfolded alone_def, rule_format]
  obtain db2 where consumed: "consume_confirmation cfg (env_now env 0) req subj token (rq_confirmation_response req) db = (Inr True, db2)"
    "db_jobs db2 = db_jobs db" "db_writable db2"
    using consume_accepts [OF assms(1-4,8,12,13)] by blast
  have inv2: "db_inv cfg db2" by (rule consume.inv_kept [OF assms(2,1) consumed(1)])
  have fresh: "lookup_by jr_idempotency_key (rq_idempotency_key req) (db_jobs db2) = None" "''job_'' @ uid \<notin> jr_id ` set (db_jobs db2)"
    using assms(15,16) by (simp_all add: lookup_by_None_iff consumed)
  from create_job_new [OF inv2 assms(3) consumed(3) fresh(2,1), of "env_now env 1" subj] obtain v db3 where
    v: "create_job cfg (env_now env 1) uid req subj db2 = (Inr v, db3)" "jv_id v = ''job_'' @ uid" "jv_state v = QUEUED"
    "db_jobs db3 = db_jobs db @ [new_job_row cfg (env_now env 1) (''job_'' @ uid) req subj]" "db_writable db3"
    by (auto simp: consumed)
  have d: "\<exists>d. decision_of rt action req subj ''execute'' True db2 = (Inr d, db2) \<and> pd_allow d"
    using consumed(3) assms(6,14) by (simp add: decision_of_def opa_on_input audit_is_writable_def)
  have "consume_if_presented cfg env req subj db = (Inr True, db2)"
    using consumed(1) assms(9,10) by (simp add: consume_if_presented_def)
  with d v(1) assms(7,11) have "execute_body cfg rt env uid req subj db = (Inr v, db3)"
    by (auto simp: execute_body_def)
  with v show ?thesis by (simp add: execute_def)
qed

lemma alone_ok: "alone env \<Longrightarrow> others_ok cfg env"
  by (simp add: alone_def others_ok_def db_steps.start)

lemma steps_of_run: "steps_only cfg m \<Longrightarrow> m db = (r, db') \<Longrightarrow> db_steps cfg db db'"
  unfolding steps_only_def by (metis snd_conv)

lemma planned_confirmed:
  assumes "reachable cfg db" and "hex_output (sc_crypto cfg)" and "collision_free cfg" and "db_writable db"
    and "alone env" and "alone env'" and "rt_decide rt = opa_decide (rego_service dt)"
    and "validate_request (rt_validator rt) (rt_catalog rt) request = Inr action"
    and "registry_get (rt_adapters rt) (ad_adapter action) = Inr adapter" and "ap_plan adapter action request = Inr steps"
    and "ad_mutation action" and "ad_confirmation action \<noteq> MODE_NONE"
    and "rego_permits dt (rt_policy_env rt) True action request subj ''plan'' False"
    and "''confirm_'' @ uid \<notin> cr_id ` set (db_confirmations db)" and "''job_'' @ uid' \<notin> jr_id ` set (db_jobs db)"
    and "rq_idempotency_key request \<notin> jr_idempotency_key ` set (db_jobs db)"
    and "\<forall>c \<in> set (db_confirmations db). cr_created_at c < env_now env 1 \<and> instant_ok (cr_created_at c)"
    and "instant_ok (env_now env 1)" and "env_now env' 0 < env_now env 1 + seconds (rt_confirmation_ttl_seconds rt)"
    and "env_token env \<noteq> []"
    and "ad_confirmation action = MODE_TYPED \<longrightarrow> response = Some (tg_id (rq_target request)) \<and> ascii (tg_id (rq_target request))"
  shows "\<exists>pv ch db1 v db2. plan cfg rt env uid (rq_action_id request) request subj db = (Inr pv, db1) \<and>
    pv_confirmation pv = Some ch \<and> cc_token ch = env_token env \<and>
    execute cfg rt env' uid' (rq_action_id request) (confirmed request (cc_token ch) response) subj db1 = (Inr v, db2) \<and>
    jv_id v = ''job_'' @ uid' \<and> jv_state v = QUEUED \<and>
    db_jobs db2 = db_jobs db @ [new_job_row cfg (env_now env' 1) (''job_'' @ uid') (confirmed request (cc_token ch) response) subj] \<and>
    db_writable db2 \<and> reachable cfg db2"
proof -
  let ?req = "confirmed request (env_token env) response" and ?digest = "confirmation_digest (sc_crypto cfg) request"
  let ?row = "new_confirmation_row cfg (env_now env 1) (''confirm_'' @ uid) (env_token env) request subj
    (ad_confirmation action) (rt_confirmation_ttl_seconds rt)"
  from plan_issues_challenge [OF reachable_inv [OF assms(1,2)] assms(3-5,7-14)] assms(2) obtain pv ch db1 where
    pv: "plan cfg rt env uid (rq_action_id request) request subj db = (Inr pv, db1)" "pv_confirmation pv = Some ch" "cc_token ch = env_token env"
    and db1: "db_confirmations db1 = db_confirmations db @ [?row]" "db_jobs db1 = db_jobs db" "db_writable db1" "db_inv cfg db1" by blast
  have "matches ?digest subj ?row" by (simp add: matches_def new_confirmation_row_def)
  moreover have "newest (filter (matches ?digest subj) (db_confirmations db) @ [?row]) = Some ?row"
    by (rule newest_last) (use assms(17,18) in \<open>auto simp: new_confirmation_row_def sql_before_iff\<close>)
  ultimately have found: "newest (filter (matches (confirmation_digest (sc_crypto cfg) ?req) subj) (db_confirmations db1)) =
      Some (new_confirmation_row cfg (env_now env 1) (''confirm_'' @ uid) (env_token env) ?req subj (ad_confirmation action) (rt_confirmation_ttl_seconds rt))"
    by (simp add: db1 confirmed_same)
  have "rego_permits dt (rt_policy_env rt) True action ?req subj ''execute'' True"
    using assms(13) by (simp add: confirmed_same rego_permits_def)
  then have "\<exists>v db2. execute cfg rt env' uid' (rq_action_id ?req) ?req subj db1 = (Inr v, db2) \<and> jv_id v = ''job_'' @ uid' \<and> jv_state v = QUEUED \<and>
    db_jobs db2 = db_jobs db1 @ [new_job_row cfg (env_now env' 1) (''job_'' @ uid') ?req subj] \<and> db_writable db2"
    by (intro execute_confirmed_request [OF db1(4) assms(2,3) db1(3) assms(6,7) _ found])
      (use assms(8,15,16,19-21) in \<open>simp_all add: confirmed_same db1(2)\<close>, simp_all add: confirmed_def)
  then obtain v db2 where run: "execute cfg rt env' uid' (rq_action_id ?req) ?req subj db1 = (Inr v, db2)" "jv_id v = ''job_'' @ uid'" "jv_state v = QUEUED"
    "db_jobs db2 = db_jobs db @ [new_job_row cfg (env_now env' 1) (''job_'' @ uid') ?req subj]" "db_writable db2"
    by (auto simp: db1(2))
  have "db_steps cfg db db1" using steps_of_run [OF plan_steps [OF alone_ok [OF assms(5)]] pv(1)] .
  moreover have "db_steps cfg db1 db2" using steps_of_run [OF execute_steps [OF alone_ok [OF assms(6)]] run(1)] .
  ultimately have "reachable cfg db2" using assms(1) db_steps_trans by blast
  with pv run show ?thesis by (auto simp: confirmed_same)
qed

text \<open>Plan, confirm, execute: when the shipped policy allows a mutating action in the plan phase, the
  plan handler returns a confirmation challenge, and sending the request back with its token (and the
  target ID typed out where the mode asks for it) before the expiry queues a job for exactly that
  request.\<close>

theorem plan_confirm_execute:
  assumes "reachable cfg db" and "hex_output (sc_crypto cfg)" and "collision_free cfg" and "db_writable db"
    and "alone env" and "alone env'" and "rt_decide rt = opa_decide (rego_service dt)"
    and "validate_request (rt_validator rt) (rt_catalog rt) request = Inr action"
    and "registry_get (rt_adapters rt) (ad_adapter action) = Inr adapter" and "ap_plan adapter action request = Inr steps"
    and "ad_mutation action" and "ad_confirmation action \<noteq> MODE_NONE"
    and "rego_permits dt (rt_policy_env rt) True action request subj ''plan'' False"
    and "''confirm_'' @ uid \<notin> cr_id ` set (db_confirmations db)" and "''job_'' @ uid' \<notin> jr_id ` set (db_jobs db)"
    and "rq_idempotency_key request \<notin> jr_idempotency_key ` set (db_jobs db)"
    and "\<forall>c \<in> set (db_confirmations db). cr_created_at c < env_now env 1 \<and> instant_ok (cr_created_at c)"
    and "instant_ok (env_now env 1)" and "env_now env' 0 < env_now env 1 + seconds (rt_confirmation_ttl_seconds rt)"
    and "env_token env \<noteq> []"
    and "ad_confirmation action = MODE_TYPED \<longrightarrow> response = Some (tg_id (rq_target request)) \<and> ascii (tg_id (rq_target request))"
  shows "\<exists>pv ch db1 v db2. plan cfg rt env uid (rq_action_id request) request subj db = (Inr pv, db1) \<and>
    pv_confirmation pv = Some ch \<and>
    execute cfg rt env' uid' (rq_action_id request) (confirmed request (cc_token ch) response) subj db1 = (Inr v, db2) \<and>
    jv_id v = ''job_'' @ uid' \<and> jv_state v = QUEUED \<and>
    db_jobs db2 = db_jobs db @ [new_job_row cfg (env_now env' 1) (''job_'' @ uid') (confirmed request (cc_token ch) response) subj]"
  using planned_confirmed [OF assms] by blast

section \<open>An example\<close>

definition demo_runtime :: runtime where
  "demo_runtime = \<lparr>rt_catalog = [(action_key demo_action, demo_action)], rt_validator = (\<lambda>schema params. []),
     rt_adapters = [(ad_adapter demo_action, FakeAdapter 0)], rt_decide = opa_decide (rego_service demo_data),
     rt_ready = True, rt_policy_env = demo_policy_env no_inventory, rt_confirmation_ttl_seconds = 60\<rparr>"

definition demo_quiet :: "instant \<Rightarrow> env" where
  "demo_quiet t = \<lparr>env_now = (\<lambda>k. t + int k), env_token = ''secret'', env_others = (\<lambda>k db. db)\<rparr>"

lemma demo_runtime_setup:
  "alone (demo_quiet t)" "rt_decide demo_runtime = opa_decide (rego_service demo_data)"
  "validate_request (rt_validator demo_runtime) (rt_catalog demo_runtime) demo_request = Inr demo_action"
  "registry_get (rt_adapters demo_runtime) (ad_adapter demo_action) = Inr (FakeAdapter 0)"
  "ap_plan (FakeAdapter 0) demo_action demo_request = Inr [''observe vm:100'']"
  "ad_mutation demo_action" "ad_confirmation demo_action \<noteq> MODE_NONE" "mutation_matches_risk demo_action"
  "rego_permits demo_data (rt_policy_env demo_runtime) True demo_action demo_request demo_operator ''plan'' False"
  "rq_action_id demo_request = ''pve.vm.start''"
  by (simp_all add: demo_runtime_def alone_def demo_quiet_def validate_request_def catalog_get_def demo_action_def demo_request_def
      registry_get_def FakeAdapter_def mutation_matches_risk_def rego_permits_def demo_data_def demo_policy_env_def
      demo_operator_def rego_channels_def is_protected_def no_inventory_def)

theorem plan_confirm_execute_witness:
  "\<exists>pv ch db1 v db2. plan demo_cfg demo_runtime (demo_quiet 0) ''1'' ''pve.vm.start'' demo_request demo_operator empty_db = (Inr pv, db1) \<and>
     pv_confirmation pv = Some ch \<and>
     execute demo_cfg demo_runtime (demo_quiet 10) ''1'' ''pve.vm.start'' (confirmed demo_request (cc_token ch) (Some ''100'')) demo_operator db1
       = (Inr v, db2) \<and> jv_state v = QUEUED \<and> length (db_jobs db2) = 1"
proof -
  have "\<exists>pv ch db1 v db2. plan demo_cfg demo_runtime (demo_quiet 0) ''1'' (rq_action_id demo_request) demo_request demo_operator empty_db = (Inr pv, db1) \<and>
    pv_confirmation pv = Some ch \<and>
    execute demo_cfg demo_runtime (demo_quiet 10) ''1'' (rq_action_id demo_request) (confirmed demo_request (cc_token ch) (Some ''100'')) demo_operator db1 = (Inr v, db2) \<and>
    jv_id v = ''job_'' @ ''1'' \<and> jv_state v = QUEUED \<and>
    db_jobs db2 = db_jobs empty_db @ [new_job_row demo_cfg (env_now (demo_quiet 10) 1) (''job_'' @ ''1'') (confirmed demo_request (cc_token ch) (Some ''100'')) demo_operator]"
    by (rule plan_confirm_execute [OF db_steps.start demo_cfg_hex demo_collision_free _ demo_runtime_setup(1,1,2-7,9)])
      (simp_all add: empty_db_def demo_quiet_def demo_runtime_def instant_ok_def seconds_def demo_request_def ascii_def)
  then show ?thesis by (auto simp: demo_runtime_setup(10) empty_db_def)
qed

text \<open>A request answering a challenge that was issued for it on an otherwise empty store.\<close>

definition demo_approved :: action_request where
  "demo_approved = confirmed demo_request ''secret'' (Some ''100'')"

definition demo_challenged :: db where
  "demo_challenged = snd (create_confirmation demo_cfg 1 ''1'' ''secret'' demo_approved demo_operator (ad_confirmation demo_action) ''ok?'' 60 empty_db)"

lemma demo_challenged:
  "db_inv demo_cfg demo_challenged" "db_writable demo_challenged" "db_jobs demo_challenged = []"
  "db_confirmations demo_challenged = [new_confirmation_row demo_cfg 1 ''confirm_1'' ''secret'' demo_approved demo_operator (ad_confirmation demo_action) 60]"
  using issue_total [OF empty_db_inv demo_collision_free, where uid = "''1''" and now = 1 and token = "''secret''" and request = demo_approved
      and subj = demo_operator and mode = "ad_confirmation demo_action" and prompt = "''ok?''" and ttl = 60]
    issue.inv_kept [OF demo_cfg_hex empty_db_inv, of 1 "''1''" "''secret''" demo_approved demo_operator "ad_confirmation demo_action" "''ok?''" 60]
  by (fastforce simp: demo_challenged_def empty_db_def)+

lemma demo_approved_valid:
  "validate_request (rt_validator demo_runtime) (rt_catalog demo_runtime) demo_approved = Inr demo_action"
  "rq_action_id demo_approved = ''pve.vm.start''"
  by (simp_all add: demo_approved_def confirmed_same demo_runtime_setup)

lemma demo_executes:
  "\<exists>v db'. execute demo_cfg demo_runtime (demo_quiet 10) ''1'' ''pve.vm.start'' demo_approved demo_operator demo_challenged = (Inr v, db') \<and>
     length (db_jobs db') = 1"
proof -
  have found: "newest (filter (matches (confirmation_digest (sc_crypto demo_cfg) demo_approved) demo_operator) (db_confirmations demo_challenged)) =
      Some (new_confirmation_row demo_cfg 1 ''confirm_1'' ''secret'' demo_approved demo_operator (ad_confirmation demo_action) 60)"
    by (simp add: demo_challenged(4) matches_def new_confirmation_row_def)
  have "rego_permits demo_data (rt_policy_env demo_runtime) True demo_action demo_approved demo_operator ''execute'' True"
    using demo_runtime_setup(9) by (simp add: demo_approved_def confirmed_same rego_permits_def)
  then show ?thesis
    using execute_confirmed_request [OF demo_challenged(1) demo_cfg_hex demo_collision_free demo_challenged(2) demo_runtime_setup(1,2)
      demo_approved_valid(1) found, of 10 "''1''"]
    by (auto simp: demo_approved_def confirmed_def demo_quiet_def seconds_def demo_challenged(3) demo_request_def ascii_def)
qed

theorem execute_requires_confirmation_witness:
  "\<exists>v db' db1. execute demo_cfg demo_runtime (demo_quiet 10) ''1'' ''pve.vm.start'' demo_approved demo_operator demo_challenged = (Inr v, db') \<and>
     consume_confirmation demo_cfg (env_now (demo_quiet 10) 0) demo_approved demo_operator ''secret'' (Some ''100'') demo_challenged = (Inr True, db1)"
proof -
  obtain v db' where run: "execute demo_cfg demo_runtime (demo_quiet 10) ''1'' ''pve.vm.start'' demo_approved demo_operator demo_challenged = (Inr v, db')"
    using demo_executes by blast
  from execute_requires_confirmation [OF _ run demo_approved_valid(1) demo_runtime_setup(8,6,7)] demo_runtime_setup(2) run
  show ?thesis by (auto simp: demo_approved_def confirmed_def)
qed

theorem execute_adds_job_only_after_checks_witness:
  "\<exists>v db' valid db1. execute demo_cfg demo_runtime (demo_quiet 10) ''1'' ''pve.vm.start'' demo_approved demo_operator demo_challenged = (Inr v, db') \<and>
     consume_if_presented demo_cfg (demo_quiet 10) demo_approved demo_operator demo_challenged = (Inr valid, db1) \<and>
     db_jobs db' = [new_job_row demo_cfg (env_now (demo_quiet 10) 1) ''job_1'' demo_approved demo_operator]"
proof -
  obtain v db' where run: "execute demo_cfg demo_runtime (demo_quiet 10) ''1'' ''pve.vm.start'' demo_approved demo_operator demo_challenged = (Inr v, db')"
    and one: "length (db_jobs db') = 1"
    using demo_executes by blast
  from execute_adds_job_only_after_checks [OF demo_runtime_setup(1) run] one run show ?thesis by (auto simp: demo_challenged(3))
qed

end
