(* ===== verification/JsonLoads.thy ===== *)
theory JsonLoads
  imports PyJson
begin

text \<open>
  Python's \<open>json.loads\<close>: a recursive-descent reader with the same treatment of white space, strict
  strings, escapes, numbers and duplicate keys (the last one wins). Code points above 255 are outside
  the model of strings, so an escape that denotes one is not read; the interpreter's recursion limit and its
  limit on the length of decimal numerals are not modelled. \<open>json.dumps\<close> without key sorting and with
  compact separators is \<^const>\<open>render\<close>, and reading it back gives the value.

  How \<open>float\<close> rounds a numeral is a parameter: the token \<open>repr\<close> writes for the parsed number.
\<close>

section \<open>Reading strings\<close>

definition skip_ws :: "string \<Rightarrow> string" where
  "skip_ws = dropWhile (\<lambda>c. c \<in> {CHR 0x20, CHR 0x09, CHR 0x0A, CHR 0x0D})"

definition hex_value :: "char \<Rightarrow> nat option" where
  "hex_value c =
     (let n = (of_char c :: nat) in
      if 48 \<le> n \<and> n \<le> 57 then Some (n - 48)
      else if 97 \<le> n \<and> n \<le> 102 then Some (n - 87)
      else if 65 \<le> n \<and> n \<le> 70 then Some (n - 55) else None)"

definition simple_escape :: "char \<Rightarrow> char option" where
  "simple_escape e =
     (if e = CHR 0x22 \<or> e = CHR 0x5C \<or> e = CHR ''/'' then Some e
      else if e = CHR ''b'' then Some (CHR 0x08) else if e = CHR ''f'' then Some (CHR 0x0C)
      else if e = CHR ''n'' then Some (CHR 0x0A) else if e = CHR ''r'' then Some (CHR 0x0D)
      else if e = CHR ''t'' then Some (CHR 0x09) else None)"

definition unicode_escape :: "char \<Rightarrow> char \<Rightarrow> char \<Rightarrow> char \<Rightarrow> char option" where
  "unicode_escape a b c d =
     (case (hex_value a, hex_value b, hex_value c, hex_value d) of
        (Some w, Some x, Some y, Some z) \<Rightarrow> if w = 0 \<and> x = 0 then Some (char_of (16 * y + z)) else None
      | _ \<Rightarrow> None)"

text \<open>The characters of a string after its opening quote, and the text after the closing one.\<close>

fun read_chars :: "string \<Rightarrow> (string \<times> string) option" where
  "read_chars [] = None"
| "read_chars (c # s) =
     (if c = CHR 0x22 then Some ([], s)
      else if c = CHR 0x5C then
        (case s of
           [] \<Rightarrow> None
         | e # s1 \<Rightarrow>
             if e = CHR ''u'' then
               (case s1 of
                  h1 # h2 # h3 # h4 # s2 \<Rightarrow>
                    (case unicode_escape h1 h2 h3 h4 of
                       None \<Rightarrow> None
                     | Some x \<Rightarrow> map_option (\<lambda>(t, r). (x # t, r)) (read_chars s2))
                | _ \<Rightarrow> None)
             else (case simple_escape e of
                       None \<Rightarrow> None
                     | Some x \<Rightarrow> map_option (\<lambda>(t, r). (x # t, r)) (read_chars s1)))
      else if (of_char c :: nat) < 32 then None
      else map_option (\<lambda>(t, r). (c # t, r)) (read_chars s))"

section \<open>Reading numbers\<close>

definition starts :: "string \<Rightarrow> string \<Rightarrow> bool" where
  "starts p s \<longleftrightarrow> take (length p) s = p"

definition digits_of :: "string \<Rightarrow> string" where
  "digits_of s = takeWhile is_digit s"

text \<open>\<open>-?(?:0|[1-9][0-9]*)\<close>, then an optional fraction and an optional exponent.\<close>

definition read_int_part :: "string \<Rightarrow> (string \<times> string) option" where
  "read_int_part s =
     (let (sign, t) = (if starts ''-'' s then (''-'', tl s) else ([], s));
          ds = digits_of t
      in if ds = [] then None
         else if hd ds = CHR ''0'' then Some (sign @ ''0'', tl t)
         else Some (sign @ ds, drop (length ds) t))"

definition read_fraction :: "string \<Rightarrow> string \<times> string" where
  "read_fraction s =
     (if starts ''.'' s \<and> digits_of (tl s) \<noteq> []
      then (CHR ''.'' # digits_of (tl s), drop (length (digits_of (tl s))) (tl s)) else ([], s))"

definition read_exponent :: "string \<Rightarrow> string \<times> string" where
  "read_exponent s =
     (case s of
        e # t \<Rightarrow>
          if e = CHR ''e'' \<or> e = CHR ''E'' then
            (let (sign, u) = (case t of c # u \<Rightarrow> if c = CHR ''+'' \<or> c = CHR ''-'' then ([c], u) else ([], t) | [] \<Rightarrow> ([], t))
             in if digits_of u = [] then ([], s) else (e # sign @ digits_of u, drop (length (digits_of u)) u))
          else ([], s)
      | [] \<Rightarrow> ([], s))"

definition int_of_token :: "string \<Rightarrow> int" where
  "int_of_token s = (if starts ''-'' s then - int (digits_value (tl s)) else int (digits_value s))"

definition read_number :: "(string \<Rightarrow> string) \<Rightarrow> string \<Rightarrow> (json \<times> string) option" where
  "read_number fl s =
     (case read_int_part s of
        Some (i, r) \<Rightarrow>
          (let (f, r1) = read_fraction r; (e, r2) = read_exponent r1
           in if f = [] \<and> e = [] then Some (JInt (int_of_token i), r2) else Some (JFloat (fl (i @ f @ e)), r2))
      | None \<Rightarrow>
          if starts ''NaN'' s then Some (JFloat ''NaN'', drop 3 s)
          else if starts ''Infinity'' s then Some (JFloat ''Infinity'', drop 8 s)
          else if starts ''-Infinity'' s then Some (JFloat ''-Infinity'', drop 9 s)
          else None)"

section \<open>Reading values\<close>

text \<open>The first argument bounds the recursion; the text's length is enough.\<close>

fun read_value :: "nat \<Rightarrow> (string \<Rightarrow> string) \<Rightarrow> string \<Rightarrow> (json \<times> string) option"
  and read_items :: "nat \<Rightarrow> (string \<Rightarrow> string) \<Rightarrow> string \<Rightarrow> (json list \<times> string) option"
  and read_members :: "nat \<Rightarrow> (string \<Rightarrow> string) \<Rightarrow> string \<Rightarrow> ((string \<times> json) list \<times> string) option" where
  "read_value 0 fl s = None"
| "read_value (Suc n) fl s =
     (case s of
        [] \<Rightarrow> None
      | c # r \<Rightarrow>
          if c = CHR 0x22 then map_option (\<lambda>(t, q). (JStr t, q)) (read_chars r)
          else if c = CHR ''['' then
            (case skip_ws r of
               [] \<Rightarrow> None
             | d # r1 \<Rightarrow> if d = CHR '']'' then Some (JList [], r1)
                 else map_option (\<lambda>(vs, q). (JList vs, q)) (read_items n fl (d # r1)))
          else if c = CHR ''{'' then
            (case skip_ws r of
               [] \<Rightarrow> None
             | d # r1 \<Rightarrow> if d = CHR ''}'' then Some (JObj [], r1)
                 else map_option (\<lambda>(kvs, q). (JObj (obj_merge [] kvs), q)) (read_members n fl (d # r1)))
          else if starts ''null'' s then Some (JNull, drop 4 s)
          else if starts ''true'' s then Some (JBool True, drop 4 s)
          else if starts ''false'' s then Some (JBool False, drop 5 s)
          else read_number fl s)"
| "read_items 0 fl s = None"
| "read_items (Suc n) fl s =
     (case read_value n fl s of
        None \<Rightarrow> None
      | Some (v, r) \<Rightarrow>
          (case skip_ws r of
             [] \<Rightarrow> None
           | d # r1 \<Rightarrow>
               if d = CHR '']'' then Some ([v], r1)
               else if d = CHR '','' then map_option (\<lambda>(vs, q). (v # vs, q)) (read_items n fl (skip_ws r1))
               else None))"
| "read_members 0 fl s = None"
| "read_members (Suc n) fl s =
     (case s of
        [] \<Rightarrow> None
      | c # s1 \<Rightarrow>
          if c \<noteq> CHR 0x22 then None
          else (case read_chars s1 of
             None \<Rightarrow> None
           | Some (k, s2) \<Rightarrow>
               (case skip_ws s2 of
                  [] \<Rightarrow> None
                | d # s3 \<Rightarrow>
                    if d \<noteq> CHR '':'' then None
                    else (case read_value n fl (skip_ws s3) of
                       None \<Rightarrow> None
                     | Some (v, r) \<Rightarrow>
                         (case skip_ws r of
                            [] \<Rightarrow> None
                          | e # r1 \<Rightarrow>
                              if e = CHR ''}'' then Some ([(k, v)], r1)
                              else if e = CHR '','' then
                                map_option (\<lambda>(kvs, q). ((k, v) # kvs, q)) (read_members n fl (skip_ws r1))
                              else None)))))"

definition json_loads :: "(string \<Rightarrow> string) \<Rightarrow> string \<Rightarrow> json option" where
  "json_loads fl s =
     (case read_value (Suc (length s)) fl (skip_ws s) of
        Some (v, r) \<Rightarrow> if skip_ws r = [] then Some v else None
      | None \<Rightarrow> None)"

section \<open>Reading back what was written\<close>

lemma skip_ws_Cons [simp]: "skip_ws (c # s) = (if c \<in> {CHR 0x20, CHR 0x09, CHR 0x0A, CHR 0x0D} then skip_ws s else c # s)"
  by (simp add: skip_ws_def)

lemma skip_ws_Nil [simp]: "skip_ws [] = []"
  by (simp add: skip_ws_def)

lemma hex_value_hex_digit [simp]: "d < 16 \<Longrightarrow> hex_value (hex_digit d) = Some d"
  by (auto simp: hex_value_def hex_digit_def Let_def)

lemma unicode_escape_char: "unicode_escape (CHR ''0'') (CHR ''0'') (hex_digit (of_char c div 16)) (hex_digit (of_char c mod 16)) = Some c"
proof -
  have "(of_char c :: nat) < 256" by (rule nat_of_char_less_256)
  then have "(of_char c :: nat) div 16 < 16" by (simp add: less_mult_imp_div_less)
  then show ?thesis by (simp add: unicode_escape_def hex_value_def [of "CHR ''0''"] mult.commute)
qed

lemma read_escaped: "read_chars (escape_char c @ r) = map_option (\<lambda>(t, q). (c # t, q)) (read_chars r)"
  by (auto simp: escape_char_def simple_escape_def unicode_escape_char)

lemma read_chars_quote: "read_chars (concat (map escape_char s) @ CHR 0x22 # r) = Some (s, r)"
  by (induction s) (simp_all add: read_escaped)

lemma takeWhile_digits: "list_all is_digit ds \<Longrightarrow> stop r \<Longrightarrow> digits_of (ds @ r) = ds"
proof (induction ds)
  case Nil
  then show ?case by (cases r) (auto simp: digits_of_def stop_def is_digit_def)
qed (simp add: digits_of_def)

lemma nat_digits_head: "n \<noteq> 0 \<Longrightarrow> hd (nat_digits n) \<noteq> CHR ''0''"
proof (induction n rule: nat_digits.induct)
  case (1 n)
  show ?case
  proof (cases "n < 10")
    case True
    with "1.prems" have "(of_char (digit_char n) :: nat) \<noteq> 48" by simp
    then have "digit_char n \<noteq> CHR ''0''" by auto
    with True show ?thesis by (simp add: nat_digits.simps [of n])
  next
    case False
    with 1 show ?thesis by (simp add: nat_digits.simps [of n] hd_append)
  qed
qed

lemma read_nat_digits:
  assumes "stop r"
  shows "digits_of (nat_digits n @ r) = nat_digits n"
  using assms nat_digits_digits by (intro takeWhile_digits) (auto simp: list_all_iff)

lemma nat_digits_0: "nat_digits 0 = ''0''"
  using char_of_char [of "CHR ''0''"] by (subst nat_digits.simps) (simp add: digit_char_def)

lemma read_int_digits:
  assumes "stop r"
  shows "(let ds = digits_of (nat_digits n @ r) in if ds = [] then None else if hd ds = CHR ''0'' then Some (sign @ ''0'', tl (nat_digits n @ r))
      else Some (sign @ ds, drop (length ds) (nat_digits n @ r))) = Some (sign @ nat_digits n, r)"
  using read_nat_digits [OF assms, of n] nat_digits_head [of n] by (cases "n = 0") (simp_all add: nat_digits_0 Let_def)

lemma read_int_str:
  assumes "stop r"
  shows "read_int_part (str_int i @ r) = Some (str_int i, r)"
proof (cases "i < 0")
  case True
  then show ?thesis using read_int_digits [OF assms, of "nat (- i)" "''-''"]
    by (simp add: read_int_part_def str_int_def starts_def Let_def)
next
  case False
  obtain c ds where d: "nat_digits (nat i) = c # ds" by (cases "nat_digits (nat i)") simp_all
  then have "is_digit c" using nat_digits_digits [of c "nat i"] by simp
  then have "c \<noteq> CHR ''-''" by auto
  then have "\<not> starts ''-'' (nat_digits (nat i) @ r)" by (simp add: d starts_def)
  then show ?thesis using False read_int_digits [OF assms, of "nat i" "[]"]
    by (simp add: read_int_part_def str_int_def Let_def)
qed

lemma stop_cases: "stop r \<Longrightarrow> r = [] \<or> (\<exists>c q. r = c # q \<and> c \<in> {CHR '','', CHR '']'', CHR ''}''})"
  by (cases r) (auto simp: stop_def)

lemma int_of_token_str [simp]: "int_of_token (str_int i) = i"
proof -
  have "\<not> starts ''-'' (nat_digits n)" for n
    using nat_digits_digits [of "CHR ''-''" n] by (cases "nat_digits n") (auto simp: starts_def)
  then show ?thesis by (simp add: int_of_token_def str_int_def starts_def)
qed

lemma read_number_str:
  assumes "stop r"
  shows "read_number fl (str_int i @ r) = Some (JInt i, r)"
proof -
  have "read_fraction r = ([], r)" "read_exponent r = ([], r)"
    using stop_cases [OF assms] by (auto simp: read_fraction_def read_exponent_def starts_def)
  then show ?thesis by (simp add: read_number_def read_int_str [OF assms] Let_def)
qed

text \<open>Values without floating-point numbers.\<close>

fun float_free :: "json \<Rightarrow> bool" where
  "float_free (JFloat t) = False"
| "float_free (JList vs) = list_all float_free vs"
| "float_free (JObj kvs) = list_all (\<lambda>(k, v). float_free v) kvs"
| "float_free _ = True"

lemma read_str_int:
  assumes "stop r"
  shows "read_value (Suc n) fl (str_int i @ r) = Some (JInt i, r)"
proof -
  obtain c s where s: "str_int i = c # s" by (cases "str_int i") simp_all
  then have "is_digit c \<or> c = CHR ''-''" using hd_str_int [of i] by simp
  then have "c \<notin> {CHR 0x22, CHR ''['', CHR ''{'', CHR ''n'', CHR ''t'', CHR ''f''}" by (auto simp: is_digit_def)
  then show ?thesis using read_number_str [OF assms, of fl i] by (simp add: s starts_def)
qed

lemma render_first: "json_wf v \<Longrightarrow> float_free v \<Longrightarrow> \<exists>c s. render v = c # s \<and> c \<notin> {CHR 0x20, CHR 0x09, CHR 0x0A, CHR 0x0D, CHR '']'', CHR ''}''}"
proof (cases v)
  case (JInt i)
  obtain c s where "str_int i = c # s" by (cases "str_int i") simp_all
  moreover from this have "is_digit c \<or> c = CHR ''-''" using hd_str_int [of i] by simp
  ultimately show ?thesis by (auto simp: JInt is_digit_def)
qed (auto simp: json_quote_def)

lemma obj_merge_distinct: "distinct (map fst (acc @ kvs)) \<Longrightarrow> obj_merge acc kvs = acc @ kvs"
  unfolding obj_merge_def
proof (induction kvs arbitrary: acc)
  case (Cons kv kvs)
  obtain k v where kv: "kv = (k, v)" by (cases kv)
  with Cons.prems have "k \<notin> fst ` set acc" by auto
  then show ?case using Cons.IH [of "acc @ [(k, v)]"] Cons.prems by (simp add: kv dict_set_new)
qed simp

lemma read_items_join:
  assumes "vs \<noteq> []"
    and "\<And>v n r. v \<in> set vs \<Longrightarrow> stop r \<Longrightarrow> length (render v) \<le> n \<Longrightarrow> read_value n fl (render v @ r) = Some (v, r)"
    and "\<And>v. v \<in> set vs \<Longrightarrow> json_wf v \<and> float_free v"
    and "length (join (CHR '','') (map render vs)) < n"
  shows "read_items n fl (join (CHR '','') (map render vs) @ CHR '']'' # r) = Some (vs, r)"
  using assms
proof (induction vs arbitrary: n)
  case (Cons v vs)
  obtain m where n: "n = Suc m" using Cons.prems(4) by (cases n) auto
  show ?case
  proof (cases "vs = []")
    case True
    then show ?thesis using Cons.prems(2) [of v "CHR '']'' # r" m] Cons.prems(4) by (simp add: n stop_Cons)
  next
    case False
    then obtain w ws where vs: "vs = w # ws" by (cases vs) auto
    let ?rest = "join (CHR '','') (map render vs) @ CHR '']'' # r"
    have "read_value m fl (render v @ CHR '','' # ?rest) = Some (v, CHR '','' # ?rest)"
      using Cons.prems(2) [of v "CHR '','' # ?rest" m] Cons.prems(4) by (simp add: n stop_Cons vs)
    moreover obtain c s where "?rest = c # s" "c \<notin> {CHR 0x20, CHR 0x09, CHR 0x0A, CHR 0x0D}"
      using render_first [of w] Cons.prems(3) [of w] by (cases ws) (auto simp: vs)
    then have "skip_ws ?rest = ?rest" by simp
    moreover have "read_items m fl ?rest = Some (vs, r)"
      by (rule Cons.IH) (use Cons.prems vs n in auto)
    ultimately show ?thesis by (simp add: n vs)
  qed
qed simp

lemma read_members_join:
  assumes "kvs \<noteq> []"
    and "\<And>k v n r. (k, v) \<in> set kvs \<Longrightarrow> stop r \<Longrightarrow> length (render v) \<le> n \<Longrightarrow> read_value n fl (render v @ r) = Some (v, r)"
    and "\<And>k v. (k, v) \<in> set kvs \<Longrightarrow> json_wf v \<and> float_free v"
    and "length (join (CHR '','') (map (\<lambda>(k, v). json_quote k @ CHR '':'' # render v) kvs)) < n"
  shows "read_members n fl (join (CHR '','') (map (\<lambda>(k, v). json_quote k @ CHR '':'' # render v) kvs) @ CHR ''}'' # r) = Some (kvs, r)"
  using assms
proof (induction kvs arbitrary: n)
  case (Cons kv kvs)
  obtain k v where kv: "kv = (k, v)" by (cases kv)
  obtain m where n: "n = Suc m" using Cons.prems(4) by (cases n) auto
  have skip: "skip_ws (render v @ q) = render v @ q" for q
    using render_first [of v] Cons.prems(3) [of k v] kv by auto
  have key: "read_chars (concat (map escape_char k) @ CHR 0x22 # q) = Some (k, q)" for q by (rule read_chars_quote)
  show ?case
  proof (cases "kvs = []")
    case True
    then show ?thesis using Cons.prems(2) [of k v "CHR ''}'' # r" m] Cons.prems(4) skip key
      by (simp add: n stop_Cons kv json_quote_def)
  next
    case False
    then obtain l w ws where kvs: "kvs = (l, w) # ws" by (cases kvs) auto
    let ?rest = "join (CHR '','') (map (\<lambda>(k, v). json_quote k @ CHR '':'' # render v) kvs) @ CHR ''}'' # r"
    have "read_value m fl (render v @ CHR '','' # ?rest) = Some (v, CHR '','' # ?rest)"
      using Cons.prems(2) [of k v "CHR '','' # ?rest" m] Cons.prems(4) by (simp add: n stop_Cons kv kvs)
    moreover obtain s where "?rest = CHR 0x22 # s" by (cases ws) (auto simp: kvs json_quote_def)
    then have "skip_ws ?rest = ?rest" by simp
    moreover have "read_members m fl ?rest = Some (kvs, r)"
    proof (rule Cons.IH [OF False])
      fix k' v' n' q assume "(k', v') \<in> set kvs" "stop q" "length (render v') \<le> n'"
      then show "read_value n' fl (render v' @ q) = Some (v', q)" using Cons.prems(2) [of k' v' q n'] by simp
    next
      fix k' v' assume "(k', v') \<in> set kvs"
      then show "json_wf v' \<and> float_free v'" using Cons.prems(3) [of k' v'] by simp
    next
      show "length (join (CHR '','') (map (\<lambda>(k, v). json_quote k @ CHR '':'' # render v) kvs)) < m"
        using Cons.prems(4) by (simp add: n kv kvs)
    qed
    ultimately show ?thesis using skip key by (simp add: n kv kvs json_quote_def)
  qed
qed simp

lemma read_render:
  "json_wf v \<Longrightarrow> float_free v \<Longrightarrow> stop r \<Longrightarrow> length (render v) \<le> n \<Longrightarrow> read_value n fl (render v @ r) = Some (v, r)"
proof (induction v arbitrary: n r)
  case (JInt i)
  then obtain m where "n = Suc m" by (cases n) auto
  with JInt read_str_int [of r m fl i] show ?case by simp
next
  case (JStr s)
  then obtain m where "n = Suc m" by (cases n) (auto simp: json_quote_def)
  then show ?case using read_chars_quote [of s r] by (simp add: json_quote_def)
next
  case (JList vs)
  then obtain m where n: "n = Suc m" by (cases n) auto
  show ?case
  proof (cases "vs = []")
    case False
    then obtain w ws where vs: "vs = w # ws" by (cases vs) auto
    let ?rest = "join (CHR '','') (map render vs) @ CHR '']'' # r"
    obtain c s where "?rest = c # s" "c \<notin> {CHR 0x20, CHR 0x09, CHR 0x0A, CHR 0x0D, CHR '']''}"
      using render_first [of w] JList.prems(1,2) by (cases ws) (auto simp: vs)
    moreover have "read_items m fl ?rest = Some (vs, r)"
      by (rule read_items_join [OF False]) (use JList n in \<open>auto simp: list_all_iff\<close>)
    ultimately show ?thesis by (simp add: n)
  qed (simp add: n)
next
  case (JObj kvs)
  then obtain m where n: "n = Suc m" by (cases n) auto
  show ?case
  proof (cases "kvs = []")
    case False
    then obtain l w ws where kvs: "kvs = (l, w) # ws" by (cases kvs) auto
    let ?rest = "join (CHR '','') (map (\<lambda>(k, v). json_quote k @ CHR '':'' # render v) kvs) @ CHR ''}'' # r"
    obtain s where "?rest = CHR 0x22 # s" by (cases ws) (auto simp: kvs json_quote_def)
    moreover have "read_members m fl ?rest = Some (kvs, r)"
    proof (rule read_members_join [OF False])
      fix k v assume kv: "(k, v) \<in> set kvs"
      then show ok: "json_wf v \<and> float_free v" using JObj.prems(1,2) by (auto simp: list_all_iff)
      fix n' q assume "stop q" "length (render v) \<le> n'"
      with ok JObj.IH [of "(k, v)" v q n'] kv show "read_value n' fl (render v @ q) = Some (v, q)" by (simp add: snds.simps)
    qed (use JObj.prems(4) n in simp)
    moreover have "obj_merge [] kvs = kvs" using obj_merge_distinct [of "[]" kvs] JObj.prems(1) by simp
    ultimately show ?thesis by (simp add: n)
  qed (simp add: n)
next
  case JNull
  then show ?case by (cases n) (simp_all add: starts_def)
next
  case (JBool b)
  then show ?case by (cases n; cases b) (simp_all add: starts_def)
qed simp

lemma loads_render: "json_wf v \<Longrightarrow> float_free v \<Longrightarrow> json_loads fl (render v) = Some v"
proof -
  assume v: "json_wf v" "float_free v"
  then have "skip_ws (render v) = render v" using render_first [of v] by auto
  then show ?thesis using read_render [OF v, of "[]" "Suc (length (render v))" fl] by (simp add: json_loads_def stop_def)
qed

section \<open>Bytes\<close>

text \<open>The UTF-8 text of a byte string, for code points below 256.\<close>

fun utf8_decode :: "string \<Rightarrow> string option" where
  "utf8_decode [] = Some []"
| "utf8_decode (c # s) =
     (if (of_char c :: nat) < 128 then map_option ((#) c) (utf8_decode s)
      else case s of
        [] \<Rightarrow> None
      | d # r \<Rightarrow>
          if (of_char c = (194 :: nat) \<or> of_char c = (195 :: nat)) \<and> 128 \<le> (of_char d :: nat) \<and> (of_char d :: nat) < 192
          then map_option ((#) (char_of ((of_char c - 192) * 64 + (of_char d - 128) :: nat))) (utf8_decode r)
          else None)"

definition loads_bytes :: "(string \<Rightarrow> string) \<Rightarrow> string \<Rightarrow> json option" where
  "loads_bytes fl raw = (case utf8_decode raw of None \<Rightarrow> None | Some text \<Rightarrow> json_loads fl text)"

lemma utf8_ascii: "list_all (\<lambda>c. (of_char c :: nat) < 128) s \<Longrightarrow> utf8_decode s = Some s"
  by (induction s) auto

lemma json_quote_chars: "c \<in> set (json_quote k) \<Longrightarrow> (of_char c :: nat) < 128"
  using json_quote_printable by (force simp: printable_def)

lemma render_ascii: "json_wf v \<Longrightarrow> c \<in> set (render v) \<Longrightarrow> (of_char c :: nat) < 128"
proof (induction v)
  case (JList vs)
  then show ?case by (auto simp: list_all_iff dest!: join_chars)
next
  case (JObj kvs)
  then show ?case by (auto simp: list_all_iff snds.simps dest!: join_chars json_quote_chars split: prod.splits)
next
  case (JInt i)
  then have "is_digit c \<or> c = CHR ''-''" using str_int_chars by simp
  then show ?case by (auto simp: is_digit_def)
next
  case (JFloat t)
  then show ?case using float_token_printable by (force simp: printable_def)
next
  case (JStr s)
  then show ?case using json_quote_chars by simp
qed (auto split: if_splits)

lemma loads_bytes_render: "json_wf v \<Longrightarrow> float_free v \<Longrightarrow> loads_bytes fl (render v) = Some v"
  using render_ascii [of v] by (simp add: loads_bytes_def utf8_ascii list_all_iff loads_render)

end
