(* ===== verification/Base64.thy ===== *)
theory Base64
  imports Prelude
begin

text \<open>
  The URL-safe base64 of Python's \<open>base64\<close> module as \<open>identity.py\<close> uses it: encoding with the padding
  stripped, and decoding with the padding restored. Decoding is that of \<open>binascii.a2b_base64\<close> outside its
  strict mode: characters outside the alphabet are skipped, a complete padding ends the data, and
  a partial group of four is an error. A byte is a character.
\<close>

definition sextet_char :: "nat \<Rightarrow> char" where
  "sextet_char n =
     (if n < 26 then char_of (65 + n) else if n < 52 then char_of (71 + n) else if n < 62 then char_of (n - 4)
      else if n = 62 then CHR ''-'' else CHR ''_'')"

text \<open>Both alphabets are read: the URL-safe characters are first translated to the standard ones.\<close>

definition char_sextet :: "char \<Rightarrow> nat option" where
  "char_sextet c =
     (let n = (of_char c :: nat) in
      if 65 \<le> n \<and> n \<le> 90 then Some (n - 65)
      else if 97 \<le> n \<and> n \<le> 122 then Some (n - 71)
      else if 48 \<le> n \<and> n \<le> 57 then Some (n + 4)
      else if c = CHR ''-'' \<or> c = CHR ''+'' then Some 62
      else if c = CHR ''_'' \<or> c = CHR ''/'' then Some 63 else None)"

definition group1 :: "nat \<Rightarrow> nat \<Rightarrow> string" where
  "group1 a b = [sextet_char (a div 4), sextet_char (a mod 4 * 16 + b div 16)]"

definition group2 :: "nat \<Rightarrow> nat \<Rightarrow> string" where
  "group2 b c = [sextet_char (b mod 16 * 4 + c div 64)]"

fun urlsafe_b64encode :: "string \<Rightarrow> string" where
  "urlsafe_b64encode (a # b # c # s) =
     group1 (of_char a) (of_char b) @ group2 (of_char b) (of_char c) @ sextet_char (of_char c mod 64) # urlsafe_b64encode s"
| "urlsafe_b64encode [a, b] = group1 (of_char a) (of_char b) @ group2 (of_char b) 0 @ ''=''"
| "urlsafe_b64encode [a] = group1 (of_char a) 0 @ ''==''"
| "urlsafe_b64encode [] = []"

text \<open>The decoding loop: the position in the group, the bits left over and the padding characters seen.\<close>

fun a2b_base64 :: "nat \<Rightarrow> nat \<Rightarrow> nat \<Rightarrow> string \<Rightarrow> string option" where
  "a2b_base64 quad_pos leftchar pads [] = (if quad_pos = 0 then Some [] else None)"
| "a2b_base64 quad_pos leftchar pads (c # s) =
     (if c = CHR ''='' then
        (if 2 \<le> quad_pos \<and> 4 \<le> quad_pos + (pads + 1) then Some []
         else a2b_base64 quad_pos leftchar (if 2 \<le> quad_pos then pads + 1 else pads) s)
      else case char_sextet c of
        None \<Rightarrow> a2b_base64 quad_pos leftchar pads s
      | Some x \<Rightarrow>
          if quad_pos = 0 then a2b_base64 1 x 0 s
          else if quad_pos = 1 then map_option ((#) (char_of (leftchar * 4 + x div 16))) (a2b_base64 2 (x mod 16) 0 s)
          else if quad_pos = 2 then map_option ((#) (char_of (leftchar * 16 + x div 4))) (a2b_base64 3 (x mod 4) 0 s)
          else map_option ((#) (char_of (leftchar * 64 + x))) (a2b_base64 0 0 0 s))"

definition rstrip :: "char \<Rightarrow> string \<Rightarrow> string" where
  "rstrip c s = rev (dropWhile (\<lambda>d. d = c) (rev s))"

definition b64u_encode :: "string \<Rightarrow> string" where
  "b64u_encode raw = rstrip (CHR ''='') (urlsafe_b64encode raw)"

definition b64u_decode :: "string \<Rightarrow> string option" where
  "b64u_decode text =
     (let padding = replicate (nat ((- int (length text)) mod 4)) (CHR ''='')
      in if list_all (\<lambda>c. (of_char c :: nat) < 128) text then a2b_base64 0 0 0 (text @ padding) else None)"

section \<open>Decoding inverts encoding\<close>

lemma sextet_char_facts:
  assumes "n < 64"
  shows "char_sextet (sextet_char n) = Some n \<and> sextet_char n \<noteq> CHR ''='' \<and> (of_char (sextet_char n) :: nat) < 128"
proof -
  have char: "c \<noteq> d \<longleftrightarrow> (of_char c :: nat) \<noteq> of_char d" for c d :: char by simp
  show ?thesis using assms
    by (cases "n < 62") (auto simp: sextet_char_def char_sextet_def Let_def char)
qed

lemmas sextet_char_simps [simp] =
  sextet_char_facts [THEN conjunct1] sextet_char_facts [THEN conjunct2, THEN conjunct1]
  sextet_char_facts [THEN conjunct2, THEN conjunct2]

lemma byte_bound [simp]: "(of_char c :: nat) < 256"
  by (rule nat_of_char_less_256)

lemma byte_parts [simp]:
  "(of_char c :: nat) div 4 < 64" "(of_char c :: nat) div 16 < 16" "(of_char c :: nat) div 64 < 4"
  "(of_char c :: nat) mod 4 < 4" "(of_char c :: nat) mod 16 < 16" "(of_char c :: nat) mod 64 < 64"
  by (simp_all add: less_mult_imp_div_less)

lemma two_parts:
  fixes h l k :: nat
  assumes "l < k"
  shows "(h * k + l) div k = h" "(h * k + l) mod k = l" "h < m \<Longrightarrow> h * k + l < m * k"
proof -
  show "(h * k + l) div k = h" "(h * k + l) mod k = l" using assms by simp_all
  assume "h < m"
  then have "h * k + k \<le> m * k" by (metis Suc_leI add.commute mult_Suc mult_le_mono1)
  with assms show "h * k + l < m * k" by simp
qed

lemma second_sextet:
  fixes a l :: nat
  assumes "l < 16"
  shows "a mod 4 * 16 + l < 64" "a div 4 * 4 + (a mod 4 * 16 + l) div 16 = a" "(a mod 4 * 16 + l) mod 16 = l"
  using two_parts [OF assms, of "a mod 4"] by (simp_all add: two_parts(3) [OF assms, of "a mod 4" 4, simplified])

lemma third_sextet:
  fixes b l :: nat
  assumes "l < 4"
  shows "b mod 16 * 4 + l < 64" "b div 16 * 16 + (b mod 16 * 4 + l) div 4 = b" "(b mod 16 * 4 + l) mod 4 = l"
  using two_parts [OF assms, of "b mod 16"] by (simp_all add: two_parts(3) [OF assms, of "b mod 16" 16, simplified])

lemma read_sextet:
  assumes "x < 64"
  shows "a2b_base64 0 l p (sextet_char x # s) = a2b_base64 1 x 0 s"
    "a2b_base64 (Suc 0) l p (sextet_char x # s) = map_option ((#) (char_of (l * 4 + x div 16))) (a2b_base64 2 (x mod 16) 0 s)"
    "a2b_base64 2 l p (sextet_char x # s) = map_option ((#) (char_of (l * 16 + x div 4))) (a2b_base64 3 (x mod 4) 0 s)"
    "a2b_base64 3 l p (sextet_char x # s) = map_option ((#) (char_of (l * 64 + x))) (a2b_base64 0 0 0 s)"
  using sextet_char_facts [OF assms] by simp_all

lemma read_group1:
  assumes "b < 256"
  shows "a2b_base64 0 l p (group1 (of_char a) b @ s) = map_option ((#) a) (a2b_base64 2 (b div 16) 0 s)"
proof -
  have b: "b div 16 < 16" using assms by (simp add: less_mult_imp_div_less)
  show ?thesis by (simp add: group1_def read_sextet second_sextet [OF b] b del: a2b_base64.simps)
qed

lemma read_group2:
  assumes "c < 256"
  shows "a2b_base64 2 (of_char b div 16) p (group2 (of_char b) c @ s) = map_option ((#) b) (a2b_base64 3 (c div 64) 0 s)"
proof -
  have c: "c div 64 < 4" using assms by (simp add: less_mult_imp_div_less)
  show ?thesis by (simp add: group2_def read_sextet third_sextet [OF c] c del: a2b_base64.simps)
qed

lemma a2b_encode: "a2b_base64 0 0 0 (urlsafe_b64encode s) = Some s"
proof (induction s rule: urlsafe_b64encode.induct)
  case (1 a b c s)
  then show ?case by (simp add: read_group1 read_group2 read_sextet mult.commute del: a2b_base64.simps)
qed (simp_all add: read_group1 read_group2)

lemma group_chars:
  assumes "b < 256"
  shows "d \<in> set (group1 (of_char a) b) \<Longrightarrow> d \<noteq> CHR ''='' \<and> (of_char d :: nat) < 128"
    "d \<in> set (group2 (of_char a) b) \<Longrightarrow> d \<noteq> CHR ''='' \<and> (of_char d :: nat) < 128"
proof -
  have b: "b div 16 < 16" "b div 64 < 4" using assms by (simp_all add: less_mult_imp_div_less)
  show "d \<in> set (group1 (of_char a) b) \<Longrightarrow> d \<noteq> CHR ''='' \<and> (of_char d :: nat) < 128"
    "d \<in> set (group2 (of_char a) b) \<Longrightarrow> d \<noteq> CHR ''='' \<and> (of_char d :: nat) < 128"
    using second_sextet(1) [OF b(1), of "of_char a"] third_sextet(1) [OF b(2), of "of_char a"]
    by (auto simp: group1_def group2_def)
qed

fun unpadded :: "string \<Rightarrow> string" where
  "unpadded (a # b # c # s) =
     group1 (of_char a) (of_char b) @ group2 (of_char b) (of_char c) @ sextet_char (of_char c mod 64) # unpadded s"
| "unpadded [a, b] = group1 (of_char a) (of_char b) @ group2 (of_char b) 0"
| "unpadded [a] = group1 (of_char a) 0"
| "unpadded [] = []"

lemma encode_unpadded:
  "urlsafe_b64encode s = unpadded s @ replicate (nat ((- int (length (unpadded s))) mod 4)) (CHR ''='')"
proof (induction s rule: urlsafe_b64encode.induct)
  case (1 a b c s)
  have "(- int (length (unpadded (a # b # c # s)))) mod 4 = (- int (length (unpadded s))) mod 4"
    by (simp add: group1_def group2_def) presburger
  with 1 show ?case by simp
qed (simp_all add: group1_def group2_def numeral_2_eq_2)

lemma unpadded_chars: "c \<in> set (unpadded s) \<Longrightarrow> c \<noteq> CHR ''='' \<and> (of_char c :: nat) < 128"
  by (induction s rule: unpadded.induct) (auto dest!: group_chars [rotated])

lemma rstrip_padding: "c \<notin> set s \<Longrightarrow> rstrip c (s @ replicate k c) = s"
proof -
  assume s: "c \<notin> set s"
  have "dropWhile (\<lambda>d. d = c) (replicate k c @ rev s) = dropWhile (\<lambda>d. d = c) (rev s)" by (induction k) simp_all
  also have "\<dots> = rev s" using s hd_in_set [of "rev s"] by (auto simp: dropWhile_eq_self_iff)
  finally show ?thesis by (simp add: rstrip_def)
qed

lemma b64u_encode_unpadded: "b64u_encode s = unpadded s"
proof -
  have "CHR ''='' \<notin> set (unpadded s)" using unpadded_chars by blast
  then show ?thesis unfolding b64u_encode_def encode_unpadded by (rule rstrip_padding)
qed

lemma b64u_roundtrip [simp]: "b64u_decode (b64u_encode s) = Some s"
proof -
  have "list_all (\<lambda>c. (of_char c :: nat) < 128) (unpadded s)" using unpadded_chars by (auto simp: list_all_iff)
  then show ?thesis using a2b_encode [of s] encode_unpadded [of s] by (simp add: b64u_encode_unpadded b64u_decode_def)
qed

end
