(* ===== verification/Identity.thy ===== *)
theory Identity
  imports JsonLoads Base64 Digests
begin

text \<open>
  The trust boundary of the broker: the signed identity tokens of \<open>identity.py\<close>, and how \<open>api.py\<close> turns the
  headers of a request into the authenticated subject. Ed25519 signing and verification, the reading
  of ISO timestamps, the rounding of JSON floats and the decoding of MIME header words are parameters.
\<close>

section \<open>Timestamps with an offset\<close>

text \<open>What \<open>datetime.fromisoformat\<close> returns: local time and, for an aware timestamp, its offset from UTC
  in microseconds. Arithmetic that leaves the range of \<open>datetime\<close> raises.\<close>

record stamp =
  st_local :: instant
  st_offset :: "int option"

definition overflow :: exn where
  "overflow = OtherException ''OverflowError: date value out of range''"

definition st_utc :: "stamp \<Rightarrow> instant" where
  "st_utc t = st_local t - (case st_offset t of None \<Rightarrow> 0 | Some off \<Rightarrow> off)"

definition astimezone_utc :: "stamp \<Rightarrow> exn + instant" where
  "astimezone_utc t = (if instant_ok (st_utc t) then Inr (st_utc t) else Inl overflow)"

definition shifted :: "stamp \<Rightarrow> int \<Rightarrow> exn + instant" where
  "shifted t delta = (if instant_ok (st_local t + delta) then Inr (st_utc t + delta) else Inl overflow)"

section \<open>Tokens\<close>

definition ALLOWED_CHANNELS :: "string list" where
  "ALLOWED_CHANNELS = [''tailscale'', ''mgmt-mtls'', ''mcp'']"

definition MAX_TTL_SECONDS :: int where
  "MAX_TTL_SECONDS = 300"

definition MAX_CLOCK_SKEW_SECONDS :: int where
  "MAX_CLOCK_SKEW_SECONDS = 30"

record identity_claims =
  ic_subject :: string
  ic_device :: string
  ic_channel :: string
  ic_issued_at :: stamp
  ic_expires_at :: stamp
  ic_nonce :: string

definition to_subject :: "identity_claims \<Rightarrow> subject" where
  "to_subject c = \<lparr>sj_name = ic_subject c, sj_device = ic_device c, sj_channel = ic_channel c\<rparr>"

definition claims_json :: "string \<Rightarrow> string \<Rightarrow> string \<Rightarrow> instant \<Rightarrow> instant \<Rightarrow> string \<Rightarrow> json_object" where
  "claims_json subject device channel issued_at expires_at nonce =
     [(''subject'', JStr subject), (''device'', JStr device), (''channel'', JStr channel),
      (''issued_at'', JStr (isoformat issued_at)), (''expires_at'', JStr (isoformat expires_at)), (''nonce'', JStr nonce)]"

definition canonical_claims :: "string \<Rightarrow> string \<Rightarrow> string \<Rightarrow> instant \<Rightarrow> instant \<Rightarrow> string \<Rightarrow> string" where
  "canonical_claims subject device channel issued_at expires_at nonce =
     ''deckhand-identity-v1'' @ CHR 0x1F # json_dumps (JObj (claims_json subject device channel issued_at expires_at nonce))"

definition mint_token ::
  "(string \<Rightarrow> string) \<Rightarrow> string \<Rightarrow> string \<Rightarrow> string \<Rightarrow> string \<Rightarrow> int \<Rightarrow> instant \<Rightarrow> exn + string" where
  "mint_token sign subject device channel nonce ttl_seconds now =
     (if channel \<notin> set ALLOWED_CHANNELS then Inl (IdentityError (''unknown identity channel: '' @ py_repr_ident channel))
      else if subject = [] \<or> device = [] \<or> nonce = [] then Inl (IdentityError ''subject, device, and nonce are required'')
      else if ttl_seconds \<le> 0 \<or> ttl_seconds > MAX_TTL_SECONDS then Inl (IdentityError ''ttl_seconds must be in (0, 300]'')
      else let expires_at = now + seconds ttl_seconds in
        if \<not> instant_ok expires_at then Inl overflow
        else let signature = sign (canonical_claims subject device channel now expires_at nonce)
        in Inr (b64u_encode (render (JObj (claims_json subject device channel now expires_at nonce @ [(''sig'', JStr (b64u_encode signature))])))))"

text \<open>\<open>isinstance(v, str) and v\<close>\<close>

definition nonempty_text :: "json \<Rightarrow> string option" where
  "nonempty_text v = (case v of JStr s \<Rightarrow> if s = [] then None else Some s | _ \<Rightarrow> None)"

definition decode_signature :: "json \<Rightarrow> string option" where
  "decode_signature v = (case v of JStr s \<Rightarrow> b64u_decode s | _ \<Rightarrow> None)"

definition read_stamp :: "(string \<Rightarrow> stamp option) \<Rightarrow> json \<Rightarrow> stamp option" where
  "read_stamp fromisoformat v = (case v of JStr s \<Rightarrow> fromisoformat s | _ \<Rightarrow> None)"

definition lookup_fields :: "json_object \<Rightarrow> string list \<Rightarrow> json list option" where
  "lookup_fields d ks = those (map (obj_get d) ks)"

text \<open>From the token to its fields: the decoding, the envelope and the types of the fields.\<close>

definition read_envelope ::
  "(string \<Rightarrow> string) \<Rightarrow> string \<Rightarrow> exn + (string \<times> string \<times> string \<times> json \<times> json \<times> string \<times> string)" where
  "read_envelope fl token =
     (case (case b64u_decode token of None \<Rightarrow> None | Some raw \<Rightarrow> loads_bytes fl raw) of
        None \<Rightarrow> Inl (IdentityError ''identity token is not decodable'')
      | Some (JObj envelope) \<Rightarrow>
          (case lookup_fields envelope [''subject'', ''device'', ''channel'', ''issued_at'', ''expires_at'', ''nonce'', ''sig''] of
             Some [subject, device, channel, issued_at_raw, expires_at_raw, nonce, sig] \<Rightarrow>
               (case decode_signature sig of
                  None \<Rightarrow> Inl (IdentityError ''identity token missing required fields'')
                | Some signature \<Rightarrow>
                    (case (nonempty_text subject, nonempty_text device, nonempty_text channel, nonempty_text nonce) of
                       (Some s, Some d, Some ch, Some n) \<Rightarrow> Inr (s, d, ch, issued_at_raw, expires_at_raw, n, signature)
                     | _ \<Rightarrow> Inl (IdentityError ''identity token fields must be non-empty strings'')))
           | _ \<Rightarrow> Inl (IdentityError ''identity token missing required fields''))
      | Some _ \<Rightarrow> Inl (IdentityError ''identity token envelope malformed''))"

text \<open>The three freshness checks.\<close>

definition check_fresh :: "instant \<Rightarrow> stamp \<Rightarrow> stamp \<Rightarrow> exn + unit" where
  "check_fresh now issued_at expires_at =
     (let skew = seconds MAX_CLOCK_SKEW_SECONDS in
      bind_sum (shifted issued_at (- skew)) (\<lambda>earliest.
      if earliest > now then Inl (IdentityError ''identity token not yet valid'')
      else bind_sum (shifted expires_at skew) (\<lambda>latest.
      if latest < now then Inl (IdentityError ''identity token expired'')
      else if st_utc expires_at - st_utc issued_at > seconds MAX_TTL_SECONDS + skew
      then Inl (IdentityError ''identity token lifetime exceeds policy'')
      else Inr ())))"

definition verify_token ::
  "(string \<Rightarrow> string \<Rightarrow> bool) \<Rightarrow> (string \<Rightarrow> string) \<Rightarrow> (string \<Rightarrow> stamp option) \<Rightarrow> string \<Rightarrow> instant \<Rightarrow> exn + identity_claims" where
  "verify_token verifies fl fromisoformat token now =
     bind_sum (read_envelope fl token) (\<lambda>(subject, device, channel, issued_at_raw, expires_at_raw, nonce, signature).
     if channel \<notin> set ALLOWED_CHANNELS then Inl (IdentityError ''identity token names an unknown channel'')
     else case (read_stamp fromisoformat issued_at_raw, read_stamp fromisoformat expires_at_raw) of
       (Some issued_at, Some expires_at) \<Rightarrow>
         if st_offset issued_at = None \<or> st_offset expires_at = None
         then Inl (IdentityError ''identity token timestamps must be timezone-aware'')
         else bind_sum (astimezone_utc issued_at) (\<lambda>issued_utc.
           bind_sum (astimezone_utc expires_at) (\<lambda>expires_utc.
           if \<not> verifies signature (canonical_claims subject device channel issued_utc expires_utc nonce)
           then Inl (IdentityError ''identity token signature invalid'')
           else bind_sum (check_fresh now issued_at expires_at) (\<lambda>_.
             Inr \<lparr>ic_subject = subject, ic_device = device, ic_channel = channel, ic_issued_at = issued_at,
                  ic_expires_at = expires_at, ic_nonce = nonce\<rparr>)))
     | _ \<Rightarrow> Inl (IdentityError ''identity token timestamps malformed''))"

section \<open>The authenticated subject of a request\<close>

record ingress =
  ig_verify_token :: "(string \<Rightarrow> exn + identity_claims) option"
  ig_allow_legacy :: bool
  ig_trusted_proxy :: bool
  ig_assertion_file :: "string option option"
  ig_capability :: string
  ig_decode_header :: "string \<Rightarrow> exn + string"
  ig_fl :: "string \<Rightarrow> string"

record headers =
  hd_identity :: "string option"
  hd_user_login :: "string option"
  hd_app_capabilities :: "string option"
  hd_subject :: "string option"
  hd_device :: "string option"
  hd_channel :: "string option"
  hd_proxy_assertion :: "string option"

definition unauthorized :: "string \<Rightarrow> exn" where
  "unauthorized m = HTTPException 401 (JStr m)"

definition unavailable :: "string \<Rightarrow> exn" where
  "unavailable m = HTTPException 503 (JStr m)"

definition subject_from_identity_token :: "ingress \<Rightarrow> string \<Rightarrow> exn + subject" where
  "subject_from_identity_token ig token =
     (case ig_verify_token ig of
        None \<Rightarrow> Inl (unavailable ''identity verification unavailable'')
      | Some verify \<Rightarrow>
          (case verify token of
             Inr claims \<Rightarrow> Inr (to_subject claims)
           | Inl (IdentityError m) \<Rightarrow> Inl (unauthorized ''invalid identity token'')
           | Inl e \<Rightarrow> Inl e))"

definition py_space :: "char \<Rightarrow> bool" where
  "py_space c \<longleftrightarrow> (let n = (of_char c :: nat) in 9 \<le> n \<and> n \<le> 13 \<or> 28 \<le> n \<and> n \<le> 32 \<or> n = 133 \<or> n = 160)"

definition py_strip :: "string \<Rightarrow> string" where
  "py_strip s = rev (dropWhile py_space (rev (dropWhile py_space s)))"

definition present :: "string option \<Rightarrow> bool" where
  "present x \<longleftrightarrow> x \<noteq> None \<and> x \<noteq> Some []"

text \<open>\<open>json.loads(decoded)[capability][0]["device"]\<close>\<close>

definition granted_device :: "ingress \<Rightarrow> string \<Rightarrow> json option" where
  "granted_device ig decoded =
     (case json_loads (ig_fl ig) decoded of
        Some (JObj capabilities) \<Rightarrow>
          (case obj_get capabilities (ig_capability ig) of
             Some (JList (JObj grant # _)) \<Rightarrow> obj_get grant ''device''
           | _ \<Rightarrow> None)
      | _ \<Rightarrow> None)"

definition tailscale_subject :: "ingress \<Rightarrow> headers \<Rightarrow> exn + subject" where
  "tailscale_subject ig h =
     (if \<not> present (hd_user_login h) \<or> \<not> present (hd_app_capabilities h) then Inl (unauthorized ''Tailscale identity required'')
      else bind_sum (ig_decode_header ig (the (hd_app_capabilities h))) (\<lambda>decoded.
        case granted_device ig decoded of
          None \<Rightarrow> Inl (unauthorized ''Deckhand app capability required'')
        | Some device \<Rightarrow>
            (case nonempty_text device of
               None \<Rightarrow> Inl (unauthorized ''device identity required'')
             | Some d \<Rightarrow> Inr \<lparr>sj_name = the (hd_user_login h), sj_device = d, sj_channel = ''tailscale''\<rparr>)))"

definition subject_from_legacy_headers :: "ingress \<Rightarrow> headers \<Rightarrow> exn + subject" where
  "subject_from_legacy_headers ig h =
     (case ig_assertion_file ig of
        None \<Rightarrow> Inl (unavailable ''trusted ingress unavailable'')
      | Some contents \<Rightarrow>
          if \<not> ig_trusted_proxy ig then Inl (unavailable ''trusted ingress unavailable'')
          else case contents of
            None \<Rightarrow> Inl (unavailable ''proxy assertion unavailable'')
          | Some text \<Rightarrow>
              bind_sum (if \<not> present (hd_proxy_assertion h) then Inr False
                        else compare_digest (the (hd_proxy_assertion h)) (py_strip text)) (\<lambda>asserted.
              if \<not> asserted then Inl (unauthorized ''trusted proxy assertion required'')
              else if hd_channel h = Some ''tailscale'' then tailscale_subject ig h
              else if hd_channel h \<noteq> Some ''mgmt-mtls'' \<or> \<not> present (hd_subject h) \<or> \<not> present (hd_device h)
              then Inl (unauthorized ''authenticated identity required'')
              else Inr \<lparr>sj_name = the (hd_subject h), sj_device = the (hd_device h), sj_channel = ''mgmt-mtls''\<rparr>))"

definition authenticated_subject :: "ingress \<Rightarrow> headers \<Rightarrow> exn + subject" where
  "authenticated_subject ig h =
     (case hd_identity h of
        Some token \<Rightarrow> subject_from_identity_token ig token
      | None \<Rightarrow>
          if ig_verify_token ig \<noteq> None \<and> \<not> ig_allow_legacy ig then Inl (unauthorized ''signed identity token required'')
          else if \<not> ig_allow_legacy ig then Inl (unavailable ''identity verification unavailable'')
          else subject_from_legacy_headers ig h)"

section \<open>What the signature covers\<close>

lemma claims_json_wf: "json_wf (JObj (claims_json s d ch iat ex n))"
  by (simp add: claims_json_def)

lemma claims_json_norm:
  "json_norm (JObj (claims_json s d ch iat ex n)) = json_norm (JObj (claims_json s' d' ch' iat' ex' n')) \<longleftrightarrow>
     s = s' \<and> d = d' \<and> ch = ch' \<and> isoformat iat = isoformat iat' \<and> isoformat ex = isoformat ex' \<and> n = n'"
  by (auto simp: claims_json_def)

lemma canonical_claims_inj:
  assumes "canonical_claims s d ch iat ex n = canonical_claims s' d' ch' iat' ex' n'"
    and "instant_ok iat" and "instant_ok iat'" and "instant_ok ex" and "instant_ok ex'"
  shows "s = s' \<and> d = d' \<and> ch = ch' \<and> iat = iat' \<and> ex = ex' \<and> n = n'"
proof -
  have "json_dumps (JObj (claims_json s d ch iat ex n)) = json_dumps (JObj (claims_json s' d' ch' iat' ex' n'))"
    using assms(1) by (simp add: canonical_claims_def)
  from json_dumps_inj [OF claims_json_wf claims_json_wf this] show ?thesis
    unfolding claims_json_norm using isoformat_inj assms(2-5) by blast
qed

lemma read_envelope_fields:
  "read_envelope fl token = Inr (s, d, ch, iat, ex, n, sig) \<Longrightarrow> s \<noteq> [] \<and> d \<noteq> [] \<and> ch \<noteq> [] \<and> n \<noteq> []"
  by (auto simp: read_envelope_def nonempty_text_def split: option.splits json.splits list.splits if_splits)

lemma check_fresh_window:
  assumes "check_fresh now iat ex = Inr u"
  shows "st_utc iat - seconds 30 \<le> now \<and> now \<le> st_utc ex + seconds 30 \<and> st_utc ex - st_utc iat \<le> seconds 330"
  using assms
  by (auto simp: check_fresh_def shifted_def Let_def MAX_TTL_SECONDS_def MAX_CLOCK_SKEW_SECONDS_def seconds_def split: if_splits)

lemma verify_token_accepts:
  assumes "verify_token verifies fl fromisoformat token now = Inr c"
  shows "(\<exists>sig. verifies sig (canonical_claims (ic_subject c) (ic_device c) (ic_channel c) (st_utc (ic_issued_at c))
      (st_utc (ic_expires_at c)) (ic_nonce c))) \<and>
    instant_ok (st_utc (ic_issued_at c)) \<and> instant_ok (st_utc (ic_expires_at c)) \<and> ic_channel c \<in> set ALLOWED_CHANNELS \<and>
    ic_subject c \<noteq> [] \<and> ic_device c \<noteq> [] \<and> check_fresh now (ic_issued_at c) (ic_expires_at c) = Inr ()"
  using assms
  by (auto simp: verify_token_def astimezone_utc_def split: if_splits option.splits dest: read_envelope_fields)

text \<open>(C16) End to end: where tokens are required (no legacy headers), a request is authenticated only by a
  token whose claims the issuer minted, and the subject, device and channel that the broker acts for are
  exactly the minted ones, over a known channel, at most thirty seconds outside the token's validity
  and for a token that was valid for at most 330 seconds. No other header has any influence. (Signatures
  are assumed unforgeable: what verifies is the canonical form of claims the issuer minted.)\<close>

theorem authenticated_subject_minted:
  assumes "authenticated_subject ig h = Inr s" and "\<not> ig_allow_legacy ig"
    and "ig_verify_token ig = Some (\<lambda>token. verify_token verifies fl fromisoformat token now)"
    and "\<And>sig material. verifies sig material \<Longrightarrow> \<exists>subj dev ch iat ex n. minted subj dev ch iat ex n \<and>
      instant_ok iat \<and> instant_ok ex \<and> material = canonical_claims subj dev ch iat ex n"
  shows "\<exists>token iat ex n. hd_identity h = Some token \<and> minted (sj_name s) (sj_device s) (sj_channel s) iat ex n \<and>
    sj_channel s \<in> set ALLOWED_CHANNELS \<and> sj_name s \<noteq> [] \<and> sj_device s \<noteq> [] \<and>
    iat - seconds 30 \<le> now \<and> now \<le> ex + seconds 30 \<and> ex - iat \<le> seconds 330 \<and>
    authenticated_subject ig (h\<lparr>hd_user_login := a, hd_app_capabilities := b, hd_subject := c, hd_device := d, hd_channel := e,
      hd_proxy_assertion := f\<rparr>) = Inr s"
proof -
  from assms(1-3) obtain token claims where t: "hd_identity h = Some token"
    "verify_token verifies fl fromisoformat token now = Inr claims" "s = to_subject claims"
    by (auto simp: authenticated_subject_def subject_from_identity_token_def split: option.splits sum.splits exn.splits if_splits)
  note ok = verify_token_accepts [OF t(2)]
  then obtain sig where "verifies sig (canonical_claims (ic_subject claims) (ic_device claims) (ic_channel claims)
    (st_utc (ic_issued_at claims)) (st_utc (ic_expires_at claims)) (ic_nonce claims))" by blast
  from assms(4) [OF this] canonical_claims_inj ok have
    "minted (ic_subject claims) (ic_device claims) (ic_channel claims) (st_utc (ic_issued_at claims)) (st_utc (ic_expires_at claims)) (ic_nonce claims)"
    by metis
  moreover have "authenticated_subject ig (h\<lparr>hd_user_login := a, hd_app_capabilities := b, hd_subject := c, hd_device := d, hd_channel := e,
      hd_proxy_assertion := f\<rparr>) = Inr s"
    using assms(1) t(1) by (simp add: authenticated_subject_def)
  ultimately show ?thesis
    using t ok check_fresh_window [of now "ic_issued_at claims" "ic_expires_at claims" "()"]
    by (intro exI [of _ token] exI [of _ "st_utc (ic_issued_at claims)"] exI [of _ "st_utc (ic_expires_at claims)"] exI [of _ "ic_nonce claims"])
      (simp add: to_subject_def)
qed

section \<open>Minted tokens verify\<close>

definition utc_stamp :: "instant \<Rightarrow> stamp" where
  "utc_stamp t = \<lparr>st_local = t, st_offset = Some 0\<rparr>"

lemma utc_stamp_simps [simp]: "st_utc (utc_stamp t) = t" "st_offset (utc_stamp t) = Some 0" "st_local (utc_stamp t) = t"
  by (simp_all add: utc_stamp_def st_utc_def)

lemma read_minted:
  assumes "mint_token sign subj dev ch nonce ttl now = Inr token"
  shows "ch \<in> set ALLOWED_CHANNELS \<and> 0 < ttl \<and> ttl \<le> 300 \<and> instant_ok (now + seconds ttl) \<and>
    read_envelope fl token = Inr (subj, dev, ch, JStr (isoformat now), JStr (isoformat (now + seconds ttl)), nonce,
      sign (canonical_claims subj dev ch now (now + seconds ttl) nonce))"
proof -
  let ?env = "claims_json subj dev ch now (now + seconds ttl) nonce @
    [(''sig'', JStr (b64u_encode (sign (canonical_claims subj dev ch now (now + seconds ttl) nonce))))]"
  have token: "token = b64u_encode (render (JObj ?env))" and ok: "ch \<in> set ALLOWED_CHANNELS" "subj \<noteq> []" "dev \<noteq> []" "nonce \<noteq> []"
    "0 < ttl" "ttl \<le> 300" "instant_ok (now + seconds ttl)"
    using assms by (auto simp: mint_token_def Let_def MAX_TTL_SECONDS_def split: if_splits)
  have "ch \<noteq> []" using ok(1) by (auto simp: ALLOWED_CHANNELS_def)
  moreover have "loads_bytes fl (render (JObj ?env)) = Some (JObj ?env)"
    by (rule loads_bytes_render) (simp_all add: claims_json_def)
  ultimately have "read_envelope fl token = Inr (subj, dev, ch, JStr (isoformat now), JStr (isoformat (now + seconds ttl)), nonce,
      sign (canonical_claims subj dev ch now (now + seconds ttl) nonce))"
    using ok(2-4) by (simp add: token read_envelope_def) (simp add: claims_json_def lookup_fields_def nonempty_text_def decode_signature_def)
  with ok show ?thesis by blast
qed

lemma minted_verifies:
  assumes "mint_token sign subj dev ch nonce ttl now = Inr token"
    and "verifies (sign (canonical_claims subj dev ch now (now + seconds ttl) nonce)) (canonical_claims subj dev ch now (now + seconds ttl) nonce)"
    and "instant_ok (now - seconds 30)" and "instant_ok (now + seconds ttl + seconds 30)"
    and "\<And>t. t \<in> {now, now + seconds ttl} \<Longrightarrow> fromisoformat (isoformat t) = Some (utc_stamp t)"
  shows "verify_token verifies fl fromisoformat token later =
    (if later < now - seconds 30 then Inl (IdentityError ''identity token not yet valid'')
     else if now + seconds ttl + seconds 30 < later then Inl (IdentityError ''identity token expired'')
     else Inr \<lparr>ic_subject = subj, ic_device = dev, ic_channel = ch, ic_issued_at = utc_stamp now,
       ic_expires_at = utc_stamp (now + seconds ttl), ic_nonce = nonce\<rparr>)"
proof -
  note m = read_minted [OF assms(1), of fl]
  have now: "instant_ok now" using assms(3) m by (auto simp: instant_ok_def seconds_def)
  have "check_fresh later (utc_stamp now) (utc_stamp (now + seconds ttl)) =
      (if later < now - seconds 30 then Inl (IdentityError ''identity token not yet valid'')
       else if now + seconds ttl + seconds 30 < later then Inl (IdentityError ''identity token expired'') else Inr ())"
    using assms(3,4) m by (auto simp: check_fresh_def shifted_def Let_def MAX_CLOCK_SKEW_SECONDS_def MAX_TTL_SECONDS_def seconds_def)
  then show ?thesis
    using m now assms(2,5) by (auto simp: verify_token_def read_stamp_def astimezone_utc_def)
qed

text \<open>Round trip: a token that \<open>mint_token\<close> issued is accepted by \<open>verify_token\<close> with the matching key exactly
  from thirty seconds before it was issued to thirty seconds after it expires, and then yields the claims it was
  minted for; outside that window it is refused as not yet valid or expired. (\<open>fromisoformat\<close> is assumed
  to read back what \<open>isoformat\<close> wrote, for the two timestamps of the token.)\<close>

theorem mint_verify_roundtrip:
  assumes "mint_token sign subj dev ch nonce ttl now = Inr token"
    and "verifies (sign (canonical_claims subj dev ch now (now + seconds ttl) nonce)) (canonical_claims subj dev ch now (now + seconds ttl) nonce)"
    and "instant_ok (now - seconds 30)" and "instant_ok (now + seconds ttl + seconds 30)"
    and "\<And>t. t \<in> {now, now + seconds ttl} \<Longrightarrow> fromisoformat (isoformat t) = Some (utc_stamp t)"
  shows "(now - seconds 30 \<le> later \<and> later \<le> now + seconds ttl + seconds 30 \<longleftrightarrow>
      (\<exists>c. verify_token verifies fl fromisoformat token later = Inr c)) \<and>
    (\<forall>c. verify_token verifies fl fromisoformat token later = Inr c \<longrightarrow>
      ic_subject c = subj \<and> ic_device c = dev \<and> ic_channel c = ch \<and> ic_nonce c = nonce \<and>
      st_utc (ic_issued_at c) = now \<and> st_utc (ic_expires_at c) = now + seconds ttl) \<and>
    (\<forall>e. verify_token verifies fl fromisoformat token later = Inl e \<longrightarrow>
      e = IdentityError ''identity token not yet valid'' \<or> e = IdentityError ''identity token expired'')"
  using minted_verifies [where verifies = verifies and fromisoformat = fromisoformat and fl = fl and later = later, OF assms]
  by (auto split: if_splits)

text \<open>A token that names a timestamp near the limits of \<open>datetime\<close> with an offset makes the check raise
  \<open>OverflowError\<close> before the signature is looked at, whoever signed it; the request ends in an internal
  error instead of a 401.\<close>

lemma overflow_before_signature:
  assumes "read_envelope fl token = Inr (s, d, ch, JStr iat, JStr ex, n, sig)" and "ch \<in> set ALLOWED_CHANNELS"
    and "fromisoformat iat = Some a" and "fromisoformat ex = Some b" and "st_offset a \<noteq> None" and "st_offset b \<noteq> None"
    and "\<not> instant_ok (st_utc a)"
  shows "verify_token verifies fl fromisoformat token now = Inl overflow"
  using assms by (auto simp: verify_token_def read_stamp_def astimezone_utc_def)

section \<open>An example\<close>

definition demo_issued_at :: instant where
  "demo_issued_at = seconds 1000"

definition demo_fromisoformat :: "string \<Rightarrow> stamp option" where
  "demo_fromisoformat s = (if s = isoformat demo_issued_at then Some (utc_stamp demo_issued_at)
     else if s = isoformat (demo_issued_at + seconds 60) then Some (utc_stamp (demo_issued_at + seconds 60)) else None)"

definition demo_token :: string where
  "demo_token = (case mint_token (\<lambda>m. m) ''operator'' ''deck-1'' ''tailscale'' ''n1'' 60 demo_issued_at of Inr t \<Rightarrow> t | Inl e \<Rightarrow> [])"

lemma demo_token:
  "mint_token (\<lambda>m. m) ''operator'' ''deck-1'' ''tailscale'' ''n1'' 60 demo_issued_at = Inr demo_token"
  by (simp add: demo_token_def mint_token_def Let_def ALLOWED_CHANNELS_def MAX_TTL_SECONDS_def instant_ok_def demo_issued_at_def seconds_def)

lemma demo_instants: "instant_ok (demo_issued_at - seconds 30)" "instant_ok (demo_issued_at + seconds 60 + seconds 30)"
  by (simp_all add: demo_issued_at_def instant_ok_def seconds_def)

lemma demo_reads: "t \<in> {demo_issued_at, demo_issued_at + seconds 60} \<Longrightarrow> demo_fromisoformat (isoformat t) = Some (utc_stamp t)"
proof -
  have "isoformat (demo_issued_at + seconds 60) \<noteq> isoformat demo_issued_at"
    using isoformat_inj [of "demo_issued_at + seconds 60" demo_issued_at] by (auto simp: demo_issued_at_def instant_ok_def seconds_def)
  then show "t \<in> {demo_issued_at, demo_issued_at + seconds 60} \<Longrightarrow> demo_fromisoformat (isoformat t) = Some (utc_stamp t)"
    by (auto simp: demo_fromisoformat_def)
qed

theorem mint_verify_roundtrip_witness:
  "(\<exists>c. verify_token (\<lambda>sig m. sig = m) (\<lambda>t. t) demo_fromisoformat demo_token (demo_issued_at + seconds 10) = Inr c) \<and>
   \<not> (\<exists>c. verify_token (\<lambda>sig m. sig = m) (\<lambda>t. t) demo_fromisoformat demo_token (demo_issued_at + seconds 91) = Inr c)"
proof -
  note rt = mint_verify_roundtrip [where verifies = "\<lambda>sig m. sig = m" and fl = "\<lambda>t. t", OF demo_token refl demo_instants demo_reads, THEN conjunct1]
  from rt [of "demo_issued_at + seconds 10"] rt [of "demo_issued_at + seconds 91"]
  show ?thesis by (simp add: seconds_def)
qed

definition demo_ingress :: ingress where
  "demo_ingress = \<lparr>ig_verify_token = Some (\<lambda>token. verify_token (\<lambda>sig m. sig = m \<and>
       m = canonical_claims ''operator'' ''deck-1'' ''tailscale'' demo_issued_at (demo_issued_at + seconds 60) ''n1'') (\<lambda>t. t)
       demo_fromisoformat token (demo_issued_at + seconds 10)),
     ig_allow_legacy = False, ig_trusted_proxy = False, ig_assertion_file = None, ig_capability = ''cap'',
     ig_decode_header = Inr, ig_fl = (\<lambda>t. t)\<rparr>"

definition demo_headers :: headers where
  "demo_headers = \<lparr>hd_identity = Some demo_token, hd_user_login = None, hd_app_capabilities = None, hd_subject = Some ''root'',
     hd_device = None, hd_channel = Some ''mgmt-mtls'', hd_proxy_assertion = None\<rparr>"

lemma demo_authenticated: "authenticated_subject demo_ingress demo_headers =
    Inr \<lparr>sj_name = ''operator'', sj_device = ''deck-1'', sj_channel = ''tailscale''\<rparr>"
proof -
  let ?v = "\<lambda>sig m. sig = m \<and> m = canonical_claims ''operator'' ''deck-1'' ''tailscale'' demo_issued_at (demo_issued_at + seconds 60) ''n1''"
  from minted_verifies [where verifies = ?v and fl = "\<lambda>t. t" and later = "demo_issued_at + seconds 10", OF demo_token _ demo_instants demo_reads]
  show ?thesis
    by (simp add: authenticated_subject_def subject_from_identity_token_def demo_ingress_def demo_headers_def to_subject_def seconds_def)
qed

theorem authenticated_subject_minted_witness:
  "\<exists>s. authenticated_subject demo_ingress demo_headers = Inr s \<and> sj_name s = ''operator'' \<and> sj_channel s = ''tailscale''"
proof -
  let ?minted = "\<lambda>subj dev ch iat ex n. subj = ''operator'' \<and> dev = ''deck-1'' \<and> ch = ''tailscale'' \<and> iat = demo_issued_at \<and>
    ex = demo_issued_at + seconds 60 \<and> n = ''n1''"
  have "\<not> ig_allow_legacy demo_ingress" by (simp add: demo_ingress_def)
  moreover have "ig_verify_token demo_ingress = Some (\<lambda>token. verify_token (\<lambda>sig m. sig = m \<and>
       m = canonical_claims ''operator'' ''deck-1'' ''tailscale'' demo_issued_at (demo_issued_at + seconds 60) ''n1'') (\<lambda>t. t)
       demo_fromisoformat token (demo_issued_at + seconds 10))" by (simp add: demo_ingress_def)
  moreover have "instant_ok demo_issued_at" "instant_ok (demo_issued_at + seconds 60)"
    by (simp_all add: demo_issued_at_def instant_ok_def seconds_def)
  ultimately have "\<exists>token iat ex n. hd_identity demo_headers = Some token \<and> ?minted ''operator'' ''deck-1'' ''tailscale'' iat ex n"
    using authenticated_subject_minted [OF demo_authenticated, where minted = ?minted] by auto
  with demo_authenticated show ?thesis by simp
qed

end
