(* ===== verification/Events.thy ===== *)
theory Events
  imports ApiLaws Identity
begin

text \<open>
  Reading from the broker, the rest of \<open>api.py\<close> and \<open>status.py\<close>: normalised status, the page of audit
  events, the server-sent event feed and the WebSocket feed. A feed is a sequence of rounds; each round
  reads the log as it is then and delivers what is newer than the cursor.
\<close>

section \<open>Status\<close>

type_synonym status_providers = "(string \<times> (exn + status_value)) list"

definition status_domain :: "instant \<Rightarrow> status_providers \<Rightarrow> string \<Rightarrow> exn + status_value" where
  "status_domain now providers name =
     (case map_of providers name of
        None \<Rightarrow> Inr \<lparr>sv_state = ''unconfigured'', sv_observed_at = now, sv_stale_after_seconds = 1,
                  sv_details = [(''configuration_required'', JBool True)]\<rparr>
      | Some (Inl (AdapterExn error)) \<Rightarrow>
          Inr \<lparr>sv_state = ''unavailable'', sv_observed_at = now, sv_stale_after_seconds = 1,
               sv_details = obj_merge (ae_details error)
                 [(''error_code'', JStr (kind_value (ae_kind error))), (''retry'', JStr (retry_value (ae_retry error)))]\<rparr>
      | Some observed \<Rightarrow> observed)"

fun gather :: "instant \<Rightarrow> status_providers \<Rightarrow> string list \<Rightarrow> exn + (string \<times> status_value) list" where
  "gather now providers [] = Inr []"
| "gather now providers (n # ns) =
     bind_sum (status_domain now providers n) (\<lambda>v. bind_sum (gather now providers ns) (\<lambda>vs. Inr ((n, v) # vs)))"

definition status_summary :: "instant \<Rightarrow> status_providers \<Rightarrow> exn + (string \<times> status_value) list" where
  "status_summary now providers = gather now providers (sort (map fst providers))"

lemma gather_total:
  assumes "\<And>n e. map_of providers n = Some (Inl e) \<Longrightarrow> \<exists>x. e = AdapterExn x"
  shows "\<exists>vs. gather now providers ns = Inr vs \<and> map fst vs = ns"
proof (induction ns)
  case (Cons n ns)
  have "\<exists>v. status_domain now providers n = Inr v"
    using assms [of n] by (auto simp: status_domain_def split: option.splits sum.splits exn.splits)
  with Cons show ?case by auto
qed simp

text \<open>A failing provider shows as unavailable and hides no other: the summary has an entry for every
  provider, in name order.\<close>

lemma status_summary_complete:
  assumes "distinct (map fst providers)" and "\<And>n e. (n, Inl e) \<in> set providers \<Longrightarrow> \<exists>x. e = AdapterExn x"
  shows "\<exists>vs. status_summary now providers = Inr vs \<and> map fst vs = sort (map fst providers)"
  unfolding status_summary_def by (rule gather_total) (use assms(2) map_of_SomeD in fast)

section \<open>The page of events\<close>

text \<open>The query parameters are validated by the framework: \<open>after\<close> at least 0, \<open>limit\<close> from 1 to 1000.\<close>

definition events_page :: "int \<Rightarrow> int \<Rightarrow> db \<Rightarrow> exn + audit_event list" where
  "events_page after limit db =
     (if 0 \<le> after \<and> 1 \<le> limit \<and> limit \<le> 1000 then Inr (list_audit_events after limit (db_audit db))
      else Inl (HTTPException 422 (JStr ''query parameter out of range'')))"

section \<open>Feeds\<close>

definition event_json :: "audit_event \<Rightarrow> json" where
  "event_json e = JObj [(''sequence'', JInt (ev_sequence e)), (''occurred_at'', JStr (ev_occurred_at e)),
     (''event_type'', JStr (ev_event_type e)), (''payload_json'', JStr (ev_payload_json e)),
     (''previous_hash'', JStr (ev_previous_hash e)), (''event_hash'', JStr (ev_event_hash e))]"

text \<open>\<open>json.dumps\<close> with its default separators.\<close>

fun dumps_default :: "json \<Rightarrow> string" where
  "dumps_default (JList vs) = CHR ''['' # join_with '', '' (map dumps_default vs) @ '']''"
| "dumps_default (JObj kvs) =
     CHR ''{'' # join_with '', '' (map (\<lambda>(k, v). json_quote k @ '': '' @ dumps_default v) kvs) @ ''}''"
| "dumps_default v = json_dumps v"

definition format_event :: "audit_event \<Rightarrow> string" where
  "format_event e = ''id: '' @ str_int (ev_sequence e) @ [CHR 0x0A] @ ''event: '' @ ev_event_type e @ [CHR 0x0A] @
     ''data: '' @ dumps_default (event_json e) @ [CHR 0x0A, CHR 0x0A]"

definition keepalive :: string where
  "keepalive = '': keepalive'' @ [CHR 0x0A, CHR 0x0A]"

definition advance :: "int \<Rightarrow> audit_event list \<Rightarrow> int" where
  "advance cursor batch = (if batch = [] then cursor else ev_sequence (last batch))"

text \<open>One round of the server-sent events: what it yields, the next cursor and the idle count.\<close>

definition stream_round :: "bool \<Rightarrow> int \<Rightarrow> nat \<Rightarrow> audit_log \<Rightarrow> string list \<times> int \<times> nat" where
  "stream_round once cursor idle log =
     (let batch = list_audit_events cursor 100 log;
          idle1 = (if batch = [] then idle else 0);
          idle2 = (if \<not> once \<and> batch = [] then idle1 + 1 else idle1);
          beat = (if \<not> once \<and> batch = [] \<and> idle2 mod 15 = 0 then [keepalive] else [])
      in (map format_event batch @ beat, advance cursor batch, idle2))"

text \<open>The generator over the logs it meets: with \<open>once\<close> it returns after the first round.\<close>

fun event_source :: "bool \<Rightarrow> int \<Rightarrow> nat \<Rightarrow> audit_log list \<Rightarrow> string list" where
  "event_source once cursor idle [] = []"
| "event_source once cursor idle (log # logs) =
     (let (frames, cursor', idle') = stream_round once cursor idle log
      in frames @ (if once then [] else event_source once cursor' idle' logs))"

text \<open>The events a feed delivers, without their framing; the WebSocket feed sends these one by one.\<close>

fun delivered :: "int \<Rightarrow> audit_log list \<Rightarrow> audit_event list" where
  "delivered cursor [] = []"
| "delivered cursor (log # logs) =
     (let batch = list_audit_events cursor 100 log in batch @ delivered (advance cursor batch) logs)"

text \<open>The loop of the WebSocket feed; a client that goes away after receiving \<open>Some n\<close> events makes the next
  \<open>send_json\<close> raise, which ends the feed.\<close>

fun ws_feed :: "nat option \<Rightarrow> int \<Rightarrow> audit_log list \<Rightarrow> audit_event list" where
  "ws_feed room cursor [] = []"
| "ws_feed room cursor (log # logs) =
     (let batch = list_audit_events cursor 100 log in
      case room of
        None \<Rightarrow> batch @ ws_feed None (advance cursor batch) logs
      | Some n \<Rightarrow> if n < length batch then take n batch
          else batch @ ws_feed (Some (n - length batch)) (advance cursor batch) logs)"

lemma ws_feed_delivers: "ws_feed room cursor logs = (case room of None \<Rightarrow> delivered cursor logs | Some n \<Rightarrow> take n (delivered cursor logs))"
  by (induction room cursor logs rule: ws_feed.induct) (auto simp: Let_def split: option.splits)

text \<open>The handshake of the WebSocket feed: the token decides before anything is accepted, then the cursor is
  read from the \<open>after\<close> parameter. \<open>isdigit\<close> also holds for the superscript digits, which \<open>int\<close> rejects.\<close>

definition py_isdigit :: "string \<Rightarrow> bool" where
  "py_isdigit s \<longleftrightarrow> s \<noteq> [] \<and> list_all (\<lambda>c. is_digit c \<or> of_char c \<in> {178, 179, 185 :: nat}) s"

definition ws_cursor :: "string \<Rightarrow> exn + int" where
  "ws_cursor after = (if \<not> py_isdigit after then Inr 0
     else if list_all is_digit after then Inr (int (digits_value after)) else Inl (OtherException ''ValueError''))"

datatype ws_outcome = Closed int | Serving int | Crashed exn

definition ws_open :: "ingress \<Rightarrow> string option \<Rightarrow> string option \<Rightarrow> string option \<Rightarrow> ws_outcome" where
  "ws_open ig query_token header_token after =
     (let token = (if present query_token then query_token else header_token) in
      case (ig_verify_token ig, token) of
        (Some verify, Some t) \<Rightarrow>
          (case verify t of
             Inr claims \<Rightarrow> (case ws_cursor (case after of None \<Rightarrow> ''0'' | Some a \<Rightarrow> a) of Inr c \<Rightarrow> Serving c | Inl e \<Rightarrow> Crashed e)
           | Inl (IdentityError m) \<Rightarrow> Closed 1008
           | Inl e \<Rightarrow> Crashed e)
      | _ \<Rightarrow> Closed 1008)"

section \<open>In order, without gaps or repetitions\<close>

lemma list_100: "list_audit_events cursor 100 log = take 100 (filter (\<lambda>e. cursor < ev_sequence e) (al_events log))"
  by (simp add: list_audit_events_def sql_limit_def)

lemma sorted_filter_take:
  assumes "sorted_wrt (<) (map ev_sequence es)" and "take n (filter (\<lambda>e. c < ev_sequence e) es) \<noteq> []"
  shows "filter (\<lambda>e. ev_sequence (last (take n (filter (\<lambda>e. c < ev_sequence e) es))) < ev_sequence e) es =
    drop n (filter (\<lambda>e. c < ev_sequence e) es)"
proof -
  let ?f = "filter (\<lambda>e. c < ev_sequence e) es" and ?t = "take n (filter (\<lambda>e. c < ev_sequence e) es)"
  have s: "sorted_wrt (\<lambda>x y. ev_sequence x < ev_sequence y) ?f"
    using assms(1) by (simp add: sorted_wrt_map sorted_wrt_filter)
  have last: "last ?t \<in> set ?f" using assms(2) by (meson in_set_takeD last_in_set)
  have split: "sorted_wrt (\<lambda>x y. ev_sequence x < ev_sequence y) (?t @ drop n ?f)" using s by simp
  have before: "ev_sequence x \<le> ev_sequence (last ?t)" if "x \<in> set ?t" for x
  proof -
    obtain ys where ys: "?t = ys @ [last ?t]" using assms(2) by (metis append_butlast_last_id)
    have "sorted_wrt (\<lambda>x y. ev_sequence x < ev_sequence y) ?t" using split unfolding sorted_wrt_append by blast
    then have "\<forall>y \<in> set ys. ev_sequence y < ev_sequence (last ?t)" using ys by (metis list.set_intros(1) sorted_wrt_append)
    moreover have "x \<in> set ys \<or> x = last ?t" using that ys by (metis Un_iff empty_iff insert_iff list.set(1,2) set_append)
    ultimately show ?thesis by auto
  qed
  have after: "ev_sequence (last ?t) < ev_sequence y" if "y \<in> set (drop n ?f)" for y
    using split that last_in_set [OF assms(2)] unfolding sorted_wrt_append by blast
  have "filter (\<lambda>e. ev_sequence (last ?t) < ev_sequence e) es = filter (\<lambda>e. ev_sequence (last ?t) < ev_sequence e) ?f"
    using last by (auto intro!: filter_cong)
  also have "\<dots> = filter (\<lambda>e. ev_sequence (last ?t) < ev_sequence e) (?t @ drop n ?f)" by simp
  also have "\<dots> = drop n ?f"
    unfolding filter_append using before after by (auto simp: filter_empty_conv filter_id_conv leD)
  finally show ?thesis .
qed

text \<open>Logs that only grow.\<close>

fun growing :: "audit_log list \<Rightarrow> bool" where
  "growing (a # b # logs) = ((\<exists>new. al_events b = al_events a @ new) \<and> growing (b # logs))"
| "growing _ = True"

definition newer :: "int \<Rightarrow> audit_log \<Rightarrow> audit_event list" where
  "newer cursor log = filter (\<lambda>e. cursor < ev_sequence e) (al_events log)"

lemma growing_last: "growing (a # logs) \<Longrightarrow> \<exists>new. al_events (last (a # logs)) = al_events a @ new"
proof (induction logs arbitrary: a)
  case (Cons b logs)
  obtain y where "al_events (last (b # logs)) = al_events b @ y" using Cons.IH [of b] Cons.prems by auto
  moreover obtain x where "al_events b = al_events a @ x" using Cons.prems by auto
  moreover have "last (a # b # logs) = last (b # logs)" by simp
  ultimately show ?case by (metis append.assoc)
qed simp

lemma advance_newer:
  assumes "sorted_wrt (<) (map ev_sequence (al_events later))" and "\<exists>new. al_events later = al_events log @ new"
  shows "newer cursor later = list_audit_events cursor 100 log @ newer (advance cursor (list_audit_events cursor 100 log)) later"
proof (cases "list_audit_events cursor 100 log = []")
  case True
  then show ?thesis by (simp add: advance_def)
next
  case False
  obtain new where new: "al_events later = al_events log @ new" using assms(2) by blast
  let ?n = "length (list_audit_events cursor 100 log)"
  have batch: "list_audit_events cursor 100 log = take ?n (newer cursor later)"
    by (simp add: list_100 newer_def new min_def)
  have "newer (advance cursor (list_audit_events cursor 100 log)) later = drop ?n (newer cursor later)"
    using sorted_filter_take [OF assms(1), of ?n cursor] False batch unfolding newer_def advance_def by simp
  with batch show ?thesis by (metis append_take_drop_id)
qed

lemma delivered_prefix:
  assumes "growing logs" and "logs \<noteq> []" and "sorted_wrt (<) (map ev_sequence (al_events (last logs)))"
  shows "\<exists>rest. newer cursor (last logs) = delivered cursor logs @ rest"
  using assms
proof (induction logs arbitrary: cursor)
  case (Cons log logs)
  let ?b = "list_audit_events cursor 100 log"
  note step = advance_newer [OF Cons.prems(3) growing_last [OF Cons.prems(1)], of cursor]
  show ?case
  proof (cases logs)
    case Nil
    then show ?thesis using step by (auto simp: Let_def)
  next
    case (Cons l ls)
    then obtain rest where "newer (advance cursor ?b) (last logs) = delivered (advance cursor ?b) logs @ rest"
      using Cons.IH [of "advance cursor ?b"] Cons.prems by auto
    with step Cons show ?thesis by (simp add: Let_def)
  qed
qed simp

lemma delivered_replicate:
  assumes "sorted_wrt (<) (map ev_sequence (al_events log))" and "length (newer cursor log) \<le> 100 * k"
  shows "delivered cursor (replicate k log) = newer cursor log"
  using assms(2)
proof (induction k arbitrary: cursor)
  case (Suc k)
  let ?b = "list_audit_events cursor 100 log"
  have step: "newer cursor log = ?b @ newer (advance cursor ?b) log"
    by (rule advance_newer [OF assms(1)]) simp
  have "length ?b = min 100 (length (newer cursor log))" by (simp add: list_100 newer_def)
  moreover have "length (newer cursor log) = length ?b + length (newer (advance cursor ?b) log)"
    using step by (metis length_append)
  ultimately have "length (newer (advance cursor ?b) log) \<le> 100 * k" using Suc.prems by (simp add: min_def split: if_splits)
  with Suc.IH step show ?case by (simp add: Let_def)
qed simp

lemma delivered_append:
  "\<exists>cursor'. delivered cursor (logs @ logs') = delivered cursor logs @ delivered cursor' logs'"
  by (induction logs arbitrary: cursor) (auto simp: Let_def)

lemma event_source_frames:
  "filter (\<lambda>f. f \<noteq> keepalive) (event_source False cursor idle logs) = map format_event (delivered cursor logs)"
proof (induction logs arbitrary: cursor idle)
  case (Cons log logs)
  have "format_event e \<noteq> keepalive" for e by (simp add: format_event_def keepalive_def)
  then have "filter (\<lambda>f. f \<noteq> keepalive) (map format_event es) = map format_event es" for es by (induction es) simp_all
  with Cons show ?case by (simp add: stream_round_def Let_def)
qed simp

text \<open>(C25) The event feed, over any run of rounds during which the log only grows: the frames it sends are, keepalives
  aside, exactly the first so many of the audit events newer than the client's cursor, in sequence order,
  none missing and none twice; and once the log stops growing, enough rounds deliver all of them.\<close>

theorem event_feed_exactly_once:
  assumes "audit_inv cfg (last (log # logs))" and "growing (log # logs)"
  shows "(\<exists>rest. filter (\<lambda>e. cursor < ev_sequence e) (al_events (last (log # logs))) = delivered cursor (log # logs) @ rest) \<and>
    filter (\<lambda>f. f \<noteq> keepalive) (event_source False cursor idle (log # logs)) = map format_event (delivered cursor (log # logs)) \<and>
    delivered cursor (replicate (length (al_events log)) log) = filter (\<lambda>e. cursor < ev_sequence e) (al_events log)"
proof (intro conjI)
  have last: "sorted_wrt (<) (map ev_sequence (al_events (last (log # logs))))" using assms(1) by (simp add: audit_inv_def)
  show "\<exists>rest. filter (\<lambda>e. cursor < ev_sequence e) (al_events (last (log # logs))) = delivered cursor (log # logs) @ rest"
    using delivered_prefix [OF assms(2) _ last] by (simp add: newer_def)
  show "filter (\<lambda>f. f \<noteq> keepalive) (event_source False cursor idle (log # logs)) = map format_event (delivered cursor (log # logs))"
    by (rule event_source_frames)
  obtain new where "al_events (last (log # logs)) = al_events log @ new" using growing_last [OF assms(2)] by blast
  then have "sorted_wrt (<) (map ev_sequence (al_events log))" using last by (simp add: sorted_wrt_append)
  moreover have "length (newer cursor log) \<le> 100 * length (al_events log)"
    using length_filter_le [of "\<lambda>e. cursor < ev_sequence e" "al_events log"] unfolding newer_def by linarith
  ultimately show "delivered cursor (replicate (length (al_events log)) log) = filter (\<lambda>e. cursor < ev_sequence e) (al_events log)"
    using delivered_replicate by (simp add: newer_def)
qed

theorem event_feed_exactly_once_witness:
  "\<exists>rest. filter (\<lambda>e. 0 < ev_sequence e) (al_events (db_audit demo_challenged)) =
    delivered 0 [db_audit empty_db, db_audit demo_challenged] @ rest"
proof -
  have "audit_inv demo_cfg (last [db_audit empty_db, db_audit demo_challenged])"
    using demo_challenged(1) by (simp add: db_inv_def)
  moreover have "growing [db_audit empty_db, db_audit demo_challenged]" by (simp add: empty_db_def empty_log_def)
  ultimately show ?thesis using event_feed_exactly_once [of demo_cfg "db_audit empty_db" "[db_audit demo_challenged]" 0] by simp
qed

text \<open>The bounded catch-up read: with \<open>once\<close> the feed sends the first hundred newer events and closes, so
  a backlog of more than a hundred is not drained.\<close>

theorem catch_up_stops_at_hundred:
  "event_source True cursor idle (log # logs) =
     map format_event (take 100 (filter (\<lambda>e. cursor < ev_sequence e) (al_events log)))"
  by (simp add: stream_round_def Let_def list_100)

end
