(* ===== verification/Worker.thy ===== *)
theory Worker
  imports Process
begin

text \<open>
  The execution worker, \<open>worker.py\<close>: claim the oldest queued job, call its adapter, and record
  the outcome under the fence of the lease. \<open>run_once\<close> is translated as one program; the points
  where other processes may commit are \<open>meanwhile\<close>.
\<close>

record worker =
  wk_id :: string
  wk_catalog :: catalog
  wk_validator :: schema_validator
  wk_adapters :: registry

definition worker_lease_for :: "worker \<Rightarrow> action_request \<Rightarrow> exn + int" where
  "worker_lease_for w request =
     (case validate_request (wk_validator w) (wk_catalog w) request of
        Inl (CatalogError m) \<Rightarrow> Inr 30
      | Inl e \<Rightarrow> Inl e
      | Inr action \<Rightarrow> Inr (ad_timeout_seconds action + 15))"

definition unsatisfied_error :: "adapter_verification \<Rightarrow> adapter_error" where
  "unsatisfied_error v = AdapterError ''adapter postcondition is not yet satisfied'' K_CONFLICT
     RECONCILE_FIRST True (ve_details v)"

text \<open>The body of the \<open>try\<close> block.\<close>

definition worker_attempt ::
  "store_cfg \<Rightarrow> env \<Rightarrow> string \<Rightarrow> string \<Rightarrow> int \<Rightarrow> adapter \<Rightarrow> action_definition \<Rightarrow> action_request \<Rightarrow> job_view option program" where
  "worker_attempt cfg env job_id fence lease_seconds adapter action request =
     and_then (lift (ap_execute adapter action request)) (\<lambda>execution.
     let partial_result = [(''execution'', execution_json execution)] in
     and_then (meanwhile (env_others env 2)) (\<lambda>_.
     and_then (transition_job cfg (env_now env 1) job_id VERIFYING (Some partial_result) None (Some fence) None) (\<lambda>_.
     and_then (meanwhile (env_others env 3)) (\<lambda>_.
     and_then (renew_lease (env_now env 2) job_id fence lease_seconds) (\<lambda>_.
     and_then (lift (ap_observe adapter action request)) (\<lambda>observation.
     and_then (lift (ap_verify adapter action request execution observation)) (\<lambda>verification.
     if \<not> ve_satisfied verification then raises (AdapterExn (unsatisfied_error verification))
     else and_then (meanwhile (env_others env 4)) (\<lambda>_.
       and_then (transition_job cfg (env_now env 3) job_id SUCCEEDED
           (Some (partial_result @ [(''observation'', observation_json observation),
                                    (''verification'', verification_json verification)])) None (Some fence) None)
         (\<lambda>v. returns (Some v))))))))))"

definition worker_failed ::
  "store_cfg \<Rightarrow> env \<Rightarrow> string \<Rightarrow> string \<Rightarrow> exn \<Rightarrow> job_view option program" where
  "worker_failed cfg env job_id fence e =
     (case e of
        StaleLease m \<Rightarrow> returns None
      | AdapterExn error \<Rightarrow>
          (let tgt = (if ae_reconciliation_required error then UNKNOWN_OUTCOME else FAILED)
           in handle
                (and_then (lift (as_job_error error)) (\<lambda>je.
                 and_then (meanwhile (env_others env 5)) (\<lambda>_.
                 and_then (transition_job cfg (env_now env 4) job_id tgt None (Some je) (Some fence) None)
                   (\<lambda>v. returns (Some v)))))
                (\<lambda>e'. case e' of StaleLease m \<Rightarrow> returns None | _ \<Rightarrow> raises e'))
      | _ \<Rightarrow> raises e)"

definition worker_run_once :: "store_cfg \<Rightarrow> worker \<Rightarrow> env \<Rightarrow> job_view option program" where
  "worker_run_once cfg w env =
     and_then (claim_next_job cfg (env_now env 0) (env_token env) (wk_id w) 30 (Some (worker_lease_for w))) (\<lambda>claimed.
     case claimed of
       None \<Rightarrow> returns None
     | Some c \<Rightarrow>
         let job_id = jv_id (cl_job c); fence = cl_lease_token c in
         and_then (meanwhile (env_others env 0)) (\<lambda>_.
         and_then (query (get_job_context job_id)) (\<lambda>(request, owner).
         and_then (lift (validate_request (wk_validator w) (wk_catalog w) request)) (\<lambda>action.
         and_then (lift (registry_get (wk_adapters w) (ad_adapter action))) (\<lambda>adapter.
         and_then (lift (worker_lease_for w request)) (\<lambda>lease_seconds.
         and_then (meanwhile (env_others env 1)) (\<lambda>_.
         handle (worker_attempt cfg env job_id fence lease_seconds adapter action request)
                (worker_failed cfg env job_id fence))))))))"

lemma worker_attempt_steps:
  "others_ok cfg env \<Longrightarrow> steps_only cfg (worker_attempt cfg env i fence secs adapter action request)"
  unfolding worker_attempt_def Let_def by (intro program_steps) (auto intro: program_steps split: if_splits)

lemma worker_failed_steps: "others_ok cfg env \<Longrightarrow> steps_only cfg (worker_failed cfg env i fence e)"
  unfolding worker_failed_def Let_def
  by (cases e) (auto intro!: program_steps split: exn.splits)

lemma worker_steps: "others_ok cfg env \<Longrightarrow> steps_only cfg (worker_run_once cfg w env)"
  unfolding worker_run_once_def Let_def
  by (auto intro!: program_steps worker_attempt_steps worker_failed_steps split: option.splits prod.splits)

interpretation worker: store_program cfg env "worker_run_once cfg w env" for cfg env w
  by unfold_locales (rule worker_steps)

section \<open>Under the lease\<close>

text \<open>The worker holds the lease of the job, which is in the given state.\<close>

definition held :: "store_cfg \<Rightarrow> string \<Rightarrow> string \<Rightarrow> job_state \<Rightarrow> db \<Rightarrow> bool" where
  "held cfg i fence s db \<longleftrightarrow> db_inv cfg db \<and> db_writable db \<and>
     (\<exists>r. find_job i db = Some r \<and> jr_state r = s \<and> jr_lease_token r = Some fence)"

lemma held_verifying:
  assumes "hex_output (sc_crypto cfg)" and "collision_free cfg" and "held cfg i fence RUNNING db"
  shows "\<exists>v db'. transition_job cfg now i VERIFYING result None (Some fence) None db = (Inr v, db') \<and>
    held cfg i fence VERIFYING db'"
proof -
  from assms(3) obtain r where r: "db_inv cfg db" "db_writable db" "find_job i db = Some r" "jr_state r = RUNNING"
    "jr_lease_token r = Some fence" by (auto simp: held_def)
  from transition_view [OF assms(1,2) r(1-3), of "Some fence" None VERIFYING now result None] r
  show ?thesis by (auto simp: held_def transition_row_def Let_def)
qed

lemma held_renew:
  assumes "hex_output (sc_crypto cfg)" and "held cfg i fence VERIFYING db"
  shows "\<exists>b db'. renew_lease now i fence secs db = (Inr b, db') \<and> held cfg i fence VERIFYING db'"
proof -
  from assms(2) obtain r where r: "db_inv cfg db" "db_writable db" "find_job i db = Some r" "jr_state r = VERIFYING"
    "jr_lease_token r = Some fence" by (auto simp: held_def)
  obtain b db' where t: "renew_lease now i fence secs db = (Inr b, db')" and db': "db_writable db'"
    "db_jobs db' = map (\<lambda>row. if renewable i fence row
            then row\<lparr>jr_lease_expires_at := Some (now + seconds secs), jr_updated_at := now\<rparr> else row) (db_jobs db)"
    using r(2) by (simp add: renew_lease_def transaction_def)
  have "r \<in> set (db_jobs db)" "jr_id r = i" using r(3) by (auto dest: lookup_by_SomeD)
  then have "r\<lparr>jr_lease_expires_at := Some (now + seconds secs), jr_updated_at := now\<rparr> \<in> set (db_jobs db')"
    using r(4,5) unfolding db'(2) by (force simp: renewable_def)
  moreover have inv: "db_inv cfg db'" by (rule renew.inv_kept [OF assms(1) r(1) t])
  ultimately have "find_job i db' = Some (r\<lparr>jr_lease_expires_at := Some (now + seconds secs), jr_updated_at := now\<rparr>)"
    using \<open>jr_id r = i\<close> by (subst find_job_iff [OF inv]) simp
  with r t db'(1) inv show ?thesis by (auto simp: held_def)
qed

lemma held_finish:
  assumes "hex_output (sc_crypto cfg)" and "collision_free cfg" and "held cfg i fence s db"
    and "tgt \<in> set (ALLOWED_TRANSITIONS s)" and "tgt \<noteq> RUNNING"
  shows "\<exists>v db'. transition_job cfg now i tgt result err (Some fence) None db = (Inr v, db') \<and>
    get_job i db' = Inr (Some v) \<and> jv_id v = i \<and> jv_state v = tgt \<and> jv_result v = result \<and> jv_error v = err"
proof -
  from assms(3) obtain r where r: "db_inv cfg db" "db_writable db" "find_job i db = Some r" "jr_state r = s"
    "jr_lease_token r = Some fence" by (auto simp: held_def)
  from transition_view [OF assms(1,2) r(1-3), of "Some fence" None tgt now result err] r assms(4,5)
  show ?thesis by auto
qed

section \<open>Outcomes\<close>

text \<open>What the adapter says of the request: the three pieces of evidence, or the exception of the
  first call that fails, or the error for a postcondition that does not hold.\<close>

definition adapter_outcome ::
  "adapter \<Rightarrow> action_definition \<Rightarrow> action_request \<Rightarrow>
     exn + (adapter_execution \<times> adapter_observation \<times> adapter_verification)" where
  "adapter_outcome adapter action request =
     bind_sum (ap_execute adapter action request) (\<lambda>execution.
     bind_sum (ap_observe adapter action request) (\<lambda>observation.
     bind_sum (ap_verify adapter action request execution observation) (\<lambda>verification.
     if \<not> ve_satisfied verification then Inl (AdapterExn (unsatisfied_error verification))
     else Inr (execution, observation, verification))))"

definition evidence :: "adapter_execution \<times> adapter_observation \<times> adapter_verification \<Rightarrow> json_object" where
  "evidence x = (case x of (execution, observation, verification) \<Rightarrow>
     [(''execution'', execution_json execution), (''observation'', observation_json observation),
      (''verification'', verification_json verification)])"

lemma attempt_outcome:
  assumes "hex_output (sc_crypto cfg)" and "collision_free cfg" and "alone env" and "held cfg i fence RUNNING db"
  shows "case adapter_outcome adapter action request of
      Inr x \<Rightarrow> \<exists>v db'. worker_attempt cfg env i fence secs adapter action request db = (Inr (Some v), db') \<and>
        get_job i db' = Inr (Some v) \<and> jv_id v = i \<and> jv_state v = SUCCEEDED \<and> jv_result v = Some (evidence x) \<and> jv_error v = None
    | Inl e \<Rightarrow> \<exists>s db'. worker_attempt cfg env i fence secs adapter action request db = (Inl e, db') \<and>
        s \<in> {RUNNING, VERIFYING} \<and> held cfg i fence s db'"
proof (cases "ap_execute adapter action request")
  case (Inl e)
  with assms(4) show ?thesis by (auto simp: adapter_outcome_def worker_attempt_def)
next
  case ex: (Inr ex)
  note env [simp] = assms(3) [unfolded alone_def, rule_format]
  from held_verifying [OF assms(1,2,4)] obtain v1 db1 where
    t1: "transition_job cfg (env_now env 1) i VERIFYING (Some [(''execution'', execution_json ex)]) None (Some fence) None db = (Inr v1, db1)"
    and h1: "held cfg i fence VERIFYING db1" by blast
  from held_renew [OF assms(1) h1] obtain b db2 where
    t2: "renew_lease (env_now env 2) i fence secs db1 = (Inr b, db2)" and h2: "held cfg i fence VERIFYING db2" by blast
  show ?thesis
  proof (cases "adapter_outcome adapter action request")
    case (Inl e)
    with ex t1 t2 h2 show ?thesis
      by (auto simp: adapter_outcome_def worker_attempt_def Let_def split: if_splits)
  next
    case (Inr x)
    then obtain ob ve where x: "x = (ex, ob, ve)" and ob: "ap_observe adapter action request = Inr ob"
      and ve: "ap_verify adapter action request ex ob = Inr ve" "ve_satisfied ve"
      using ex by (auto simp: adapter_outcome_def split: if_splits)
    from held_finish [OF assms(1,2) h2, of SUCCEEDED "env_now env 3" "Some (evidence x)" None] obtain v db3 where
      t3: "transition_job cfg (env_now env 3) i SUCCEEDED (Some (evidence x)) None (Some fence) None db2 = (Inr v, db3)"
      and v: "get_job i db3 = Inr (Some v)" "jv_id v = i" "jv_state v = SUCCEEDED" "jv_result v = Some (evidence x)" "jv_error v = None" by auto
    from t3 have "worker_attempt cfg env i fence secs adapter action request db = (Inr (Some v), db3)"
      using ex ob ve t1 t2 by (simp add: worker_attempt_def Let_def evidence_def x)
    with v Inr show ?thesis by simp
  qed
qed

lemma failed_outcome:
  assumes "hex_output (sc_crypto cfg)" and "collision_free cfg" and "alone env"
    and "held cfg i fence s db" and "s \<in> {RUNNING, VERIFYING}" and "as_job_error e = Inr je"
  shows "\<exists>v db'. worker_failed cfg env i fence (AdapterExn e) db = (Inr (Some v), db') \<and>
    get_job i db' = Inr (Some v) \<and> jv_id v = i \<and>
    jv_state v = (if ae_reconciliation_required e then UNKNOWN_OUTCOME else FAILED) \<and>
    jv_result v = None \<and> jv_error v = Some je"
proof -
  note env [simp] = assms(3) [unfolded alone_def, rule_format]
  let ?tgt = "if ae_reconciliation_required e then UNKNOWN_OUTCOME else FAILED"
  have "?tgt \<in> set (ALLOWED_TRANSITIONS s)" "?tgt \<noteq> RUNNING" using assms(5) by auto
  from held_finish [OF assms(1,2,4) this, of "env_now env 4" None "Some je"] obtain v db' where
    "transition_job cfg (env_now env 4) i ?tgt None (Some je) (Some fence) None db = (Inr v, db')"
    "get_job i db' = Inr (Some v)" "jv_id v = i" "jv_state v = ?tgt" "jv_result v = None" "jv_error v = Some je"
    by blast
  with assms(6) show ?thesis by (simp add: worker_failed_def Let_def)
qed

lemma claimed_lease:
  assumes "reachable cfg db" and "hex_output (sc_crypto cfg)" and "collision_free cfg" and "db_writable db"
    and "next_claimable (env_now env 0) db = Some r"
    and "validate_request (wk_validator w) (wk_catalog w) (jr_request r) = Inr action"
  shows "\<exists>c db1. claim_next_job cfg (env_now env 0) (env_token env) (wk_id w) 30 (Some (worker_lease_for w)) db = (Inr (Some c), db1) \<and>
    jv_id (cl_job c) = jr_id r \<and> cl_lease_token c = env_token env \<and> held cfg (jr_id r) (env_token env) RUNNING db1 \<and>
    get_job_context (jr_id r) db1 = Inr (jr_request r, jr_subject r) \<and>
    worker_lease_for w (jr_request r) = Inr (ad_timeout_seconds action + 15)"
proof -
  let ?n = "ad_timeout_seconds action + 15"
  have n: "worker_lease_for w (jr_request r) = Inr ?n" using assms(6) by (simp add: worker_lease_for_def)
  have inv: "db_inv cfg db" by (rule reachable_inv [OF assms(1,2)])
  from claim_oldest [OF inv assms(3-5), where lease_for = "Some (worker_lease_for w)" and n = ?n and secs = 30
      and token = "env_token env" and worker_id = "wk_id w"] n
  obtain c db1 where c: "claim_next_job cfg (env_now env 0) (env_token env) (wk_id w) 30 (Some (worker_lease_for w)) db = (Inr (Some c), db1)"
    "find_job (jr_id r) db1 = Some (lease_row (env_now env 0) (wk_id w) (env_token env) ?n r)" "db_writable db1"
    "jv_id (cl_job c) = jr_id r" "cl_lease_token c = env_token env" by auto
  have "db_inv cfg db1" by (rule claim.inv_kept [OF assms(2) inv c(1)])
  with c n show ?thesis by (auto simp: held_def get_job_context_def lease_row_def)
qed

lemma worker_run_claimed:
  assumes "claim_next_job cfg (env_now env 0) (env_token env) (wk_id w) 30 (Some (worker_lease_for w)) db = (Inr (Some c), db1)"
    and "jv_id (cl_job c) = i" and "cl_lease_token c = env_token env"
    and "get_job_context i (env_others env 0 db1) = Inr (request, owner)"
    and "validate_request (wk_validator w) (wk_catalog w) request = Inr action"
    and "registry_get (wk_adapters w) (ad_adapter action) = Inr adapter"
    and "worker_lease_for w request = Inr secs"
  shows "worker_run_once cfg w env db =
    handle (worker_attempt cfg env i (env_token env) secs adapter action request)
      (worker_failed cfg env i (env_token env)) (env_others env 1 (env_others env 0 db1))"
  unfolding worker_run_once_def Let_def using assms by simp

lemma worker_succeeds:
  assumes "reachable cfg db" and "hex_output (sc_crypto cfg)" and "collision_free cfg" and "db_writable db"
    and "alone env" and "next_claimable (env_now env 0) db = Some r"
    and "validate_request (wk_validator w) (wk_catalog w) (jr_request r) = Inr action"
    and "registry_get (wk_adapters w) (ad_adapter action) = Inr adapter"
    and "adapter_outcome adapter action (jr_request r) = Inr x"
  shows "\<exists>v db'. worker_run_once cfg w env db = (Inr (Some v), db') \<and> get_job (jr_id r) db' = Inr (Some v) \<and>
    jv_id v = jr_id r \<and> jv_state v = SUCCEEDED \<and> jv_result v = Some (evidence x) \<and> jv_error v = None"
proof -
  note env [simp] = assms(5) [unfolded alone_def, rule_format]
  from claimed_lease [OF assms(1-4,6,7)] obtain c db1 where
    c: "claim_next_job cfg (env_now env 0) (env_token env) (wk_id w) 30 (Some (worker_lease_for w)) db = (Inr (Some c), db1)"
    "jv_id (cl_job c) = jr_id r" "cl_lease_token c = env_token env"
    and h: "held cfg (jr_id r) (env_token env) RUNNING db1"
    and y: "get_job_context (jr_id r) db1 = Inr (jr_request r, jr_subject r)"
    and n: "worker_lease_for w (jr_request r) = Inr (ad_timeout_seconds action + 15)" by blast
  from attempt_outcome [OF assms(2,3,5) h, where adapter = adapter and action = action and request = "jr_request r"
      and secs = "ad_timeout_seconds action + 15"] assms(9) worker_run_claimed [OF c _ assms(7,8) n] y
  show ?thesis by auto
qed



section \<open>An example\<close>

definition demo_worker :: worker where
  "demo_worker = \<lparr>wk_id = ''w'', wk_catalog = [(action_key demo_action, demo_action)],
     wk_validator = (\<lambda>schema params. []), wk_adapters = [(ad_adapter demo_action, FakeAdapter 0)]\<rparr>"

definition demo_env :: "(nat \<Rightarrow> db \<Rightarrow> db) \<Rightarrow> env" where
  "demo_env others = \<lparr>env_now = (\<lambda>k. int k), env_token = ''t'', env_others = others\<rparr>"

text \<open>Another process that expires every lease while the adapter call runs.\<close>

definition demo_thief :: "nat \<Rightarrow> db \<Rightarrow> db" where
  "demo_thief k db = (if k = 2 then snd (Store.expire_leases demo_cfg (seconds 1000) db) else db)"

lemma demo_worker_setup:
  "next_claimable (env_now (demo_env g) 0) demo_queued = Some demo_row"
  "validate_request (wk_validator demo_worker) (wk_catalog demo_worker) (jr_request demo_row) = Inr demo_action"
  "registry_get (wk_adapters demo_worker) (ad_adapter demo_action) = Inr (FakeAdapter 0)"
  "jr_id demo_row = ''job_1''" "jr_request demo_row = demo_request"
  by (simp_all add: demo_env_def next_claimable_def demo_queued claimable_def demo_row_def new_job_row_def
      demo_worker_def validate_request_def catalog_get_def demo_action_def demo_request_def registry_get_def)


lemma demo_thief_ok: "others_ok demo_cfg (demo_env demo_thief)"
proof -
  have "db_step demo_cfg db (snd (Store.expire_leases demo_cfg (seconds 1000) db))" for db
    by (rule db_step.expire_leases [of demo_cfg "seconds 1000" db "fst (Store.expire_leases demo_cfg (seconds 1000) db)"]) simp
  then show ?thesis by (auto simp: others_ok_def demo_env_def demo_thief_def intro: db_steps.start db_steps_one)
qed


end
