(* ===== verification/Reconciler.thy ===== *)
theory Reconciler
  imports Process
begin

text \<open>
  The reconciler, \<open>reconciler.py\<close>: expire abandoned leases, take the jobs with an unknown
  outcome that are within their attempt budget, and settle each by observing and verifying,
  never by executing again.
\<close>

record reconciler =
  rc_catalog :: catalog
  rc_validator :: schema_validator
  rc_adapters :: registry
  rc_max_attempts :: int

definition result_or_empty :: "job_view \<Rightarrow> json_object" where
  "result_or_empty job = (case jv_result job of None \<Rightarrow> [] | Some r \<Rightarrow> r)"

definition reconciler_execution :: "json_object \<Rightarrow> exn + adapter_execution" where
  "reconciler_execution partial_result =
     (case obj_get partial_result ''execution'' of
        Some (JObj d) \<Rightarrow> execution_validate d
      | _ \<Rightarrow> Inr \<lparr>ex_reference = None, ex_details = partial_result\<rparr>)"

definition unsatisfied_job_error :: "adapter_verification \<Rightarrow> job_error" where
  "unsatisfied_job_error v = \<lparr>je_code = kind_value K_CONFLICT,
     je_message = ''adapter postcondition is not yet satisfied'', je_retry = RECONCILE_FIRST,
     je_reconciliation_required = True, je_details = ve_details v\<rparr>"

text \<open>The body of the \<open>try\<close> block, and its handler.\<close>

definition reconcile_attempt ::
  "store_cfg \<Rightarrow> env \<Rightarrow> string \<Rightarrow> json_object \<Rightarrow> adapter \<Rightarrow> action_definition \<Rightarrow> action_request \<Rightarrow> adapter_execution \<Rightarrow>
     job_view program" where
  "reconcile_attempt cfg env job_id partial_result adapter action request execution =
     and_then (lift (ap_observe adapter action request)) (\<lambda>observation.
     and_then (lift (ap_verify adapter action request execution observation)) (\<lambda>verification.
     and_then (meanwhile (env_others env 2)) (\<lambda>_.
     if ve_satisfied verification
     then transition_job cfg (env_now env 1) job_id SUCCEEDED
            (Some (obj_merge partial_result [(''observation'', observation_json observation),
                                             (''verification'', verification_json verification)])) None None None
     else transition_job cfg (env_now env 1) job_id UNKNOWN_OUTCOME (Some partial_result)
            (Some (unsatisfied_job_error verification)) None None)))"

definition reconcile_failed ::
  "store_cfg \<Rightarrow> env \<Rightarrow> string \<Rightarrow> json_object \<Rightarrow> exn \<Rightarrow> job_view program" where
  "reconcile_failed cfg env job_id partial_result e =
     (case e of
        AdapterExn error \<Rightarrow>
          (let tgt = (if ae_retry error \<noteq> RETRY_NEVER then UNKNOWN_OUTCOME else FAILED)
           in and_then (lift (as_job_error error)) (\<lambda>je.
              and_then (meanwhile (env_others env 3)) (\<lambda>_.
              transition_job cfg (env_now env 2) job_id tgt (Some partial_result) (Some je) None None)))
      | _ \<Rightarrow> raises e)"

definition reconcile_job :: "store_cfg \<Rightarrow> reconciler \<Rightarrow> env \<Rightarrow> job_view \<Rightarrow> job_view program" where
  "reconcile_job cfg rc env job =
     and_then (meanwhile (env_others env 0)) (\<lambda>_.
     and_then (query (get_job_context (jv_id job))) (\<lambda>(request, owner).
     and_then (lift (validate_request (rc_validator rc) (rc_catalog rc) request)) (\<lambda>action.
     and_then (lift (registry_get (rc_adapters rc) (ad_adapter action))) (\<lambda>adapter.
     let partial_result = result_or_empty job in
     and_then (lift (reconciler_execution partial_result)) (\<lambda>execution.
     and_then (meanwhile (env_others env 1)) (\<lambda>_.
     and_then (transition_job cfg (env_now env 0) (jv_id job) VERIFYING (Some partial_result) (jv_error job) None None) (\<lambda>_.
     handle (reconcile_attempt cfg env (jv_id job) partial_result adapter action request execution)
            (reconcile_failed cfg env (jv_id job) partial_result))))))))"

fun reconcile_all :: "store_cfg \<Rightarrow> reconciler \<Rightarrow> (nat \<Rightarrow> env) \<Rightarrow> nat \<Rightarrow> job_view list \<Rightarrow> job_view list program" where
  "reconcile_all cfg rc envs k [] = returns []"
| "reconcile_all cfg rc envs k (job # jobs) =
     and_then (reconcile_job cfg rc (envs k) job) (\<lambda>v.
     and_then (reconcile_all cfg rc envs (Suc k) jobs) (\<lambda>vs. returns (v # vs)))"

text \<open>The first environment serves the batch, the \<open>k\<close>-th the \<open>k\<close>-th candidate.\<close>

definition reconciler_run_once :: "store_cfg \<Rightarrow> reconciler \<Rightarrow> (nat \<Rightarrow> env) \<Rightarrow> job_view list program" where
  "reconciler_run_once cfg rc envs =
     and_then (Store.expire_leases cfg (env_now (envs 0) 0)) (\<lambda>_.
     and_then (meanwhile (env_others (envs 0) 0)) (\<lambda>_.
     and_then (claim_reconcile_candidates cfg (env_now (envs 0) 1) (rc_max_attempts rc) 100) (\<lambda>jobs.
     reconcile_all cfg rc envs 1 jobs)))"

section \<open>Steps\<close>

lemma reconcile_job_steps: "others_ok cfg env \<Longrightarrow> steps_only cfg (reconcile_job cfg rc env job)"
proof -
  assume ok: "others_ok cfg env"
  have "steps_only cfg (reconcile_attempt cfg env i p ad ac rq ex)" for i p ad ac rq ex
    unfolding reconcile_attempt_def using ok by (auto intro!: program_steps)
  moreover have "steps_only cfg (reconcile_failed cfg env i p e)" for i p e
    unfolding reconcile_failed_def Let_def using ok by (cases e) (auto intro!: program_steps)
  ultimately show ?thesis
    unfolding reconcile_job_def Let_def using ok by (auto intro!: program_steps split: prod.splits)
qed

lemma reconcile_all_steps: "\<forall>k. others_ok cfg (envs k) \<Longrightarrow> steps_only cfg (reconcile_all cfg rc envs k jobs)"
  by (induction jobs arbitrary: k) (auto intro!: program_steps reconcile_job_steps)

lemma reconciler_steps: "\<forall>k. others_ok cfg (envs k) \<Longrightarrow> steps_only cfg (reconciler_run_once cfg rc envs)"
  unfolding reconciler_run_once_def by (auto intro!: program_steps reconcile_all_steps)

interpretation settle: store_program cfg env "reconcile_job cfg rc env job" for cfg env rc job
  by unfold_locales (rule reconcile_job_steps)

interpretation reconciler: store_program cfg env "reconciler_run_once cfg rc (\<lambda>k. env)" for cfg env rc
  by unfold_locales (rule reconciler_steps, simp)

section \<open>Outcomes\<close>

text \<open>The job is being verified and holds no lease, as the reconciler leaves it while it observes.\<close>

definition unleased_verifying :: "store_cfg \<Rightarrow> string \<Rightarrow> db \<Rightarrow> bool" where
  "unleased_verifying cfg i db \<longleftrightarrow> db_inv cfg db \<and> db_writable db \<and>
     (\<exists>r. find_job i db = Some r \<and> jr_state r = VERIFYING \<and> jr_lease_token r = None)"

lemma settle_finish:
  assumes "hex_output (sc_crypto cfg)" and "collision_free cfg" and "unleased_verifying cfg i db"
    and "tgt \<in> {SUCCEEDED, FAILED, UNKNOWN_OUTCOME}"
  shows "\<exists>v db'. transition_job cfg now i tgt result err None None db = (Inr v, db') \<and>
    get_job i db' = Inr (Some v) \<and> jv_id v = i \<and> jv_state v = tgt \<and> jv_result v = result \<and> jv_error v = err"
proof -
  from assms(3) obtain r where r: "db_inv cfg db" "db_writable db" "find_job i db = Some r" "jr_state r = VERIFYING"
    by (auto simp: unleased_verifying_def)
  have "tgt \<in> set (ALLOWED_TRANSITIONS (jr_state r))" "tgt \<noteq> RUNNING" using assms(4) r(4) by auto
  from transition_view [OF assms(1,2) r(1-3) _ _ this, of None None] show ?thesis by blast
qed

definition reconcile_evidence ::
  "adapter \<Rightarrow> action_definition \<Rightarrow> action_request \<Rightarrow> adapter_execution \<Rightarrow> exn + adapter_observation \<times> adapter_verification" where
  "reconcile_evidence adapter action request execution =
     bind_sum (ap_observe adapter action request) (\<lambda>ob.
     bind_sum (ap_verify adapter action request execution ob) (\<lambda>ve. Inr (ob, ve)))"


definition with_execute ::
  "(action_definition \<Rightarrow> action_request \<Rightarrow> exn + adapter_execution) \<Rightarrow> registry \<Rightarrow> registry" where
  "with_execute f reg = map (\<lambda>(name, a). (name, a\<lparr>ap_execute := f\<rparr>)) reg"

lemma registry_get_with_execute:
  "registry_get (with_execute f reg) n = (case registry_get reg n of Inl e \<Rightarrow> Inl e | Inr a \<Rightarrow> Inr (a\<lparr>ap_execute := f\<rparr>))"
  by (induction reg) (auto simp: registry_get_def with_execute_def split: option.splits)

lemma lookup_with_execute:
  "and_then (lift (registry_get (with_execute f reg) n)) g = and_then (lift (registry_get reg n)) (\<lambda>a. g (a\<lparr>ap_execute := f\<rparr>))"
  by (rule ext) (auto simp: registry_get_with_execute and_then_def split: sum.splits)

lemma reconcile_attempt_with_execute:
  "reconcile_attempt cfg env i p (a\<lparr>ap_execute := f\<rparr>) action request e = reconcile_attempt cfg env i p a action request e"
  by (simp add: reconcile_attempt_def)

lemma reconcile_job_with_execute:
  "reconcile_job cfg (rc\<lparr>rc_adapters := with_execute f (rc_adapters rc)\<rparr>) env job = reconcile_job cfg rc env job"
  by (simp add: reconcile_job_def lookup_with_execute reconcile_attempt_with_execute)

lemma reconcile_all_with_execute:
  "reconcile_all cfg (rc\<lparr>rc_adapters := with_execute f (rc_adapters rc)\<rparr>) envs k jobs = reconcile_all cfg rc envs k jobs"
  by (induction jobs arbitrary: k) (simp_all add: reconcile_job_with_execute)

text \<open>(C11) Reconciliation never executes an action: a run does the same, step for step, whatever the
  adapters' \<open>execute\<close> operation is.\<close>

theorem reconciler_never_executes:
  "reconciler_run_once cfg (rc\<lparr>rc_adapters := with_execute f (rc_adapters rc)\<rparr>) envs = reconciler_run_once cfg rc envs"
  by (simp add: reconciler_run_once_def reconcile_all_with_execute)

section \<open>The attempt budget\<close>

text \<open>A history in which \<open>n\<close> reconciliation claims with budget \<open>m\<close> have returned job \<open>i\<close>.\<close>

inductive claimed_times :: "store_cfg \<Rightarrow> int \<Rightarrow> string \<Rightarrow> db \<Rightarrow> nat \<Rightarrow> db \<Rightarrow> bool" for cfg m i db where
  none: "claimed_times cfg m i db 0 db"
| other: "claimed_times cfg m i db n db1 \<Longrightarrow> db_step cfg db1 db2 \<Longrightarrow> claimed_times cfg m i db n db2"
| claim: "claimed_times cfg m i db n db1 \<Longrightarrow>
    claim_reconcile_candidates cfg now m limit db1 = (Inr vs, db2) \<Longrightarrow> i \<in> jv_id ` set vs \<Longrightarrow>
    claimed_times cfg m i db (Suc n) db2"

lemma views_of_ids: "job_views_of rs = Inr vs \<Longrightarrow> map jv_id vs = map jr_id rs"
  by (induction rs arbitrary: vs) (auto dest: job_view_fields)

lemma reconcile_claim_jobs:
  assumes "db_inv cfg db" and "claim_reconcile_candidates cfg now m limit db = (Inr vs, db')"
  shows "db_jobs db' = map (\<lambda>r. if budgeted m (jobs_in_state UNKNOWN_OUTCOME limit db) r then attempt r else r) (db_jobs db)"
    and "job_views_of (filter (\<lambda>r. jr_reconcile_attempts r < m) (jobs_in_state UNKNOWN_OUTCOME limit db)) = Inr vs"
proof -
  let ?rows = "jobs_in_state UNKNOWN_OUTCOME limit db"
  note ids = db_inv_ids [OF assms(1)]
  have sub: "set ?rows \<subseteq> set (db_jobs db)" using jobs_in_state_subset by blast
  have run: "reconcile_rows cfg now m ?rows db = Inr (vs, db')"
    using assms(2) by (simp add: claim_reconcile_candidates_def transaction_committed)
  from reconcile_rows_result [OF run jobs_in_state_distinct [OF ids] ids sub]
  show "db_jobs db' = map (\<lambda>r. if budgeted m ?rows r then attempt r else r) (db_jobs db)"
    "job_views_of (filter (\<lambda>r. jr_reconcile_attempts r < m) ?rows) = Inr vs" by simp_all
qed

lemma reconcile_claim_counts:
  assumes "db_inv cfg db" and "claim_reconcile_candidates cfg now m limit db = (Inr vs, db')" and "i \<in> jv_id ` set vs"
  shows "\<exists>r. find_job i db = Some r \<and> jr_state r = UNKNOWN_OUTCOME \<and> jr_reconcile_attempts r < m \<and>
    find_job i db' = Some (attempt r)"
proof -
  let ?rows = "jobs_in_state UNKNOWN_OUTCOME limit db"
  note res = reconcile_claim_jobs [OF assms(1,2)]
  have "set (map jv_id vs) = set (map jr_id (filter (\<lambda>r. jr_reconcile_attempts r < m) ?rows))"
    using views_of_ids [OF res(2)] by metis
  with assms(3) obtain r where r: "r \<in> set ?rows" "jr_reconcile_attempts r < m" "jr_id r = i" by auto
  have db: "r \<in> set (db_jobs db)" "jr_state r = UNKNOWN_OUTCOME" using jobs_in_state_subset [OF r(1)] by auto
  have "attempt r \<in> set (db_jobs db')"
    using res(1) r db(1) by (auto simp: image_iff intro!: bexI [of _ r])
  moreover have "map jr_id (db_jobs db') = map jr_id (db_jobs db)" using res(1) by simp
  ultimately have "find_job i db' = Some (attempt r)"
    using db_inv_ids [OF assms(1)] r(3) by (subst lookup_by_iff) (simp_all del: map_eq_conv)
  with db r find_job_iff [OF assms(1)] show ?thesis by auto
qed

lemma claimed_times_inv:
  assumes "claimed_times cfg m i db n db'" and "hex_output (sc_crypto cfg)" and "db_inv cfg db"
  shows "db_inv cfg db' \<and> (n \<noteq> 0 \<longrightarrow> int n \<le> m \<and> (\<exists>r. find_job i db' = Some r \<and> int n \<le> jr_reconcile_attempts r))"
  using assms
proof (induction rule: claimed_times.induct)
  case (other n db1 db2)
  then have inv: "db_inv cfg db1" and safe: "db_inv cfg db2 \<and> db_evolves db1 db2"
    using db_step_safe by blast+
  with other find_job_evolves [of cfg db2 db1 i] show ?case by (fastforce simp: row_evolves_def)
next
  case (claim n db1 now limit vs db2)
  then have inv: "db_inv cfg db1" by simp
  from reconcile_claim_counts [OF inv claim.hyps(2,3)] obtain r where
    r: "find_job i db1 = Some r" "jr_reconcile_attempts r < m" "find_job i db2 = Some (attempt r)" by blast
  have "0 \<le> jr_reconcile_attempts r" using find_job_inv [OF inv r(1)] by (simp add: row_inv_def)
  then have "int n \<le> jr_reconcile_attempts r" using claim r(1) by (cases "n = 0") auto
  with r reconcile.inv_kept [OF claim.prems(1) inv claim.hyps(2)] show ?case by simp
qed simp

text \<open>The attempt budget holds over any history: no job is returned by more than \<open>max_attempts\<close>
  reconciliation claims, however the claims interleave with other operations.\<close>

theorem reconcile_budget:
  assumes "claimed_times cfg m i db n db'" and "hex_output (sc_crypto cfg)" and "reachable cfg db"
  shows "int n \<le> max 0 m"
  using claimed_times_inv [OF assms(1,2) reachable_inv [OF assms(3,2)]] by (cases "n = 0") auto

section \<open>Two ways a reconciliation can go wrong\<close>

lemma kept_row:
  "db_inv cfg db' \<Longrightarrow> r \<in> set (db_jobs db') \<Longrightarrow> find_job (jr_id r) db' = Some r"
  by (simp add: find_job_iff)

lemma claim_spares:
  assumes "db_inv cfg db" and "find_job i db = Some r" and "jr_state r \<noteq> QUEUED"
  shows "find_job i (snd (claim_next_job cfg now token worker_id secs lease_for db)) = Some r"
proof (cases "claim_next_job cfg now token worker_id secs lease_for db")
  case (Pair res db')
  show ?thesis
  proof (cases "\<exists>c. res = Inr (Some c)")
    case True
    then obtain c where "claim_next_job cfg now token worker_id secs lease_for db = (Inr (Some c), db')" using Pair by auto
    from claim_result [OF this assms(1)] obtain q n where q: "next_claimable now db = Some q"
      "db_jobs db' = update_by jr_id (jr_id q) (lease_row now worker_id token n) (db_jobs db)" by blast
    then have "jr_state q = QUEUED" "find_job (jr_id q) db = Some q"
      using next_claimable_Some [OF q(1)] find_job_iff [OF assms(1)] by (auto simp: claimable_def)
    with assms(2,3) have "i \<noteq> jr_id q" by auto
    with assms(2) q(2) Pair show ?thesis by (simp add: keyed_update.lookup_updated [OF lease_keeps_id])
  next
    case False
    then have "db' = db" using Pair
      by (auto simp: claim_next_job_def elim!: transaction_cases split: option.splits)
    with Pair assms(2) show ?thesis by simp
  qed
qed

lemma expire_spares:
  assumes "hex_output (sc_crypto cfg)" and "db_inv cfg db" and "find_job i db = Some r" and "jr_lease_expires_at r = None"
  shows "find_job i (snd (Store.expire_leases cfg now db)) = Some r"
proof (cases "Store.expire_leases cfg now db")
  case (Pair res db')
  have r: "r \<in> set (db_jobs db)" "jr_id r = i" using assms(3) by (auto dest: lookup_by_SomeD)
  have "r \<in> set (db_jobs db')"
  proof (cases res)
    case (Inl e)
    with Pair r(1) expire.rolled_back show ?thesis by metis
  next
    case (Inr n)
    have "\<not> lease_lapsed now r" by (simp add: lease_lapsed_def assms(4))
    with r(1) expire_leases_jobs(1) [OF assms(2)] Pair Inr show ?thesis by force
  qed
  with kept_row [OF expire.inv_kept [OF assms(1,2) Pair]] Pair r(2) show ?thesis by auto
qed

lemma expire_queued_spares:
  assumes "hex_output (sc_crypto cfg)" and "db_inv cfg db" and "find_job i db = Some r" and "jr_state r \<noteq> QUEUED"
  shows "find_job i (snd (expire_stale_queued cfg now ttl db)) = Some r"
proof (cases "expire_stale_queued cfg now ttl db")
  case (Pair res db')
  have r: "r \<in> set (db_jobs db)" "jr_id r = i" using assms(3) by (auto dest: lookup_by_SomeD)
  have "r \<in> set (db_jobs db')"
  proof (cases res)
    case (Inl e)
    with Pair r(1) expire_queued.rolled_back show ?thesis by metis
  next
    case (Inr n)
    have "\<not> stale_queued now ttl r" by (simp add: stale_queued_def assms(4))
    with r(1) expire_stale_queued_jobs(1) [OF assms(2)] Pair Inr show ?thesis by force
  qed
  with kept_row [OF expire_queued.inv_kept [OF assms(1,2) Pair]] Pair r(2) show ?thesis by auto
qed

lemma reconcile_spares:
  assumes "hex_output (sc_crypto cfg)" and "db_inv cfg db" and "find_job i db = Some r" and "jr_state r \<noteq> UNKNOWN_OUTCOME"
  shows "find_job i (snd (claim_reconcile_candidates cfg now m limit db)) = Some r"
proof (cases "claim_reconcile_candidates cfg now m limit db")
  case (Pair res db')
  have r: "r \<in> set (db_jobs db)" "jr_id r = i" using assms(3) by (auto dest: lookup_by_SomeD)
  have "r \<in> set (db_jobs db')"
  proof (cases res)
    case (Inl e)
    with Pair r(1) reconcile.rolled_back show ?thesis by metis
  next
    case (Inr vs)
    have "r \<notin> set (jobs_in_state UNKNOWN_OUTCOME limit db)" using jobs_in_state_subset assms(4) by blast
    with reconcile_claim_jobs(1) [OF assms(2)] Pair Inr r(1) show ?thesis by force
  qed
  with kept_row [OF reconcile.inv_kept [OF assms(1,2) Pair]] Pair r(2) show ?thesis by auto
qed

text \<open>A job left VERIFYING without a lease is not picked up again: neither the workers' claim,
  nor either expiry sweep, nor the reconciliation claim changes it. Only an explicit cancellation
  can still settle it.\<close>

theorem unleased_verifying_stranded:
  assumes "reachable cfg db" and "hex_output (sc_crypto cfg)" and "find_job i db = Some r"
    and "jr_state r = VERIFYING" and "jr_lease_token r = None"
  shows "find_job i (snd (claim_next_job cfg now token worker_id secs lease_for db)) = Some r \<and>
    find_job i (snd (Store.expire_leases cfg now db)) = Some r \<and>
    find_job i (snd (expire_stale_queued cfg now ttl db)) = Some r \<and>
    find_job i (snd (claim_reconcile_candidates cfg now m limit db)) = Some r"
proof -
  have inv: "db_inv cfg db" by (rule reachable_inv [OF assms(1,2)])
  have "jr_lease_expires_at r = None"
    using find_job_inv [OF inv assms(3)] assms(5) by (simp add: row_inv_def lease_ok_def)
  with claim_spares [OF inv assms(3)] expire_spares [OF assms(2) inv assms(3)]
    expire_queued_spares [OF assms(2) inv assms(3)] reconcile_spares [OF assms(2) inv assms(3)] assms(4)
  show ?thesis by simp
qed

text \<open>One job whose request no longer validates stops the whole batch: the run raises that job's
  catalog error, and no job after it in the batch is looked at, although the claim has already
  charged one attempt to every one of them.\<close>

theorem poison_job_stops_batch:
  assumes "reachable cfg db" and "hex_output (sc_crypto cfg)" and "collision_free cfg" and "db_writable db"
    and "\<forall>k. alone (envs k)" and "Store.expire_leases cfg (env_now (envs 0) 0) db = (Inr n, db1)"
    and "claim_reconcile_candidates cfg (env_now (envs 0) 1) (rc_max_attempts rc) 100 db1 = (Inr (job # jobs), db2)"
    and "find_job (jv_id job) db2 = Some r"
    and "validate_request (rc_validator rc) (rc_catalog rc) (jr_request r) = Inl (CatalogError m)"
  shows "reconciler_run_once cfg rc envs db = (Inl (CatalogError m), db2) \<and>
    (\<forall>v \<in> set jobs. \<exists>q. find_job (jv_id v) db1 = Some q \<and> find_job (jv_id v) db2 = Some (attempt q) \<and>
       jr_state q = UNKNOWN_OUTCOME)"
proof
  have env [simp]: "env_others (envs k) j x = x" for k j x using assms(5) by (simp add: alone_def)
  have "reconcile_job cfg rc (envs 1) job db2 = (Inl (CatalogError m), db2)"
    using assms(8,9) by (simp add: reconcile_job_def get_job_context_def)
  then show "reconciler_run_once cfg rc envs db = (Inl (CatalogError m), db2)"
    using assms(6,7) by (simp add: reconciler_run_once_def)
  have inv: "db_inv cfg db1" by (rule expire.inv_kept [OF assms(2) reachable_inv [OF assms(1,2)] assms(6)])
  show "\<forall>v \<in> set jobs. \<exists>q. find_job (jv_id v) db1 = Some q \<and> find_job (jv_id v) db2 = Some (attempt q) \<and>
      jr_state q = UNKNOWN_OUTCOME"
  proof
    fix v assume "v \<in> set jobs"
    then have "jv_id v \<in> jv_id ` set (job # jobs)" by simp
    from reconcile_claim_counts [OF inv assms(7) this]
    show "\<exists>q. find_job (jv_id v) db1 = Some q \<and> find_job (jv_id v) db2 = Some (attempt q) \<and> jr_state q = UNKNOWN_OUTCOME"
      by blast
  qed
qed

section \<open>An example\<close>

definition demo_reconciler :: "registry \<Rightarrow> reconciler" where
  "demo_reconciler adapters = \<lparr>rc_catalog = [(action_key demo_action, demo_action)],
     rc_validator = (\<lambda>schema params. []), rc_adapters = adapters, rc_max_attempts = 10\<rparr>"

definition quiet_env :: env where
  "quiet_env = \<lparr>env_now = (\<lambda>k. int k), env_token = ''t'', env_others = (\<lambda>k db. db)\<rparr>"

definition demo_unknown :: db where
  "demo_unknown = snd (Store.expire_leases demo_cfg (seconds 1000) demo_running)"

definition demo_unknown_row :: job_row where
  "demo_unknown_row = unknown_row (seconds 1000) (lease_row 0 ''w'' ''t'' 30 demo_row)"

lemma quiet_alone: "alone quiet_env"
  by (simp add: alone_def quiet_env_def)

lemma demo_unknown:
  "\<exists>n. Store.expire_leases demo_cfg (seconds 1000) demo_running = (Inr n, demo_unknown)"
  "db_jobs demo_unknown = [demo_unknown_row]" "db_writable demo_unknown"
proof -
  have "lease_lapsed (seconds 1000) (lease_row 0 ''w'' ''t'' 30 demo_row)"
    by (subst lapsed_iff) (simp_all add: instant_ok_def seconds_def lease_row_def)
  with expire_leases_runs [OF reachable_inv [OF demo_running_reachable demo_cfg_hex] demo_cfg_hex demo_collision_free
      demo_running(3), of "seconds 1000"]
  show "\<exists>n. Store.expire_leases demo_cfg (seconds 1000) demo_running = (Inr n, demo_unknown)"
    "db_jobs demo_unknown = [demo_unknown_row]" "db_writable demo_unknown"
    by (auto simp: demo_unknown_def demo_running(2) demo_unknown_row_def)
qed

lemma demo_unknown_reachable: "reachable demo_cfg demo_unknown"
  using demo_unknown(1) db_steps.step [OF demo_running_reachable db_step.expire_leases] by blast

lemma demo_unknown_row:
  "jr_id demo_unknown_row = ''job_1''" "jr_state demo_unknown_row = UNKNOWN_OUTCOME" "jr_request demo_unknown_row = demo_request"
  "jr_result demo_unknown_row = None" "jr_lease_token demo_unknown_row = None" "jr_reconcile_attempts demo_unknown_row = 0"
  "find_job ''job_1'' demo_unknown = Some demo_unknown_row"
  by (simp_all add: demo_unknown(2) demo_unknown_row_def unknown_row_def lease_row_def demo_row_def new_job_row_def)

lemma demo_validate: "validate_request (rc_validator (demo_reconciler reg)) (rc_catalog (demo_reconciler reg)) demo_request = Inr demo_action"
  by (simp add: demo_reconciler_def validate_request_def catalog_get_def demo_action_def demo_request_def)

definition demo_view :: job_view where
  "demo_view = (case job_view_of demo_unknown_row of Inr v \<Rightarrow> v | Inl e \<Rightarrow> undefined)"

lemma demo_view: "job_view_of demo_unknown_row = Inr demo_view" "result_or_empty demo_view = []" "jv_id demo_view = ''job_1''"
  by (simp_all add: demo_view_def job_view_of_def job_error_of_cell_def demo_unknown_row_def unknown_row_def
      lease_row_def demo_row_def new_job_row_def result_or_empty_def)


lemma demo_claim:
  "\<exists>db'. claim_reconcile_candidates demo_cfg 0 m 100 demo_unknown = (Inr (if 0 < m then [demo_view] else []), db')"
proof -
  have rows: "jobs_in_state UNKNOWN_OUTCOME 100 demo_unknown = [demo_unknown_row]"
    by (simp add: jobs_in_state_def demo_unknown(2) demo_unknown_row(2) sql_limit_def)
  have "audit_inv demo_cfg (db_audit demo_unknown)"
    using reachable_inv [OF demo_unknown_reachable demo_cfg_hex] by (simp add: db_inv_def)
  from append_audit_total [OF demo_collision_free this] have
    "\<exists>log. append_audit demo_cfg 0 ty pl (db_audit demo_unknown) = Inr log" for ty pl by blast
  then have "\<exists>db'. reconcile_row demo_cfg 0 m demo_unknown_row demo_unknown = Inr db'"
    by (simp add: reconcile_row_def Let_def audit_def)
  then show ?thesis
    by (auto simp: claim_reconcile_candidates_def rows transaction_def demo_unknown(3) demo_unknown_row(6) demo_view(1))
qed

theorem reconcile_budget_witness:
  "\<exists>db'. claimed_times demo_cfg 10 ''job_1'' demo_unknown 1 db' \<and> int 1 \<le> max 0 10"
proof -
  obtain db' where "claim_reconcile_candidates demo_cfg 0 10 100 demo_unknown = (Inr [demo_view], db')"
    using demo_claim [of 10] by auto
  then have "claimed_times demo_cfg 10 ''job_1'' demo_unknown (Suc 0) db'"
    by (intro claimed_times.claim [OF claimed_times.none]) (auto simp: demo_view(3))
  with reconcile_budget [OF this demo_cfg_hex demo_unknown_reachable] show ?thesis by auto
qed

text \<open>The same job after the reconciler moved it to VERIFYING and stopped.\<close>

theorem unleased_verifying_stranded_witness:
  "\<exists>v db r. transition_job demo_cfg 5 ''job_1'' VERIFYING None None None None demo_unknown = (Inr v, db) \<and>
     find_job ''job_1'' db = Some r \<and> jr_state r = VERIFYING \<and>
     find_job ''job_1'' (snd (Store.expire_leases demo_cfg (seconds 99999) db)) = Some r"
proof -
  have "VERIFYING \<in> set (ALLOWED_TRANSITIONS (jr_state demo_unknown_row))" by (simp add: demo_unknown_row)
  from transition_view [OF demo_cfg_hex demo_collision_free reachable_inv [OF demo_unknown_reachable demo_cfg_hex]
      demo_unknown(3) demo_unknown_row(7) _ _ this, of None None 5 None None]
  obtain v db where t: "transition_job demo_cfg 5 ''job_1'' VERIFYING None None None None demo_unknown = (Inr v, db)"
    "find_job ''job_1'' db = Some (transition_row 5 VERIFYING None None demo_unknown_row)" by auto
  have "reachable demo_cfg db"
    using t(1) db_steps.step [OF demo_unknown_reachable db_step.transition] by blast
  from unleased_verifying_stranded [OF this demo_cfg_hex t(2)] t show ?thesis
    by (auto simp: transition_row_def Let_def demo_unknown_row)
qed

theorem poison_job_stops_batch_witness:
  "\<exists>m db'. reconciler_run_once demo_cfg (demo_reconciler []\<lparr>rc_catalog := []\<rparr>) (\<lambda>k. quiet_env) demo_unknown = (Inl (CatalogError m), db')"
proof -
  let ?rc = "demo_reconciler []\<lparr>rc_catalog := []\<rparr>"
  have now: "env_now quiet_env 0 = 0" "env_now quiet_env 1 = 1" by (simp_all add: quiet_env_def)
  obtain n db1 where e: "Store.expire_leases demo_cfg 0 demo_unknown = (Inr n, db1)" "db_writable db1"
    "db_jobs db1 = map (\<lambda>r. if lease_lapsed 0 r then unknown_row 0 r else r) (db_jobs demo_unknown)"
    using expire_leases_runs [OF reachable_inv [OF demo_unknown_reachable demo_cfg_hex] demo_cfg_hex demo_collision_free demo_unknown(3)]
    by blast
  have jobs1: "db_jobs db1 = [demo_unknown_row]" using e(3) by (simp add: demo_unknown(2) lease_lapsed_def demo_unknown_row(2))
  have inv1: "db_inv demo_cfg db1" by (rule expire.inv_kept [OF demo_cfg_hex reachable_inv [OF demo_unknown_reachable demo_cfg_hex] e(1)])
  have rows: "jobs_in_state UNKNOWN_OUTCOME 100 db1 = [demo_unknown_row]"
    by (simp add: jobs_in_state_def jobs1 demo_unknown_row(2) sql_limit_def)
  let ?db2 = "db1\<lparr>db_jobs := [attempt demo_unknown_row]\<rparr>"
  have c: "claim_reconcile_candidates demo_cfg 1 10 100 db1 = (Inr [demo_view], ?db2)"
    by (simp add: claim_reconcile_candidates_def rows transaction_def e(2) demo_unknown_row(6) demo_view(1)
        reconcile_row_def Let_def jobs1)
  have f: "find_job (jv_id demo_view) ?db2 = Some (attempt demo_unknown_row)"
    by (simp add: demo_view(3) demo_unknown_row(1))
  have v: "validate_request (rc_validator ?rc) (rc_catalog ?rc) (jr_request (attempt demo_unknown_row)) =
      Inl (CatalogError ''unknown action pve.vm.start@1'')"
    by (simp add: validate_request_def catalog_get_def demo_unknown_row(3) demo_request_def str_int_def nat_digits.simps digit_char_def)
      code_simp
  have "rc_max_attempts ?rc = 10" by (simp add: demo_reconciler_def)
  with poison_job_stops_batch [OF demo_unknown_reachable demo_cfg_hex demo_collision_free demo_unknown(3), of "\<lambda>k. quiet_env" n db1 ?rc]
    quiet_alone e(1) c f v now show ?thesis by metis
qed

end
