(* ===== verification/Daemons.thy ===== *)
theory Daemons
  imports Complex_Main Worker Reconciler
begin

text \<open>
  The two daemons, \<open>supervision.py\<close>, \<open>worker_main.py\<close> and \<open>scheduler_main.py\<close>: the back-off between
  failing iterations and the supervised loops around \<^const>\<open>worker_run_once\<close> and
  \<^const>\<open>reconciler_run_once\<close>. A loop runs forever, so it is followed over a finite list of rounds: what
  a round cannot decide (clock, fresh token, jitter, what other processes commit while it runs and
  while it sleeps) is the round's own data. The configuration, the store, the catalog and the adapters are the ones
  the process loaded before entering the loop.
\<close>

section \<open>Back-off\<close>

definition BASE_DELAY_SECONDS :: real where
  "BASE_DELAY_SECONDS = 1 / 2"

definition MAX_DELAY_SECONDS :: real where
  "MAX_DELAY_SECONDS = 30"

text \<open>\<open>float\<close> of an integer raises when the integer exceeds the largest double; a power of two is otherwise exact.\<close>

definition float_of_power :: "nat \<Rightarrow> exn + real" where
  "float_of_power exponent =
     (if exponent < 1024 then Inr (2 ^ exponent) else Inl (OtherException ''OverflowError: int too large to convert to float''))"

text \<open>\<open>draw\<close> is the value \<open>random.random\<close> gives to \<open>random.uniform\<close>.\<close>

definition backoff_delay :: "int \<Rightarrow> bool \<Rightarrow> real \<Rightarrow> exn + real" where
  "backoff_delay consecutive_failures jitter draw =
     (let exponent = nat (max 0 (consecutive_failures - 1)) in
      bind_sum (float_of_power exponent) (\<lambda>power.
      let ceiling = min (BASE_DELAY_SECONDS * power) MAX_DELAY_SECONDS in
      if \<not> jitter \<or> ceiling \<le> BASE_DELAY_SECONDS then Inr ceiling
      else Inr (BASE_DELAY_SECONDS + (ceiling - BASE_DELAY_SECONDS) * draw)))"

section \<open>Loops\<close>

text \<open>A round of a loop: what its iteration meets, the jitter drawn should it fail, and what other processes
  commit while the loop sleeps.\<close>

record 'e round =
  rd_env :: 'e
  rd_draw :: real
  rd_others :: "db \<Rightarrow> db"

text \<open>The body of \<open>while True\<close> around an iteration that keeps the loop's own variables beside the
  database: the new count of consecutive failures and the pause that follows. The exception of a failing
  iteration is logged and dropped; only one raised inside the handler leaves the loop.\<close>

definition supervise ::
  "('s \<Rightarrow> (exn + real) \<times> 's) \<Rightarrow> real \<Rightarrow> int \<Rightarrow> 's \<Rightarrow> (exn + int \<times> real) \<times> 's" where
  "supervise iteration draw consecutive_failures s =
     (case iteration s of
        (Inr pause, s') \<Rightarrow> (Inr (0, pause), s')
      | (Inl e, s') \<Rightarrow>
          (bind_sum (backoff_delay (consecutive_failures + 1) True draw) (\<lambda>pause.
             Inr (consecutive_failures + 1, pause)), s'))"

text \<open>A loop over its rounds: the failure count and pause of every round it finished, the exception it died of, if
  any, and the state it leaves.\<close>

fun supervised_loop ::
  "('e \<Rightarrow> 'l \<times> db \<Rightarrow> (exn + real) \<times> 'l \<times> db) \<Rightarrow> 'e round list \<Rightarrow> int \<Rightarrow> 'l \<times> db \<Rightarrow>
     (int \<times> real) list \<times> exn option \<times> 'l \<times> db" where
  "supervised_loop iteration [] consecutive_failures s = ([], None, s)"
| "supervised_loop iteration (rd # rds) consecutive_failures s =
     (case supervise (iteration (rd_env rd)) (rd_draw rd) consecutive_failures s of
        (Inl e, s') \<Rightarrow> ([], Some e, s')
      | (Inr (n, pause), local, db) \<Rightarrow>
          (case supervised_loop iteration rds n (local, rd_others rd db) of
             (trace, died, s'') \<Rightarrow> ((n, pause) # trace, died, s'')))"

text \<open>The worker daemon keeps nothing beside the failure count.\<close>

definition worker_iteration :: "store_cfg \<Rightarrow> worker \<Rightarrow> env \<Rightarrow> unit \<times> db \<Rightarrow> (exn + real) \<times> unit \<times> db" where
  "worker_iteration cfg w env s =
     (case worker_run_once cfg w env (snd s) of
        (Inl e, db) \<Rightarrow> (Inl e, (), db)
      | (Inr completed, db) \<Rightarrow> (Inr (if completed \<noteq> None then 1 / 4 else 1), (), db))"

definition worker_loop ::
  "store_cfg \<Rightarrow> worker \<Rightarrow> env round list \<Rightarrow> db \<Rightarrow> (int \<times> real) list \<times> exn option \<times> unit \<times> db" where
  "worker_loop cfg w rds db = supervised_loop (worker_iteration cfg w) rds 0 ((), db)"

definition AUDIT_VERIFY_EVERY_TICKS :: int where
  "AUDIT_VERIFY_EVERY_TICKS = 60"

text \<open>The scheduler daemon counts ticks and logs a broken audit chain.\<close>

record scheduler =
  sd_reconciler :: reconciler
  sd_queue_ttl_seconds :: int

record ticker =
  tk_tick :: int
  tk_alarms :: nat

definition scheduler_work :: "store_cfg \<Rightarrow> scheduler \<Rightarrow> (nat \<Rightarrow> env) \<Rightarrow> unit program" where
  "scheduler_work cfg sd envs =
     and_then (expire_stale_queued cfg (env_now (envs 0) 2) (sd_queue_ttl_seconds sd)) (\<lambda>_.
     and_then (meanwhile (env_others (envs 0) 1)) (\<lambda>_.
     and_then (reconciler_run_once cfg (sd_reconciler sd) envs) (\<lambda>_.
     meanwhile (env_others (envs 0) 2))))"

definition count_tick :: "store_cfg \<Rightarrow> ticker \<Rightarrow> db \<Rightarrow> (exn + real) \<times> ticker" where
  "count_tick cfg tk db =
     (let tk' = tk\<lparr>tk_tick := tk_tick tk + 1\<rparr> in
      if tk_tick tk' mod AUDIT_VERIFY_EVERY_TICKS = 0
      then case verify_audit_chain cfg (al_events (db_audit db)) of
             Inl e \<Rightarrow> (Inl e, tk')
           | Inr ok \<Rightarrow> (Inr 5, if ok then tk' else tk'\<lparr>tk_alarms := tk_alarms tk' + 1\<rparr>)
      else (Inr 5, tk'))"

definition scheduler_iteration ::
  "store_cfg \<Rightarrow> scheduler \<Rightarrow> (nat \<Rightarrow> env) \<Rightarrow> ticker \<times> db \<Rightarrow> (exn + real) \<times> ticker \<times> db" where
  "scheduler_iteration cfg sd envs s =
     (case scheduler_work cfg sd envs (snd s) of
        (Inl e, db) \<Rightarrow> (Inl e, fst s, db)
      | (Inr _, db) \<Rightarrow> (case count_tick cfg (fst s) db of (res, tk) \<Rightarrow> (res, tk, db)))"

definition scheduler_loop ::
  "store_cfg \<Rightarrow> scheduler \<Rightarrow> (nat \<Rightarrow> env) round list \<Rightarrow> db \<Rightarrow> (int \<times> real) list \<times> exn option \<times> ticker \<times> db" where
  "scheduler_loop cfg sd rds db = supervised_loop (scheduler_iteration cfg sd) rds 0 (\<lparr>tk_tick = 0, tk_alarms = 0\<rparr>, db)"

section \<open>Bounds of the back-off\<close>

definition delay_ceiling :: "int \<Rightarrow> real" where
  "delay_ceiling n = min (2 ^ nat (n - 1) / 2) 30"

lemma backoff_delay_value:
  assumes "1 \<le> n"
  shows "backoff_delay n jitter draw =
    (if 1025 \<le> n then Inl (OtherException ''OverflowError: int too large to convert to float'')
     else if \<not> jitter \<or> delay_ceiling n \<le> 1 / 2 then Inr (delay_ceiling n)
     else Inr (1 / 2 + (delay_ceiling n - 1 / 2) * draw))"
  using assms unfolding backoff_delay_def float_of_power_def BASE_DELAY_SECONDS_def MAX_DELAY_SECONDS_def Let_def delay_ceiling_def
  by (auto simp: nat_less_iff)

lemma delay_ceiling_range: "1 / 2 \<le> delay_ceiling n" "delay_ceiling n \<le> 30"
proof -
  have "1 \<le> (2 :: real) ^ nat (n - 1)" by simp
  then show "1 / 2 \<le> delay_ceiling n" unfolding delay_ceiling_def by linarith
qed (simp add: delay_ceiling_def)

lemma backoff_delay_range:
  assumes "1 \<le> n" and "0 \<le> draw" and "draw \<le> 1" and "backoff_delay n jitter draw = Inr d"
  shows "n < 1025 \<and> 1 / 2 \<le> d \<and> d \<le> delay_ceiling n"
proof -
  let ?c = "delay_ceiling n"
  have "1 / 2 + (?c - 1 / 2) * draw \<le> ?c" "1 / 2 \<le> 1 / 2 + (?c - 1 / 2) * draw"
    using mult_left_le [of draw "?c - 1 / 2"] delay_ceiling_range(1) [of n] assms(2,3) by auto
  then show ?thesis using assms(4) delay_ceiling_range(1) [of n] unfolding backoff_delay_value [OF assms(1)]
    by (auto split: if_splits)
qed

text \<open>The back-off without jitter doubles from half a second and is capped at thirty, with jitter it stays between
  half a second and that ceiling, and it raises exactly from the 1025th consecutive failure on.\<close>

theorem backoff_delay_correct:
  assumes "0 \<le> draw" and "draw \<le> 1" and "1 \<le> n"
  shows "if 1025 \<le> n then backoff_delay n jitter draw = Inl (OtherException ''OverflowError: int too large to convert to float'')
    else backoff_delay n False draw = Inr (min (2 ^ nat (n - 1) / 2) 30) \<and>
      (\<exists>d. backoff_delay n jitter draw = Inr d \<and> 1 / 2 \<le> d \<and> d \<le> min (2 ^ nat (n - 1) / 2) 30)"
proof (cases "1025 \<le> n")
  case True
  then show ?thesis using assms(3) by (simp add: backoff_delay_value)
next
  case False
  then obtain d where "backoff_delay n jitter draw = Inr d" using assms(3) backoff_delay_value [of n jitter draw] by metis
  moreover from this have "1 / 2 \<le> d \<and> d \<le> delay_ceiling n" using backoff_delay_range [OF assms(3,1,2)] by blast
  moreover have "backoff_delay n False draw = Inr (delay_ceiling n)" using False assms(3) by (simp add: backoff_delay_value)
  ultimately show ?thesis using False unfolding delay_ceiling_def by auto
qed

theorem backoff_delay_correct_witness:
  "backoff_delay 4 False (1 / 2) = Inr 4"
proof -
  have "backoff_delay 4 False (1 / 2) = Inr (min (2 ^ nat (4 - 1) / 2) 30)"
    using backoff_delay_correct [of "1 / 2" 4 False] by simp
  then show ?thesis by (simp add: numeral_3_eq_3)
qed

section \<open>Supervised loops\<close>

text \<open>A count of consecutive failures goes up by one or back to zero, so a count of \<open>k\<close> follows all the smaller ones.\<close>

fun counted :: "int \<Rightarrow> int list \<Rightarrow> bool" where
  "counted n [] = True"
| "counted n (m # ms) = ((m = 0 \<or> m = n + 1) \<and> counted m ms)"

lemma counted_snoc: "counted n (ms @ [m]) \<longleftrightarrow> counted n ms \<and> (m = 0 \<or> m = last (n # ms) + 1)"
  by (induction ms arbitrary: n) auto

lemma counted_streak:
  "counted 0 ms \<Longrightarrow> last (0 # ms) = int k \<Longrightarrow> \<exists>before. 0 # ms = before @ map int [0..<Suc k]"
proof (induction ms arbitrary: k rule: rev_induct)
  case (snoc m ms)
  show ?case
  proof (cases k)
    case 0
    with snoc.prems show ?thesis by (intro exI [of _ "0 # ms"]) simp
  next
    case (Suc j)
    with snoc.prems have "counted 0 ms" "last (0 # ms) = int j" by (auto simp: counted_snoc split: if_splits)
    with snoc.IH obtain before where "0 # ms = before @ map int [0..<Suc j]" by blast
    with Suc snoc.prems show ?thesis by (intro exI [of _ before]) simp
  qed
qed simp

text \<open>What makes a loop supervised: an iteration that ends well asks for a pause within the bounds of the back-off's cap.\<close>

locale supervised =
  fixes iteration :: "'e \<Rightarrow> 'l \<times> db \<Rightarrow> (exn + real) \<times> 'l \<times> db"
  assumes pause_range: "iteration e s = (Inr pause, s') \<Longrightarrow> 1 / 4 \<le> pause \<and> pause \<le> 30"
begin

lemma supervise_ends:
  assumes "0 \<le> draw" and "draw \<le> 1" and "0 \<le> n" and "supervise (iteration e) draw n s = (res, s')"
  shows "case res of
      Inr (m, pause) \<Rightarrow> (m = 0 \<or> m = n + 1 \<and> m \<le> 1024) \<and> 1 / 4 \<le> pause \<and> pause \<le> 30
    | Inl x \<Rightarrow> 1024 \<le> n \<and> x = OtherException ''OverflowError: int too large to convert to float''"
proof -
  obtain r s1 where Pair: "iteration e s = (r, s1)" by (cases "iteration e s") simp
  show ?thesis
  proof (cases r)
    case (Inr pause)
    then show ?thesis using Pair assms(4) pause_range [of e s pause s1] by (auto simp: supervise_def)
  next
    case (Inl x)
    with Pair assms(4) have res: "res = bind_sum (backoff_delay (n + 1) True draw) (\<lambda>pause. Inr (n + 1, pause))"
      by (simp add: supervise_def)
    show ?thesis
    proof (cases "backoff_delay (n + 1) True draw")
      case Inl
      then show ?thesis using res assms(3) by (auto simp: backoff_delay_value split: if_splits)
    next
      case (Inr d)
      then show ?thesis using res backoff_delay_range [of "n + 1" draw True d] delay_ceiling_range(2) [of "n + 1"] assms(1-3) by simp
    qed
  qed
qed

text \<open>Every finished round has paused within bounds, and a loop dies only where 1024 failures in a row precede
  the failure it dies of.\<close>

lemma loop_counts:
  assumes "\<forall>rd \<in> set rds. 0 \<le> rd_draw rd \<and> rd_draw rd \<le> 1" and "0 \<le> n" and "n \<le> 1024"
    and "supervised_loop iteration rds n s = (trace, died, s')"
  shows "(\<forall>(m, pause) \<in> set trace. 1 / 4 \<le> pause \<and> pause \<le> 30) \<and> (died = None \<longrightarrow> length trace = length rds) \<and>
    counted n (map fst trace) \<and>
    (\<forall>x. died = Some x \<longrightarrow> x = OtherException ''OverflowError: int too large to convert to float'' \<and>
      last (n # map fst trace) = 1024)"
  using assms
proof (induction rds arbitrary: n s trace)
  case (Cons rd rds)
  obtain r local db where step: "supervise (iteration (rd_env rd)) (rd_draw rd) n s = (r, local, db)" by (metis prod_cases3)
  have draw: "0 \<le> rd_draw rd" "rd_draw rd \<le> 1" and rest: "\<forall>rd \<in> set rds. 0 \<le> rd_draw rd \<and> rd_draw rd \<le> 1"
    using Cons.prems(1) by simp_all
  note ends = supervise_ends [OF draw Cons.prems(2) step]
  show ?case
  proof (cases r)
    case (Inl x)
    then show ?thesis using step ends Cons.prems(2-4) by auto
  next
    case (Inr mp)
    obtain m pause where mp: "mp = (m, pause)" by fastforce
    obtain trace' died' s'' where rec: "supervised_loop iteration rds m (local, rd_others rd db) = (trace', died', s'')"
      by (metis prod_cases3)
    from ends Inr mp Cons.prems(2) have m: "0 \<le> m" "m \<le> 1024" "m = 0 \<or> m = n + 1" "1 / 4 \<le> pause" "pause \<le> 30" by auto
    have trace: "trace = (m, pause) # trace'" and same: "died = died'" "s' = s''" using Cons.prems(4) step Inr mp rec by auto
    note ih = Cons.IH [OF rest m(1,2) rec [folded same]]
    have "last (n # map fst trace) = last (m # map fst trace')" by (simp add: trace)
    with m ih show ?thesis unfolding trace by auto
  qed
qed simp

lemma loop_survives:
  assumes "\<forall>rd \<in> set rds. 0 \<le> rd_draw rd \<and> rd_draw rd \<le> 1" and "supervised_loop iteration rds 0 s = (trace, died, s')"
  shows "(\<forall>(m, pause) \<in> set trace. 1 / 4 \<le> pause \<and> pause \<le> 30) \<and> (died = None \<longrightarrow> length trace = length rds) \<and>
    (\<forall>x. died = Some x \<longrightarrow> x = OtherException ''OverflowError: int too large to convert to float'' \<and>
      (\<exists>before. 0 # map fst trace = before @ map int [0..<1025]))"
proof -
  note counts = loop_counts [OF assms(1) _ _ assms(2)]
  have "\<exists>before. 0 # map fst trace = before @ map int [0..<Suc 1024]" if "died = Some x" for x
    by (rule counted_streak) (use counts that in simp_all)
  then show ?thesis using counts by (simp del: upt_Suc)
qed

text \<open>Where every iteration fails, each round counts one more.\<close>

lemma loop_fails:
  assumes "P (snd s)" and "\<forall>rd \<in> set rds. \<forall>db. P db \<longrightarrow> P (rd_others rd db)"
    and "\<And>rd s. rd \<in> set rds \<Longrightarrow> P (snd s) \<Longrightarrow> \<exists>x s'. iteration (rd_env rd) s = (Inl x, s') \<and> P (snd s')"
    and "0 \<le> n" and "n \<le> 1024" and "1025 \<le> int (length rds) + n"
  shows "\<exists>trace s'. supervised_loop iteration rds n s =
    (trace, Some (OtherException ''OverflowError: int too large to convert to float''), s')"
  using assms
proof (induction rds arbitrary: n s)
  case (Cons rd rds)
  obtain x l db where it: "iteration (rd_env rd) s = (Inl x, l, db)" "P db"
    using Cons.prems(3) [of rd s] Cons.prems(1) by auto
  show ?case
  proof (cases "backoff_delay (n + 1) True (rd_draw rd)")
    case (Inl e)
    then show ?thesis using it Cons.prems(4) by (auto simp: supervise_def backoff_delay_value split: if_splits)
  next
    case (Inr pause)
    have "\<exists>trace s'. supervised_loop iteration rds (n + 1) (l, rd_others rd db) =
      (trace, Some (OtherException ''OverflowError: int too large to convert to float''), s')"
      using it(2) Cons.prems Inr by (intro Cons.IH) (auto simp: backoff_delay_value split: if_splits)
    then show ?thesis using it Inr by (auto simp: supervise_def)
  qed
qed simp

end

interpretation worker_daemon: supervised "worker_iteration cfg w" for cfg w
  by unfold_locales (auto simp: worker_iteration_def split: prod.splits sum.splits if_splits)

interpretation scheduler_daemon: supervised "scheduler_iteration cfg sd" for cfg sd
  by unfold_locales (auto simp: scheduler_iteration_def count_tick_def Let_def split: prod.splits sum.splits if_splits)

text \<open>What an iteration and the others keep, the loop keeps.\<close>

lemma supervised_loop_keeps:
  assumes "P s" and "\<And>rd s. rd \<in> set rds \<Longrightarrow> P s \<Longrightarrow> P (snd (iteration (rd_env rd) s))"
    and "\<And>rd l db. rd \<in> set rds \<Longrightarrow> P (l, db) \<Longrightarrow> P (l, rd_others rd db)"
    and "supervised_loop iteration rds n s = (trace, died, s')"
  shows "P s'"
  using assms
proof (induction rds arbitrary: n s trace)
  case (Cons rd rds)
  obtain r l db where step: "supervise (iteration (rd_env rd)) (rd_draw rd) n s = (r, l, db)" by (metis prod_cases3)
  then have "snd (iteration (rd_env rd) s) = (l, db)" by (auto simp: supervise_def split: prod.splits sum.splits)
  then have now: "P (l, db)" using Cons.prems(1) Cons.prems(2) [of rd s] by simp
  show ?case
  proof (cases r)
    case (Inr mp)
    then obtain m pause where mp: "r = Inr (m, pause)" by (metis surj_pair)
    obtain trace' where "supervised_loop iteration rds m (l, rd_others rd db) = (trace', died, s')"
      using Cons.prems(4) step mp by (auto split: prod.splits)
    moreover have "P (l, rd_others rd db)" using Cons.prems(3) [of rd l db] now by simp
    ultimately show ?thesis using Cons.IH Cons.prems(2,3) by (metis list.set_intros(2))
  qed (use Cons.prems(4) step now in simp)
qed simp

section \<open>Properties of the daemons\<close>

text \<open>The first store operation of an iteration raises on a database that cannot be written.\<close>

lemma iteration_unwritable:
  assumes "\<not> db_writable (snd s)"
  shows "\<exists>x s'. worker_iteration cfg w env s = (Inl x, s') \<and> \<not> db_writable (snd s')"
  using assms by (simp add: worker_iteration_def worker_run_once_def claim_next_job_def transaction_def and_then_def)

lemma tick_unwritable:
  assumes "\<not> db_writable (snd s)"
  shows "\<exists>x s'. scheduler_iteration cfg sd envs s = (Inl x, s') \<and> \<not> db_writable (snd s')"
  using assms by (simp add: scheduler_iteration_def scheduler_work_def expire_stale_queued_def transaction_def and_then_def)

text \<open>A run of a daemon that never died of an iteration: all its pauses are within bounds, and the only exception it may
  have left with is the overflow of the back-off, after the counts 1 to 1024 in a row.\<close>

definition orderly :: "nat \<Rightarrow> (int \<times> real) list \<times> exn option \<times> 's \<Rightarrow> bool" where
  "orderly rounds run = (case run of (trace, died, _) \<Rightarrow>
     (\<forall>(n, pause) \<in> set trace. 1 / 4 \<le> pause \<and> pause \<le> 30) \<and> (died = None \<longrightarrow> length trace = rounds) \<and>
     (\<forall>x. died = Some x \<longrightarrow> x = OtherException ''OverflowError: int too large to convert to float'' \<and>
        (\<exists>before. 0 # map fst trace = before @ map int [0..<1025])))"


definition demo_round :: "'e \<Rightarrow> 'e round" where
  "demo_round e = \<lparr>rd_env = e, rd_draw = 1 / 2, rd_others = (\<lambda>db. db)\<rparr>"

definition demo_scheduler :: scheduler where
  "demo_scheduler = \<lparr>sd_reconciler = demo_reconciler [], sd_queue_ttl_seconds = 900\<rparr>"


text \<open>A database that stays unwritable for 1025 iterations, by a full disk or a read-only remount, kills both
  daemons: the computation of the back-off raises inside the handler.\<close>

theorem outage_kills_daemons:
  assumes "\<not> db_writable db" and "\<forall>rd \<in> set rds. \<forall>db. \<not> db_writable db \<longrightarrow> \<not> db_writable (rd_others rd db)"
    and "\<forall>rd \<in> set ticks. \<forall>db. \<not> db_writable db \<longrightarrow> \<not> db_writable (rd_others rd db)"
    and "1025 \<le> length rds" and "1025 \<le> length ticks"
  shows "(\<exists>trace s. worker_loop cfg w rds db =
        (trace, Some (OtherException ''OverflowError: int too large to convert to float''), s)) \<and>
     (\<exists>trace s. scheduler_loop cfg sd ticks db =
        (trace, Some (OtherException ''OverflowError: int too large to convert to float''), s))"
proof
  show "\<exists>trace s. worker_loop cfg w rds db =
      (trace, Some (OtherException ''OverflowError: int too large to convert to float''), s)"
    unfolding worker_loop_def using iteration_unwritable assms(1,4)
    by (intro worker_daemon.loop_fails [OF _ assms(2)]) simp_all
  show "\<exists>trace s. scheduler_loop cfg sd ticks db =
      (trace, Some (OtherException ''OverflowError: int too large to convert to float''), s)"
    unfolding scheduler_loop_def using tick_unwritable assms(1,5)
    by (intro scheduler_daemon.loop_fails [OF _ assms(3)]) simp_all
qed

theorem outage_kills_daemons_witness:
  "\<exists>trace s. worker_loop demo_cfg demo_worker (replicate 1025 (demo_round quiet_env)) (demo_queued\<lparr>db_writable := False\<rparr>) =
     (trace, Some (OtherException ''OverflowError: int too large to convert to float''), s)"
  using outage_kills_daemons [of "demo_queued\<lparr>db_writable := False\<rparr>" "replicate 1025 (demo_round quiet_env)"
      "replicate 1025 (demo_round (\<lambda>k. quiet_env))" demo_cfg demo_worker demo_scheduler]
  by (simp add: demo_round_def)

text \<open>The scheduler's iteration as steps of the store.\<close>

lemma scheduler_work_steps: "\<forall>k. others_ok cfg (envs k) \<Longrightarrow> steps_only cfg (scheduler_work cfg sd envs)"
  unfolding scheduler_work_def by (auto intro!: program_steps reconciler_steps)

lemma tick_keeps:
  assumes "hex_output (sc_crypto cfg)" and "\<forall>k. others_ok cfg (envs k)"
    and "reachable cfg (snd s) \<and> tk_alarms (fst s) = 0" and "scheduler_iteration cfg sd envs s = (r, s')"
  shows "reachable cfg (snd s') \<and> tk_alarms (fst s') = 0"
proof -
  obtain q db where work: "scheduler_work cfg sd envs (snd s) = (q, db)" by fastforce
  then have reach: "reachable cfg db"
    using steps_only_reachable [OF scheduler_work_steps [OF assms(2)]] assms(3) by (metis snd_conv)
  then have "verify_audit_chain cfg (al_events (db_audit db)) = Inr True"
    using reachable_inv [OF _ assms(1)] by (simp add: db_inv_def audit_inv_def)
  with work reach assms(3,4) show ?thesis
    by (auto simp: scheduler_iteration_def count_tick_def Let_def split: sum.splits prod.splits if_splits)
qed

text \<open>The scheduler's periodic check never cries wolf: whatever the other processes do through the store, a
  database that grew from the empty one stays reachable and no tick reports a broken audit chain.\<close>

theorem scheduler_raises_no_false_alarm:
  assumes "hex_output (sc_crypto cfg)" and "reachable cfg db"
    and "\<forall>rd \<in> set ticks. \<forall>k. others_ok cfg (rd_env rd k)" and "\<forall>rd \<in> set ticks. \<forall>db. db_steps cfg db (rd_others rd db)"
    and "scheduler_loop cfg sd ticks db = (trace, died, tk, db')"
  shows "reachable cfg db' \<and> tk_alarms tk = 0"
proof -
  let ?P = "\<lambda>s. reachable cfg (snd s) \<and> tk_alarms (fst s) = 0"
  have "?P (tk, db')"
  proof (rule supervised_loop_keeps [where P = ?P, OF _ _ _ assms(5) [unfolded scheduler_loop_def]])
    show "?P (snd (scheduler_iteration cfg sd (rd_env rd) s))" if "rd \<in> set ticks" "?P s" for rd s
      using tick_keeps [OF assms(1) _ that(2)] that(1) assms(3) by (metis prod.collapse)
    show "?P (l, rd_others rd db)" if "rd \<in> set ticks" "?P (l, db)" for rd l db
      using that assms(4) db_steps_trans by fastforce
  qed (use assms(2) in simp)
  then show ?thesis by simp
qed

theorem scheduler_raises_no_false_alarm_witness:
  "\<exists>trace died tk db'. scheduler_loop demo_cfg demo_scheduler (replicate 60 (demo_round (\<lambda>k. quiet_env))) empty_db =
     (trace, died, tk, db') \<and> tk_alarms tk = 0"
proof -
  obtain trace died tk db' where run: "scheduler_loop demo_cfg demo_scheduler
      (replicate 60 (demo_round (\<lambda>k. quiet_env))) empty_db = (trace, died, tk, db')" by (metis prod_cases4)
  have "others_ok demo_cfg quiet_env" by (simp add: others_ok_def quiet_env_def db_steps.start)
  then have "tk_alarms tk = 0"
    using scheduler_raises_no_false_alarm [OF demo_cfg_hex db_steps.start _ _ run] by (simp add: demo_round_def db_steps.start)
  with run show ?thesis by blast
qed

end
