(* ===== verification/Resilience.thy ===== *)
theory Resilience
  imports Complex_Main Adapters
begin

text \<open>
  The resilience guard around every plugin, \<open>resilience.py\<close>: a circuit breaker, a token bucket
  and a concurrency limit, and the adapter wrapper that calls a plugin's adapter through them.

  Each block under the guard's lock is one function of the guard and the clock reading it makes; the
  tasks that are inside \<open>call\<close> at the same time are a step relation whose steps are those blocks, the
  semaphore operations and the ways a call can end. Times and token counts are rational
  numbers: floating-point rounding is not modelled.
\<close>

section \<open>The guard\<close>

datatype circuit_state = C_CLOSED | C_OPEN | C_HALF_OPEN

fun circuit_value :: "circuit_state \<Rightarrow> string" where
  "circuit_value C_CLOSED = ''closed''"
| "circuit_value C_OPEN = ''open''"
| "circuit_value C_HALF_OPEN = ''half_open''"

record resilience_policy =
  rp_timeout_seconds :: rat
  rp_max_concurrency :: nat
  rp_requests_per_second :: rat
  rp_burst :: nat
  rp_failure_threshold :: int
  rp_recovery_seconds :: rat

definition resilience_policy_ok :: "resilience_policy \<Rightarrow> bool" where
  "resilience_policy_ok p \<longleftrightarrow> 0 < rp_timeout_seconds p \<and> rp_timeout_seconds p \<le> 300 \<and>
     1 \<le> rp_max_concurrency p \<and> rp_max_concurrency p \<le> 256 \<and>
     0 < rp_requests_per_second p \<and> rp_requests_per_second p \<le> 10000 \<and>
     1 \<le> rp_burst p \<and> rp_burst p \<le> 10000 \<and>
     1 \<le> rp_failure_threshold p \<and> rp_failure_threshold p \<le> 100 \<and>
     0 < rp_recovery_seconds p \<and> rp_recovery_seconds p \<le> 3600"

definition TRANSIENT_FAILURES :: "adapter_error_kind list" where
  "TRANSIENT_FAILURES = [K_RATE_LIMITED, K_UNAVAILABLE, K_TIMEOUT, K_PROTOCOL, K_UNEXPECTED]"

text \<open>\<open>gd_slots\<close> is the value of the semaphore.\<close>

record guard =
  gd_policy :: resilience_policy
  gd_slots :: nat
  gd_tokens :: rat
  gd_last_refill :: rat
  gd_state :: circuit_state
  gd_consecutive_failures :: int
  gd_opened_at :: "rat option"
  gd_half_open_probe_active :: bool

definition ResilienceGuard :: "resilience_policy \<Rightarrow> rat \<Rightarrow> guard" where
  "ResilienceGuard policy now = \<lparr>gd_policy = policy, gd_slots = rp_max_concurrency policy,
     gd_tokens = of_nat (rp_burst policy), gd_last_refill = now, gd_state = C_CLOSED, gd_consecutive_failures = 0,
     gd_opened_at = None, gd_half_open_probe_active = False\<rparr>"

record resilience_snapshot =
  rs_state :: circuit_state
  rs_consecutive_failures :: int
  rs_retry_after_seconds :: "rat option"
  rs_max_concurrency :: nat
  rs_requests_per_second :: rat

definition snapshot :: "rat \<Rightarrow> guard \<Rightarrow> resilience_snapshot" where
  "snapshot now g = \<lparr>rs_state = gd_state g, rs_consecutive_failures = gd_consecutive_failures g,
     rs_retry_after_seconds =
       (case gd_opened_at g of
          Some t \<Rightarrow> if gd_state g = C_OPEN then Some (max 0 (rp_recovery_seconds (gd_policy g) - (now - t))) else None
        | None \<Rightarrow> None),
     rs_max_concurrency = rp_max_concurrency (gd_policy g),
     rs_requests_per_second = rp_requests_per_second (gd_policy g)\<rparr>"

definition circuit_refusal :: "string \<Rightarrow> circuit_state \<Rightarrow> exn" where
  "circuit_refusal message s = AdapterExn (AdapterError message K_UNAVAILABLE RETRY_SAFE False
     [(''circuit_state'', JStr (circuit_value s))])"

text \<open>The half-open part of \<open>_enter_circuit\<close>: one probe at a time.\<close>

definition enter_half_open :: "guard \<Rightarrow> (exn + unit) \<times> guard" where
  "enter_half_open g =
     (if gd_state g = C_HALF_OPEN
      then if gd_half_open_probe_active g
           then (Inl (circuit_refusal ''plugin circuit recovery probe is already running'' C_HALF_OPEN), g)
           else (Inr (), g\<lparr>gd_half_open_probe_active := True\<rparr>)
      else (Inr (), g))"

definition enter_circuit :: "rat \<Rightarrow> guard \<Rightarrow> (exn + unit) \<times> guard" where
  "enter_circuit now g =
     (if gd_state g = C_OPEN
      then let opened_at = (case gd_opened_at g of None \<Rightarrow> now | Some t \<Rightarrow> t);
               g1 = g\<lparr>gd_opened_at := Some opened_at\<rparr>
           in if now - opened_at < rp_recovery_seconds (gd_policy g)
              then (Inl (circuit_refusal ''plugin circuit is open'' C_OPEN), g1)
              else enter_half_open (g1\<lparr>gd_state := C_HALF_OPEN, gd_half_open_probe_active := False\<rparr>)
      else enter_half_open g)"

text \<open>One round of the token loop: either a token is taken, or the seconds to sleep before the next
  round.\<close>

definition take_token :: "rat \<Rightarrow> guard \<Rightarrow> rat option \<times> guard" where
  "take_token now g =
     (let elapsed = now - gd_last_refill g;
          tokens = min (of_nat (rp_burst (gd_policy g))) (gd_tokens g + elapsed * rp_requests_per_second (gd_policy g));
          g1 = g\<lparr>gd_tokens := tokens, gd_last_refill := now\<rparr>
      in if tokens \<ge> 1 then (None, g1\<lparr>gd_tokens := tokens - 1\<rparr>)
         else (Some ((1 - tokens) / rp_requests_per_second (gd_policy g)), g1))"

text \<open>The loop itself; round \<open>k\<close> reads the clock \<open>clock k\<close>, and \<open>others k\<close> is what other tasks do to the
  guard while this one sleeps after it.\<close>

partial_function (option) acquire_rate_token ::
  "(nat \<Rightarrow> rat) \<Rightarrow> (nat \<Rightarrow> guard \<Rightarrow> guard) \<Rightarrow> nat \<Rightarrow> guard \<Rightarrow> (nat \<times> guard) option" where
  "acquire_rate_token clock others k g =
     (case take_token (clock k) g of
        (None, g1) \<Rightarrow> Some (k, g1)
      | (Some wait, g1) \<Rightarrow> acquire_rate_token clock others (Suc k) (others k g1))"

definition record_success :: "guard \<Rightarrow> guard" where
  "record_success g = g\<lparr>gd_state := C_CLOSED, gd_consecutive_failures := 0, gd_opened_at := None,
     gd_half_open_probe_active := False\<rparr>"

definition record_failure :: "rat \<Rightarrow> adapter_error \<Rightarrow> guard \<Rightarrow> guard" where
  "record_failure now error g =
     (if obj_get (ae_details error) ''circuit_state'' \<notin> {None, Some JNull} then g
      else if ae_kind error \<notin> set TRANSIENT_FAILURES
      then (if gd_state g = C_HALF_OPEN
            then g\<lparr>gd_state := C_CLOSED, gd_consecutive_failures := 0, gd_opened_at := None,
                   gd_half_open_probe_active := False\<rparr>
            else g)
      else let failures = gd_consecutive_failures g + 1; g1 = g\<lparr>gd_consecutive_failures := failures\<rparr>
           in if gd_state g = C_HALF_OPEN \<or> failures \<ge> rp_failure_threshold (gd_policy g)
              then g1\<lparr>gd_state := C_OPEN, gd_opened_at := Some now, gd_half_open_probe_active := False\<rparr>
              else g1)"

definition record_cancellation :: "rat \<Rightarrow> guard \<Rightarrow> guard" where
  "record_cancellation now g =
     (if gd_state g = C_HALF_OPEN
      then g\<lparr>gd_state := C_OPEN, gd_opened_at := Some now, gd_half_open_probe_active := False\<rparr>
      else g)"

section \<open>Guarded calls\<close>

text \<open>How the awaited part of a call ends: the plugin returns, \<open>asyncio.timeout\<close> or the plugin raises
  \<open>TimeoutError\<close>, the task is cancelled, or another exception.\<close>

datatype 'a ending = Returned 'a | Timed_out | Cancelled_task | Raised exn

definition call_timeout :: "resilience_policy \<Rightarrow> rat option \<Rightarrow> rat" where
  "call_timeout policy timeout_seconds =
     min (case timeout_seconds of None \<Rightarrow> rp_timeout_seconds policy
            | Some t \<Rightarrow> if t = 0 then rp_timeout_seconds policy else t) (rp_timeout_seconds policy)"

definition timeout_error :: "bool \<Rightarrow> adapter_error" where
  "timeout_error unknown =
     (if unknown then UnknownOutcome ''plugin operation timed out'' []
      else AdapterError ''plugin operation timed out'' K_TIMEOUT RETRY_SAFE False [])"

text \<open>The statements after the awaited part: what the caller sees and what the circuit records.\<close>

definition call_end :: "rat \<Rightarrow> bool \<Rightarrow> bool \<Rightarrow> 'a ending \<Rightarrow> guard \<Rightarrow> (exn + 'a) \<times> guard" where
  "call_end now unknown_on_started_timeout operation_started ending g =
     (case ending of
        Returned x \<Rightarrow> (Inr x, record_success g)
      | Timed_out \<Rightarrow>
          (let e = timeout_error (operation_started \<and> unknown_on_started_timeout)
           in (Inl (AdapterExn e), record_failure now e g))
      | Cancelled_task \<Rightarrow> (Inl (OtherException ''CancelledError''), record_cancellation now g)
      | Raised (AdapterExn e) \<Rightarrow> (Inl (AdapterExn e), record_failure now e g)
      | Raised _ \<Rightarrow>
          (let e = AdapterError ''plugin operation failed'' K_UNEXPECTED RETRY_NEVER False []
           in (Inl (AdapterExn e), record_failure now e g)))"

text \<open>A call to the guard: its operation label, what the plugin does, and the two options.\<close>

record 'a guarded =
  gc_operation :: string
  gc_factory :: "exn + 'a"
  gc_unknown :: bool
  gc_timeout :: "rat option"

text \<open>\<open>ResilientAdapter\<close>: each operation as the call it makes.\<close>

definition resilient_health :: "adapter \<Rightarrow> adapter_health guarded" where
  "resilient_health adapter = \<lparr>gc_operation = ''health'', gc_factory = ap_health adapter, gc_unknown = False, gc_timeout = None\<rparr>"

definition resilient_plan :: "adapter \<Rightarrow> action_definition \<Rightarrow> action_request \<Rightarrow> string list guarded" where
  "resilient_plan adapter action request = \<lparr>gc_operation = ''plan'', gc_factory = ap_plan adapter action request,
     gc_unknown = False, gc_timeout = Some (of_int (ad_timeout_seconds action))\<rparr>"

definition resilient_execute :: "adapter \<Rightarrow> action_definition \<Rightarrow> action_request \<Rightarrow> adapter_execution guarded" where
  "resilient_execute adapter action request = \<lparr>gc_operation = ''execute'', gc_factory = ap_execute adapter action request,
     gc_unknown = ad_mutation action, gc_timeout = Some (of_int (ad_timeout_seconds action))\<rparr>"

definition resilient_observe :: "adapter \<Rightarrow> action_definition \<Rightarrow> action_request \<Rightarrow> adapter_observation guarded" where
  "resilient_observe adapter action request = \<lparr>gc_operation = ''observe'', gc_factory = ap_observe adapter action request,
     gc_unknown = False, gc_timeout = Some (of_int (ad_timeout_seconds action))\<rparr>"

definition resilient_verify ::
  "adapter \<Rightarrow> action_definition \<Rightarrow> action_request \<Rightarrow> adapter_execution \<Rightarrow> adapter_observation \<Rightarrow> adapter_verification guarded" where
  "resilient_verify adapter action request execution observation =
     \<lparr>gc_operation = ''verify'', gc_factory = ap_verify adapter action request execution observation,
      gc_unknown = False, gc_timeout = Some (of_int (ad_timeout_seconds action))\<rparr>"

definition resilient_cancel ::
  "adapter \<Rightarrow> action_definition \<Rightarrow> action_request \<Rightarrow> adapter_execution option \<Rightarrow> adapter_cancellation guarded" where
  "resilient_cancel adapter action request execution =
     \<lparr>gc_operation = ''cancel'', gc_factory = ap_cancel adapter action request execution,
      gc_unknown = False, gc_timeout = Some (of_int (ad_timeout_seconds action))\<rparr>"

text \<open>\<open>snapshot.model_dump(mode="json")\<close>; how a float prints is a parameter. The health and status
  results carry it in their details.\<close>

definition snapshot_json :: "(rat \<Rightarrow> string) \<Rightarrow> resilience_snapshot \<Rightarrow> json" where
  "snapshot_json float_repr s = JObj [(''state'', JStr (circuit_value (rs_state s))),
     (''consecutive_failures'', JInt (rs_consecutive_failures s)),
     (''retry_after_seconds'', opt_json (\<lambda>x. JFloat (float_repr x)) (rs_retry_after_seconds s)),
     (''max_concurrency'', JInt (int (rs_max_concurrency s))),
     (''requests_per_second'', JFloat (float_repr (rs_requests_per_second s)))]"

definition with_resilience :: "(rat \<Rightarrow> string) \<Rightarrow> resilience_snapshot \<Rightarrow> json_object \<Rightarrow> json_object" where
  "with_resilience float_repr s details = dict_set ''resilience'' (snapshot_json float_repr s) details"

end
