(* ===== verification/ResilienceLaws.thy ===== *)
theory ResilienceLaws
  imports Resilience
begin

text \<open>
  The guard under concurrent calls. A state holds the guard, the phase of every call in progress and
  the last clock reading under the lock; the steps are the atomic parts of \<open>call\<close>. The invariant gives
  the concurrency limit and the consistency of the circuit; the token bucket bounds how many calls
  start in any span of time; a call is only admitted while the circuit is closed or as the one
  recovery probe.
\<close>

section \<open>The circuit\<close>

text \<open>What the circuit's fields satisfy between two blocks under the lock.\<close>

definition circuit_ok :: "rat \<Rightarrow> guard \<Rightarrow> bool" where
  "circuit_ok now g \<longleftrightarrow> 0 \<le> gd_consecutive_failures g \<and>
     (gd_state g = C_CLOSED \<longrightarrow> gd_consecutive_failures g < rp_failure_threshold (gd_policy g) \<and> gd_opened_at g = None) \<and>
     (gd_state g \<noteq> C_CLOSED \<longrightarrow> (\<exists>t \<le> now. gd_opened_at g = Some t)) \<and>
     (gd_state g = C_HALF_OPEN \<longleftrightarrow> gd_half_open_probe_active g)"

definition bucket_ok :: "rat \<Rightarrow> guard \<Rightarrow> bool" where
  "bucket_ok now g \<longleftrightarrow> 0 \<le> gd_tokens g \<and> gd_tokens g \<le> of_nat (rp_burst (gd_policy g)) \<and> gd_last_refill g \<le> now"

definition circuit_part :: "guard \<Rightarrow> circuit_state \<times> int \<times> rat option \<times> bool" where
  "circuit_part g = (gd_state g, gd_consecutive_failures g, gd_opened_at g, gd_half_open_probe_active g)"

definition bucket_part :: "guard \<Rightarrow> resilience_policy \<times> nat \<times> rat \<times> rat" where
  "bucket_part g = (gd_policy g, gd_slots g, gd_tokens g, gd_last_refill g)"

text \<open>A block that only concerns the circuit: it keeps the circuit consistent and leaves the bucket, the
  semaphore and the policy alone.\<close>

locale circuit_block =
  fixes f :: "rat \<Rightarrow> guard \<Rightarrow> guard"
  assumes bucket_kept: "bucket_part (f now g) = bucket_part g"
    and circuit_kept: "1 \<le> rp_failure_threshold (gd_policy g) \<Longrightarrow> circuit_ok t g \<Longrightarrow> t \<le> now \<Longrightarrow> circuit_ok now (f now g)"
begin

lemma frame [simp]:
  "gd_policy (f now g) = gd_policy g" "gd_slots (f now g) = gd_slots g"
  "gd_tokens (f now g) = gd_tokens g" "gd_last_refill (f now g) = gd_last_refill g"
  using bucket_kept [of now g] by (simp_all add: bucket_part_def)

lemma bucket_ok_kept: "bucket_ok t g \<Longrightarrow> t \<le> now \<Longrightarrow> bucket_ok now (f now g)"
  by (simp add: bucket_ok_def)

end

interpretation enter: circuit_block "\<lambda>now g. snd (enter_circuit now g)"
  by unfold_locales
    (force simp: bucket_part_def circuit_ok_def enter_circuit_def enter_half_open_def Let_def split: option.splits)+

interpretation success: circuit_block "\<lambda>now. record_success"
  by unfold_locales (auto simp: bucket_part_def circuit_ok_def record_success_def)

interpretation failure: circuit_block "\<lambda>now. record_failure now e" for e
proof
  fix now t g
  show "bucket_part (record_failure now e g) = bucket_part g"
    by (simp add: bucket_part_def record_failure_def Let_def)
  assume ok: "1 \<le> rp_failure_threshold (gd_policy g)" "circuit_ok t g" "t \<le> now"
  show "circuit_ok now (record_failure now e g)"
  proof (cases "gd_state g")
    case C_CLOSED
    with ok show ?thesis by (auto simp: circuit_ok_def record_failure_def Let_def)
  next
    case C_OPEN
    with ok show ?thesis by (force simp: circuit_ok_def record_failure_def Let_def)
  next
    case C_HALF_OPEN
    with ok show ?thesis by (force simp: circuit_ok_def record_failure_def Let_def)
  qed
qed

interpretation cancellation: circuit_block record_cancellation
  by unfold_locales (force simp: bucket_part_def circuit_ok_def record_cancellation_def)+

interpretation ends: circuit_block "\<lambda>now g. snd (call_end now unknown started ending g)" for unknown started ending
proof
  fix now t g
  show "bucket_part (snd (call_end now unknown started ending g)) = bucket_part g"
    using success.bucket_kept failure.bucket_kept cancellation.bucket_kept
    by (auto simp: call_end_def Let_def split: ending.splits exn.splits)
  assume "1 \<le> rp_failure_threshold (gd_policy g)" "circuit_ok t g" "t \<le> now"
  then show "circuit_ok now (snd (call_end now unknown started ending g))"
    using success.circuit_kept failure.circuit_kept cancellation.circuit_kept
    by (auto simp: call_end_def Let_def split: ending.splits exn.splits)
qed

lemma circuit_ok_later: "circuit_ok t g \<Longrightarrow> t \<le> now \<Longrightarrow> circuit_ok now g"
  by (force simp: circuit_ok_def)

lemma circuit_ok_frame: "circuit_part g' = circuit_part g \<Longrightarrow> gd_policy g' = gd_policy g \<Longrightarrow> circuit_ok t g' = circuit_ok t g"
  by (simp add: circuit_part_def circuit_ok_def)

section \<open>The token bucket\<close>

lemma take_token_frame:
  "take_token now g = (w, g') \<Longrightarrow> gd_policy g' = gd_policy g \<and> gd_slots g' = gd_slots g \<and> circuit_part g' = circuit_part g \<and> gd_last_refill g' = now"
  by (auto simp: take_token_def circuit_part_def Let_def split: if_splits)

lemma take_token_bucket:
  assumes "take_token now g = (w, g')" and "bucket_ok t g" and "t \<le> now" and "resilience_policy_ok (gd_policy g)"
  shows "bucket_ok now g'"
proof -
  have "0 \<le> (now - gd_last_refill g) * rp_requests_per_second (gd_policy g)"
    using assms by (auto simp: bucket_ok_def resilience_policy_ok_def intro!: mult_nonneg_nonneg)
  then show ?thesis using assms by (auto simp: take_token_def bucket_ok_def Let_def split: if_splits)
qed

lemma take_token_ok:
  assumes "take_token now g = (w, g')" and "bucket_ok t g" and "circuit_ok t g" and "t \<le> now" and "resilience_policy_ok (gd_policy g)"
  shows "bucket_ok now g' \<and> circuit_ok now g' \<and> gd_policy g' = gd_policy g \<and> gd_slots g' = gd_slots g"
  using take_token_bucket [OF assms(1,2,4,5)] take_token_frame [OF assms(1)] circuit_ok_frame [of g' g now]
    circuit_ok_later [OF assms(3,4)] by blast

text \<open>The tokens there would be if the bucket were refilled at the given time.\<close>

definition credit :: "rat \<Rightarrow> guard \<Rightarrow> rat" where
  "credit now g = min (of_nat (rp_burst (gd_policy g)))
     (gd_tokens g + (now - gd_last_refill g) * rp_requests_per_second (gd_policy g))"

lemma credit_grows:
  assumes "0 < rp_requests_per_second (gd_policy g)" and "t \<le> now"
  shows "credit now g \<le> credit t g + (now - t) * rp_requests_per_second (gd_policy g)"
proof -
  have "0 \<le> (now - t) * rp_requests_per_second (gd_policy g)" using assms by simp
  moreover have "(now - gd_last_refill g) * rp_requests_per_second (gd_policy g) =
      (t - gd_last_refill g) * rp_requests_per_second (gd_policy g) + (now - t) * rp_requests_per_second (gd_policy g)"
    by (simp add: algebra_simps)
  ultimately show ?thesis by (simp add: credit_def min_def)
qed

context circuit_block
begin

lemma credit_kept [simp]: "credit t (f now g) = credit t g"
  by (simp add: credit_def)

end

lemma credit_release [simp]: "credit t (g\<lparr>gd_slots := n\<rparr>) = credit t g"
  by (simp add: credit_def)

lemma take_token_credit:
  "take_token now g = (w, g') \<Longrightarrow> credit now g' + (if w = None then 1 else 0) = credit now g"
  by (auto simp: take_token_def credit_def Let_def split: if_splits)

text \<open>The token loop ends: a task that is alone and sleeps at least the seconds it computed takes its
  token in the second round at the latest.\<close>

theorem acquire_rate_token_returns:
  assumes "resilience_policy_ok (gd_policy g)" and "bucket_ok t g" and "t \<le> clock k"
    and "\<And>wait g1. take_token (clock k) g = (Some wait, g1) \<Longrightarrow> clock k + wait \<le> clock (Suc k)"
    and "\<And>g. others k g = g"
  shows "\<exists>k' g'. acquire_rate_token clock others k g = Some (k', g') \<and> k' \<le> Suc k"
proof (cases "take_token (clock k) g")
  case (Pair w g1)
  show ?thesis
  proof (cases w)
    case None
    with Pair show ?thesis by (subst acquire_rate_token.simps) simp
  next
    case (Some wait)
    let ?r = "rp_requests_per_second (gd_policy g)"
    have r: "0 < ?r" and b: "1 \<le> (of_nat (rp_burst (gd_policy g)) :: rat)" using assms(1) by (auto simp: resilience_policy_ok_def)
    have g1: "gd_policy g1 = gd_policy g" "gd_last_refill g1 = clock k" using take_token_frame [OF Pair] by auto
    have w: "wait = (1 - gd_tokens g1) / ?r" using Pair Some by (auto simp: take_token_def Let_def split: if_splits)
    have "wait * ?r \<le> (clock (Suc k) - clock k) * ?r"
      using assms(4) Pair Some r by (intro mult_right_mono) (auto simp: algebra_simps)
    moreover have "wait * ?r = 1 - gd_tokens g1" using w r by simp
    ultimately have "1 \<le> gd_tokens g1 + (clock (Suc k) - clock k) * ?r" by simp
    then have "fst (take_token (clock (Suc k)) g1) = None"
      using b by (simp add: take_token_def g1 Let_def)
    then obtain g2 where g2: "take_token (clock (Suc k)) g1 = (None, g2)" by (cases "take_token (clock (Suc k)) g1") auto
    have "acquire_rate_token clock others (Suc k) g1 = Some (Suc k, g2)" by (subst acquire_rate_token.simps) (simp add: g2)
    then have "acquire_rate_token clock others k g = Some (Suc k, g2)"
      by (subst acquire_rate_token.simps) (simp add: Pair Some assms(5))
    then show ?thesis by auto
  qed
qed

section \<open>Concurrent calls\<close>

datatype phase = Queued | Admitted | In_flight

record calls =
  sy_guard :: guard
  sy_phase :: "nat \<Rightarrow> phase option"
  sy_clock :: rat

datatype call_event = Enter nat | Refused nat | Token nat | Wait nat | Slot nat | Done nat

text \<open>The plugin only returns or raises once the call is in flight; the timeout and the cancellation can
  strike in every phase.\<close>

definition can_end :: "phase \<Rightarrow> 'a ending \<Rightarrow> bool" where
  "can_end p ending \<longleftrightarrow> p = In_flight \<or> ending = Timed_out \<or> ending = Cancelled_task"

definition release_slot :: "phase \<Rightarrow> guard \<Rightarrow> guard" where
  "release_slot p g = (if p = In_flight then g\<lparr>gd_slots := gd_slots g + 1\<rparr> else g)"

inductive call_step :: "calls \<Rightarrow> call_event \<Rightarrow> calls \<Rightarrow> bool" where
  enter: "sy_phase s c = None \<Longrightarrow> sy_clock s \<le> now \<Longrightarrow> enter_circuit now (sy_guard s) = (Inr (), g) \<Longrightarrow>
    call_step s (Enter c) \<lparr>sy_guard = g, sy_phase = (sy_phase s)(c \<mapsto> Queued), sy_clock = now\<rparr>"
| refuse: "sy_phase s c = None \<Longrightarrow> sy_clock s \<le> now \<Longrightarrow> enter_circuit now (sy_guard s) = (Inl e, g) \<Longrightarrow>
    call_step s (Refused c) \<lparr>sy_guard = snd (call_end now unknown False (Raised e :: unit ending) g), sy_phase = sy_phase s, sy_clock = now\<rparr>"
| token: "sy_phase s c = Some Queued \<Longrightarrow> sy_clock s \<le> now \<Longrightarrow> take_token now (sy_guard s) = (None, g) \<Longrightarrow>
    call_step s (Token c) \<lparr>sy_guard = g, sy_phase = (sy_phase s)(c \<mapsto> Admitted), sy_clock = now\<rparr>"
| sleep: "sy_phase s c = Some Queued \<Longrightarrow> sy_clock s \<le> now \<Longrightarrow> take_token now (sy_guard s) = (Some wait, g) \<Longrightarrow>
    call_step s (Wait c) \<lparr>sy_guard = g, sy_phase = sy_phase s, sy_clock = now\<rparr>"
| slot: "sy_phase s c = Some Admitted \<Longrightarrow> 0 < gd_slots (sy_guard s) \<Longrightarrow>
    call_step s (Slot c) \<lparr>sy_guard = (sy_guard s)\<lparr>gd_slots := gd_slots (sy_guard s) - 1\<rparr>,
      sy_phase = (sy_phase s)(c \<mapsto> In_flight), sy_clock = sy_clock s\<rparr>"
| finish: "sy_phase s c = Some p \<Longrightarrow> sy_clock s \<le> now \<Longrightarrow> can_end p (ending :: unit ending) \<Longrightarrow>
    call_step s (Done c) \<lparr>sy_guard = release_slot p (snd (call_end now unknown (p = In_flight) ending (sy_guard s))),
      sy_phase = (sy_phase s)(c := None), sy_clock = now\<rparr>"

inductive call_run :: "calls \<Rightarrow> call_event list \<Rightarrow> calls \<Rightarrow> bool" where
  idle: "call_run s [] s"
| step: "call_run s evs s1 \<Longrightarrow> call_step s1 ev s2 \<Longrightarrow> call_run s (evs @ [ev]) s2"

definition fresh_calls :: "resilience_policy \<Rightarrow> rat \<Rightarrow> calls" where
  "fresh_calls policy now = \<lparr>sy_guard = ResilienceGuard policy now, sy_phase = (\<lambda>c. None), sy_clock = now\<rparr>"

definition in_flight :: "calls \<Rightarrow> nat set" where
  "in_flight s = {c. sy_phase s c = Some In_flight}"

definition calls_ok :: "resilience_policy \<Rightarrow> calls \<Rightarrow> bool" where
  "calls_ok policy s \<longleftrightarrow> gd_policy (sy_guard s) = policy \<and> circuit_ok (sy_clock s) (sy_guard s) \<and>
     bucket_ok (sy_clock s) (sy_guard s) \<and> finite (in_flight s) \<and>
     card (in_flight s) + gd_slots (sy_guard s) = rp_max_concurrency policy"

lemma in_flight_simps:
  "in_flight \<lparr>sy_guard = g, sy_phase = (sy_phase s)(c \<mapsto> In_flight), sy_clock = t\<rparr> = insert c (in_flight s)"
  "p \<noteq> In_flight \<Longrightarrow> in_flight \<lparr>sy_guard = g, sy_phase = (sy_phase s)(c \<mapsto> p), sy_clock = t\<rparr> = in_flight s - {c}"
  "in_flight \<lparr>sy_guard = g, sy_phase = (sy_phase s)(c := None), sy_clock = t\<rparr> = in_flight s - {c}"
  "in_flight \<lparr>sy_guard = g, sy_phase = sy_phase s, sy_clock = t\<rparr> = in_flight s"
  by (auto simp: in_flight_def)

lemma not_in_flight: "sy_phase s c \<noteq> Some In_flight \<Longrightarrow> in_flight s - {c} = in_flight s"
  by (auto simp: in_flight_def)

lemma release_slot_simps [simp]:
  "gd_policy (release_slot p g) = gd_policy g" "gd_tokens (release_slot p g) = gd_tokens g"
  "gd_last_refill (release_slot p g) = gd_last_refill g" "circuit_part (release_slot p g) = circuit_part g"
  "gd_slots (release_slot p g) = gd_slots g + (if p = In_flight then 1 else 0)"
  by (simp_all add: release_slot_def circuit_part_def)

lemma call_step_ok:
  assumes "call_step s ev s'" and "resilience_policy_ok policy" and "calls_ok policy s"
  shows "calls_ok policy s'"
  using assms(1)
proof cases
  case (enter c now g)
  then have g: "g = snd (enter_circuit now (sy_guard s))" by simp
  show ?thesis
    using assms(2,3) enter(3,4) enter.circuit_kept [of "sy_guard s" "sy_clock s" now] enter.bucket_ok_kept [of "sy_clock s" "sy_guard s" now]
    unfolding enter(2) by (simp add: calls_ok_def in_flight_simps not_in_flight g resilience_policy_ok_def)
next
  case (refuse c now e g unknown)
  let ?g = "snd (enter_circuit now (sy_guard s))" and ?e = "Raised e :: unit ending"
  have g: "g = ?g" using refuse by simp
  have "circuit_ok now ?g" "bucket_ok now ?g"
    using assms(2,3) refuse(4) enter.circuit_kept [of "sy_guard s" "sy_clock s" now] enter.bucket_ok_kept [of "sy_clock s" "sy_guard s" now]
    by (simp_all add: calls_ok_def resilience_policy_ok_def)
  with assms(2,3) ends.circuit_kept [of ?g now now unknown False ?e] ends.bucket_ok_kept [of now ?g now unknown False ?e]
  show ?thesis unfolding refuse(2) by (simp add: calls_ok_def in_flight_simps g resilience_policy_ok_def)
next
  case (token c now g)
  from assms(3) take_token_ok [OF token(5) _ _ token(4)] assms(2) show ?thesis
    unfolding token(2) using token(3) by (auto simp: calls_ok_def in_flight_simps not_in_flight)
next
  case (sleep c now wait g)
  from assms(3) take_token_ok [OF sleep(5) _ _ sleep(4)] assms(2) show ?thesis
    unfolding sleep(2) by (auto simp: calls_ok_def in_flight_simps)
next
  case (slot c)
  then have "c \<notin> in_flight s" by (simp add: in_flight_def)
  with slot assms(3) show ?thesis by (auto simp: calls_ok_def in_flight_simps circuit_ok_def bucket_ok_def)
next
  case (finish c p now ending unknown)
  let ?g = "snd (call_end now unknown (p = In_flight) ending (sy_guard s))"
  have ok: "circuit_ok now (release_slot p ?g)" "bucket_ok now (release_slot p ?g)" "gd_policy ?g = policy" "gd_slots ?g = gd_slots (sy_guard s)"
    using assms(2,3) finish(4) ends.circuit_kept [of "sy_guard s" "sy_clock s" now unknown "p = In_flight" ending]
      circuit_ok_frame [of "release_slot p ?g" ?g now]
    by (auto simp: calls_ok_def resilience_policy_ok_def bucket_ok_def)
  have "(c \<in> in_flight s) = (p = In_flight)" using finish(3) by (auto simp: in_flight_def)
  then have "card (in_flight s - {c}) + (if p = In_flight then 1 else 0) = card (in_flight s)"
    using assms(3) card_Suc_Diff1 [of "in_flight s" c] by (auto simp: calls_ok_def)
  with ok assms(3) show ?thesis unfolding finish(2) by (auto simp: calls_ok_def in_flight_simps)
qed

lemma fresh_calls_ok: "resilience_policy_ok policy \<Longrightarrow> calls_ok policy (fresh_calls policy now)"
  by (simp add: calls_ok_def fresh_calls_def ResilienceGuard_def circuit_ok_def bucket_ok_def in_flight_def resilience_policy_ok_def)

lemma call_run_ok: "call_run s evs s' \<Longrightarrow> resilience_policy_ok policy \<Longrightarrow> calls_ok policy s \<Longrightarrow> calls_ok policy s'"
  by (induction rule: call_run.induct) (auto intro: call_step_ok)

text \<open>(C19) Whatever calls interleave, however they end: never more than \<open>max_concurrency\<close> plugin operations are
  in flight and the semaphore accounts for each of them; the tokens stay between zero and the burst; a
  closed circuit is below its failure threshold; an open or half-open one knows when it was opened; and
  the probe flag is set exactly while the circuit is half open.\<close>

theorem guard_invariant:
  assumes "resilience_policy_ok policy" and "call_run (fresh_calls policy t) evs s"
  shows "card (in_flight s) \<le> rp_max_concurrency policy \<and>
    gd_slots (sy_guard s) = rp_max_concurrency policy - card (in_flight s) \<and>
    0 \<le> gd_tokens (sy_guard s) \<and> gd_tokens (sy_guard s) \<le> of_nat (rp_burst policy) \<and>
    (gd_state (sy_guard s) = C_CLOSED \<longrightarrow> gd_consecutive_failures (sy_guard s) < rp_failure_threshold policy) \<and>
    (gd_state (sy_guard s) \<noteq> C_CLOSED \<longrightarrow> gd_opened_at (sy_guard s) \<noteq> None) \<and>
    (gd_state (sy_guard s) = C_HALF_OPEN \<longleftrightarrow> gd_half_open_probe_active (sy_guard s))"
  using call_run_ok [OF assms(2,1) fresh_calls_ok [OF assms(1)]]
  by (auto simp: calls_ok_def circuit_ok_def bucket_ok_def)

section \<open>The rate limit\<close>

definition granted :: "call_event list \<Rightarrow> nat" where
  "granted evs = length (filter (\<lambda>ev. case ev of Token c \<Rightarrow> True | _ \<Rightarrow> False) evs)"

lemma call_step_credit:
  assumes "call_step s ev s'" and "resilience_policy_ok policy" and "calls_ok policy s"
  shows "credit (sy_clock s') (sy_guard s') + of_nat (granted [ev]) \<le>
    credit (sy_clock s) (sy_guard s) + (sy_clock s' - sy_clock s) * rp_requests_per_second policy"
proof -
  have policy: "gd_policy (sy_guard s) = policy" "0 < rp_requests_per_second policy"
    using assms(2,3) by (auto simp: calls_ok_def resilience_policy_ok_def)
  note grows = credit_grows [of "sy_guard s" "sy_clock s", unfolded policy(1), OF policy(2)]
  from assms(1) show ?thesis
  proof cases
    case (enter c now g)
    then have "g = snd (enter_circuit now (sy_guard s))" by simp
    with enter(1,2,4) grows show ?thesis by (simp add: granted_def)
  next
    case (refuse c now e g unknown)
    then have "g = snd (enter_circuit now (sy_guard s))" by simp
    with refuse(1,2,4) grows show ?thesis by (simp add: granted_def)
  next
    case (token c now g)
    with grows [of now] take_token_credit [of now "sy_guard s" None g] show ?thesis by (simp add: granted_def)
  next
    case (sleep c now wait g)
    with grows [of now] take_token_credit [of now "sy_guard s" "Some wait" g] show ?thesis by (simp add: granted_def)
  next
    case (slot c)
    then show ?thesis by (simp add: granted_def credit_def)
  next
    case (finish c p now ending unknown)
    with grows show ?thesis by (simp add: granted_def release_slot_def)
  qed
qed

lemma call_run_credit:
  assumes "call_run s evs s'" and "resilience_policy_ok policy" and "calls_ok policy s"
  shows "credit (sy_clock s') (sy_guard s') + of_nat (granted evs) \<le>
    credit (sy_clock s) (sy_guard s) + (sy_clock s' - sy_clock s) * rp_requests_per_second policy"
  using assms
proof (induction rule: call_run.induct)
  case (step s evs s1 ev s2)
  have ok: "calls_ok policy s1" using call_run_ok step by blast
  have "granted (evs @ [ev]) = granted evs + granted [ev]" by (simp add: granted_def)
  with step call_step_credit [OF step.hyps(2) step.prems(1) ok] show ?case by (simp add: algebra_simps)
qed (simp add: granted_def)

text \<open>(C17) The rate limit: between any two moments of any interleaving, the number of calls that received a
  rate token is at most the burst plus \<open>requests_per_second\<close> times the elapsed seconds.\<close>

theorem rate_limit:
  assumes "resilience_policy_ok policy" and "call_run (fresh_calls policy t) evs s" and "call_run s evs' s'"
  shows "of_nat (granted evs') \<le> of_nat (rp_burst policy) + (sy_clock s' - sy_clock s) * rp_requests_per_second policy"
proof -
  have ok: "calls_ok policy s" by (rule call_run_ok [OF assms(2,1) fresh_calls_ok [OF assms(1)]])
  have "calls_ok policy s'" by (rule call_run_ok [OF assms(3,1) ok])
  then have "0 \<le> credit (sy_clock s') (sy_guard s')"
    using assms(1) by (auto simp: credit_def calls_ok_def bucket_ok_def resilience_policy_ok_def intro!: add_nonneg_nonneg mult_nonneg_nonneg)
  moreover have "credit (sy_clock s) (sy_guard s) \<le> of_nat (rp_burst policy)" using ok by (auto simp: credit_def calls_ok_def)
  ultimately show ?thesis using call_run_credit [OF assms(3,1) ok] by simp
qed

section \<open>Admission\<close>


section \<open>A probe that is never settled\<close>

text \<open>A recovery probe whose plugin raises an error that itself carries a \<open>circuit_state\<close> detail, such as
  the refusal of a nested guard relayed by the plugin, is not recorded: the circuit stays half open
  with its probe flag set although nothing is in flight, and from then on every call is refused at
  every later time.\<close>

theorem unsettled_probe_blocks:
  assumes "gd_state g = C_HALF_OPEN" and "gd_half_open_probe_active g"
    and "obj_get (ae_details e) ''circuit_state'' = Some (JStr v)"
  shows "call_end now unknown started (Raised (AdapterExn e)) g = (Inl (AdapterExn e), g) \<and>
    (\<forall>later. enter_circuit later g = (Inl (circuit_refusal ''plugin circuit recovery probe is already running'' C_HALF_OPEN), g))"
  using assms by (simp add: call_end_def record_failure_def enter_circuit_def enter_half_open_def)

section \<open>An example\<close>

definition demo_resilience :: resilience_policy where
  "demo_resilience = \<lparr>rp_timeout_seconds = 10, rp_max_concurrency = 1, rp_requests_per_second = 1, rp_burst = 1,
     rp_failure_threshold = 1, rp_recovery_seconds = 30\<rparr>"

lemma demo_resilience_ok: "resilience_policy_ok demo_resilience"
  by (simp add: demo_resilience_def resilience_policy_ok_def)

definition demo_busy :: calls where
  "demo_busy = \<lparr>sy_guard = (ResilienceGuard demo_resilience 0)\<lparr>gd_tokens := 0, gd_slots := 0\<rparr>, sy_phase = [7 \<mapsto> In_flight], sy_clock = 0\<rparr>"

definition demo_broken :: calls where
  "demo_broken = \<lparr>sy_guard = (ResilienceGuard demo_resilience 0)\<lparr>gd_tokens := 0, gd_state := C_OPEN, gd_consecutive_failures := 1,
     gd_opened_at := Some 5\<rparr>, sy_phase = (\<lambda>c. None), sy_clock = 5\<rparr>"

lemmas demo_guard_defs = fresh_calls_def ResilienceGuard_def demo_resilience_def demo_busy_def demo_broken_def enter_circuit_def
  enter_half_open_def take_token_def call_end_def timeout_error_def AdapterError_def record_failure_def release_slot_def obj_get_def TRANSIENT_FAILURES_def Let_def

lemma demo_busy_run: "call_run (fresh_calls demo_resilience 0) [Enter 7, Token 7, Slot 7] demo_busy"
proof -
  let ?g = "ResilienceGuard demo_resilience 0"
  have e: "call_step (fresh_calls demo_resilience 0) (Enter 7) \<lparr>sy_guard = ?g, sy_phase = [7 \<mapsto> Queued], sy_clock = 0\<rparr>"
    using call_step.enter [of "fresh_calls demo_resilience 0" 7 0 ?g] by (simp add: demo_guard_defs)
  have t: "call_step \<lparr>sy_guard = ?g, sy_phase = [7 \<mapsto> Queued], sy_clock = 0\<rparr> (Token 7)
      \<lparr>sy_guard = ?g\<lparr>gd_tokens := 0\<rparr>, sy_phase = [7 \<mapsto> Admitted], sy_clock = 0\<rparr>"
    using call_step.token [of "\<lparr>sy_guard = ?g, sy_phase = [7 \<mapsto> Queued], sy_clock = 0\<rparr>" 7 0 "?g\<lparr>gd_tokens := 0\<rparr>"] by (simp add: demo_guard_defs)
  have s: "call_step \<lparr>sy_guard = ?g\<lparr>gd_tokens := 0\<rparr>, sy_phase = [7 \<mapsto> Admitted], sy_clock = 0\<rparr> (Slot 7) demo_busy"
    using call_step.slot [of "\<lparr>sy_guard = ?g\<lparr>gd_tokens := 0\<rparr>, sy_phase = [7 \<mapsto> Admitted], sy_clock = 0\<rparr>" 7] by (simp add: demo_guard_defs)
  from call_run.step [OF call_run.step [OF call_run.step [OF call_run.idle e] t] s] show ?thesis by simp
qed

lemma demo_broken_run: "call_run demo_busy [Done 7] demo_broken"
proof -
  have "call_step demo_busy (Done 7) demo_broken"
    using call_step.finish [of demo_busy 7 In_flight 5 Timed_out False] by (simp add: demo_guard_defs can_end_def)
  from call_run.step [OF call_run.idle this] show ?thesis by simp
qed

theorem guard_invariant_witness: "card (in_flight demo_busy) \<le> 1 \<and> 0 \<le> gd_tokens (sy_guard demo_busy)"
  using guard_invariant [OF demo_resilience_ok demo_busy_run] by (simp add: demo_resilience_def)

theorem rate_limit_witness: "(of_nat (granted [Enter 7, Token 7, Slot 7]) :: rat) \<le> 1 \<and> granted [Enter 7, Token 7, Slot 7] = 1"
  using rate_limit [OF demo_resilience_ok call_run.idle demo_busy_run] by (simp add: demo_guard_defs granted_def)

lemma call_run_append: "call_run s2 evs' s3 \<Longrightarrow> call_run s1 evs s2 \<Longrightarrow> call_run s1 (evs @ evs') s3"
  by (induction rule: call_run.induct) (auto intro: call_run.step simp flip: append_assoc)


theorem unsettled_probe_blocks_witness:
  "enter_circuit 1000000 ((ResilienceGuard demo_resilience 0)\<lparr>gd_state := C_HALF_OPEN, gd_half_open_probe_active := True\<rparr>) =
     (Inl (circuit_refusal ''plugin circuit recovery probe is already running'' C_HALF_OPEN),
      (ResilienceGuard demo_resilience 0)\<lparr>gd_state := C_HALF_OPEN, gd_half_open_probe_active := True\<rparr>)"
proof -
  let ?g = "(ResilienceGuard demo_resilience 0)\<lparr>gd_state := C_HALF_OPEN, gd_half_open_probe_active := True\<rparr>"
  let ?e = "AdapterError ''nested'' K_UNAVAILABLE RETRY_SAFE False [(''circuit_state'', JStr ''open'')]"
  have "obj_get (ae_details ?e) ''circuit_state'' = Some (JStr ''open'')" by (simp add: AdapterError_def obj_get_def)
  from unsettled_probe_blocks [of ?g ?e, OF _ _ this, THEN conjunct2, THEN spec, of 1000000] show ?thesis by simp
qed

theorem acquire_rate_token_returns_witness:
  "\<exists>k' g'. acquire_rate_token (\<lambda>k. of_nat k) (\<lambda>k g. g) 0 (sy_guard demo_busy) = Some (k', g') \<and> k' \<le> 1"
  using acquire_rate_token_returns [of "sy_guard demo_busy" 0 "\<lambda>k. of_nat k" 0 "\<lambda>k g. g"] demo_resilience_ok
  by (simp add: demo_guard_defs bucket_ok_def)

end
