(* ===== verification/GuardedCall.thy ===== *)
theory GuardedCall
  imports ResilienceLaws Digests Catalog
begin

text \<open>
  One whole \<open>ResilienceGuard.call\<close> and what it reports to Prometheus (\<open>metrics.py\<close>). A schedule says at which clock
  readings the call gets to run, what other tasks do to the guard while it waits, and whether the awaited part
  is interrupted before the plugin's operation is over. The call yields its result, the guard and the metric
  events in order. Run on its own, a call is a run of \<^const>\<open>call_step\<close>; whatever the schedule, its events
  balance.
\<close>

section \<open>Metrics\<close>

text \<open>The events carry the labels other than the plugin, which is the guard's own.\<close>

datatype metric_event =
    Circuit_gauge rat
  | Queue_seconds rat
  | In_flight_inc
  | In_flight_dec
  | Call_count string string
  | Call_seconds string rat

fun circuit_gauge :: "circuit_state \<Rightarrow> rat" where
  "circuit_gauge C_CLOSED = 0"
| "circuit_gauge C_HALF_OPEN = 1 / 2"
| "circuit_gauge C_OPEN = 1"

text \<open>Which of the guard's blocks set the gauge, and to what.\<close>

definition enter_gauge :: "rat \<Rightarrow> guard \<Rightarrow> metric_event list" where
  "enter_gauge now g =
     (if gd_state g = C_OPEN
      then let opened_at = (case gd_opened_at g of None \<Rightarrow> now | Some t \<Rightarrow> t)
           in if now - opened_at < rp_recovery_seconds (gd_policy g) then [] else [Circuit_gauge (1 / 2)]
      else [])"

definition failure_gauge :: "adapter_error \<Rightarrow> guard \<Rightarrow> metric_event list" where
  "failure_gauge error g =
     (if obj_get (ae_details error) ''circuit_state'' \<notin> {None, Some JNull} then []
      else if ae_kind error \<notin> set TRANSIENT_FAILURES then (if gd_state g = C_HALF_OPEN then [Circuit_gauge 0] else [])
      else if gd_state g = C_HALF_OPEN \<or> gd_consecutive_failures g + 1 \<ge> rp_failure_threshold (gd_policy g) then [Circuit_gauge 1]
      else [])"

definition cancellation_gauge :: "guard \<Rightarrow> metric_event list" where
  "cancellation_gauge g = (if gd_state g = C_HALF_OPEN then [Circuit_gauge 1] else [])"

definition end_gauge :: "bool \<Rightarrow> bool \<Rightarrow> 'a ending \<Rightarrow> guard \<Rightarrow> metric_event list" where
  "end_gauge unknown_on_started_timeout operation_started ending g =
     (case ending of
        Returned x \<Rightarrow> [Circuit_gauge 0]
      | Timed_out \<Rightarrow> failure_gauge (timeout_error (operation_started \<and> unknown_on_started_timeout)) g
      | Cancelled_task \<Rightarrow> cancellation_gauge g
      | Raised (AdapterExn e) \<Rightarrow> failure_gauge e g
      | Raised _ \<Rightarrow> failure_gauge (AdapterError ''plugin operation failed'' K_UNEXPECTED RETRY_NEVER False []) g)"

fun outcome_label :: "'a ending \<Rightarrow> string" where
  "outcome_label (Returned x) = ''success''"
| "outcome_label Timed_out = ''timeout''"
| "outcome_label Cancelled_task = ''cancelled''"
| "outcome_label (Raised e) = ''error''"

text \<open>The \<open>finally\<close> block.\<close>

definition final_events :: "string \<Rightarrow> phase \<Rightarrow> 'a ending \<Rightarrow> rat \<Rightarrow> metric_event list" where
  "final_events operation p ending elapsed =
     (if p = In_flight then [In_flight_dec] else []) @
     [Call_count operation (outcome_label ending), Call_seconds operation elapsed]"

section \<open>A whole call\<close>

text \<open>What may strike while a call waits: the deadline of \<open>asyncio.timeout\<close> or a cancellation.\<close>

datatype interruption = Deadline | Cancellation

fun interrupted :: "interruption \<Rightarrow> 'a ending" where
  "interrupted Deadline = Timed_out"
| "interrupted Cancellation = Cancelled_task"

text \<open>What a plugin's operation does to the call once it is over. A \<open>TimeoutError\<close> or \<open>CancelledError\<close> of its own is
  handled like the guard's.\<close>

definition factory_ending :: "exn + 'a \<Rightarrow> 'a ending" where
  "factory_ending r = (case r of
     Inr x \<Rightarrow> Returned x
   | Inl e \<Rightarrow> if e = OtherException ''TimeoutError'' then Timed_out
       else if e = OtherException ''CancelledError'' then Cancelled_task else Raised e)"

text \<open>\<open>sc_rounds\<close> are the clock readings of the rounds of the token loop that run before \<open>sc_strike\<close>, if it strikes there;
  \<open>sc_slot\<close> says that the semaphore is granted before it, \<open>sc_in_time\<close> that the plugin's operation is over before it.
  \<open>sc_others k\<close> is what other tasks do to the guard at the k-th wait.\<close>

record schedule =
  sc_started :: rat
  sc_enter :: rat
  sc_rounds :: "rat list"
  sc_slot :: bool
  sc_granted :: rat
  sc_in_time :: bool
  sc_strike :: interruption
  sc_record :: rat
  sc_finished :: rat
  sc_others :: "nat \<Rightarrow> guard \<Rightarrow> guard"

text \<open>The token loop up to the interruption: whether a token was taken.\<close>

fun token_rounds :: "(guard \<Rightarrow> guard) \<Rightarrow> rat list \<Rightarrow> guard \<Rightarrow> bool \<times> guard" where
  "token_rounds others [] g = (False, g)"
| "token_rounds others (t # ts) g =
     (case take_token t g of
        (None, g1) \<Rightarrow> (True, g1)
      | (Some wait, g1) \<Rightarrow> token_rounds others ts (others g1))"

definition take_slot :: "guard \<Rightarrow> guard" where
  "take_slot g = g\<lparr>gd_slots := gd_slots g - 1\<rparr>"

definition awaited :: "'a guarded \<Rightarrow> schedule \<Rightarrow> guard \<Rightarrow> 'a ending \<times> phase \<times> guard \<times> metric_event list" where
  "awaited c s g =
     (case token_rounds (sc_others s 1) (sc_rounds s) g of
        (False, g1) \<Rightarrow> (interrupted (sc_strike s), Queued, g1, [])
      | (True, g1) \<Rightarrow>
          (let g2 = sc_others s 2 g1 in
           if sc_slot s \<and> 0 < gd_slots g2
           then (if sc_in_time s then factory_ending (gc_factory c) else interrupted (sc_strike s), In_flight,
                 sc_others s 3 (take_slot g2), [Queue_seconds (sc_granted s - sc_started s), In_flight_inc])
           else (interrupted (sc_strike s), Admitted, g2, [])))"

definition guard_call :: "'a guarded \<Rightarrow> schedule \<Rightarrow> guard \<Rightarrow> (exn + 'a) \<times> guard \<times> metric_event list" where
  "guard_call c s g =
     (let (entered, g1) = enter_circuit (sc_enter s) g;
          (ending, p, g2, evs) =
            (case entered of Inl e \<Rightarrow> (Raised e, Queued, g1, []) | Inr _ \<Rightarrow> awaited c s g1);
          g3 = sc_others s 4 g2;
          (r, g4) = call_end (sc_record s) (gc_unknown c) (p = In_flight) ending g3
      in (r, release_slot p g4,
          enter_gauge (sc_enter s) g @ evs @ end_gauge (gc_unknown c) (p = In_flight) ending g3 @
          final_events (gc_operation c) p ending (sc_finished s - sc_started s)))"

text \<open>\<open>ResilientAdapter.health\<close> and \<open>ResilientStatusProvider.observe\<close>: the plugin's answer with a snapshot of the guard in
  its details.\<close>

definition health_with_resilience ::
  "(rat \<Rightarrow> string) \<Rightarrow> adapter \<Rightarrow> schedule \<Rightarrow> rat \<Rightarrow> guard \<Rightarrow> (exn + adapter_health) \<times> guard \<times> metric_event list" where
  "health_with_resilience float_repr adapter s now g =
     (case guard_call (resilient_health adapter) s g of
        (Inr health, g1, evs) \<Rightarrow>
          (Inr (health\<lparr>ah_details := with_resilience float_repr (snapshot now g1) (ah_details health)\<rparr>), g1, evs)
      | (Inl e, g1, evs) \<Rightarrow> (Inl e, g1, evs))"

definition resilient_status :: "exn + status_value \<Rightarrow> status_value guarded" where
  "resilient_status provider = \<lparr>gc_operation = ''status.observe'', gc_factory = provider, gc_unknown = False, gc_timeout = None\<rparr>"

definition status_with_resilience ::
  "(rat \<Rightarrow> string) \<Rightarrow> exn + status_value \<Rightarrow> schedule \<Rightarrow> rat \<Rightarrow> guard \<Rightarrow> (exn + status_value) \<times> guard \<times> metric_event list" where
  "status_with_resilience float_repr provider s now g =
     (case guard_call (resilient_status provider) s g of
        (Inr v, g1, evs) \<Rightarrow> (Inr (v\<lparr>sv_details := with_resilience float_repr (snapshot now g1) (sv_details v)\<rparr>), g1, evs)
      | (Inl e, g1, evs) \<Rightarrow> (Inl e, g1, evs))"

section \<open>The account of a call\<close>

fun counts_call :: "metric_event \<Rightarrow> bool" where
  "counts_call (Call_count operation outcome) = True"
| "counts_call _ = False"

fun counts_flight :: "metric_event \<Rightarrow> bool" where
  "counts_flight In_flight_inc = True"
| "counts_flight In_flight_dec = True"
| "counts_flight _ = False"

lemma gauge_events [simp]:
  "filter counts_call (enter_gauge now g) = []" "filter counts_flight (enter_gauge now g) = []"
  "filter counts_call (failure_gauge e g) = []" "filter counts_flight (failure_gauge e g) = []"
  "filter counts_call (cancellation_gauge g) = []" "filter counts_flight (cancellation_gauge g) = []"
  by (simp_all add: enter_gauge_def failure_gauge_def cancellation_gauge_def Let_def)

text \<open>The adapter error an exception is turned into, and each ending in one equation.\<close>

definition as_adapter_error :: "exn \<Rightarrow> adapter_error" where
  "as_adapter_error e = (case e of AdapterExn a \<Rightarrow> a | _ \<Rightarrow> AdapterError ''plugin operation failed'' K_UNEXPECTED RETRY_NEVER False [])"

lemma call_end_simps:
  "call_end now u st (Returned x) g = (Inr x, record_success g)"
  "call_end now u st Timed_out g = (Inl (AdapterExn (timeout_error (st \<and> u))), record_failure now (timeout_error (st \<and> u)) g)"
  "call_end now u st Cancelled_task g = (Inl (OtherException ''CancelledError''), record_cancellation now g)"
  "call_end now u st (Raised e) g = (Inl (AdapterExn (as_adapter_error e)), record_failure now (as_adapter_error e) g)"
  by (simp_all add: call_end_def Let_def as_adapter_error_def split: exn.split)

lemma end_gauge_simps:
  "end_gauge u st (Returned x) g = [Circuit_gauge 0]"
  "end_gauge u st Timed_out g = failure_gauge (timeout_error (st \<and> u)) g"
  "end_gauge u st Cancelled_task g = cancellation_gauge g"
  "end_gauge u st (Raised e) g = failure_gauge (as_adapter_error e) g"
  by (simp_all add: end_gauge_def as_adapter_error_def split: exn.split)

lemma end_gauge_events [simp]:
  "filter counts_call (end_gauge u st ending g) = []" "filter counts_flight (end_gauge u st ending g) = []"
  by (cases ending; simp add: end_gauge_simps)+

lemma awaited_events:
  assumes "awaited c s g = (ending, p, g', evs)"
  shows "filter counts_call evs = []" "filter counts_flight evs = (if p = In_flight then [In_flight_inc] else [])"
  using assms by (auto simp: awaited_def Let_def split: prod.splits bool.splits if_splits)

lemma awaited_returned:
  assumes "awaited c s g = (Returned x, p, g', evs)"
  shows "p = In_flight \<and> gc_factory c = Inr x"
  using assms by (cases "sc_strike s") (auto simp: awaited_def factory_ending_def Let_def split: prod.splits bool.splits if_splits sum.splits)

lemma call_end_Inr: "fst (call_end now u st ending g) = Inr x \<longleftrightarrow> ending = Returned x"
  by (cases ending) (auto simp: call_end_simps)

lemma call_end_Inl: "fst (call_end now u st ending g) = Inl e \<Longrightarrow> (\<exists>a. e = AdapterExn a) \<or> ending = Cancelled_task \<and> e = OtherException ''CancelledError''"
  by (cases ending) (auto simp: call_end_simps)

text \<open>Every guarded call keeps its books, whatever other tasks do and wherever it is interrupted: it is counted exactly
  once, as a success exactly if it returns a value, and then the value is the plugin's own; the in-flight gauge goes up once and down once
  if the plugin's operation was started and stays untouched otherwise; and all a caller sees of a failure is
  an adapter error or its own cancellation.\<close>

theorem guarded_call_accounts:
  "case guard_call c s g of (r, g', evs) \<Rightarrow>
     (\<exists>outcome. filter counts_call evs = [Call_count (gc_operation c) outcome] \<and> (outcome = ''success'' \<longleftrightarrow> (\<exists>x. r = Inr x))) \<and>
     (filter counts_flight evs = [In_flight_inc, In_flight_dec] \<or> filter counts_flight evs = [] \<and> (\<nexists>x. r = Inr x)) \<and>
     (case r of Inr x \<Rightarrow> gc_factory c = Inr x | Inl e \<Rightarrow> e \<in> range AdapterExn \<union> {OtherException ''CancelledError''})"
proof -
  obtain entered g1 where enter: "enter_circuit (sc_enter s) g = (entered, g1)" by force
  obtain ending p g2 evs where await: "(case entered of Inl e \<Rightarrow> (Raised e, Queued, g1, []) | Inr _ \<Rightarrow> awaited c s g1) = (ending, p, g2, evs)"
    by (metis prod_cases4)
  obtain r g4 where ended: "call_end (sc_record s) (gc_unknown c) (p = In_flight) ending (sc_others s 4 g2) = (r, g4)" by force
  have evs: "filter counts_call evs = []" "filter counts_flight evs = (if p = In_flight then [In_flight_inc] else [])"
    using await awaited_events [of c s g1 ending p g2 evs] by (auto split: sum.splits)
  have returned: "ending = Returned x \<Longrightarrow> p = In_flight \<and> gc_factory c = Inr x" for x
    using await awaited_returned [of c s g1 x p g2 evs] by (auto split: sum.splits)
  have label: "outcome_label ending = ''success'' \<longleftrightarrow> (\<exists>x. ending = Returned x)" by (cases ending) auto
  have r: "r = Inr x \<longleftrightarrow> ending = Returned x" for x using call_end_Inr [of "sc_record s" "gc_unknown c" "p = In_flight" ending "sc_others s 4 g2" x] ended by simp
  have fails: "r = Inl e \<Longrightarrow> e \<in> range AdapterExn \<union> {OtherException ''CancelledError''}" for e
    using call_end_Inl [of "sc_record s" "gc_unknown c" "p = In_flight" ending "sc_others s 4 g2" e] ended by auto
  have "guard_call c s g = (r, release_slot p g4, enter_gauge (sc_enter s) g @ evs @ end_gauge (gc_unknown c) (p = In_flight) ending (sc_others s 4 g2) @
      final_events (gc_operation c) p ending (sc_finished s - sc_started s))"
    by (simp add: guard_call_def enter await ended)
  then show ?thesis using returned fails r by (cases r) (auto simp: evs label final_events_def)
qed

section \<open>A started mutation\<close>

text \<open>A mutation that may have happened is never reported as safe to repeat: when a guarded \<open>execute\<close> of a mutating
  action is interrupted by its deadline after the plugin's operation was started, the caller gets an unknown outcome
  that has to be reconciled; interrupted before, nothing was started and the timeout is safe to retry.\<close>

theorem guarded_execute_timeout:
  assumes "ad_mutation action" and "sc_strike s = Deadline" and "\<not> sc_in_time s" and "fst (enter_circuit (sc_enter s) g) = Inr ()"
  shows "case guard_call (resilient_execute adapter action request) s g of (r, g', evs) \<Rightarrow>
    r = Inl (AdapterExn (if In_flight_inc \<in> set evs then UnknownOutcome ''plugin operation timed out'' []
      else AdapterError ''plugin operation timed out'' K_TIMEOUT RETRY_SAFE False []))"
proof -
  let ?c = "resilient_execute adapter action request"
  obtain g1 where enter: "enter_circuit (sc_enter s) g = (Inr (), g1)" using assms(4) by (cases "enter_circuit (sc_enter s) g") auto
  obtain ending p g2 evs where await: "awaited ?c s g1 = (ending, p, g2, evs)" by (metis prod_cases4)
  have ending: "ending = Timed_out"
    using await assms(2,3) by (auto simp: awaited_def Let_def split: prod.splits bool.splits if_splits)
  have unknown: "gc_unknown ?c" using assms(1) by (simp add: resilient_execute_def)
  have flight: "In_flight_inc \<in> set es \<longleftrightarrow> In_flight_inc \<in> set (filter counts_flight es)" for es by simp
  have "In_flight_inc \<in> set evs \<longleftrightarrow> p = In_flight" using awaited_events(2) [OF await] flight [of evs] by simp
  moreover have "In_flight_inc \<notin> set (enter_gauge now g)" "In_flight_inc \<notin> set (end_gauge u st (e :: adapter_execution ending) g)"
    "In_flight_inc \<notin> set (final_events o' p e z)" for now u st e o' z g
    using flight [of "enter_gauge now g"] flight [of "end_gauge u st e g"] by (simp_all add: final_events_def)
  ultimately show ?thesis
    using await [unfolded ending] by (simp add: guard_call_def enter call_end_def timeout_error_def unknown Let_def)
qed

section \<open>A call as a run of the step relation\<close>

text \<open>What the circuit gauge shows after some events.\<close>

definition gauge_after :: "rat \<Rightarrow> metric_event list \<Rightarrow> rat" where
  "gauge_after v evs = foldl (\<lambda>v e. case e of Circuit_gauge x \<Rightarrow> x | _ \<Rightarrow> v) v evs"

lemma gauge_after_append [simp]: "gauge_after v (xs @ ys) = gauge_after (gauge_after v xs) ys"
  by (simp add: gauge_after_def)

lemma gauge_after_enter: "gauge_after (circuit_gauge (gd_state g)) (enter_gauge now g) = circuit_gauge (gd_state (snd (enter_circuit now g)))"
  by (simp add: gauge_after_def enter_gauge_def enter_circuit_def enter_half_open_def Let_def)

lemma gauge_after_failure: "gauge_after (circuit_gauge (gd_state g)) (failure_gauge e g) = circuit_gauge (gd_state (record_failure now e g))"
  by (simp add: gauge_after_def failure_gauge_def record_failure_def Let_def)

lemma gauge_after_end: "gauge_after (circuit_gauge (gd_state g)) (end_gauge u st ending g) = circuit_gauge (gd_state (snd (call_end now u st ending g)))"
proof (cases ending)
  case (Returned x)
  then show ?thesis by (simp add: call_end_simps end_gauge_simps record_success_def gauge_after_def)
next
  case Cancelled_task
  then show ?thesis by (simp add: call_end_simps end_gauge_simps cancellation_gauge_def record_cancellation_def gauge_after_def)
qed (simp_all add: call_end_simps end_gauge_simps gauge_after_failure)

lemma gauge_after_final [simp]: "gauge_after v (final_events o' p ending t) = v"
  by (simp add: gauge_after_def final_events_def)

lemma call_end_guard: "snd (call_end now u st ending g) = snd (call_end now u st (map_ending (\<lambda>x. ()) ending) g)"
  by (cases ending) (simp_all add: call_end_simps)

text \<open>A refusal by the circuit itself does not count as a failure of the plugin.\<close>

lemma refusal_not_recorded: "enter_circuit t g = (Inl e, g1) \<Longrightarrow> record_failure now (as_adapter_error e) g1 = g1"
proof -
  have "record_failure now (as_adapter_error (circuit_refusal m st)) g1 = g1" for m st
    by (simp add: record_failure_def as_adapter_error_def circuit_refusal_def AdapterError_def obj_get_def)
  then show "enter_circuit t g = (Inl e, g1) \<Longrightarrow> ?thesis"
    by (auto simp: enter_circuit_def enter_half_open_def Let_def split: if_splits)
qed

lemma call_run_one: "call_step s ev s' \<Longrightarrow> call_run s [ev] s'"
  using call_run.step [OF call_run.idle] by fastforce

text \<open>The token loop of one call, step by step.\<close>

lemma token_rounds_run:
  assumes "token_rounds (\<lambda>g. g) ts (sy_guard S) = (got, g')" and "sy_phase S c = Some Queued"
    and "sorted ts" and "list_all (\<lambda>t. sy_clock S \<le> t \<and> t \<le> now) ts" and "sy_clock S \<le> now"
  shows "\<exists>evs S'. call_run S evs S' \<and> sy_guard S' = g' \<and> sy_clock S' \<le> now \<and>
    sy_phase S' = (if got then (sy_phase S)(c \<mapsto> Admitted) else sy_phase S)"
  using assms
proof (induction ts arbitrary: S)
  case Nil
  then show ?case using call_run.idle by fastforce
next
  case (Cons t ts)
  obtain w g1 where take: "take_token t (sy_guard S) = (w, g1)" by force
  show ?case
  proof (cases w)
    case None
    let ?S = "\<lparr>sy_guard = g1, sy_phase = (sy_phase S)(c \<mapsto> Admitted), sy_clock = t\<rparr>"
    have "call_step S (Token c) ?S" using Cons.prems take None by (intro call_step.token) auto
    then have "call_run S [Token c] ?S" by (rule call_run_one)
    moreover have "got" "g' = g1" "t \<le> now" using Cons.prems take None by simp_all
    ultimately show ?thesis by (intro exI [of _ "[Token c]"] exI [of _ ?S]) simp
  next
    case (Some wait)
    let ?S = "\<lparr>sy_guard = g1, sy_phase = sy_phase S, sy_clock = t\<rparr>"
    have "call_step S (Wait c) ?S" using Cons.prems take Some by (intro call_step.sleep) auto
    then have step: "call_run S [Wait c] ?S" by (rule call_run_one)
    have "\<exists>evs S'. call_run ?S evs S' \<and> sy_guard S' = g' \<and> sy_clock S' \<le> now \<and>
        sy_phase S' = (if got then (sy_phase ?S)(c \<mapsto> Admitted) else sy_phase ?S)"
      using Cons.prems take Some by (intro Cons.IH) (auto simp: list_all_iff)
    then obtain evs S' where rest: "call_run ?S evs S'" "sy_guard S' = g'" "sy_clock S' \<le> now"
        "sy_phase S' = (if got then (sy_phase S)(c \<mapsto> Admitted) else sy_phase S)" by auto
    show ?thesis using call_run_append [OF rest(1) step] rest(2-4) by blast
  qed
qed

lemma token_rounds_state: "token_rounds (\<lambda>g. g) ts g = (got, g') \<Longrightarrow> gd_state g' = gd_state g"
proof (induction ts arbitrary: g)
  case (Cons t ts)
  obtain w g1 where take: "take_token t g = (w, g1)" by force
  then have "gd_state g1 = gd_state g" using take_token_frame [OF take] by (simp add: circuit_part_def)
  with Cons take show ?case by (cases w) auto
qed simp

text \<open>The awaited part leaves the call in the phase it reports, and its ending is one that phase allows.\<close>

lemma awaited_run:
  assumes "awaited c s (sy_guard S) = (ending, p, g', evs)" and "sc_others s = (\<lambda>k g. g)" and "sy_phase S n = Some Queued"
    and "sorted (sc_rounds s)" and "list_all (\<lambda>t. sy_clock S \<le> t \<and> t \<le> now) (sc_rounds s)" and "sy_clock S \<le> now"
  shows "can_end p ending \<and> gauge_after v evs = v \<and> gd_state g' = gd_state (sy_guard S) \<and>
    (\<exists>es S'. call_run S es S' \<and> sy_guard S' = g' \<and> sy_clock S' \<le> now \<and> sy_phase S' = (sy_phase S)(n \<mapsto> p))"
proof -
  have strike: "can_end p (interrupted i)" for p i by (cases i) (simp_all add: can_end_def)
  obtain got g1 where rounds: "token_rounds (\<lambda>g. g) (sc_rounds s) (sy_guard S) = (got, g1)" by force
  from token_rounds_run [OF this assms(3-6)] obtain es S1 where S1: "call_run S es S1" "sy_guard S1 = g1" "sy_clock S1 \<le> now"
    "sy_phase S1 = (if got then (sy_phase S)(n \<mapsto> Admitted) else sy_phase S)" by blast
  note state = token_rounds_state [OF rounds]
  consider "\<not> got" | "got" "\<not> (sc_slot s \<and> 0 < gd_slots g1)" | "got" "sc_slot s" "0 < gd_slots g1" by blast
  then show ?thesis
  proof cases
    case 1
    then have "sy_phase S1 = (sy_phase S)(n \<mapsto> Queued)" using S1(4) assms(3) by auto
    moreover have "ending = interrupted (sc_strike s)" "p = Queued" "g' = g1" "evs = []"
      using assms(1,2) rounds 1 by (simp_all add: awaited_def)
    ultimately show ?thesis using S1 state strike by (auto simp: gauge_after_def)
  next
    case 2
    then have "ending = interrupted (sc_strike s)" "p = Admitted" "g' = g1" "evs = []"
      using assms(1,2) rounds by (auto simp: awaited_def Let_def)
    then show ?thesis using S1 2 state strike by (auto simp: gauge_after_def)
  next
    case 3
    let ?S = "\<lparr>sy_guard = take_slot g1, sy_phase = (sy_phase S1)(n \<mapsto> In_flight), sy_clock = sy_clock S1\<rparr>"
    have "call_step S1 (Slot n) ?S" using call_step.slot [of S1 n] S1 3 by (simp add: take_slot_def)
    from call_run_append [OF call_run_one [OF this] S1(1)] have "call_run S (es @ [Slot n]) ?S" .
    moreover have "p = In_flight" "g' = take_slot g1" "evs = [Queue_seconds (sc_granted s - sc_started s), In_flight_inc]"
      using assms(1,2) rounds 3 by (simp_all add: awaited_def Let_def)
    ultimately show ?thesis using S1 3 state
      by (intro conjI exI [of _ "es @ [Slot n]"] exI [of _ ?S]) (simp_all add: can_end_def gauge_after_def take_slot_def)
  qed
qed

text \<open>A guarded call that runs while no other call is active is a run of the step relation from which the circuit,
  rate and concurrency guarantees are proved, and it leaves no call behind; the circuit gauge shows the state of the circuit afterwards
  if it did before.\<close>

theorem guarded_call_is_run:
  assumes "sc_others s = (\<lambda>k g. g)" and "sy_phase S n = None" and "sy_clock S \<le> sc_enter s" and "sorted (sc_rounds s)"
    and "list_all (\<lambda>t. sc_enter s \<le> t \<and> t \<le> sc_record s) (sc_rounds s)" and "sc_enter s \<le> sc_record s"
  shows "case guard_call c s (sy_guard S) of (r, g', evs) \<Rightarrow>
    (\<exists>es S'. call_run S es S' \<and> sy_guard S' = g' \<and> sy_phase S' = sy_phase S) \<and>
    gauge_after (circuit_gauge (gd_state (sy_guard S))) evs = circuit_gauge (gd_state g')"
proof (cases "enter_circuit (sc_enter s) (sy_guard S)")
  case enter: (Pair entered g1)
  have gauge: "gauge_after (circuit_gauge (gd_state (sy_guard S))) (enter_gauge (sc_enter s) (sy_guard S)) = circuit_gauge (gd_state g1)"
    using gauge_after_enter [of "sy_guard S" "sc_enter s"] enter by simp
  have slot: "gd_state (release_slot p g) = gd_state g" for p g by (simp add: release_slot_def)
  have *: ?thesis
    if await: "(case entered of Inl e \<Rightarrow> (Raised e, Queued, g1, []) | Inr _ \<Rightarrow> awaited c s g1) = (ending, p, g2, evs)"
      and same: "gauge_after (circuit_gauge (gd_state g1)) evs = circuit_gauge (gd_state g2)"
      and run: "call_run S es S'" "sy_phase S' = sy_phase S"
        "sy_guard S' = release_slot p (snd (call_end (sc_record s) (gc_unknown c) (p = In_flight) (map_ending (\<lambda>x. ()) ending) g2))"
    for ending p g2 evs es S'
  proof -
    obtain r g4 where ended: "call_end (sc_record s) (gc_unknown c) (p = In_flight) ending g2 = (r, g4)" by force
    have "guard_call c s (sy_guard S) = (r, release_slot p g4, enter_gauge (sc_enter s) (sy_guard S) @ evs @
        end_gauge (gc_unknown c) (p = In_flight) ending g2 @ final_events (gc_operation c) p ending (sc_finished s - sc_started s))"
      using assms(1) by (simp add: guard_call_def enter await ended)
    moreover have "sy_guard S' = release_slot p g4" using run(3) ended call_end_guard [of "sc_record s" "gc_unknown c" "p = In_flight" ending g2] by simp
    ultimately show ?thesis
      using run(1,2) gauge same gauge_after_end [of g2 "gc_unknown c" "p = In_flight" ending "sc_record s"] ended slot [of p g4]
      by auto
  qed
  show ?thesis
  proof (cases entered)
    case (Inl e)
    let ?after = "\<lambda>t. snd (call_end t (gc_unknown c) False (Raised e :: unit ending) g1)"
    let ?S = "\<lparr>sy_guard = ?after (sc_enter s), sy_phase = sy_phase S, sy_clock = sc_enter s\<rparr>"
    have "call_step S (Refused n) ?S" using enter Inl assms(2,3) by (intro call_step.refuse) auto
    then have run: "call_run S [Refused n] ?S" by (rule call_run_one)
    have "?after (sc_record s) = ?after (sc_enter s)"
      using enter Inl refusal_not_recorded [of "sc_enter s" "sy_guard S" e g1] by (simp add: call_end_simps)
    then show ?thesis using Inl by (intro * [OF _ _ run]) (auto simp: gauge_after_def release_slot_def)
  next
    case (Inr u)
    let ?S = "\<lparr>sy_guard = g1, sy_phase = (sy_phase S)(n \<mapsto> Queued), sy_clock = sc_enter s\<rparr>"
    have "call_step S (Enter n) ?S" using enter Inr assms(2,3) by (intro call_step.enter) auto
    then have first: "call_run S [Enter n] ?S" by (rule call_run_one)
    obtain ending p g2 evs where await: "awaited c s g1 = (ending, p, g2, evs)" by (metis prod_cases4)
    have await': "awaited c s (sy_guard ?S) = (ending, p, g2, evs)" by (simp add: await)
    have "can_end p ending \<and> gauge_after (circuit_gauge (gd_state g1)) evs = circuit_gauge (gd_state g1) \<and> gd_state g2 = gd_state (sy_guard ?S) \<and>
        (\<exists>es S'. call_run ?S es S' \<and> sy_guard S' = g2 \<and> sy_clock S' \<le> sc_record s \<and> sy_phase S' = (sy_phase ?S)(n \<mapsto> p))"
      by (rule awaited_run [OF await' assms(1) _ assms(4)]) (use assms(5,6) in simp_all)
    then obtain es S1 where can: "can_end p ending" and same: "gauge_after (circuit_gauge (gd_state g1)) evs = circuit_gauge (gd_state g2)"
      and S1: "call_run ?S es S1" "sy_guard S1 = g2" "sy_clock S1 \<le> sc_record s" "sy_phase S1 = (sy_phase S)(n \<mapsto> p)" by auto
    let ?e = "map_ending (\<lambda>x. ()) ending"
    let ?T = "\<lparr>sy_guard = release_slot p (snd (call_end (sc_record s) (gc_unknown c) (p = In_flight) ?e (sy_guard S1))),
      sy_phase = (sy_phase S1)(n := None), sy_clock = sc_record s\<rparr>"
    have "can_end p ?e" using can by (cases ending) (auto simp: can_end_def)
    then have "call_step S1 (Done n) ?T" using S1 by (intro call_step.finish) auto
    from call_run_append [OF call_run_one [OF this] call_run_append [OF S1(1) first]]
    have run: "call_run S (([Enter n] @ es) @ [Done n]) ?T" .
    have "(sy_phase S)(n := None) = sy_phase S" using assms(2) by auto
    then show ?thesis using Inr await same S1(2,4) by (intro * [OF _ _ run]) auto
  qed
qed

text \<open>A timeout that strikes while a call still waits for its own token counts as a failure of the plugin: the guard opens
  the circuit of a plugin that was never called.\<close>

lemma waiting_opens_circuit:
  assumes "sc_others s = (\<lambda>k g. g)" and "sc_rounds s = []" and "sc_strike s = Deadline"
    and "gd_state g = C_CLOSED" and "rp_failure_threshold (gd_policy g) \<le> gd_consecutive_failures g + 1"
  shows "case guard_call c s g of (r, g', evs) \<Rightarrow> gd_state g' = C_OPEN \<and> In_flight_inc \<notin> set evs"
proof -
  have "enter_circuit (sc_enter s) g = (Inr (), g)" using assms(4) by (simp add: enter_circuit_def enter_half_open_def)
  then show ?thesis
    using assms by (simp add: guard_call_def awaited_def call_end_simps end_gauge_simps enter_gauge_def failure_gauge_def final_events_def
      timeout_error_def AdapterError_def record_failure_def obj_get_def TRANSIENT_FAILURES_def release_slot_def Let_def)
qed

section \<open>Examples\<close>

definition demo_schedule :: schedule where
  "demo_schedule = \<lparr>sc_started = 0, sc_enter = 0, sc_rounds = [0], sc_slot = True, sc_granted = 0, sc_in_time = False,
     sc_strike = Deadline, sc_record = 10, sc_finished = 10, sc_others = (\<lambda>k g. g)\<rparr>"

lemmas demo_call_defs = demo_schedule_def guard_call_def awaited_def take_slot_def end_gauge_def enter_gauge_def failure_gauge_def
  final_events_def factory_ending_def resilient_execute_def FakeAdapter_def demo_guard_defs

theorem guarded_call_accounts_witness:
  "guard_call (resilient_execute (FakeAdapter 0) demo_action demo_request) (demo_schedule\<lparr>sc_in_time := True\<rparr>) (ResilienceGuard demo_resilience 0) =
     (ap_execute (FakeAdapter 0) demo_action demo_request, (ResilienceGuard demo_resilience 0)\<lparr>gd_tokens := 0\<rparr>,
      [Queue_seconds 0, In_flight_inc, Circuit_gauge 0, In_flight_dec, Call_count ''execute'' ''success'', Call_seconds ''execute'' 10]) \<and>
   gc_factory (resilient_execute (FakeAdapter 0) demo_action demo_request) = ap_execute (FakeAdapter 0) demo_action demo_request"
  using guarded_call_accounts [of "resilient_execute (FakeAdapter 0) demo_action demo_request" "demo_schedule\<lparr>sc_in_time := True\<rparr>"
      "ResilienceGuard demo_resilience 0"]
  by (simp add: demo_call_defs record_success_def)

theorem guarded_execute_timeout_witness:
  "fst (guard_call (resilient_execute (FakeAdapter 0) demo_action demo_request) demo_schedule (ResilienceGuard demo_resilience 0)) =
     Inl (AdapterExn (UnknownOutcome ''plugin operation timed out'' []))"
  using guarded_execute_timeout [of demo_action demo_schedule "ResilienceGuard demo_resilience 0" "FakeAdapter 0" demo_request]
  by (simp add: demo_call_defs demo_action_def)

theorem guarded_call_is_run_witness:
  "\<exists>es S'. call_run (fresh_calls demo_resilience 0) es S' \<and> gd_state (sy_guard S') = C_OPEN"
  using guarded_call_is_run [of demo_schedule "fresh_calls demo_resilience 0" 7 "resilient_execute (FakeAdapter 0) demo_action demo_request"]
  by (simp add: demo_call_defs demo_action_def UnknownOutcome_def) (elim conjE exE, intro exI conjI, assumption, simp)

end
