(* ===== verification/PluginApi.thy ===== *)
theory PluginApi
  imports Adapters Catalog
begin

text \<open>
  \<open>plugin_api.py\<close>: the manifest a plugin declares, with the constraints its model checks, and what a plugin
  contributes. A contributed object that lacks a method of the protocol it stands for is \<open>None\<close>.
\<close>

definition PLUGIN_API_VERSION :: int where
  "PLUGIN_API_VERSION = 1"

record plugin_permissions =
  pp_mutation :: bool
  pp_credential_slots :: "string list"
  pp_egress_bindings :: "string list"

record plugin_manifest =
  pm_schema_version :: int
  pm_id :: string
  pm_name :: string
  pm_version :: string
  pm_api_version :: int
  pm_description :: string
  pm_adapters :: "string list"
  pm_status_provider_types :: "string list"
  pm_actions :: "string list"
  pm_permissions :: plugin_permissions
  pm_config_schema :: json_object

text \<open>\<open>[0-9]+.[0-9]+.[0-9]+\<close>, optionally followed by \<open>-\<close> or \<open>+\<close> and letters, digits, dots and dashes\<close>

definition suffix_char :: "char \<Rightarrow> bool" where
  "suffix_char c \<longleftrightarrow> is_digit c \<or> lower_alpha c \<or> c = CHR ''.'' \<or> c = CHR ''-'' \<or>
     65 \<le> (of_char c :: nat) \<and> (of_char c :: nat) \<le> 90"

definition version_ok :: "string \<Rightarrow> bool" where
  "version_ok s =
     (let core = takeWhile (\<lambda>c. is_digit c \<or> c = CHR ''.'') s;
          parts = split_on (CHR ''.'') core
      in length parts = 3 \<and> list_all (\<lambda>p. p \<noteq> [] \<and> list_all is_digit p) parts \<and>
         (case drop (length core) s of
            [] \<Rightarrow> True
          | c # r \<Rightarrow> (c = CHR ''-'' \<or> c = CHR ''+'') \<and> r \<noteq> [] \<and> list_all suffix_char r))"

definition starts_with :: "string \<Rightarrow> string \<Rightarrow> bool" where
  "starts_with p s \<longleftrightarrow> take (length p) s = p"

definition validate_adapter_names :: "string \<Rightarrow> string list \<Rightarrow> bool" where
  "validate_adapter_names plugin_id names \<longleftrightarrow>
     list_all (starts_with (plugin_id @ ''.'')) names \<and> distinct names"

definition manifest_ok :: "plugin_manifest \<Rightarrow> bool" where
  "manifest_ok m \<longleftrightarrow> plugin_id_ok (pm_id m) \<and> len_between 1 128 (pm_name m) \<and> version_ok (pm_version m) \<and>
     len_between 1 1024 (pm_description m) \<and> validate_adapter_names (pm_id m) (pm_adapters m)"

definition permissions_json :: "plugin_permissions \<Rightarrow> json" where
  "permissions_json p = JObj [(''mutation'', JBool (pp_mutation p)),
     (''credential_slots'', JList (map JStr (pp_credential_slots p))),
     (''egress_bindings'', JList (map JStr (pp_egress_bindings p)))]"

definition manifest_json :: "plugin_manifest \<Rightarrow> json" where
  "manifest_json m = JObj [(''schema_version'', JInt (pm_schema_version m)), (''id'', JStr (pm_id m)),
     (''name'', JStr (pm_name m)), (''version'', JStr (pm_version m)), (''api_version'', JInt (pm_api_version m)),
     (''description'', JStr (pm_description m)), (''adapters'', JList (map JStr (pm_adapters m))),
     (''status_provider_types'', JList (map JStr (pm_status_provider_types m))),
     (''actions'', JList (map JStr (pm_actions m))), (''permissions'', permissions_json (pm_permissions m)),
     (''config_schema'', JObj (pm_config_schema m))]"

section \<open>Contributions\<close>

type_synonym status_provider = "exn + status_value"

record plugin_contribution =
  pc_adapters :: "(string \<times> adapter option) list"
  pc_status_providers :: "(string \<times> status_provider option) list"
  pc_actions :: "action_definition list"

text \<open>An object that implements \<open>DeckhandPlugin\<close>; reading its manifest validates it.\<close>

record plugin =
  pl_manifest :: "exn + plugin_manifest"
  pl_build :: "json_object \<Rightarrow> exn + plugin_contribution"

definition StaticStatusProvider :: "status_value \<Rightarrow> status_provider" where
  "StaticStatusProvider value = Inr value"

section \<open>Facts\<close>

lemma starts_with_append [simp]: "starts_with p (p @ s)"
  by (simp add: starts_with_def)

lemma starts_with_iff: "starts_with p s \<longleftrightarrow> (\<exists>t. s = p @ t)"
  unfolding starts_with_def by (metis append_eq_conv_conj append_take_drop_id)

text \<open>Splitting and joining.\<close>

lemma split_on_parts: "split_on sep s \<noteq> [] \<and> join sep (split_on sep s) = s \<and> (\<forall>p \<in> set (split_on sep s). sep \<notin> set p)"
proof (induction s)
  case (Cons c s)
  then obtain p ps where "split_on sep s = p # ps" by (cases "split_on sep s") auto
  with Cons show ?case by (cases ps) auto
qed simp

text \<open>Adapter names of two different plugins never clash: the part before the first dot is the plugin ID.\<close>

lemma split_on_covers: "c \<in> set s \<Longrightarrow> c = sep \<or> (\<exists>p \<in> set (split_on sep s). c \<in> set p)"
  by (induction s) (auto split: list.splits)

lemma plugin_id_no_dot:
  assumes "plugin_id_ok p"
  shows "CHR ''.'' \<notin> set p"
proof
  assume "CHR ''.'' \<in> set p"
  then obtain q where q: "q \<in> set (split_on (CHR ''-'') p)" "CHR ''.'' \<in> set q"
    using split_on_covers [of "CHR ''.''" p "CHR ''-''"] by auto
  have dot: "\<not> lower_alnum (CHR ''.'')" by (simp add: lower_alnum_def lower_alpha_def is_digit_def)
  have "q = ''dh'' \<or> list_all lower_alnum q"
    using assms q(1) by (auto simp: plugin_id_ok_def lower_alnum_def list_all_iff split: list.splits)
  with q(2) dot show False by (auto simp: list_all_iff)
qed

lemma namespaces_disjoint:
  assumes "plugin_id_ok p" and "plugin_id_ok q" and "starts_with (p @ ''.'') name" and "starts_with (q @ ''.'') name"
  shows "p = q"
proof -
  have head: "takeWhile (\<lambda>c. c \<noteq> CHR ''.'') name = r" if ok: "plugin_id_ok r" and pre: "starts_with (r @ ''.'') name" for r
  proof -
    obtain t where name: "name = r @ CHR ''.'' # t" using pre by (auto simp: starts_with_iff)
    have "\<And>x. x \<in> set r \<Longrightarrow> x \<noteq> CHR ''.''" using plugin_id_no_dot [OF ok] by blast
    then show ?thesis unfolding name by (simp add: takeWhile_append2)
  qed
  show ?thesis using head [OF assms(1,3)] head [OF assms(2,4)] by simp
qed

end
