(* ===== verification/PublicJson.thy ===== *)
theory PublicJson
  imports PluginApi
begin

text \<open>
  \<open>_validate_public_json\<close> of \<open>wasm_host_transport.py\<close>: what may cross the boundary between the broker and
  a plugin host. A dictionary is a list of pairs in insertion order; its keys are strings.
\<close>

definition MAX_PUBLIC_DEPTH :: nat where "MAX_PUBLIC_DEPTH = 8"
definition MAX_PUBLIC_ITEMS :: nat where "MAX_PUBLIC_ITEMS = 256"
definition MAX_PUBLIC_STRING :: nat where "MAX_PUBLIC_STRING = 8192"

definition SENSITIVE_KEY_PARTS :: "string list" where
  "SENSITIVE_KEY_PARTS = [''authorization'', ''cookie'', ''credential'', ''password'', ''passwd'', ''private_key'',
     ''secret'', ''token'']"

text \<open>\<open>str.lower\<close> on the first 256 code points\<close>

definition py_lower_char :: "char \<Rightarrow> char" where
  "py_lower_char c =
     (let n = (of_char c :: nat) in
      if 65 \<le> n \<and> n \<le> 90 \<or> 192 \<le> n \<and> n \<le> 222 \<and> n \<noteq> 215 then char_of (n + 32) else c)"

definition py_lower :: "string \<Rightarrow> string" where
  "py_lower s = map py_lower_char s"

fun contains :: "string \<Rightarrow> string \<Rightarrow> bool" where
  "contains part [] = (part = [])"
| "contains part (c # s) = (starts_with part (c # s) \<or> contains part s)"

definition sensitive_key :: "string \<Rightarrow> bool" where
  "sensitive_key key \<longleftrightarrow> list_ex (\<lambda>part. contains part (py_lower key)) SENSITIVE_KEY_PARTS"

definition isfinite :: "string \<Rightarrow> bool" where
  "isfinite t \<longleftrightarrow> t \<notin> {''NaN'', ''Infinity'', ''-Infinity''}"

text \<open>The check proper; the loops over the items of a list and the fields of an object are functions of their own.\<close>

definition too_deep :: "nat \<Rightarrow> exn + unit" where
  "too_deep depth = require (depth \<le> MAX_PUBLIC_DEPTH) (HostProtocolError ''host payload exceeds the maximum nesting depth'')"

fun validate_public_json :: "nat \<Rightarrow> json \<Rightarrow> exn + unit"
  and validate_items :: "nat \<Rightarrow> json list \<Rightarrow> exn + unit"
  and validate_fields :: "nat \<Rightarrow> (string \<times> json) list \<Rightarrow> exn + unit" where
  "validate_public_json depth JNull = too_deep depth"
| "validate_public_json depth (JBool b) = too_deep depth"
| "validate_public_json depth (JInt i) = too_deep depth"
| "validate_public_json depth (JFloat t) = bind_sum (too_deep depth) (\<lambda>_.
     require (isfinite t) (HostProtocolError ''host payload contains a non-finite number''))"
| "validate_public_json depth (JStr s) = bind_sum (too_deep depth) (\<lambda>_.
     require (length s \<le> MAX_PUBLIC_STRING) (HostProtocolError ''host payload contains an oversized string''))"
| "validate_public_json depth (JList vs) = bind_sum (too_deep depth) (\<lambda>_.
     bind_sum (require (length vs \<le> MAX_PUBLIC_ITEMS) (HostProtocolError ''host payload contains too many list items'')) (\<lambda>_.
     validate_items depth vs))"
| "validate_public_json depth (JObj kvs) = bind_sum (too_deep depth) (\<lambda>_.
     bind_sum (require (length kvs \<le> MAX_PUBLIC_ITEMS) (HostProtocolError ''host payload contains too many object fields'')) (\<lambda>_.
     validate_fields depth kvs))"
| "validate_items depth [] = Inr ()"
| "validate_items depth (v # vs) = bind_sum (validate_public_json (depth + 1) v) (\<lambda>_. validate_items depth vs)"
| "validate_fields depth [] = Inr ()"
| "validate_fields depth ((key, v) # kvs) =
     bind_sum (require (length key \<le> 128) (HostProtocolError ''host payload contains an invalid object key'')) (\<lambda>_.
     bind_sum (require (\<not> sensitive_key key) (HostProtocolError ''host payload contains a prohibited sensitive field'')) (\<lambda>_.
     bind_sum (validate_public_json (depth + 1) v) (\<lambda>_. validate_fields depth kvs)))"

section \<open>What the check guarantees\<close>

text \<open>Every value inside a value, with its depth.\<close>

fun subvalues :: "nat \<Rightarrow> json \<Rightarrow> (nat \<times> json) list" where
  "subvalues depth (JList vs) = (depth, JList vs) # concat (map (subvalues (Suc depth)) vs)"
| "subvalues depth (JObj kvs) = (depth, JObj kvs) # concat (map (\<lambda>(k, v). subvalues (Suc depth) v) kvs)"
| "subvalues depth v = [(depth, v)]"

fun plain_value :: "json \<Rightarrow> bool" where
  "plain_value (JFloat t) = isfinite t"
| "plain_value (JStr s) = (length s \<le> 8192)"
| "plain_value (JList vs) = (length vs \<le> 256)"
| "plain_value (JObj kvs) = (length kvs \<le> 256 \<and> (\<forall>(k, v) \<in> set kvs. length k \<le> 128 \<and> \<not> sensitive_key k))"
| "plain_value v = True"

definition public_json :: "json \<Rightarrow> bool" where
  "public_json v \<longleftrightarrow> (\<forall>(d, w) \<in> set (subvalues 0 v). d \<le> 8 \<and> plain_value w)"

lemma validate_public_iff:
  "validate_public_json depth v = Inr () \<longleftrightarrow> (\<forall>(d, w) \<in> set (subvalues depth v). d \<le> 8 \<and> plain_value w)"
  "validate_items depth vs = Inr () \<longleftrightarrow> (\<forall>v \<in> set vs. \<forall>(d, w) \<in> set (subvalues (Suc depth) v). d \<le> 8 \<and> plain_value w)"
  "validate_fields depth kvs = Inr () \<longleftrightarrow> (\<forall>(k, v) \<in> set kvs. length k \<le> 128 \<and> \<not> sensitive_key k \<and>
     (\<forall>(d, w) \<in> set (subvalues (Suc depth) v). d \<le> 8 \<and> plain_value w))"
proof (induction depth v and depth vs and depth kvs rule: validate_public_json_validate_items_validate_fields.induct)
  case (7 depth kvs)
  then show ?case by (fastforce simp: too_deep_def MAX_PUBLIC_DEPTH_def MAX_PUBLIC_ITEMS_def)
qed (auto simp: too_deep_def MAX_PUBLIC_DEPTH_def MAX_PUBLIC_ITEMS_def MAX_PUBLIC_STRING_def)

lemma validate_public_raises:
  "validate_public_json depth v = Inl e \<Longrightarrow> \<exists>m. e = HostProtocolError m"
  "validate_items depth vs = Inl e \<Longrightarrow> \<exists>m. e = HostProtocolError m"
  "validate_fields depth kvs = Inl e \<Longrightarrow> \<exists>m. e = HostProtocolError m"
  by (induction depth v and depth vs and depth kvs rule: validate_public_json_validate_items_validate_fields.induct)
    (auto simp: too_deep_def)


declare validate_public_json.simps [simp del]

end
