(* ===== verification/Frames.thy ===== *)
theory Frames
  imports JsonLoads Models "HOL-Library.Word"
begin

text \<open>
  The length-prefixed frames of \<open>wasm_host_transport.py\<close>: a big-endian 32-bit length and a JSON object. Both
  readers are modelled: the one over an \<open>asyncio\<close> stream, whose bytes are a string that ends where the
  peer closed, and the blocking one, which collects what \<open>recv\<close> returns chunk by chunk.
\<close>

section \<open>Lengths\<close>

text \<open>\<open>struct.pack(">I", n)\<close> and its inverse\<close>

definition pack_u32 :: "32 word \<Rightarrow> string" where
  "pack_u32 w = map (\<lambda>k. char_of (unat w div 256 ^ k)) [3, 2, 1, 0]"

definition unpack_u32 :: "string \<Rightarrow> 32 word" where
  "unpack_u32 s = word_of_nat (foldl (\<lambda>n c. n * 256 + of_char c) 0 s)"

definition struct_pack :: "nat \<Rightarrow> exn + string" where
  "struct_pack n = (if n < 2 ^ 32 then Inr (pack_u32 (word_of_nat n)) else Inl (OtherException ''struct.error''))"

section \<open>Writing\<close>

text \<open>\<open>dump\<close> stands for \<open>model_dump_json().encode("utf-8")\<close>.\<close>

definition encode_frame :: "(json \<Rightarrow> string) \<Rightarrow> json \<Rightarrow> nat \<Rightarrow> exn + string" where
  "encode_frame dump model max_bytes =
     (let payload = dump model in
      if payload = [] \<or> max_bytes < length payload
      then Inl (HostProtocolError ''host frame exceeds the configured size limit'')
      else bind_sum (struct_pack (length payload)) (\<lambda>header. Inr (header @ payload)))"

section \<open>Reading\<close>

definition readexactly :: "nat \<Rightarrow> string \<Rightarrow> exn + string \<times> string" where
  "readexactly n s = (if length s < n then Inl IncompleteRead else Inr (take n s, drop n s))"

definition frame_value :: "(string \<Rightarrow> string) \<Rightarrow> string \<Rightarrow> exn + json_object" where
  "frame_value fl payload =
     (case loads_bytes fl payload of
        None \<Rightarrow> Inl (PyValueError ''JSONDecodeError'')
      | Some (JObj o') \<Rightarrow> Inr o'
      | Some _ \<Rightarrow> Inl (HostProtocolError ''host frame must contain a JSON object''))"

definition frame_size :: "string \<Rightarrow> nat \<Rightarrow> exn + nat" where
  "frame_size header max_bytes =
     (let size = unat (unpack_u32 header) in
      if size = 0 \<or> max_bytes < size then Inl (HostProtocolError ''host frame has an invalid size'') else Inr size)"

definition read_frame :: "(string \<Rightarrow> string) \<Rightarrow> string \<Rightarrow> nat \<Rightarrow> exn + json_object" where
  "read_frame fl stream max_bytes =
     bind_sum (readexactly 4 stream) (\<lambda>(header, rest).
     bind_sum (frame_size header max_bytes) (\<lambda>size.
     bind_sum (readexactly size rest) (\<lambda>(payload, _). frame_value fl payload)))"

text \<open>What a blocking socket delivers: data in chunks, or an error such as a timeout; no more events is
  the end of the stream. \<open>recv\<close> returns at most the bytes asked for.\<close>

datatype recv_event = Data string | Recv_error string

fun recv :: "nat \<Rightarrow> recv_event list \<Rightarrow> exn + string \<times> recv_event list" where
  "recv n [] = Inr ([], [])"
| "recv n (Recv_error e # peer) = Inl (PyOSError e)"
| "recv n (Data s # peer) = Inr (take n s, if length s \<le> n then peer else Data (drop n s) # peer)"

function recv_exact :: "nat \<Rightarrow> recv_event list \<Rightarrow> exn + string \<times> recv_event list" where
  "recv_exact remaining peer =
     (if remaining = 0 then Inr ([], peer)
      else case recv remaining peer of
        Inl e \<Rightarrow> Inl e
      | Inr (chunk, peer') \<Rightarrow>
          if chunk = [] then Inl (HostProtocolError ''host closed before completing a frame'')
          else bind_sum (recv_exact (remaining - length chunk) peer') (\<lambda>(chunks, peer''). Inr (chunk @ chunks, peer'')))"
  by pat_completeness auto
termination
  by (relation "measure fst") auto

declare recv_exact.simps [simp del]

definition read_frame_sync :: "(string \<Rightarrow> string) \<Rightarrow> recv_event list \<Rightarrow> nat \<Rightarrow> exn + json_object" where
  "read_frame_sync fl peer max_bytes =
     bind_sum (recv_exact 4 peer) (\<lambda>(header, peer').
     bind_sum (frame_size header max_bytes) (\<lambda>size.
     bind_sum (recv_exact size peer') (\<lambda>(payload, _). frame_value fl payload)))"

section \<open>Round trips\<close>

lemma next_byte: "n div (m * 256) * 256 + n div m mod 256 = n div (m :: nat)"
  by (metis div_mult2_eq div_mult_mod_eq)

lemma unpack_pack [simp]: "unpack_u32 (pack_u32 w) = w"
proof -
  have "unat w < 256 * 16777216" using unsigned_less [of w, where ?'a = nat] by simp
  then have top: "unat w div 16777216 mod 256 = unat w div 16777216" by (simp add: less_mult_imp_div_less)
  then have "((unat w div 16777216 mod 256 * 256 + unat w div 65536 mod 256) * 256 + unat w div 256 mod 256) * 256 + unat w mod 256 = unat w"
    using next_byte [of "unat w" 65536] next_byte [of "unat w" 256] next_byte [of "unat w" 1] by simp
  then have "foldl (\<lambda>n c. n * 256 + of_char c) 0 (pack_u32 w) = unat w"
    unfolding pack_u32_def by (simp add: power_numeral_reduce top)
  then show ?thesis by (simp add: unpack_u32_def)
qed

lemma length_pack [simp]: "length (pack_u32 w) = 4"
  by (simp add: pack_u32_def)

lemma encode_frame_Inr:
  "encode_frame dump v max_bytes = Inr bytes \<longleftrightarrow> dump v \<noteq> [] \<and> length (dump v) \<le> max_bytes \<and> length (dump v) < 2 ^ 32 \<and>
     bytes = pack_u32 (word_of_nat (length (dump v))) @ dump v"
  by (auto simp: encode_frame_def Let_def struct_pack_def)

lemma read_encoded:
  assumes "encode_frame dump v max_bytes = Inr bytes" and "max_bytes \<le> limit"
  shows "read_frame fl (bytes @ rest) limit = frame_value fl (dump v)"
proof -
  have "unat (word_of_nat (length (dump v)) :: 32 word) = length (dump v)"
    using assms(1) by (simp add: encode_frame_Inr unat_of_nat)
  then show ?thesis using assms
    by (auto simp: read_frame_def readexactly_def frame_size_def Let_def encode_frame_Inr)
qed

section \<open>The blocking reader\<close>

text \<open>A stream without errors, and its bytes.\<close>

definition intact :: "recv_event list \<Rightarrow> bool" where
  "intact peer \<longleftrightarrow> (\<forall>e \<in> set peer. \<exists>s. e = Data s \<and> s \<noteq> [])"

fun flat :: "recv_event list \<Rightarrow> string" where
  "flat [] = []"
| "flat (Data s # peer) = s @ flat peer"
| "flat (Recv_error e # peer) = flat peer"

lemma intact_simps [simp]:
  "intact []"
  "intact (Data s # peer) \<longleftrightarrow> s \<noteq> [] \<and> intact peer"
  "\<not> intact (Recv_error e # peer)"
  by (auto simp: intact_def)

lemma recv_flat:
  assumes "intact peer" and "0 < n"
  shows "\<exists>chunk peer'. recv n peer = Inr (chunk, peer') \<and> intact peer' \<and> flat peer = chunk @ flat peer' \<and>
    length chunk \<le> n \<and> (chunk = [] \<longleftrightarrow> flat peer = [])"
proof (cases peer)
  case (Cons e rest)
  then obtain s where e: "e = Data s" "s \<noteq> []" using assms(1) by (cases e) auto
  then show ?thesis using Cons assms by (cases "length s \<le> n") auto
qed simp

lemma recv_exact_flat:
  assumes "intact peer"
  shows "if length (flat peer) < n then recv_exact n peer = Inl (HostProtocolError ''host closed before completing a frame'')
    else \<exists>peer'. recv_exact n peer = Inr (take n (flat peer), peer') \<and> intact peer' \<and> flat peer' = drop n (flat peer)"
  using assms
proof (induction n arbitrary: peer rule: less_induct)
  case (less n)
  show ?case
  proof (cases "n = 0")
    case True
    then show ?thesis using less.prems by (simp add: recv_exact.simps)
  next
    case False
    then obtain chunk peer' where r: "recv n peer = Inr (chunk, peer')" "intact peer'" "flat peer = chunk @ flat peer'"
      "length chunk \<le> n" "chunk = [] \<longleftrightarrow> flat peer = []" using recv_flat [OF less.prems, of n] by blast
    show ?thesis
    proof (cases "chunk = []")
      case True
      then have "recv_exact n peer = Inl (HostProtocolError ''host closed before completing a frame'')"
        by (subst recv_exact.simps) (simp add: r(1) False)
      then show ?thesis using True r(5) False by simp
    next
      case chunk: False
      then have "n - length chunk < n" using False by simp
      note ih = less.IH [OF this r(2)]
      have step: "recv_exact n peer = bind_sum (recv_exact (n - length chunk) peer')
          (\<lambda>(chunks, peer''). Inr (chunk @ chunks, peer''))"
        by (subst recv_exact.simps) (simp add: r(1) chunk False)
      show ?thesis
      proof (cases "length (flat peer) < n")
        case True
        then have "length (flat peer') < n - length chunk" using r(3) by simp
        with ih have "recv_exact (n - length chunk) peer' = Inl (HostProtocolError ''host closed before completing a frame'')" by simp
        then show ?thesis using True by (simp add: step)
      next
        case enough: False
        then have "\<not> length (flat peer') < n - length chunk" using r(3,4) by simp
        then obtain peer'' where "recv_exact (n - length chunk) peer' = Inr (take (n - length chunk) (flat peer'), peer'')"
          "intact peer''" "flat peer'' = drop (n - length chunk) (flat peer')" using ih by auto
        then show ?thesis using r(3,4) enough by (simp add: step)
      qed
    qed
  qed
qed

lemma readers_agree:
  assumes "intact peer"
  shows "read_frame_sync fl peer max_bytes =
    (case read_frame fl (flat peer) max_bytes of
       Inl IncompleteRead \<Rightarrow> Inl (HostProtocolError ''host closed before completing a frame'') | r \<Rightarrow> r)"
proof (cases "length (flat peer) < 4")
  case True
  then show ?thesis using recv_exact_flat [OF assms, of 4] by (simp add: read_frame_sync_def read_frame_def readexactly_def)
next
  case False
  then obtain peer' where header: "recv_exact 4 peer = Inr (take 4 (flat peer), peer')" "intact peer'" "flat peer' = drop 4 (flat peer)"
    using recv_exact_flat [OF assms, of 4] by auto
  show ?thesis
  proof (cases "frame_size (take 4 (flat peer)) max_bytes")
    case (Inl e)
    then have "e \<noteq> IncompleteRead" by (auto simp: frame_size_def Let_def split: if_splits)
    then show ?thesis using Inl header False
      by (simp add: read_frame_sync_def read_frame_def readexactly_def split: exn.split)
  next
    case (Inr size)
    have shape: "frame_value fl p \<noteq> Inl IncompleteRead" for p by (simp add: frame_value_def split: option.split json.split)
    show ?thesis
      using recv_exact_flat [OF header(2), of size] Inr header False shape [of "take size (drop 4 (flat peer))"]
      by (cases "frame_value fl (take size (drop 4 (flat peer)))")
        (auto simp: read_frame_sync_def read_frame_def readexactly_def split: exn.split if_splits)
  qed
qed

text \<open>The two readers of a frame agree: on any split of the same bytes into chunks the blocking reader returns
  what the stream reader returns, and reports a stream that ends early as a protocol error.\<close>

theorem frame_readers_agree:
  assumes "intact peer"
  shows "read_frame_sync fl peer max_bytes =
    (case read_frame fl (flat peer) max_bytes of
       Inl IncompleteRead \<Rightarrow> Inl (HostProtocolError ''host closed before completing a frame'') | r \<Rightarrow> r)"
  using assms by (rule readers_agree)

theorem frame_readers_agree_witness:
  "read_frame_sync (\<lambda>t. t) [Data [CHR 0x00, CHR 0x00], Data [CHR 0x00]] 16 =
     Inl (HostProtocolError ''host closed before completing a frame'')"
  using frame_readers_agree [of "[Data [CHR 0x00, CHR 0x00], Data [CHR 0x00]]" "\<lambda>t. t" 16]
  by (simp add: read_frame_def readexactly_def)

text \<open>What one end frames, the other end reads: however the bytes are split on the way and whatever follows
  them, both readers return the object that was written, provided the reader's limit is not below the writer's
  and the JSON text loads back; a frame is never longer than the limit and its length prefix never wraps.\<close>

theorem frame_roundtrip:
  assumes "encode_frame dump (JObj o') max_bytes = Inr bytes" and "loads_bytes fl (dump (JObj o')) = Some (JObj o')"
    and "max_bytes \<le> limit" and "intact peer" and "flat peer = bytes @ rest"
  shows "read_frame fl (bytes @ rest) limit = Inr o' \<and> read_frame_sync fl peer limit = Inr o' \<and>
    length bytes = 4 + unat (unpack_u32 (take 4 bytes)) \<and> length bytes \<le> 4 + max_bytes"
proof -
  have read: "read_frame fl (bytes @ rest) limit = Inr o'"
    using read_encoded [OF assms(1,3)] assms(2) by (simp add: frame_value_def)
  moreover have "read_frame_sync fl peer limit = Inr o'" using readers_agree [OF assms(4)] read assms(5) by simp
  ultimately show ?thesis using assms(1) by (auto simp: encode_frame_Inr unat_of_nat)
qed

theorem frame_roundtrip_witness:
  "\<exists>bytes. encode_frame render (JObj [(''ok'', JBool True)]) 64 = Inr bytes \<and>
     read_frame (\<lambda>t. t) bytes 64 = Inr [(''ok'', JBool True)]"
proof -
  let ?o = "[(''ok'', JBool True)]"
  obtain bytes where bytes: "encode_frame render (JObj ?o) 64 = Inr bytes"
    by (simp add: encode_frame_Inr json_quote_def escape_char_def)
  have "loads_bytes (\<lambda>t. t) (render (JObj ?o)) = Some (JObj ?o)" by (rule loads_bytes_render) simp_all
  moreover have "bytes \<noteq> []" using bytes by (auto simp: encode_frame_Inr)
  ultimately show ?thesis
    using frame_roundtrip [OF bytes, of "\<lambda>t. t" 64 "[Data bytes]" "[]"] bytes by simp
qed

end
