(* ===== verification/HostFiles.thy ===== *)
theory HostFiles
  imports PluginApi Base64 Identity "HOL-Library.Sublist" "HOL-Library.Word"
begin

unbundle bit_operations_syntax

text \<open>
  The file-system checks of \<open>wasm_host_transport.py\<close> before a plugin host is trusted: the signed artifact and its
  digest, the trust root that holds the public key, and the socket with the directories above it. The
  file system is a parameter: what resolving, \<open>lstat\<close> and reading a path return at the time of the
  check. A path is its components below the root directory.
\<close>

section \<open>Files\<close>

type_synonym path = "string list"

datatype file_kind = Link | Regular | Directory | Socket | Special

record file_stat =
  st_kind :: file_kind
  st_uid :: int
  st_mode :: "16 word"
  st_size :: nat

record files =
  fs_resolve :: "path \<Rightarrow> exn + path"
  fs_lstat :: "path \<Rightarrow> exn + file_stat"
  fs_read :: "path \<Rightarrow> exn + string"

definition parent :: "path \<Rightarrow> path" where
  "parent p = butlast p"

text \<open>\<open>mode & 0o022\<close> and \<open>mode & 0o002\<close>\<close>

definition group_or_world_writable :: "file_stat \<Rightarrow> bool" where
  "group_or_world_writable m \<longleftrightarrow> st_mode m AND 0x12 \<noteq> 0"

definition world_writable :: "file_stat \<Rightarrow> bool" where
  "world_writable m \<longleftrightarrow> st_mode m AND 0x02 \<noteq> 0"

record host_connection =
  cn_socket_path :: path
  cn_socket_root :: path
  cn_expected_uid :: int
  cn_artifact_path :: path
  cn_signature_path :: path
  cn_public_key_path :: path
  cn_trust_root :: path
  cn_trust_owner_uid :: int
  cn_artifact_owner_uid :: int
  cn_max_frame_bytes :: nat
  cn_max_artifact_bytes :: nat

definition host_connection_ok :: "host_connection \<Rightarrow> bool" where
  "host_connection_ok cn \<longleftrightarrow> 0 \<le> cn_expected_uid cn \<and> 0 \<le> cn_trust_owner_uid cn \<and> 0 \<le> cn_artifact_owner_uid cn \<and>
     4096 \<le> cn_max_frame_bytes cn \<and> cn_max_frame_bytes cn \<le> 4194304 \<and>
     1024 \<le> cn_max_artifact_bytes cn \<and> cn_max_artifact_bytes cn \<le> 1073741824"

definition refuse :: "string \<Rightarrow> exn + 'a" where
  "refuse m = Inl (HostProtocolError m)"

definition check :: "bool \<Rightarrow> string \<Rightarrow> exn + unit" where
  "check b m = require b (HostProtocolError m)"

section \<open>The signed artifact\<close>

text \<open>\<open>sha\<close> is the hexadecimal SHA-256 of the bytes; reading in chunks feeds it the whole file.\<close>

definition artifact_digest :: "(string \<Rightarrow> string) \<Rightarrow> files \<Rightarrow> path \<Rightarrow> nat \<Rightarrow> exn + string" where
  "artifact_digest sha fs path max_bytes =
     bind_sum (fs_lstat fs path) (\<lambda>metadata.
     bind_sum (check (st_kind metadata = Regular) ''host artifact must be a regular non-symlink file'') (\<lambda>_.
     bind_sum (check (st_size metadata \<le> max_bytes) ''host artifact exceeds the configured size limit'') (\<lambda>_.
     bind_sum (fs_read fs path) (\<lambda>content. Inr (''sha256:'' @ sha content)))))"

text \<open>Whether one of the two trust paths is acceptable.\<close>

definition check_trust_file :: "files \<Rightarrow> int \<Rightarrow> path \<Rightarrow> exn + unit" where
  "check_trust_file fs owner path =
     bind_sum (fs_lstat fs path) (\<lambda>metadata.
     bind_sum (check (st_kind metadata \<noteq> Link) ''host trust paths cannot be symlinks'') (\<lambda>_.
     bind_sum (check (st_uid metadata = owner) ''host trust paths have an unexpected owner'') (\<lambda>_.
     check (\<not> group_or_world_writable metadata) ''host trust paths cannot be group/world writable'')))"

definition validate_trust_path :: "files \<Rightarrow> host_connection \<Rightarrow> exn + unit" where
  "validate_trust_path fs cn =
     bind_sum (fs_resolve fs (cn_trust_root cn)) (\<lambda>trust_root.
     bind_sum (fs_resolve fs (cn_public_key_path cn)) (\<lambda>key_path.
     bind_sum (check (trust_root = cn_trust_root cn \<and> key_path = cn_public_key_path cn)
       ''host trust paths cannot contain symlinks'') (\<lambda>_.
     bind_sum (check (prefix trust_root key_path) ''host public key is outside the configured trust root'') (\<lambda>_.
     bind_sum (check_trust_file fs (cn_trust_owner_uid cn) trust_root) (\<lambda>_.
     bind_sum (check_trust_file fs (cn_trust_owner_uid cn) key_path) (\<lambda>_.
     bind_sum (fs_lstat fs trust_root) (\<lambda>root_metadata.
     bind_sum (check (st_kind root_metadata = Directory) ''host trust root must be a directory'') (\<lambda>_.
     bind_sum (fs_lstat fs key_path) (\<lambda>key_metadata.
     check (st_kind key_metadata = Regular) ''host trust key must be a regular file'')))))))))"

text \<open>\<open>base64.b64decode(..., validate=True)\<close>: only the standard alphabet, padded to a multiple of four.\<close>

definition b64_std_char :: "char \<Rightarrow> bool" where
  "b64_std_char c \<longleftrightarrow> char_sextet c \<noteq> None \<and> c \<noteq> CHR ''-'' \<and> c \<noteq> CHR ''_''"

definition b64decode_validated :: "string \<Rightarrow> string option" where
  "b64decode_validated s =
     (let body = rstrip (CHR ''='') s in
      if list_all b64_std_char body \<and> length s mod 4 = 0 \<and> length s - length body \<le> 2
      then a2b_base64 0 0 0 s else None)"

text \<open>\<open>bytes.strip\<close>\<close>

definition bytes_strip :: "string \<Rightarrow> string" where
  "bytes_strip s =
     (let space = (\<lambda>c. c = CHR '' '' \<or> 9 \<le> (of_char c :: nat) \<and> (of_char c :: nat) \<le> 13)
      in rev (dropWhile space (rev (dropWhile space s))))"

text \<open>\<open>load_key\<close> reads a PEM public key; \<open>None\<close> is a key of another kind than Ed25519, otherwise its
  verification of a signature over a message.\<close>

definition verify_signed_artifact ::
  "(string \<Rightarrow> string) \<Rightarrow> (string \<Rightarrow> exn + (string \<Rightarrow> string \<Rightarrow> bool) option) \<Rightarrow> files \<Rightarrow> host_connection \<Rightarrow> string \<Rightarrow>
     exn + unit" where
  "verify_signed_artifact sha load_key fs cn expected_digest =
     bind_sum (fs_resolve fs (cn_artifact_path cn)) (\<lambda>artifact_path.
     bind_sum (check (artifact_path = cn_artifact_path cn) ''host artifact path cannot contain symlinks'') (\<lambda>_.
     bind_sum (fs_lstat fs artifact_path) (\<lambda>metadata.
     bind_sum (check (st_uid metadata = cn_artifact_owner_uid cn) ''host artifact has an unexpected owner'') (\<lambda>_.
     bind_sum (check (\<not> group_or_world_writable metadata) ''host artifact cannot be group/world writable'') (\<lambda>_.
     bind_sum (artifact_digest sha fs artifact_path (cn_max_artifact_bytes cn)) (\<lambda>actual_digest.
     bind_sum (check (actual_digest = expected_digest) ''host artifact digest does not match the plugin lock'') (\<lambda>_.
     bind_sum (validate_trust_path fs cn) (\<lambda>_.
     bind_sum (fs_read fs (cn_public_key_path cn)) (\<lambda>pem.
     bind_sum (load_key pem) (\<lambda>key.
     case key of
       None \<Rightarrow> refuse ''host trust key must be an Ed25519 public key''
     | Some verify \<Rightarrow>
         bind_sum (fs_read fs (cn_signature_path cn)) (\<lambda>text.
         case b64decode_validated (bytes_strip text) of
           None \<Rightarrow> refuse ''host artifact signature verification failed''
         | Some signature \<Rightarrow>
             check (verify signature expected_digest) ''host artifact signature verification failed'')))))))))))"

section \<open>The socket\<close>

text \<open>The walk from the socket's directory up to the socket root. The parent of the root directory is
  itself, so the walk has no other end than meeting the socket root or a directory that is refused.\<close>

partial_function (option) check_directories :: "files \<Rightarrow> path \<Rightarrow> path \<Rightarrow> (exn + unit) option" where
  "check_directories fs socket_root current =
     (case fs_lstat fs current of
        Inl e \<Rightarrow> Some (Inl e)
      | Inr metadata \<Rightarrow>
          if st_kind metadata \<noteq> Directory then Some (refuse ''host socket directories must not be symlinks'')
          else if group_or_world_writable metadata then Some (refuse ''host socket directories cannot be group/world writable'')
          else if current = socket_root then Some (Inr ())
          else check_directories fs socket_root (parent current))"

definition check_socket_file :: "files \<Rightarrow> host_connection \<Rightarrow> path \<Rightarrow> exn + unit" where
  "check_socket_file fs cn socket_path =
     bind_sum (fs_lstat fs socket_path) (\<lambda>metadata.
     bind_sum (check (st_kind metadata = Socket) ''host endpoint must be a Unix socket'') (\<lambda>_.
     bind_sum (check (st_uid metadata = cn_expected_uid cn) ''host socket has an unexpected owner'') (\<lambda>_.
     check (\<not> world_writable metadata) ''host socket cannot be world writable'')))"

definition socket_location :: "files \<Rightarrow> host_connection \<Rightarrow> exn + path \<times> path" where
  "socket_location fs cn =
     bind_sum (fs_resolve fs (cn_socket_root cn)) (\<lambda>socket_root.
     bind_sum (fs_resolve fs (cn_socket_path cn)) (\<lambda>socket_path.
     bind_sum (check (socket_root = cn_socket_root cn \<and> socket_path = cn_socket_path cn)
       ''host socket path cannot contain symlinks'') (\<lambda>_.
     bind_sum (check (prefix socket_root socket_path) ''host socket is outside the configured socket root'') (\<lambda>_.
     Inr (socket_root, socket_path)))))"

definition validate_socket_path :: "files \<Rightarrow> host_connection \<Rightarrow> (exn + unit) option" where
  "validate_socket_path fs cn =
     (case socket_location fs cn of
        Inl e \<Rightarrow> Some (Inl e)
      | Inr (socket_root, socket_path) \<Rightarrow>
          map_option (\<lambda>dirs. bind_sum dirs (\<lambda>_. check_socket_file fs cn socket_path))
            (check_directories fs socket_root (parent socket_path)))"

section \<open>What the checks establish\<close>

lemma check_simps [simp]:
  "check b m = Inr u \<longleftrightarrow> b"
  "check b m = Inl e \<longleftrightarrow> \<not> b \<and> e = HostProtocolError m"
  "check True m = Inr ()"
  "refuse m \<noteq> Inr x"
  by (auto simp: check_def refuse_def)

text \<open>A file that only its owner may write.\<close>

definition guarded_file :: "files \<Rightarrow> file_kind \<Rightarrow> int \<Rightarrow> path \<Rightarrow> bool" where
  "guarded_file fs kind owner path \<longleftrightarrow>
     (\<exists>m. fs_lstat fs path = Inr m \<and> st_kind m = kind \<and> st_uid m = owner \<and> \<not> group_or_world_writable m)"

text \<open>(C33) A plugin host's artifact is accepted only if it is a regular file of the configured owner that nobody else
  can write, without a symbolic link on the way, its content hashes to the locked digest, and the signature
  file verifies over that digest under an Ed25519 key that lies below a trust root of which
  neither the directory nor the key can be written by anyone but the configured owner.\<close>

theorem signed_artifact_accepted:
  assumes "verify_signed_artifact sha load_key fs cn digest = Inr ()"
  shows "fs_resolve fs (cn_artifact_path cn) = Inr (cn_artifact_path cn) \<and>
    guarded_file fs Regular (cn_artifact_owner_uid cn) (cn_artifact_path cn) \<and>
    (\<exists>content. fs_read fs (cn_artifact_path cn) = Inr content \<and> digest = ''sha256:'' @ sha content) \<and>
    prefix (cn_trust_root cn) (cn_public_key_path cn) \<and>
    guarded_file fs Directory (cn_trust_owner_uid cn) (cn_trust_root cn) \<and>
    guarded_file fs Regular (cn_trust_owner_uid cn) (cn_public_key_path cn) \<and>
    (\<exists>pem verify text signature. fs_read fs (cn_public_key_path cn) = Inr pem \<and> load_key pem = Inr (Some verify) \<and>
       fs_read fs (cn_signature_path cn) = Inr text \<and> b64decode_validated (bytes_strip text) = Some signature \<and>
       verify signature digest)"
proof -
  have "artifact_digest sha fs (cn_artifact_path cn) (cn_max_artifact_bytes cn) = Inr digest"
    and "validate_trust_path fs cn = Inr ()"
    and "\<exists>m. fs_lstat fs (cn_artifact_path cn) = Inr m \<and> st_uid m = cn_artifact_owner_uid cn \<and> \<not> group_or_world_writable m"
    using assms by (auto simp: verify_signed_artifact_def)
  then show ?thesis using assms
    by (auto simp: verify_signed_artifact_def artifact_digest_def validate_trust_path_def check_trust_file_def guarded_file_def
        split: option.splits)
qed

section \<open>The walk to the socket root\<close>

definition safe_directory :: "files \<Rightarrow> path \<Rightarrow> bool" where
  "safe_directory fs d \<longleftrightarrow> (\<exists>m. fs_lstat fs d = Inr m \<and> st_kind m = Directory \<and> \<not> group_or_world_writable m)"

text \<open>Below the socket root the walk ends, and ends well exactly when every directory on it is safe.\<close>

lemma walk_returns:
  "\<exists>r. check_directories fs root (root @ rest) = Some r \<and>
     (r = Inr () \<longleftrightarrow> (\<forall>n \<le> length rest. safe_directory fs (root @ take n rest)))"
proof (induction rest rule: rev_induct)
  case Nil
  then show ?case by (subst check_directories.simps) (auto simp: safe_directory_def split: sum.split)
next
  case (snoc d rest)
  then obtain r where r: "check_directories fs root (root @ rest) = Some r"
    "r = Inr () \<longleftrightarrow> (\<forall>n \<le> length rest. safe_directory fs (root @ take n rest))" by blast
  have up: "parent (root @ rest @ [d]) = root @ rest" by (simp add: parent_def butlast_append)
  have all: "(\<forall>n \<le> length (rest @ [d]). safe_directory fs (root @ take n (rest @ [d]))) \<longleftrightarrow>
      safe_directory fs (root @ rest @ [d]) \<and> (\<forall>n \<le> length rest. safe_directory fs (root @ take n rest))"
    by (auto simp: le_Suc_eq)
  show ?case unfolding all
    by (subst check_directories.simps) (use r in \<open>auto simp: up safe_directory_def split: sum.split\<close>)
qed

text \<open>Never meeting the socket root, the walk does not return.\<close>

lemma walk_diverges:
  assumes "\<And>q. strict_prefix q root \<Longrightarrow> safe_directory fs q" and "strict_prefix current root"
  shows "check_directories fs root current = None"
proof -
  let ?P = "\<lambda>fs' root' dir r. fs' = fs \<longrightarrow> root' = root \<longrightarrow> \<not> strict_prefix dir root"
  have "?P fs' root' dir r" if "check_directories fs' root' dir = Some r" for fs' root' dir r
  proof (rule check_directories.raw_induct [where P = ?P, OF _ that], intro impI notI)
    fix rec fs' root' dir and r :: "exn + unit"
    assume ih: "\<And>fs' root' dir r. rec fs' root' dir = Some r \<Longrightarrow> ?P fs' root' dir r"
      and body: "(case fs_lstat fs' dir of
        Inl e \<Rightarrow> Some (Inl e)
      | Inr metadata \<Rightarrow>
          if st_kind metadata \<noteq> Directory then Some (refuse ''host socket directories must not be symlinks'')
          else if group_or_world_writable metadata then Some (refuse ''host socket directories cannot be group/world writable'')
          else if dir = root' then Some (Inr ())
          else rec fs' root' (parent dir)) = Some r"
      and here: "fs' = fs" "root' = root" "strict_prefix dir root"
    have "safe_directory fs dir" using assms(1) here(3) by blast
    with here body have next_dir: "rec fs root (parent dir) = Some r"
      by (auto simp: safe_directory_def split: sum.splits if_splits)
    have "prefix (parent dir) dir" by (simp add: parent_def prefixeq_butlast)
    then have "strict_prefix (parent dir) root" using here(3) by (meson prefix_order.le_less_trans)
    with ih [OF next_dir] show False by blast
  qed
  then show ?thesis using assms(2) by (metis option.exhaust)
qed

text \<open>(C36) The check of the host's socket returns whenever the socket lies strictly below its root, and it accepts
  only a socket of the expected owner that the world cannot write, reached without symbolic links through real
  directories, from the root down, that neither group nor world can write.\<close>

theorem socket_check_returns:
  assumes "cn_socket_path cn \<noteq> cn_socket_root cn"
  shows "\<exists>r. validate_socket_path fs cn = Some r \<and>
    (r = Inr () \<longrightarrow> (\<exists>m. fs_lstat fs (cn_socket_path cn) = Inr m \<and> st_kind m = Socket \<and> st_uid m = cn_expected_uid cn \<and>
         \<not> world_writable m) \<and>
       strict_prefix (cn_socket_root cn) (cn_socket_path cn) \<and>
       (\<forall>d. prefix (cn_socket_root cn) d \<longrightarrow> strict_prefix d (cn_socket_path cn) \<longrightarrow> safe_directory fs d))"
proof (cases "socket_location fs cn")
  case (Inl e)
  then show ?thesis by (simp add: validate_socket_path_def)
next
  case (Inr loc)
  then have loc: "loc = (cn_socket_root cn, cn_socket_path cn)" "prefix (cn_socket_root cn) (cn_socket_path cn)"
    by (auto simp: socket_location_def)
  then obtain rest where rest: "cn_socket_path cn = cn_socket_root cn @ rest" "rest \<noteq> []"
    using assms by (auto simp: prefix_def)
  then have up: "parent (cn_socket_path cn) = cn_socket_root cn @ butlast rest" by (simp add: parent_def butlast_append)
  obtain r where r: "check_directories fs (cn_socket_root cn) (parent (cn_socket_path cn)) = Some r"
    "r = Inr () \<longleftrightarrow> (\<forall>n \<le> length (butlast rest). safe_directory fs (cn_socket_root cn @ take n (butlast rest)))"
    unfolding up using walk_returns by blast
  have dirs: "safe_directory fs d" if ok: "r = Inr ()" and below: "prefix (cn_socket_root cn) d"
    and above: "strict_prefix d (cn_socket_path cn)" for d
  proof -
    obtain e where e: "d = cn_socket_root cn @ e" using below by (auto simp: prefix_def)
    have "strict_prefix e rest" using above unfolding e rest(1) by (auto simp: strict_prefix_def)
    then obtain c zs where "rest = e @ c # zs" by (meson strict_prefixE')
    then have "e = take (length e) (butlast rest)" "length e \<le> length (butlast rest)" by (simp_all add: butlast_append)
    then show ?thesis using ok r(2) e by metis
  qed
  show ?thesis
    using Inr loc r(1) rest dirs
    by (auto simp: validate_socket_path_def check_socket_file_def strict_prefix_def)
qed

text \<open>A socket path configured as its own root passes the containment check but makes the walk miss the root: with
  ordinary directories above it the check never returns, instead of refusing the configuration.\<close>

theorem socket_at_root_hangs:
  assumes "cn_socket_path cn = cn_socket_root cn" and "cn_socket_root cn \<noteq> []"
    and "fs_resolve fs (cn_socket_root cn) = Inr (cn_socket_root cn)"
    and "\<And>q. strict_prefix q (cn_socket_root cn) \<Longrightarrow> safe_directory fs q"
  shows "validate_socket_path fs cn = None"
proof -
  have "strict_prefix (parent (cn_socket_root cn)) (cn_socket_root cn)"
    using assms(2) by (simp add: parent_def strict_prefix_def prefixeq_butlast) (metis append_butlast_last_id append_self_conv list.distinct(1))
  then have "check_directories fs (cn_socket_root cn) (parent (cn_socket_root cn)) = None"
    using walk_diverges [of "cn_socket_root cn" fs] assms(4) by blast
  then show ?thesis using assms(1,3) by (simp add: validate_socket_path_def socket_location_def)
qed

section \<open>An example\<close>

definition demo_stat :: "file_kind \<Rightarrow> file_stat" where
  "demo_stat k = \<lparr>st_kind = k, st_uid = 0, st_mode = 0x1ED, st_size = 3\<rparr>"

definition demo_files :: files where
  "demo_files = \<lparr>fs_resolve = (\<lambda>p. Inr p),
     fs_lstat = (\<lambda>p. Inr (demo_stat (if p = [''run'', ''host.sock''] then Socket
        else if p \<in> {[''lib'', ''plugin.wasm''], [''etc'', ''key.pem'']} then Regular else Directory))),
     fs_read = (\<lambda>p. Inr (if p = [''lib'', ''plugin.sig''] then ''c2ln'' else ''abc''))\<rparr>"

definition demo_connection :: host_connection where
  "demo_connection = \<lparr>cn_socket_path = [''run'', ''host.sock''], cn_socket_root = [''run''], cn_expected_uid = 0,
     cn_artifact_path = [''lib'', ''plugin.wasm''], cn_signature_path = [''lib'', ''plugin.sig''],
     cn_public_key_path = [''etc'', ''key.pem''], cn_trust_root = [''etc''], cn_trust_owner_uid = 0,
     cn_artifact_owner_uid = 0, cn_max_frame_bytes = 4096, cn_max_artifact_bytes = 1024\<rparr>"

lemmas demo_files_defs = demo_files_def demo_connection_def demo_stat_def

lemma demo_signed:
  "verify_signed_artifact (\<lambda>s. s) (\<lambda>pem. Inr (Some (\<lambda>sig msg. sig = ''sig''))) demo_files demo_connection ''sha256:abc'' = Inr ()"
proof -
  have "b64decode_validated (bytes_strip ''c2ln'') = Some ''sig''"
    by code_simp
  then show ?thesis
    by (simp add: verify_signed_artifact_def demo_files_defs artifact_digest_def validate_trust_path_def check_trust_file_def
        group_or_world_writable_def)
qed

theorem signed_artifact_accepted_witness:
  "guarded_file demo_files Regular 0 [''lib'', ''plugin.wasm''] \<and> guarded_file demo_files Directory 0 [''etc'']"
  using signed_artifact_accepted [OF demo_signed] by (simp add: demo_connection_def)

theorem socket_check_returns_witness:
  "\<exists>r. validate_socket_path demo_files demo_connection = Some r"
  using socket_check_returns [of demo_connection demo_files] by (auto simp: demo_connection_def)

theorem socket_at_root_hangs_witness:
  "validate_socket_path demo_files (demo_connection\<lparr>cn_socket_root := [''run'', ''host.sock'']\<rparr>) = None"
proof (rule socket_at_root_hangs)
  fix q :: path
  assume "strict_prefix q (cn_socket_root (demo_connection\<lparr>cn_socket_root := [''run'', ''host.sock'']\<rparr>))"
  then have "length q < 2" "q \<noteq> [''run'', ''host.sock'']" by (auto dest: prefix_length_less)
  then show "safe_directory demo_files q"
    by (auto simp: safe_directory_def demo_files_defs group_or_world_writable_def)
qed (simp_all add: demo_files_defs)

end
