(* ===== verification/HostTransport.thy ===== *)
theory HostTransport
  imports PublicJson Frames HostFiles
begin

text \<open>
  The broker's end of the host transport, \<open>wasm_host_transport.py\<close>: requests, responses and the handshake,
  \<open>WasmHostClient\<close>, \<open>WasmHostAdapter\<close> and \<open>WasmHostStatusProvider\<close>. Parsing a dictionary into a model and
  writing a model as JSON text is the work of \<open>pydantic\<close>; the record \<open>pydantic\<close> collects what the code
  asks of it. The socket is the record \<open>wire\<close>: what each call on it returns or raises.
\<close>

section \<open>Messages\<close>

definition HOST_PROTOCOL_VERSION :: int where
  "HOST_PROTOCOL_VERSION = 1"

datatype host_operation =
    HANDSHAKE | HEALTH | PLAN | EXECUTE | OBSERVE | VERIFY | CANCEL | STATUS_OBSERVE

fun operation_value :: "host_operation \<Rightarrow> string" where
  "operation_value HANDSHAKE = ''handshake''"
| "operation_value HEALTH = ''health''"
| "operation_value PLAN = ''plan''"
| "operation_value EXECUTE = ''execute''"
| "operation_value OBSERVE = ''observe''"
| "operation_value VERIFY = ''verify''"
| "operation_value CANCEL = ''cancel''"
| "operation_value STATUS_OBSERVE = ''status.observe''"

record host_request =
  hq_protocol_version :: int
  hq_request_id :: string
  hq_plugin_id :: string
  hq_operation :: host_operation
  hq_payload :: json_object

record host_failure =
  hf_kind :: adapter_error_kind
  hf_retry :: retry_disposition
  hf_reconciliation_required :: bool

record host_response =
  hr_protocol_version :: int
  hr_request_id :: string
  hr_ok :: bool
  hr_result :: "json_object option"
  hr_error :: "host_failure option"

record host_handshake =
  hh_protocol_version :: int
  hh_plugin_id :: string
  hh_artifact_digest :: string
  hh_manifest :: plugin_manifest
  hh_actions :: "action_definition list"
  hh_status_providers :: "string list"

definition validate_status_providers :: "string list \<Rightarrow> bool" where
  "validate_status_providers names \<longleftrightarrow> distinct names \<and> list_all (len_between 1 256) names"

definition host_request_json :: "host_request \<Rightarrow> json" where
  "host_request_json q = JObj [(''protocol_version'', JInt (hq_protocol_version q)),
     (''request_id'', JStr (hq_request_id q)), (''plugin_id'', JStr (hq_plugin_id q)),
     (''operation'', JStr (operation_value (hq_operation q))), (''payload'', JObj (hq_payload q))]"

definition host_failure_json :: "host_failure \<Rightarrow> json" where
  "host_failure_json f = JObj [(''kind'', JStr (kind_value (hf_kind f))), (''retry'', JStr (retry_value (hf_retry f))),
     (''reconciliation_required'', JBool (hf_reconciliation_required f))]"

definition host_response_json :: "host_response \<Rightarrow> json" where
  "host_response_json r = JObj [(''protocol_version'', JInt (hr_protocol_version r)),
     (''request_id'', JStr (hr_request_id r)), (''ok'', JBool (hr_ok r)), (''result'', opt_json JObj (hr_result r)),
     (''error'', opt_json host_failure_json (hr_error r))]"

definition handshake_object :: "host_handshake \<Rightarrow> json_object" where
  "handshake_object h = [(''protocol_version'', JInt (hh_protocol_version h)), (''plugin_id'', JStr (hh_plugin_id h)),
     (''artifact_digest'', JStr (hh_artifact_digest h)), (''manifest'', manifest_json (hh_manifest h)),
     (''actions'', JList (map action_json (hh_actions h))), (''status_providers'', JList (map JStr (hh_status_providers h)))]"

text \<open>\<open>model_validate\<close> of each model, \<open>None\<close> for a \<open>ValidationError\<close>, and \<open>model_dump_json\<close> as bytes; beside them
  how a floating-point number reads back and the text \<open>str\<close> gives a value that is not a string.\<close>

record pydantic =
  py_dump :: "json \<Rightarrow> string"
  py_float :: "string \<Rightarrow> string"
  py_str :: "json \<Rightarrow> string"
  py_request :: "json_object \<Rightarrow> host_request option"
  py_response :: "json_object \<Rightarrow> host_response option"
  py_handshake :: "json_object \<Rightarrow> host_handshake option"
  py_health :: "json_object \<Rightarrow> adapter_health option"
  py_plan :: "json_object \<Rightarrow> string list option"
  py_execution :: "json \<Rightarrow> adapter_execution option"
  py_observation :: "json \<Rightarrow> adapter_observation option"
  py_verification :: "json_object \<Rightarrow> adapter_verification option"
  py_cancellation :: "json_object \<Rightarrow> adapter_cancellation option"
  py_status :: "json_object \<Rightarrow> status_value option"
  py_action :: "json \<Rightarrow> action_definition option"
  py_action_request :: "json \<Rightarrow> action_request option"

section \<open>The client\<close>

record host_client =
  hc_plugin_id :: string
  hc_connection :: host_connection
  hc_expected_digest :: string

text \<open>A connection attempt: the result of \<^const>\<open>validate_socket_path\<close> at that time (which has returned), connecting,
  the peer's user ID (\<open>None\<close> when the transport has no socket), and what comes back after a frame was sent,
  up to the end of the stream, for the two kinds of socket.\<close>

record wire =
  wr_check :: "exn + unit"
  wr_connect :: "exn + unit"
  wr_peer_uid :: "exn + int option"
  wr_exchange :: "string \<Rightarrow> exn + string"
  wr_exchange_sync :: "string \<Rightarrow> exn + recv_event list"

definition WasmHostClient ::
  "(string \<Rightarrow> string) \<Rightarrow> (string \<Rightarrow> exn + (string \<Rightarrow> string \<Rightarrow> bool) option) \<Rightarrow> files \<Rightarrow> string \<Rightarrow> host_connection \<Rightarrow> string \<Rightarrow>
     exn + host_client" where
  "WasmHostClient sha load_key fs plugin_id cn expected_digest =
     bind_sum (verify_signed_artifact sha load_key fs cn expected_digest) (\<lambda>_.
     Inr \<lparr>hc_plugin_id = plugin_id, hc_connection = cn, hc_expected_digest = expected_digest\<rparr>)"

definition HostTransportError :: "string \<Rightarrow> adapter_error_kind \<Rightarrow> retry_disposition \<Rightarrow> exn" where
  "HostTransportError message kind retry =
     AdapterExn ((AdapterError message kind retry False [])\<lparr>ae_class := HostTransportErrorClass\<rparr>)"

definition HostRequest :: "string \<Rightarrow> host_client \<Rightarrow> host_operation \<Rightarrow> json_object \<Rightarrow> exn + host_request" where
  "HostRequest request_id client operation payload =
     (if plugin_id_ok (hc_plugin_id client)
      then Inr \<lparr>hq_protocol_version = HOST_PROTOCOL_VERSION, hq_request_id = request_id, hq_plugin_id = hc_plugin_id client,
                hq_operation = operation, hq_payload = payload\<rparr>
      else Inl (ValidationError ''HostRequest''))"

definition unwrap :: "host_request \<Rightarrow> host_response \<Rightarrow> exn + json_object" where
  "unwrap request response =
     (if hr_protocol_version response \<noteq> HOST_PROTOCOL_VERSION
      then refuse ''host response uses an unsupported protocol version''
      else if hr_request_id response \<noteq> hq_request_id request then refuse ''host response request ID does not match''
      else if hr_ok response
      then case (hr_error response, hr_result response) of
             (None, Some result) \<Rightarrow>
               if hq_operation request = HANDSHAKE then Inr result
               else bind_sum (validate_public_json 0 (JObj result)) (\<lambda>_. Inr result)
           | _ \<Rightarrow> refuse ''successful host response has an invalid shape''
      else case (hr_error response, hr_result response) of
             (Some error, None) \<Rightarrow>
               Inl (AdapterExn (AdapterError ''host plugin operation failed'' (hf_kind error) (hf_retry error)
                 (hf_reconciliation_required error) []))
           | _ \<Rightarrow> refuse ''failed host response has an invalid shape'')"

text \<open>The part of \<open>call\<close> inside its \<open>try\<close>: sending the request and reading the response, then unwrapping it.\<close>

definition receive :: "pydantic \<Rightarrow> host_client \<Rightarrow> wire \<Rightarrow> host_request \<Rightarrow> exn + host_response" where
  "receive py client w request =
     (let limit = cn_max_frame_bytes (hc_connection client) in
      bind_sum (wr_check w) (\<lambda>_.
      bind_sum (wr_connect w) (\<lambda>_.
      bind_sum (wr_peer_uid w) (\<lambda>uid.
      bind_sum (check (uid = Some (cn_expected_uid (hc_connection client))) ''host peer identity does not match configuration'') (\<lambda>_.
      bind_sum (encode_frame (py_dump py) (host_request_json request) limit) (\<lambda>frame.
      bind_sum (wr_exchange w frame) (\<lambda>stream.
      bind_sum (read_frame (py_float py) stream limit) (\<lambda>raw.
      case py_response py raw of
        None \<Rightarrow> Inl (HostTransportError ''host response failed schema validation'' K_PROTOCOL RETRY_NEVER)
      | Some response \<Rightarrow> Inr response))))))))"

definition exchange :: "pydantic \<Rightarrow> host_client \<Rightarrow> wire \<Rightarrow> host_request \<Rightarrow> exn + json_object" where
  "exchange py client w request = bind_sum (receive py client w request) (unwrap request)"

text \<open>Its \<open>except\<close> clauses.\<close>

definition transport_error :: "exn \<Rightarrow> exn" where
  "transport_error e =
     (case e of
        HostProtocolError m \<Rightarrow> HostTransportError ''host protocol validation failed'' K_PROTOCOL RETRY_NEVER
      | PyOSError m \<Rightarrow> HostTransportError ''host is unavailable'' K_UNAVAILABLE RETRY_SAFE
      | IncompleteRead \<Rightarrow> HostTransportError ''host is unavailable'' K_UNAVAILABLE RETRY_SAFE
      | _ \<Rightarrow> e)"

definition host_call ::
  "pydantic \<Rightarrow> host_client \<Rightarrow> wire \<Rightarrow> string \<Rightarrow> host_operation \<Rightarrow> json_object \<Rightarrow> exn + json_object" where
  "host_call py client w request_id operation payload =
     bind_sum (validate_public_json 0 (JObj payload)) (\<lambda>_.
     bind_sum (HostRequest request_id client operation payload) (\<lambda>request.
     case exchange py client w request of Inl e \<Rightarrow> Inl (transport_error e) | Inr result \<Rightarrow> Inr result))"

definition host_call_sync ::
  "pydantic \<Rightarrow> host_client \<Rightarrow> wire \<Rightarrow> string \<Rightarrow> host_operation \<Rightarrow> json_object \<Rightarrow> exn + json_object" where
  "host_call_sync py client w request_id operation payload =
     bind_sum (HostRequest request_id client operation payload) (\<lambda>request.
     let limit = cn_max_frame_bytes (hc_connection client);
         attempt =
           bind_sum (wr_check w) (\<lambda>_.
           bind_sum (wr_connect w) (\<lambda>_.
           bind_sum (wr_peer_uid w) (\<lambda>uid.
           bind_sum (check (uid = Some (cn_expected_uid (hc_connection client))) ''host peer identity does not match configuration'') (\<lambda>_.
           bind_sum (encode_frame (py_dump py) (host_request_json request) limit) (\<lambda>frame.
           bind_sum (wr_exchange_sync w frame) (\<lambda>peer.
           bind_sum (read_frame_sync (py_float py) peer limit) (\<lambda>raw.
           case py_response py raw of
             None \<Rightarrow> Inl (ValidationError ''HostResponse'')
           | Some response \<Rightarrow> unwrap request response)))))))
     in case attempt of Inl (PyOSError m) \<Rightarrow> refuse ''host handshake failed'' | r \<Rightarrow> r)"

section \<open>The handshake\<close>

fun check_actions :: "host_client \<Rightarrow> plugin_manifest \<Rightarrow> action_definition list \<Rightarrow> exn + unit" where
  "check_actions client manifest [] = Inr ()"
| "check_actions client manifest (action # actions) =
     bind_sum (check (ad_plugin action = hc_plugin_id client \<and> ad_adapter action \<in> set (pm_adapters manifest))
       ''host action ownership does not match the manifest'') (\<lambda>_.
     bind_sum (validate_public_json 0 (JObj (ad_parameter_schema action))) (\<lambda>_.
     check_actions client manifest actions))"

definition validate_handshake :: "host_client \<Rightarrow> host_handshake \<Rightarrow> exn + unit" where
  "validate_handshake client h =
     bind_sum (check (hh_protocol_version h = HOST_PROTOCOL_VERSION) ''host uses an unsupported protocol version'') (\<lambda>_.
     bind_sum (check (hh_plugin_id h = hc_plugin_id client \<and> pm_id (hh_manifest h) = hc_plugin_id client)
       ''host handshake plugin ID does not match'') (\<lambda>_.
     bind_sum (check (hh_artifact_digest h = hc_expected_digest client) ''host is not running the locked artifact'') (\<lambda>_.
     bind_sum (check (distinct (map ad_id (hh_actions h)) \<and> set (map ad_id (hh_actions h)) = set (pm_actions (hh_manifest h)))
       ''host actions do not match the manifest'') (\<lambda>_.
     check_actions client (hh_manifest h) (hh_actions h)))))"

definition handshake :: "pydantic \<Rightarrow> host_client \<Rightarrow> wire \<Rightarrow> string \<Rightarrow> exn + host_handshake" where
  "handshake py client w request_id =
     bind_sum (host_call_sync py client w request_id HANDSHAKE []) (\<lambda>response.
     case py_handshake py response of
       None \<Rightarrow> Inl (ValidationError ''HostHandshake'')
     | Some h \<Rightarrow> bind_sum (validate_handshake client h) (\<lambda>_. Inr h))"

section \<open>The adapter over the wire\<close>

definition request_json :: "action_request \<Rightarrow> json_object" where
  "request_json r = [(''action_id'', JStr (rq_action_id r)), (''action_version'', JInt (rq_action_version r)),
     (''target'', target_json (rq_target r)), (''parameters'', JObj (rq_parameters r)), (''context'', context_json (rq_context r)),
     (''idempotency_key'', JStr (rq_idempotency_key r)), (''dry_run'', JBool (rq_dry_run r)),
     (''confirmation_token'', opt_json JStr (rq_confirmation_token r)),
     (''confirmation_response'', opt_json JStr (rq_confirmation_response r))]"

definition request_dump :: "action_request \<Rightarrow> exn + json" where
  "request_dump r =
     (let dumped = JObj (filter (\<lambda>(k, v). k \<noteq> ''confirmation_token'') (request_json r))
      in bind_sum (validate_public_json 0 dumped) (\<lambda>_. Inr dumped))"

definition action_payload :: "string \<Rightarrow> action_definition \<Rightarrow> action_request \<Rightarrow> exn + json_object" where
  "action_payload adapter_id action request =
     bind_sum (request_dump request) (\<lambda>dumped.
     Inr [(''adapter'', JStr adapter_id), (''action'', action_json action), (''request'', dumped)])"

definition model ::
  "pydantic \<Rightarrow> host_client \<Rightarrow> wire \<Rightarrow> string \<Rightarrow> host_operation \<Rightarrow> json_object \<Rightarrow> (json_object \<Rightarrow> 'a option) \<Rightarrow> exn + 'a" where
  "model py client w request_id operation payload validate =
     bind_sum (host_call py client w request_id operation payload) (\<lambda>raw.
     case validate raw of
       None \<Rightarrow> Inl (HostTransportError (''host '' @ operation_value operation @ '' result failed schema validation'') K_PROTOCOL RETRY_NEVER)
     | Some x \<Rightarrow> Inr x)"

definition unknown_for_mutation :: "action_definition \<Rightarrow> exn + 'a \<Rightarrow> exn + 'a" where
  "unknown_for_mutation action r =
     (case r of
        Inl (AdapterExn e) \<Rightarrow>
          if ae_class e = HostTransportErrorClass \<and> ad_mutation action
          then Inl (AdapterExn (UnknownOutcome ''host transport failed during mutation'' [])) else r
      | _ \<Rightarrow> r)"

definition WasmHostAdapter :: "pydantic \<Rightarrow> host_client \<Rightarrow> wire \<Rightarrow> string \<Rightarrow> string \<Rightarrow> adapter" where
  "WasmHostAdapter py client w request_id adapter_id = \<lparr>
     ap_health = model py client w request_id HEALTH [(''adapter'', JStr adapter_id)] (py_health py),
     ap_plan = (\<lambda>action request. bind_sum (action_payload adapter_id action request) (\<lambda>payload.
        model py client w request_id PLAN payload (py_plan py))),
     ap_execute = (\<lambda>action request. unknown_for_mutation action
        (bind_sum (action_payload adapter_id action request) (\<lambda>payload.
         model py client w request_id EXECUTE payload (\<lambda>raw. py_execution py (JObj raw))))),
     ap_observe = (\<lambda>action request. unknown_for_mutation action
        (bind_sum (action_payload adapter_id action request) (\<lambda>payload.
         model py client w request_id OBSERVE payload (\<lambda>raw. py_observation py (JObj raw))))),
     ap_verify = (\<lambda>action request execution observation. bind_sum (action_payload adapter_id action request) (\<lambda>payload.
        unknown_for_mutation action
          (model py client w request_id VERIFY
             (payload @ [(''execution'', execution_json execution), (''observation'', observation_json observation)])
             (py_verification py)))),
     ap_cancel = (\<lambda>action request execution. bind_sum (action_payload adapter_id action request) (\<lambda>payload.
        unknown_for_mutation action
          (model py client w request_id CANCEL (payload @ [(''execution'', opt_json execution_json execution)])
             (py_cancellation py))))\<rparr>"

definition WasmHostStatusProvider :: "pydantic \<Rightarrow> host_client \<Rightarrow> wire \<Rightarrow> string \<Rightarrow> string \<Rightarrow> status_provider" where
  "WasmHostStatusProvider py client w request_id provider_id =
     bind_sum (host_call py client w request_id STATUS_OBSERVE [(''provider'', JStr provider_id)]) (\<lambda>raw.
     case py_status py raw of None \<Rightarrow> Inl (ValidationError ''StatusValue'') | Some v \<Rightarrow> Inr v)"

end
