(* ===== verification/HostServer.thy ===== *)
theory HostServer
  imports HostTransport
begin

text \<open>
  The host's end of the transport, \<open>WasmHostServer\<close> of \<open>wasm_host_transport.py\<close>: it serves one plugin to one broker,
  one request per connection.
\<close>

section \<open>The server\<close>

record host_server =
  ss_manifest :: plugin_manifest
  ss_contribution :: plugin_contribution
  ss_artifact_digest :: string
  ss_actions :: "(string \<times> action_definition) list"
  ss_broker_uid :: int
  ss_max_frame_bytes :: nat

definition actions_by_id :: "action_definition list \<Rightarrow> (string \<times> action_definition) list" where
  "actions_by_id actions = fold (\<lambda>a. dict_set (ad_id a) a) actions []"

definition validate_contribution :: "host_server \<Rightarrow> exn + unit" where
  "validate_contribution s =
     bind_sum (check (set (map fst (pc_adapters (ss_contribution s))) = set (pm_adapters (ss_manifest s)))
       ''host adapter contribution differs from manifest'') (\<lambda>_.
     bind_sum (check (set (map fst (ss_actions s)) = set (pm_actions (ss_manifest s)))
       ''host action contribution differs from manifest'') (\<lambda>_.
     case (find (\<lambda>(n, a). a = None) (pc_adapters (ss_contribution s)),
           find (\<lambda>(n, p). p = None) (pc_status_providers (ss_contribution s))) of
       (Some (name, _), _) \<Rightarrow> refuse (''host adapter '' @ py_repr_ident name @ '' is incomplete'')
     | (None, Some (name, _)) \<Rightarrow> refuse (''host status provider '' @ py_repr_ident name @ '' is incomplete'')
     | (None, None) \<Rightarrow> Inr ()))"

definition WasmHostServer ::
  "(string \<Rightarrow> string) \<Rightarrow> files \<Rightarrow> plugin \<Rightarrow> json_object \<Rightarrow> path \<Rightarrow> int \<Rightarrow> nat \<Rightarrow> nat \<Rightarrow> exn + host_server" where
  "WasmHostServer sha fs plugin config artifact_path broker_uid max_frame_bytes max_artifact_bytes =
     bind_sum (pl_manifest plugin) (\<lambda>manifest.
     bind_sum (check (pm_api_version manifest = PLUGIN_API_VERSION) ''plugin requires an unsupported API version'') (\<lambda>_.
     bind_sum (pl_build plugin config) (\<lambda>contribution.
     bind_sum (artifact_digest sha fs artifact_path max_artifact_bytes) (\<lambda>digest.
     let s = \<lparr>ss_manifest = manifest, ss_contribution = contribution, ss_artifact_digest = digest,
              ss_actions = actions_by_id (pc_actions contribution), ss_broker_uid = broker_uid,
              ss_max_frame_bytes = max_frame_bytes\<rparr>
     in bind_sum (validate_contribution s) (\<lambda>_. Inr s)))))"

text \<open>The guards of \<open>start\<close>; a path exists or is a symbolic link exactly when \<open>lstat\<close> finds it.\<close>

definition start_guards :: "files \<Rightarrow> int \<Rightarrow> path \<Rightarrow> exn + unit" where
  "start_guards fs uid socket_path =
     bind_sum (fs_resolve fs (parent socket_path)) (\<lambda>resolved.
     bind_sum (check (resolved = parent socket_path) ''host socket parent cannot contain symlinks'') (\<lambda>_.
     bind_sum (fs_lstat fs (parent socket_path)) (\<lambda>metadata.
     bind_sum (check (st_kind metadata = Directory) ''host socket parent must be a real directory'') (\<lambda>_.
     bind_sum (check (st_uid metadata = uid \<and> \<not> group_or_world_writable metadata)
       ''host socket parent has unsafe ownership or mode'') (\<lambda>_.
     check (isl (fs_lstat fs socket_path)) ''host socket path already exists'')))))"

section \<open>Operations\<close>

definition key_text :: "pydantic \<Rightarrow> json \<Rightarrow> string" where
  "key_text py v = (case v of JStr s \<Rightarrow> s | _ \<Rightarrow> py_str py v)"

definition field :: "json_object \<Rightarrow> string \<Rightarrow> exn + json" where
  "field payload key = (case obj_get payload key of None \<Rightarrow> Inl (PyKeyError key) | Some v \<Rightarrow> Inr v)"

definition entry :: "(string \<times> 'a option) list \<Rightarrow> string \<Rightarrow> exn + 'a" where
  "entry table name = (case map_of table name of Some (Some x) \<Rightarrow> Inr x | _ \<Rightarrow> Inl (PyKeyError name))"

definition validated :: "'a option \<Rightarrow> exn + 'a" where
  "validated x = (case x of None \<Rightarrow> Inl (ValidationError []) | Some y \<Rightarrow> Inr y)"

definition health_json :: "adapter_health \<Rightarrow> json" where
  "health_json h = JObj [(''state'', JStr (case ah_state h of H_HEALTHY \<Rightarrow> ''healthy'' | H_DEGRADED \<Rightarrow> ''degraded''
       | H_UNAVAILABLE \<Rightarrow> ''unavailable'')),
     (''checked_at'', JStr (json_instant (ah_checked_at h))), (''details'', JObj (ah_details h))]"

definition plan_json :: "string list \<Rightarrow> json" where
  "plan_json steps = JObj [(''steps'', JList (map JStr steps))]"

definition status_json :: "status_value \<Rightarrow> json" where
  "status_json v = JObj [(''state'', JStr (sv_state v)), (''observed_at'', JStr (json_instant (sv_observed_at v))),
     (''stale_after_seconds'', JInt (sv_stale_after_seconds v)), (''details'', JObj (sv_details v))]"

fun object_of :: "json \<Rightarrow> json_object" where
  "object_of (JObj kvs) = kvs"
| "object_of v = []"

definition server_handshake :: "host_server \<Rightarrow> host_handshake" where
  "server_handshake s = \<lparr>hh_protocol_version = HOST_PROTOCOL_VERSION, hh_plugin_id = pm_id (ss_manifest s),
     hh_artifact_digest = ss_artifact_digest s, hh_manifest = ss_manifest s, hh_actions = map snd (ss_actions s),
     hh_status_providers = sort (map fst (pc_status_providers (ss_contribution s)))\<rparr>"

text \<open>The operations on an action the host has recognised.\<close>

definition invoke_action ::
  "pydantic \<Rightarrow> adapter \<Rightarrow> host_operation \<Rightarrow> json_object \<Rightarrow> action_definition \<Rightarrow> action_request \<Rightarrow> exn + json" where
  "invoke_action py adapter operation payload action request =
     (case operation of
        PLAN \<Rightarrow> bind_sum (ap_plan adapter action request) (\<lambda>x. Inr (plan_json x))
      | EXECUTE \<Rightarrow> bind_sum (ap_execute adapter action request) (\<lambda>x. Inr (execution_json x))
      | OBSERVE \<Rightarrow> bind_sum (ap_observe adapter action request) (\<lambda>x. Inr (observation_json x))
      | VERIFY \<Rightarrow>
          bind_sum (field payload ''execution'') (\<lambda>e. bind_sum (validated (py_execution py e)) (\<lambda>execution.
          bind_sum (field payload ''observation'') (\<lambda>b. bind_sum (validated (py_observation py b)) (\<lambda>observation.
          bind_sum (ap_verify adapter action request execution observation) (\<lambda>x. Inr (verification_json x))))))
      | CANCEL \<Rightarrow>
          bind_sum (case obj_get payload ''execution'' of
              None \<Rightarrow> Inr None | Some JNull \<Rightarrow> Inr None
            | Some e \<Rightarrow> bind_sum (validated (py_execution py e)) (\<lambda>x. Inr (Some x))) (\<lambda>execution.
          bind_sum (ap_cancel adapter action request execution) (\<lambda>x. Inr (cancellation_json x)))
      | _ \<Rightarrow> refuse ''host operation is unsupported'')"

definition invoke :: "pydantic \<Rightarrow> host_server \<Rightarrow> host_operation \<Rightarrow> json_object \<Rightarrow> exn + json_object" where
  "invoke py s operation payload =
     (if operation = HANDSHAKE then Inr (handshake_object (server_handshake s))
      else if operation = STATUS_OBSERVE
      then bind_sum (field payload ''provider'') (\<lambda>name.
           bind_sum (entry (pc_status_providers (ss_contribution s)) (key_text py name)) (\<lambda>provider.
           bind_sum provider (\<lambda>v. Inr (object_of (status_json v)))))
      else bind_sum (field payload ''adapter'') (\<lambda>name.
           bind_sum (entry (pc_adapters (ss_contribution s)) (key_text py name)) (\<lambda>adapter.
           if operation = HEALTH then bind_sum (ap_health adapter) (\<lambda>h. Inr (object_of (health_json h)))
           else bind_sum (field payload ''action'') (\<lambda>a. bind_sum (validated (py_action py a)) (\<lambda>action.
                bind_sum (field payload ''request'') (\<lambda>r. bind_sum (validated (py_action_request py r)) (\<lambda>request.
                bind_sum (check (map_of (ss_actions s) (ad_id action) = Some action \<and> ad_adapter action = key_text py name)
                  ''host action does not match its declared contract'') (\<lambda>_.
                bind_sum (invoke_action py adapter operation payload action request) (\<lambda>result. Inr (object_of result))))))))))"

section \<open>Requests and responses\<close>

definition failure :: "host_request \<Rightarrow> adapter_error_kind \<Rightarrow> retry_disposition \<Rightarrow> bool \<Rightarrow> host_response" where
  "failure request kind retry reconciliation_required =
     \<lparr>hr_protocol_version = HOST_PROTOCOL_VERSION, hr_request_id = hq_request_id request, hr_ok = False, hr_result = None,
      hr_error = Some \<lparr>hf_kind = kind, hf_retry = retry, hf_reconciliation_required = reconciliation_required\<rparr>\<rparr>"

definition dispatch_error :: "host_request \<Rightarrow> exn \<Rightarrow> host_response" where
  "dispatch_error request e =
     (case e of
        AdapterExn x \<Rightarrow> failure request (ae_kind x) (ae_retry x) (ae_reconciliation_required x)
      | HostProtocolError m \<Rightarrow> failure request K_PROTOCOL RETRY_NEVER False
      | ValidationError m \<Rightarrow> failure request K_PROTOCOL RETRY_NEVER False
      | PyValueError m \<Rightarrow> failure request K_PROTOCOL RETRY_NEVER False
      | PyKeyError m \<Rightarrow> failure request K_PROTOCOL RETRY_NEVER False
      | _ \<Rightarrow> failure request K_UNEXPECTED RETRY_NEVER False)"

definition serve :: "pydantic \<Rightarrow> host_server \<Rightarrow> host_operation \<Rightarrow> json_object \<Rightarrow> exn + json_object" where
  "serve py s operation payload =
     bind_sum (invoke py s operation payload) (\<lambda>result.
     if operation = HANDSHAKE then Inr result else bind_sum (validate_public_json 0 (JObj result)) (\<lambda>_. Inr result))"

definition dispatch :: "pydantic \<Rightarrow> host_server \<Rightarrow> host_request \<Rightarrow> host_response" where
  "dispatch py s request =
     (if hq_protocol_version request \<noteq> HOST_PROTOCOL_VERSION then failure request K_PROTOCOL RETRY_NEVER False
      else if hq_plugin_id request \<noteq> pm_id (ss_manifest s) then failure request K_AUTHENTICATION RETRY_NEVER False
      else case serve py s (hq_operation request) (hq_payload request) of
             Inr result \<Rightarrow> \<lparr>hr_protocol_version = HOST_PROTOCOL_VERSION, hr_request_id = hq_request_id request, hr_ok = True,
               hr_result = Some result, hr_error = None\<rparr>
           | Inl e \<Rightarrow> dispatch_error request e)"

text \<open>What a connection is answered with. Every exception closes it without an answer.\<close>

definition answer :: "pydantic \<Rightarrow> host_server \<Rightarrow> exn + int option \<Rightarrow> string \<Rightarrow> exn + string" where
  "answer py s peer_uid stream =
     bind_sum peer_uid (\<lambda>uid.
     if uid \<noteq> Some (ss_broker_uid s) then Inr []
     else bind_sum (read_frame (py_float py) stream (ss_max_frame_bytes s)) (\<lambda>raw.
          bind_sum (validated (py_request py raw)) (\<lambda>request.
          encode_frame (py_dump py) (host_response_json (dispatch py s request)) (ss_max_frame_bytes s))))"

definition handle_connection :: "pydantic \<Rightarrow> host_server \<Rightarrow> exn + int option \<Rightarrow> string \<Rightarrow> string" where
  "handle_connection py s peer_uid stream = (case answer py s peer_uid stream of Inl e \<Rightarrow> [] | Inr bytes \<Rightarrow> bytes)"

end
