(* ===== verification/HostLaws.thy ===== *)
theory HostLaws
  imports HostServer Resilience
begin

text \<open>
  What the host transport promises: a mutation whose reply is lost is an unknown outcome, never a failure; the
  adapter seen through the transport behaves as the adapter behind it, up to the relaying of its errors; and
  the confirmation token of a request never reaches the host.
\<close>

section \<open>Lost replies\<close>

text \<open>The exceptions that \<open>call\<close> turns into a transport error.\<close>

definition transport_loss :: "exn \<Rightarrow> bool" where
  "transport_loss e =
     (case e of HostProtocolError m \<Rightarrow> True | PyOSError m \<Rightarrow> True | IncompleteRead \<Rightarrow> True
      | AdapterExn x \<Rightarrow> ae_class x = HostTransportErrorClass | _ \<Rightarrow> False)"

abbreviation unknown_outcome :: exn where
  "unknown_outcome \<equiv> AdapterExn (UnknownOutcome ''host transport failed during mutation'' [])"

lemma unknown_transport:
  assumes "ad_mutation action"
  shows "unknown_for_mutation action (Inl (HostTransportError m k r)) = Inl unknown_outcome"
    and "transport_loss e \<Longrightarrow> unknown_for_mutation action (Inl (transport_error e)) = Inl unknown_outcome"
    and "\<not> transport_loss e \<Longrightarrow> unknown_for_mutation action (Inl (transport_error e)) = Inl e"
  using assms by (auto simp: unknown_for_mutation_def HostTransportError_def transport_loss_def transport_error_def
      AdapterError_def split: exn.splits)

lemma unwrap_cases:
  "unwrap q response = Inl e \<Longrightarrow> (\<exists>m. e = HostProtocolError m) \<or>
     (\<exists>f. hr_error response = Some f \<and> \<not> hr_ok response \<and> hr_request_id response = hq_request_id q \<and>
        e = AdapterExn (AdapterError ''host plugin operation failed'' (hf_kind f) (hf_retry f) (hf_reconciliation_required f) []))"
  by (auto simp: unwrap_def refuse_def split: if_splits option.splits dest: validate_public_raises(1))

text \<open>What a mutating operation returns, in terms of what came back over the wire.\<close>

definition mutation_result ::
  "exn + host_response \<Rightarrow> host_request \<Rightarrow> (json_object \<Rightarrow> 'a option) \<Rightarrow> exn + 'a" where
  "mutation_result received q validate =
     (case received of
        Inl e \<Rightarrow> Inl (if transport_loss e then unknown_outcome else e)
      | Inr response \<Rightarrow>
          (case unwrap q response of
             Inr raw \<Rightarrow> (case validate raw of Some x \<Rightarrow> Inr x | None \<Rightarrow> Inl unknown_outcome)
           | Inl (AdapterExn e) \<Rightarrow> Inl (AdapterExn e)
           | Inl e \<Rightarrow> Inl unknown_outcome))"

lemma mutating_model:
  assumes "ad_mutation action" and "validate_public_json 0 (JObj payload) = Inr ()"
    and "HostRequest rid client operation payload = Inr q"
  shows "unknown_for_mutation action (model py client w rid operation payload validate) =
    mutation_result (receive py client w q) q validate"
proof (cases "receive py client w q")
  case (Inl e)
  then have "host_call py client w rid operation payload = Inl (transport_error e)"
    using assms(2,3) by (simp add: host_call_def exchange_def)
  then show ?thesis using Inl unknown_transport(2,3) [OF assms(1), of e] by (auto simp: model_def mutation_result_def)
next
  case (Inr response)
  show ?thesis
  proof (cases "unwrap q response")
    case (Inl e)
    then have call: "host_call py client w rid operation payload = Inl (transport_error e)"
      using assms(2,3) Inr by (simp add: host_call_def exchange_def)
    from unwrap_cases [OF Inl] show ?thesis
    proof (elim disjE exE conjE)
      fix m assume "e = HostProtocolError m"
      then show ?thesis using call Inr Inl unknown_transport(2) [OF assms(1), of e]
        by (simp add: model_def mutation_result_def transport_loss_def)
    next
      fix f assume "e = AdapterExn (AdapterError ''host plugin operation failed'' (hf_kind f) (hf_retry f) (hf_reconciliation_required f) [])"
      then show ?thesis using call Inr Inl unknown_transport(3) [OF assms(1), of e]
        by (simp add: model_def mutation_result_def transport_loss_def AdapterError_def)
    qed
  next
    case raw: (Inr raw)
    then have "host_call py client w rid operation payload = Inr raw"
      using assms(2,3) Inr by (simp add: host_call_def exchange_def)
    then show ?thesis using Inr raw assms(1)
      by (simp add: model_def mutation_result_def unknown_for_mutation_def HostTransportError_def AdapterError_def split: option.split)
  qed
qed

text \<open>The request the client sends.\<close>

definition sent :: "host_client \<Rightarrow> string \<Rightarrow> host_operation \<Rightarrow> json_object \<Rightarrow> host_request" where
  "sent client rid operation payload = \<lparr>hq_protocol_version = HOST_PROTOCOL_VERSION, hq_request_id = rid,
     hq_plugin_id = hc_plugin_id client, hq_operation = operation, hq_payload = payload\<rparr>"

lemma HostRequest_sent: "plugin_id_ok (hc_plugin_id client) \<Longrightarrow> HostRequest rid client operation payload = Inr (sent client rid operation payload)"
  by (simp add: HostRequest_def sent_def)


text \<open>One reply escapes this rule: a frame whose payload is not JSON. Its decoding error is none that \<open>call\<close>
  converts, so it leaves the adapter of a mutating action as it is, and the guard around the plugin turns it into an
  error that asks for no reconciliation: the job of a mutation that may well have happened is
  recorded as failed.\<close>

theorem garbled_reply_is_failure:
  assumes "ad_mutation action" and "plugin_id_ok (hc_plugin_id client)" and "action_payload name action request = Inr payload"
    and "validate_public_json 0 (JObj payload) = Inr ()"
    and "receive py client w (sent client rid EXECUTE payload) = Inl (PyValueError m)"
  shows "ap_execute (WasmHostAdapter py client w rid name) action request = Inl (PyValueError m) \<and>
    fst (call_end now True True (Raised (PyValueError m)) g) =
      Inl (AdapterExn (AdapterError ''plugin operation failed'' K_UNEXPECTED RETRY_NEVER False []))"
proof -
  have "ap_execute (WasmHostAdapter py client w rid name) action request =
      unknown_for_mutation action (model py client w rid EXECUTE payload (\<lambda>raw. py_execution py (JObj raw)))"
    using assms(3) by (simp add: WasmHostAdapter_def)
  then show ?thesis
    using mutating_model [OF assms(1,4) HostRequest_sent [OF assms(2)], where py = py and w = w and rid = rid and operation = EXECUTE] assms(5)
    by (simp add: mutation_result_def transport_loss_def call_end_def Let_def)
qed

section \<open>Both ends together\<close>

text \<open>The wire to a server that runs, whose socket belongs to the expected user.\<close>

definition served :: "pydantic \<Rightarrow> host_server \<Rightarrow> host_client \<Rightarrow> wire" where
  "served py s client = \<lparr>wr_check = Inr (), wr_connect = Inr (), wr_peer_uid = Inr (Some (cn_expected_uid (hc_connection client))),
     wr_exchange = (\<lambda>frame. Inr (handle_connection py s (Inr (Some (ss_broker_uid s))) frame)),
     wr_exchange_sync = (\<lambda>frame. Inr [Data (handle_connection py s (Inr (Some (ss_broker_uid s))) frame)])\<rparr>"

text \<open>A message crosses: it fits the frame limit, its JSON text loads back and parses into the message.\<close>

definition crosses :: "pydantic \<Rightarrow> nat \<Rightarrow> json \<Rightarrow> (json_object \<Rightarrow> 'm option) \<Rightarrow> 'm \<Rightarrow> bool" where
  "crosses py limit v validate x \<longleftrightarrow> (\<exists>bytes. encode_frame (py_dump py) v limit = Inr bytes) \<and>
     loads_bytes (py_float py) (py_dump py v) = Some v \<and> (\<exists>kvs. v = JObj kvs \<and> validate kvs = Some x)"

lemma crosses_read:
  assumes "crosses py limit v validate x"
  obtains bytes kvs where "encode_frame (py_dump py) v limit = Inr bytes" "bytes \<noteq> []"
    "read_frame (py_float py) bytes limit = Inr kvs" "validate kvs = Some x"
proof -
  obtain bytes kvs where v: "encode_frame (py_dump py) v limit = Inr bytes" "v = JObj kvs" "validate kvs = Some x"
    "loads_bytes (py_float py) (py_dump py v) = Some v" using assms by (auto simp: crosses_def)
  then have "read_frame (py_float py) bytes limit = Inr kvs"
    using read_encoded [OF v(1) order_refl, of "py_float py" "[]"] by (simp add: frame_value_def)
  moreover have "bytes \<noteq> []" using v(1) by (auto simp: encode_frame_Inr)
  ultimately show ?thesis using that v by blast
qed

lemma served_receive:
  assumes "crosses py (cn_max_frame_bytes (hc_connection client)) (host_request_json q) (py_request py) q"
    and "crosses py (cn_max_frame_bytes (hc_connection client)) (host_response_json (dispatch py s q)) (py_response py) (dispatch py s q)"
    and "ss_max_frame_bytes s = cn_max_frame_bytes (hc_connection client)"
  shows "receive py client (served py s client) q = Inr (dispatch py s q)"
proof -
  obtain f fo where f: "encode_frame (py_dump py) (host_request_json q) (cn_max_frame_bytes (hc_connection client)) = Inr f"
    "read_frame (py_float py) f (cn_max_frame_bytes (hc_connection client)) = Inr fo" "py_request py fo = Some q"
    using crosses_read [OF assms(1)] by metis
  obtain g go where g: "encode_frame (py_dump py) (host_response_json (dispatch py s q)) (cn_max_frame_bytes (hc_connection client)) = Inr g"
    "read_frame (py_float py) g (cn_max_frame_bytes (hc_connection client)) = Inr go" "py_response py go = Some (dispatch py s q)"
    using crosses_read [OF assms(2)] by metis
  have "handle_connection py s (Inr (Some (ss_broker_uid s))) f = g"
    using f g by (simp add: handle_connection_def answer_def assms(3) validated_def)
  then show ?thesis using f g by (simp add: receive_def served_def)
qed

text \<open>How an exception of the host reaches the broker.\<close>

definition relayed :: "exn \<Rightarrow> exn" where
  "relayed e = AdapterExn (case e of
      AdapterExn x \<Rightarrow> AdapterError ''host plugin operation failed'' (ae_kind x) (ae_retry x) (ae_reconciliation_required x) []
    | HostProtocolError m \<Rightarrow> AdapterError ''host plugin operation failed'' K_PROTOCOL RETRY_NEVER False []
    | ValidationError m \<Rightarrow> AdapterError ''host plugin operation failed'' K_PROTOCOL RETRY_NEVER False []
    | PyValueError m \<Rightarrow> AdapterError ''host plugin operation failed'' K_PROTOCOL RETRY_NEVER False []
    | PyKeyError m \<Rightarrow> AdapterError ''host plugin operation failed'' K_PROTOCOL RETRY_NEVER False []
    | _ \<Rightarrow> AdapterError ''host plugin operation failed'' K_UNEXPECTED RETRY_NEVER False [])"

lemma relayed_kept:
  "unknown_for_mutation action (Inl (relayed e)) = Inl (relayed e)" "unknown_for_mutation action (Inr x) = Inr x"
  by (simp_all add: unknown_for_mutation_def relayed_def AdapterError_def split: exn.split)

lemma relayed_protocol:
  "relayed (HostProtocolError m) = AdapterExn (AdapterError ''host plugin operation failed'' K_PROTOCOL RETRY_NEVER False [])"
  by (simp add: relayed_def)

lemma unwrap_dispatch:
  assumes "hq_protocol_version q = HOST_PROTOCOL_VERSION" and "hq_plugin_id q = pm_id (ss_manifest s)"
  shows "unwrap q (dispatch py s q) =
    (case serve py s (hq_operation q) (hq_payload q) of Inr result \<Rightarrow> Inr result | Inl e \<Rightarrow> Inl (relayed e))"
proof (cases "serve py s (hq_operation q) (hq_payload q)")
  case (Inl e)
  then show ?thesis using assms
    by (cases e) (simp_all add: unwrap_def dispatch_def dispatch_error_def failure_def relayed_def)
next
  case (Inr result)
  then have "hq_operation q \<noteq> HANDSHAKE \<Longrightarrow> validate_public_json 0 (JObj result) = Inr ()"
    by (auto simp: serve_def split: if_splits)
  with Inr assms show ?thesis by (simp add: unwrap_def dispatch_def)
qed

text \<open>The format of a lifecycle result: a model is dumped as an object and its valid instances read back.\<close>

locale result_format =
  fixes dump :: "'a \<Rightarrow> json" and read :: "json_object \<Rightarrow> 'a option" and valid :: "'a \<Rightarrow> bool"
  assumes dumps_object: "dump x = JObj (object_of (dump x))"
    and reads_back: "valid x \<Longrightarrow> read (object_of (dump x)) = Some x"
begin

lemma served_model:
  assumes "plugin_id_ok (hc_plugin_id client)" and "hc_plugin_id client = pm_id (ss_manifest s)"
    and "validate_public_json 0 (JObj payload) = Inr ()" and "operation \<noteq> HANDSHAKE"
    and "receive py client w (sent client rid operation payload) = Inr (dispatch py s (sent client rid operation payload))"
    and "invoke py s operation payload = bind_sum r (\<lambda>x. Inr (object_of (dump x)))" and "\<And>x. r = Inr x \<Longrightarrow> valid x"
  shows "model py client w rid operation payload read =
    (case r of Inl e \<Rightarrow> Inl (relayed e)
     | Inr x \<Rightarrow> if public_json (dump x) then Inr x else Inl (relayed (HostProtocolError [])))"
proof -
  have sent: "hq_operation (sent client rid operation payload) = operation" "hq_payload (sent client rid operation payload) = payload"
    by (simp_all add: sent_def)
  have unwrapped: "unwrap (sent client rid operation payload) (dispatch py s (sent client rid operation payload)) =
      (case serve py s operation payload of Inr result \<Rightarrow> Inr result | Inl e \<Rightarrow> Inl (relayed e))"
    using unwrap_dispatch [of "sent client rid operation payload" s py] assms(2) by (simp add: sent_def)
  have plain: "transport_error (relayed e) = relayed e" for e by (simp add: transport_error_def relayed_def)
  have call: "host_call py client w rid operation payload =
      (case serve py s operation payload of Inr result \<Rightarrow> Inr result | Inl e \<Rightarrow> Inl (relayed e))"
    using assms(3,5) HostRequest_sent [OF assms(1)] unwrapped plain
    by (simp add: host_call_def exchange_def split: sum.split)
  show ?thesis
  proof (cases r)
    case (Inl e)
    then show ?thesis using call assms(6) by (simp add: serve_def model_def)
  next
    case (Inr x)
    have dumped: "validate_public_json 0 (JObj (object_of (dump x))) = Inr () \<longleftrightarrow> public_json (dump x)"
      using dumps_object [of x] by (metis validate_public_iff(1) public_json_def)
    show ?thesis
    proof (cases "validate_public_json 0 (JObj (object_of (dump x)))")
      case (Inl e)
      then obtain m where "e = HostProtocolError m" using validate_public_raises(1) by blast
      then show ?thesis using call assms(4,6) Inr Inl dumped by (simp add: serve_def model_def relayed_def)
    next
      case ok: (Inr u)
      then show ?thesis using call assms(4,6) Inr dumped reads_back [OF assms(7) [OF Inr]] by (simp add: serve_def model_def)
    qed
  qed
qed

end

text \<open>\<open>AdapterExecution\<close> and \<open>AdapterPlan\<close> are such formats.\<close>

definition read_execution :: "json_object \<Rightarrow> adapter_execution option" where
  "read_execution d = (case execution_validate d of Inr x \<Rightarrow> Some x | Inl e \<Rightarrow> None)"

definition execution_ok :: "adapter_execution \<Rightarrow> bool" where
  "execution_ok x \<longleftrightarrow> opt_ok (len_between 0 512) (ex_reference x)"

interpretation execution_format: result_format execution_json read_execution execution_ok
proof
  show "execution_json x = JObj (object_of (execution_json x))" for x by (simp add: execution_json_def)
  show "read_execution (object_of (execution_json x)) = Some x" if "execution_ok x" for x
  proof -
    have "execution_validate (object_of (execution_json x)) = Inr x"
      by (rule execution_json_roundtrip) (use that in \<open>simp_all add: execution_ok_def opt_ok_def len_between_def execution_json_def\<close>)
    then show ?thesis by (simp add: read_execution_def)
  qed
qed

definition read_text :: "json \<Rightarrow> string option" where
  "read_text v = (case v of JStr t \<Rightarrow> Some t | _ \<Rightarrow> None)"

definition read_plan :: "json_object \<Rightarrow> string list option" where
  "read_plan d =
     (case d of
        [(k, JList vs)] \<Rightarrow>
          if k = ''steps'' \<and> vs \<noteq> [] \<and> list_all (\<lambda>v. read_text v \<noteq> None) vs then Some (map (the \<circ> read_text) vs) else None
      | _ \<Rightarrow> None)"

interpretation plan_format: result_format plan_json read_plan "\<lambda>steps. steps \<noteq> []"
  by unfold_locales (auto simp: plan_json_def read_plan_def read_text_def list_all_iff comp_def)

text \<open>A host that serves an adapter for an action to this client, and what it reads of a request: everything but the
  confirmation token.\<close>

definition hosts :: "host_server \<Rightarrow> host_client \<Rightarrow> string \<Rightarrow> adapter \<Rightarrow> action_definition \<Rightarrow> bool" where
  "hosts s client name a action \<longleftrightarrow> plugin_id_ok (hc_plugin_id client) \<and> hc_plugin_id client = pm_id (ss_manifest s) \<and>
     map_of (pc_adapters (ss_contribution s)) name = Some (Some a) \<and> ad_adapter action = name \<and>
     map_of (ss_actions s) (ad_id action) = Some action \<and>
     ss_max_frame_bytes s = cn_max_frame_bytes (hc_connection client)"

definition untokened :: "action_request \<Rightarrow> action_request" where
  "untokened request = request\<lparr>rq_confirmation_token := None\<rparr>"

definition reads_call :: "pydantic \<Rightarrow> action_definition \<Rightarrow> action_request \<Rightarrow> bool" where
  "reads_call py action request \<longleftrightarrow> py_action py (action_json action) = Some action \<and>
     (\<forall>dumped. request_dump request = Inr dumped \<longrightarrow> py_action_request py dumped = Some (untokened request))"

lemma invoke_hosted:
  assumes "hosts s client name a action" and "reads_call py action request" and "action_payload name action request = Inr payload"
  shows "invoke py s EXECUTE payload = bind_sum (ap_execute a action (untokened request)) (\<lambda>x. Inr (object_of (execution_json x)))"
    and "invoke py s PLAN payload = bind_sum (ap_plan a action (untokened request)) (\<lambda>x. Inr (object_of (plan_json x)))"
    and "invoke py s OBSERVE payload = bind_sum (ap_observe a action (untokened request)) (\<lambda>x. Inr (object_of (observation_json x)))"
proof -
  obtain dumped where dumped: "request_dump request = Inr dumped"
    "payload = [(''adapter'', JStr name), (''action'', action_json action), (''request'', dumped)]"
    using assms(3) by (auto simp: action_payload_def)
  then have "py_action_request py dumped = Some (untokened request)" "py_action py (action_json action) = Some action"
    using assms(2) by (auto simp: reads_call_def)
  moreover have "field payload ''adapter'' = Inr (JStr name)" "field payload ''action'' = Inr (action_json action)"
    "field payload ''request'' = Inr dumped" by (simp_all add: dumped(2) field_def)
  ultimately have found: "invoke py s operation payload =
      bind_sum (invoke_action py a operation payload action (untokened request)) (\<lambda>result. Inr (object_of result))"
    if "operation \<notin> {HANDSHAKE, STATUS_OBSERVE, HEALTH}" for operation
    using that assms(1) by (simp add: invoke_def hosts_def entry_def key_text_def validated_def)
  show "invoke py s EXECUTE payload = bind_sum (ap_execute a action (untokened request)) (\<lambda>x. Inr (object_of (execution_json x)))"
    by (cases "ap_execute a action (untokened request)") (simp_all add: found invoke_action_def)
  show "invoke py s PLAN payload = bind_sum (ap_plan a action (untokened request)) (\<lambda>x. Inr (object_of (plan_json x)))"
    by (cases "ap_plan a action (untokened request)") (simp_all add: found invoke_action_def)
  show "invoke py s OBSERVE payload = bind_sum (ap_observe a action (untokened request)) (\<lambda>x. Inr (object_of (observation_json x)))"
    by (cases "ap_observe a action (untokened request)") (simp_all add: found invoke_action_def)
qed


section \<open>An example\<close>

text \<open>A bound on the length of a JSON text: an escaped character takes at most six.\<close>

fun text_bound :: "json \<Rightarrow> nat" where
  "text_bound (JStr s) = 6 * length s + 2"
| "text_bound (JInt i) = length (str_int i)"
| "text_bound (JFloat t) = length t"
| "text_bound (JList vs) = 2 + (\<Sum>v \<leftarrow> vs. text_bound v + 1)"
| "text_bound (JObj kvs) = 2 + (\<Sum>(k, v) \<leftarrow> kvs. 6 * length k + text_bound v + 4)"
| "text_bound v = 5"

lemma length_join: "length (join sep xs) \<le> (\<Sum>x \<leftarrow> xs. length x + 1)"
  by (induction sep xs rule: join.induct) simp_all

lemma length_quote: "length (json_quote s) \<le> 6 * length s + 2"
  by (induction s) (auto simp: json_quote_def escape_char_def)

lemma render_length: "length (render v) \<le> text_bound v"
proof (induction v)
  case (JList vs)
  have "(\<Sum>x \<leftarrow> map render vs. length x + 1) \<le> (\<Sum>v \<leftarrow> vs. text_bound v + 1)"
    using JList by (auto simp: comp_def intro!: sum_list_mono)
  then show ?case using length_join [of "CHR '',''" "map render vs"] by simp
next
  case (JObj kvs)
  let ?f = "\<lambda>(k, v). json_quote k @ CHR '':'' # render v"
  have "length (?f kv) + 1 \<le> (case kv of (k, v) \<Rightarrow> 6 * length k + text_bound v + 4)" if "kv \<in> set kvs" for kv
  proof (cases kv)
    case (Pair k v)
    then show ?thesis using JObj [of kv v] that length_quote [of k] by fastforce
  qed
  then have "(\<Sum>x \<leftarrow> map ?f kvs. length x + 1) \<le> (\<Sum>(k, v) \<leftarrow> kvs. 6 * length k + text_bound v + 4)"
    by (auto simp: comp_def intro!: sum_list_mono)
  then show ?case using length_join [of "CHR '',''" "map ?f kvs"] by simp
qed (use length_quote in auto)

definition demo_client :: host_client where
  "demo_client = \<lparr>hc_plugin_id = ''dh-core'', hc_connection = demo_connection\<lparr>cn_max_frame_bytes := 1048576\<rparr>, hc_expected_digest = ''sha256:abc''\<rparr>"

definition demo_payload :: json_object where
  "demo_payload = [(''adapter'', JStr ''dh-core.fake''), (''action'', action_json demo_action),
     (''request'', JObj (filter (\<lambda>(k, v). k \<noteq> ''confirmation_token'') (request_json demo_request)))]"

definition demo_execution :: adapter_execution where
  "demo_execution = \<lparr>ex_reference = Some ''fake:u1'', ex_details = [(''target'', target_json (rq_target demo_request)), (''source'', JStr ''fake'')]\<rparr>"

definition demo_reply :: host_response where
  "demo_reply = \<lparr>hr_protocol_version = 1, hr_request_id = ''r'', hr_ok = True,
     hr_result = Some (object_of (execution_json demo_execution)), hr_error = None\<rparr>"

definition demo_pydantic :: pydantic where
  "demo_pydantic = \<lparr>py_dump = render, py_float = (\<lambda>t. t), py_str = render,
     py_request = (\<lambda>kvs. if JObj kvs = host_request_json (sent demo_client ''r'' EXECUTE demo_payload)
        then Some (sent demo_client ''r'' EXECUTE demo_payload) else None),
     py_response = (\<lambda>kvs. if JObj kvs = host_response_json demo_reply then Some demo_reply else None),
     py_handshake = (\<lambda>_. None), py_health = (\<lambda>_. None), py_plan = read_plan,
     py_execution = (\<lambda>v. read_execution (object_of v)), py_observation = (\<lambda>_. None), py_verification = (\<lambda>_. None),
     py_cancellation = (\<lambda>_. None), py_status = (\<lambda>_. None),
     py_action = (\<lambda>v. if v = action_json demo_action then Some demo_action else None),
     py_action_request = (\<lambda>v. Some demo_request)\<rparr>"

definition demo_manifest :: plugin_manifest where
  "demo_manifest = \<lparr>pm_schema_version = 1, pm_id = ''dh-core'', pm_name = ''Core'', pm_version = ''0.5.0'', pm_api_version = 1,
     pm_description = ''core'', pm_adapters = [''dh-core.fake''], pm_status_provider_types = [], pm_actions = [''pve.vm.start''],
     pm_permissions = \<lparr>pp_mutation = True, pp_credential_slots = [], pp_egress_bindings = []\<rparr>, pm_config_schema = []\<rparr>"

definition demo_server :: host_server where
  "demo_server = \<lparr>ss_manifest = demo_manifest,
     ss_contribution = \<lparr>pc_adapters = [(''dh-core.fake'', Some (FakeAdapter 0))], pc_status_providers = [], pc_actions = [demo_action]\<rparr>,
     ss_artifact_digest = ''sha256:abc'', ss_actions = [(''pve.vm.start'', demo_action)], ss_broker_uid = 7, ss_max_frame_bytes = 1048576\<rparr>"

lemmas demo_json_defs = demo_payload_def action_json_def demo_action_def request_json_def demo_request_def target_json_def
  context_json_def opt_json_def

lemma demo_payload_public: "validate_public_json 0 (JObj demo_payload) = Inr ()"
  by (simp add: demo_json_defs validate_public_json.simps too_deep_def MAX_PUBLIC_DEPTH_def MAX_PUBLIC_ITEMS_def
      MAX_PUBLIC_STRING_def sensitive_key_def SENSITIVE_KEY_PARTS_def py_lower_def py_lower_char_def starts_with_def)

lemma demo_request_dump:
  "request_dump demo_request = Inr (JObj (filter (\<lambda>(k, v). k \<noteq> ''confirmation_token'') (request_json demo_request)))"
  unfolding request_dump_def Let_def
  by (simp add: demo_json_defs validate_public_json.simps too_deep_def MAX_PUBLIC_DEPTH_def MAX_PUBLIC_ITEMS_def
      MAX_PUBLIC_STRING_def sensitive_key_def SENSITIVE_KEY_PARTS_def py_lower_def py_lower_char_def starts_with_def)

lemma demo_action_payload: "action_payload ''dh-core.fake'' demo_action demo_request = Inr demo_payload"
  by (simp add: action_payload_def demo_request_dump demo_payload_def)

lemma demo_id: "plugin_id_ok (hc_plugin_id demo_client)"
  by (simp add: demo_client_def plugin_id_ok_def lower_alpha_def lower_alnum_def)

lemma demo_messages:
  "length (render (host_request_json (sent demo_client ''r'' EXECUTE demo_payload))) \<le> 1048576"
  "length (render (host_response_json demo_reply)) \<le> 1048576"
  by (rule order_trans [OF render_length], simp add: host_request_json_def sent_def demo_client_def demo_json_defs
      host_response_json_def demo_reply_def execution_json_def demo_execution_def HOST_PROTOCOL_VERSION_def str_int_def nat_digits.simps)+


lemma demo_hosts: "hosts demo_server demo_client ''dh-core.fake'' (FakeAdapter 0) demo_action"
  using demo_id by (simp add: hosts_def demo_server_def demo_client_def demo_manifest_def demo_action_def)

lemma demo_host_reads: "reads_call demo_pydantic demo_action demo_request"
  by (simp add: reads_call_def demo_pydantic_def untokened_def demo_request_def)

lemma demo_host_executes: "ap_execute (FakeAdapter 0) demo_action (untokened demo_request) = Inr demo_execution"
  by (simp add: FakeAdapter_def untokened_def demo_request_def demo_execution_def)

lemma demo_execution_public: "validate_public_json 0 (execution_json demo_execution) = Inr ()"
  by (simp add: execution_json_def demo_execution_def demo_json_defs validate_public_json.simps too_deep_def MAX_PUBLIC_DEPTH_def
      MAX_PUBLIC_ITEMS_def MAX_PUBLIC_STRING_def sensitive_key_def SENSITIVE_KEY_PARTS_def py_lower_def py_lower_char_def starts_with_def)

lemma demo_dispatch: "dispatch demo_pydantic demo_server (sent demo_client ''r'' EXECUTE demo_payload) = demo_reply"
proof -
  have "invoke demo_pydantic demo_server EXECUTE demo_payload = Inr (object_of (execution_json demo_execution))"
    using invoke_hosted(1) [OF demo_hosts demo_host_reads demo_action_payload] by (simp add: demo_host_executes)
  moreover have "JObj (object_of (execution_json demo_execution)) = execution_json demo_execution" by (simp add: execution_json_def)
  ultimately have "serve demo_pydantic demo_server EXECUTE demo_payload = Inr (object_of (execution_json demo_execution))"
    using demo_execution_public by (simp add: serve_def)
  then show ?thesis
    by (simp add: dispatch_def sent_def demo_reply_def demo_client_def demo_server_def demo_manifest_def HOST_PROTOCOL_VERSION_def)
qed

lemma demo_crosses:
  "crosses demo_pydantic 1048576 (host_request_json (sent demo_client ''r'' EXECUTE demo_payload)) (py_request demo_pydantic)
     (sent demo_client ''r'' EXECUTE demo_payload)"
  "crosses demo_pydantic 1048576 (host_response_json demo_reply) (py_response demo_pydantic) demo_reply"
proof -
  have wf: "json_wf (host_request_json (sent demo_client ''r'' EXECUTE demo_payload))"
    "float_free (host_request_json (sent demo_client ''r'' EXECUTE demo_payload))"
    "json_wf (host_response_json demo_reply)" "float_free (host_response_json demo_reply)"
    by (simp_all add: host_request_json_def sent_def demo_json_defs host_response_json_def demo_reply_def execution_json_def demo_execution_def)
  have nonempty: "render (host_request_json q) \<noteq> []" "render (host_response_json r) \<noteq> []" for q r
    by (simp_all add: host_request_json_def host_response_json_def)
  show "crosses demo_pydantic 1048576 (host_request_json (sent demo_client ''r'' EXECUTE demo_payload)) (py_request demo_pydantic)
     (sent demo_client ''r'' EXECUTE demo_payload)"
    using demo_messages(1) nonempty(1) loads_bytes_render [OF wf(1,2)]
    by (auto simp: crosses_def demo_pydantic_def encode_frame_Inr host_request_json_def)
  show "crosses demo_pydantic 1048576 (host_response_json demo_reply) (py_response demo_pydantic) demo_reply"
    using demo_messages(2) nonempty(2) loads_bytes_render [OF wf(3,4)]
    by (auto simp: crosses_def demo_pydantic_def encode_frame_Inr host_response_json_def)
qed


theorem garbled_reply_is_failure_witness:
  "ap_execute (WasmHostAdapter demo_pydantic demo_client
      ((served demo_pydantic demo_server demo_client)\<lparr>wr_exchange := (\<lambda>frame. Inr (pack_u32 1 @ ''?''))\<rparr>) ''r'' ''dh-core.fake'')
     demo_action demo_request = Inl (PyValueError ''JSONDecodeError'')"
proof -
  let ?w = "(served demo_pydantic demo_server demo_client)\<lparr>wr_exchange := (\<lambda>frame. Inr (pack_u32 1 @ ''?''))\<rparr>"
  have mutation: "ad_mutation demo_action" by (simp add: demo_action_def)
  have limit: "cn_max_frame_bytes (hc_connection demo_client) = 1048576" by (simp add: demo_client_def)
  obtain frame where frame: "encode_frame render (host_request_json (sent demo_client ''r'' EXECUTE demo_payload)) 1048576 = Inr frame"
    using demo_crosses(1) by (auto simp: crosses_def demo_pydantic_def)
  have "loads_bytes (\<lambda>t. t) ''?'' = None" by code_simp
  then have "read_frame (\<lambda>t. t) (pack_u32 1 @ ''?'') 1048576 = Inl (PyValueError ''JSONDecodeError'')"
    by (simp add: read_frame_def readexactly_def frame_size_def frame_value_def)
  then have "receive demo_pydantic demo_client ?w (sent demo_client ''r'' EXECUTE demo_payload) = Inl (PyValueError ''JSONDecodeError'')"
    using frame by (simp add: receive_def served_def limit demo_pydantic_def)
  from garbled_reply_is_failure [OF mutation demo_id demo_action_payload demo_payload_public this] show ?thesis by (rule conjunct1)
qed

end
