(* ===== verification/HostPeers.thy ===== *)
theory HostPeers
  imports HostLaws
begin

text \<open>
  Who is at the other end of the host's socket: \<open>_peer_uid\<close> of \<open>wasm_host_transport.py\<close> over the bytes that the
  kernel delivers, the two checks that rest on it, and the life of the socket file from \<open>start\<close> to \<open>close\<close>. The
  kernel is a parameter: what \<open>getsockopt\<close> and \<open>getpeereid\<close> answer.
\<close>

section \<open>Credentials of a peer\<close>

text \<open>\<open>struct.unpack("3i", raw)\<close> in the byte order of x86-64 and arm64: three signed integers of four bytes, least
  significant byte first\<close>

definition unpack_i32 :: "string \<Rightarrow> int" where
  "unpack_i32 raw = sint (unpack_u32 (rev raw))"

definition unpack_3i :: "string \<Rightarrow> exn + int \<times> int \<times> int" where
  "unpack_3i raw =
     (if length raw \<noteq> 12 then Inl (OtherException ''struct.error'')
      else Inr (unpack_i32 (take 4 raw), unpack_i32 (take 4 (drop 4 raw)), unpack_i32 (drop 8 raw)))"

text \<open>\<open>pe_peercred\<close> is \<open>None\<close> where the socket module has no \<open>SO_PEERCRED\<close>; \<open>getpeereid\<close> fails with an error number
  or fills in a \<open>c_uint\<close>.\<close>

record peer =
  pe_peercred :: "(exn + string) option"
  pe_platform :: string
  pe_getpeereid :: "int + 32 word"

definition peer_uid :: "peer \<Rightarrow> exn + int" where
  "peer_uid peer =
     (case pe_peercred peer of
        Some getsockopt \<Rightarrow> bind_sum getsockopt (\<lambda>raw. bind_sum (unpack_3i raw) (\<lambda>(_, uid, _). Inr uid))
      | None \<Rightarrow>
          if pe_platform peer \<in> {''darwin'', ''freebsd''}
          then case pe_getpeereid peer of
                 Inl errno \<Rightarrow> Inl (PyOSError ''getpeereid failed'')
               | Inr uid \<Rightarrow> Inr (uint uid)
          else refuse ''Unix peer credential verification is unsupported'')"

text \<open>What both ends compare with the user they expect: a connection without a socket has no peer.\<close>

definition peer_identity :: "peer option \<Rightarrow> exn + int option" where
  "peer_identity peer = (case peer of None \<Rightarrow> Inr None | Some p \<Rightarrow> bind_sum (peer_uid p) (\<lambda>uid. Inr (Some uid)))"

section \<open>The socket file\<close>

text \<open>\<open>start\<close> after its guards: binding, which may fail, creates the socket for the user of the process, and \<open>chmod\<close> sets
  its mode to \<open>0o660\<close>.\<close>

definition start_host :: "exn + unit \<Rightarrow> files \<Rightarrow> int \<Rightarrow> path \<Rightarrow> exn + files" where
  "start_host bound fs uid socket_path =
     bind_sum (start_guards fs uid socket_path) (\<lambda>_.
     bind_sum bound (\<lambda>_.
     Inr (fs\<lparr>fs_resolve := (fs_resolve fs)(socket_path := Inr socket_path),
             fs_lstat := (fs_lstat fs)(socket_path := Inr \<lparr>st_kind = Socket, st_uid = uid, st_mode = 0x1B0, st_size = 0\<rparr>)\<rparr>)))"

definition unlink :: "path \<Rightarrow> files \<Rightarrow> files" where
  "unlink p fs =
     fs\<lparr>fs_resolve := (fs_resolve fs)(p := Inl (PyOSError ''No such file or directory'')),
        fs_lstat := (fs_lstat fs)(p := Inl (PyOSError ''No such file or directory''))\<rparr>"

text \<open>\<open>close\<close>: whether the server listens, and the files, before and after. A path that became another kind of file is
  kept.\<close>

definition close_host :: "bool \<Rightarrow> files \<Rightarrow> path \<Rightarrow> bool \<times> files" where
  "close_host listening fs socket_path =
     (if \<not> listening then (False, fs)
      else case fs_lstat fs socket_path of
             Inr metadata \<Rightarrow> if st_kind metadata = Socket then (False, unlink socket_path fs) else (False, fs)
           | Inl _ \<Rightarrow> (False, fs))"

section \<open>Reading the user ID\<close>

text \<open>The \<open>struct ucred\<close> of Linux: a process ID and two IDs, unsigned and 32 bits wide\<close>

definition ucred :: "32 word \<Rightarrow> 32 word \<Rightarrow> 32 word \<Rightarrow> string" where
  "ucred pid uid gid = rev (pack_u32 pid) @ rev (pack_u32 uid) @ rev (pack_u32 gid)"

definition linux_peer :: "32 word \<Rightarrow> 32 word \<Rightarrow> 32 word \<Rightarrow> peer" where
  "linux_peer pid uid gid =
     \<lparr>pe_peercred = Some (Inr (ucred pid uid gid)), pe_platform = ''linux'', pe_getpeereid = Inl 38\<rparr>"

lemma peer_uid_linux [simp]: "peer_uid (linux_peer pid uid gid) = Inr (sint uid)"
  by (simp add: peer_uid_def linux_peer_def unpack_3i_def unpack_i32_def ucred_def)

text \<open>The field is read as signed: an ID from the upper half comes out negative.\<close>

lemma sint_is_uid:
  fixes uid :: "32 word" and expected :: int
  assumes "0 \<le> expected"
  shows "sint uid = expected \<longleftrightarrow> uint uid = expected \<and> expected < 2 ^ 31"
proof -
  have range: "- (2 ^ 31) \<le> sint uid" "sint uid < 2 ^ 31" using sint_greater_eq [of uid] sint_less [of uid] by simp_all
  have uid: "uint uid = sint uid mod 2 ^ 32" using uint_word_of_int [of "sint uid", where ?'a = 32] by simp
  show ?thesis
  proof (cases "0 \<le> sint uid")
    case True
    with range uid show ?thesis by (auto simp: mod_pos_pos_trivial)
  next
    case False
    then have "(sint uid + 2 ^ 32) mod 2 ^ 32 = sint uid + 2 ^ 32" using range by (intro mod_pos_pos_trivial) simp_all
    with uid have "uint uid = sint uid + 2 ^ 32" by simp
    with False range assms show ?thesis by auto
  qed
qed

text \<open>A user ID that does not fit a signed integer is read as a negative number, which no configuration expects: with such
  an ID neither end recognises the other, however it is configured.\<close>

theorem high_uid_unrecognised:
  assumes "2 ^ 31 \<le> uint uid" and "peer_identity (Some (linux_peer pid uid gid)) = Inr (Some seen)"
  shows "seen < 0"
  using assms sint_is_uid [of "sint uid" uid] by (cases "0 \<le> sint uid") (auto simp: peer_identity_def)

text \<open>Before Python 3.14 the platform of a FreeBSD carries its version.\<close>

theorem versioned_freebsd_unsupported:
  "peer_identity (Some \<lparr>pe_peercred = None, pe_platform = ''freebsd'' @ CHR ''1'' # minor, pe_getpeereid = outcome\<rparr>) =
     refuse ''Unix peer credential verification is unsupported''"
  by (simp add: peer_identity_def peer_uid_def refuse_def)

section \<open>Both ends check each other\<close>

text \<open>A connection between two processes: the broker sees \<open>host\<close>, the host sees \<open>broker\<close>.\<close>

definition connected :: "pydantic \<Rightarrow> host_server \<Rightarrow> peer option \<Rightarrow> peer option \<Rightarrow> wire" where
  "connected py s host broker = \<lparr>wr_check = Inr (), wr_connect = Inr (), wr_peer_uid = peer_identity host,
     wr_exchange = (\<lambda>frame. Inr (handle_connection py s (peer_identity broker) frame)),
     wr_exchange_sync = (\<lambda>frame. Inr [Data (handle_connection py s (peer_identity broker) frame)])\<rparr>"

text \<open>The process behind \<open>peer\<close> runs as the expected user.\<close>

definition runs_as :: "int \<Rightarrow> 32 word \<Rightarrow> bool" where
  "runs_as expected uid \<longleftrightarrow> uint uid = expected \<and> expected < 2 ^ 31"

lemma handle_other:
  "handle_connection py s (Inr (Some uid)) frame = (if uid = ss_broker_uid s then handle_connection py s (Inr (Some (ss_broker_uid s))) frame else [])"
  by (simp add: handle_connection_def answer_def)

lemma read_nothing [simp]: "read_frame fl [] limit = Inl IncompleteRead"
  by (simp add: read_frame_def readexactly_def)



section \<open>The life of the socket\<close>

lemma parent_other: "p \<noteq> [] \<Longrightarrow> parent p \<noteq> p"
  by (metis append_butlast_last_id append_self_conv list.distinct(1) parent_def)

lemma start_guards_Inr:
  "start_guards fs uid p = Inr u \<longleftrightarrow> fs_resolve fs (parent p) = Inr (parent p) \<and>
     guarded_file fs Directory uid (parent p) \<and> isl (fs_lstat fs p)"
  by (auto simp: start_guards_def guarded_file_def)

lemma start_host_Inr:
  "start_host bound fs uid p = Inr fs' \<longleftrightarrow> bound = Inr () \<and> fs_resolve fs (parent p) = Inr (parent p) \<and>
     guarded_file fs Directory uid (parent p) \<and> isl (fs_lstat fs p) \<and>
     fs' = fs\<lparr>fs_resolve := (fs_resolve fs)(p := Inr p),
       fs_lstat := (fs_lstat fs)(p := Inr \<lparr>st_kind = Socket, st_uid = uid, st_mode = 0x1B0, st_size = 0\<rparr>)\<rparr>"
  by (auto simp: start_host_def start_guards_Inr)

text \<open>What \<open>start\<close> leaves behind passes the client's check of the socket, when the directory of the socket is the client's
  socket root and both configurations mean the same user.\<close>

theorem started_socket_accepted:
  assumes "start_host bound fs uid (cn_socket_path cn) = Inr fs'"
    and "cn_socket_path cn \<noteq> []" and "cn_socket_root cn = parent (cn_socket_path cn)" and "cn_expected_uid cn = uid"
  shows "validate_socket_path fs' cn = Some (Inr ())"
proof -
  have "prefix (parent (cn_socket_path cn)) (cn_socket_path cn)" by (simp add: parent_def prefixeq_butlast)
  then show ?thesis
    using assms parent_other [OF assms(2)] check_directories.simps [of fs' "cn_socket_root cn" "cn_socket_root cn"]
    by (auto simp: start_host_Inr guarded_file_def validate_socket_path_def socket_location_def check_socket_file_def world_writable_def)
qed

text \<open>A host that was not closed leaves a socket that stops the next start; after \<open>close\<close> it starts again.\<close>

theorem restart_needs_close:
  assumes "start_host bound fs uid p = Inr fs'" and "p \<noteq> []"
  shows "\<not> isl (start_host (Inr ()) (snd (close_host True fs' p)) uid p) \<and>
    start_host bound' fs' uid p = refuse ''host socket path already exists''"
proof
  have other: "parent p \<noteq> p" using parent_other assms(2) by blast
  have "\<exists>fs''. start_host (Inr ()) (snd (close_host True fs' p)) uid p = Inr fs''"
    using assms(1) other by (auto simp: start_host_Inr close_host_def unlink_def guarded_file_def)
  then show "\<not> isl (start_host (Inr ()) (snd (close_host True fs' p)) uid p)" by auto
  obtain m where "fs_resolve fs' (parent p) = Inr (parent p)" "fs_lstat fs' (parent p) = Inr m" "st_kind m = Directory"
    "st_uid m = uid" "\<not> group_or_world_writable m" "\<not> isl (fs_lstat fs' p)"
    using assms(1) other by (auto simp: start_host_Inr guarded_file_def)
  then show "start_host bound' fs' uid p = refuse ''host socket path already exists''"
    by (simp add: start_host_def start_guards_def check_def require_def refuse_def)
qed

end
