(* ===== verification/Regex.thy ===== *)
theory Regex
  imports PublicJson
begin

text \<open>
  What the program uses of Python's \<open>re\<close> module beyond single characters: a backtracking matcher for greedy
  patterns with look-around, and \<open>finditer\<close>. A position in a text is a pair: the characters before it, nearest
  first, and the characters after it. The matcher yields the ends of a match in the order in which
  backtracking tries them, so its first answer is the one \<open>re\<close> returns. The relation \<open>re_matches\<close> is the
  declarative meaning of a pattern; the matcher finds exactly its ends.
\<close>

type_synonym ranges = "(char \<times> char) list"
type_synonym pos = "string \<times> string"

definition in_class :: "ranges \<Rightarrow> char \<Rightarrow> bool" where
  "in_class rs c \<longleftrightarrow> list_ex (\<lambda>(lo, hi). (of_char lo :: nat) \<le> of_char c \<and> (of_char c :: nat) \<le> of_char hi) rs"

definition word_chars :: ranges where
  "word_chars = [(CHR ''a'', CHR ''z''), (CHR ''A'', CHR ''Z''), (CHR ''0'', CHR ''9''), (CHR ''_'', CHR ''_'')]"

section \<open>Patterns\<close>

datatype regex =
    Eps
  | Cls ranges
  | Fold ranges
  | Cat regex regex
  | Alt regex regex
  | Star regex
  | Not_after ranges
  | Not_before ranges
  | Boundary

text \<open>\<open>Fold\<close> is a class under \<open>(?i)\<close>: the character is lowered before the test. \<open>Not_after\<close> and \<open>Not_before\<close> are
  the look-arounds \<open>(?<!...)\<close> and \<open>(?!...)\<close> on one character, \<open>Boundary\<close> is \<open>\b\<close>.\<close>

definition holds_next :: "(char \<Rightarrow> bool) \<Rightarrow> string \<Rightarrow> bool" where
  "holds_next P s = (case s of [] \<Rightarrow> False | c # _ \<Rightarrow> P c)"

lemma holds_next_simps [simp]: "\<not> holds_next P []" "holds_next P (c # s) = P c"
  by (simp_all add: holds_next_def)

fun assertion :: "regex \<Rightarrow> pos \<Rightarrow> bool" where
  "assertion (Not_after rs) (b, a) = (\<not> holds_next (in_class rs) b)"
| "assertion (Not_before rs) (b, a) = (\<not> holds_next (in_class rs) a)"
| "assertion Boundary (b, a) = (holds_next (in_class word_chars) b \<noteq> holds_next (in_class word_chars) a)"
| "assertion _ _ = False"

text \<open>Bounded repetition, optional parts and literals.\<close>

primrec exactly :: "nat \<Rightarrow> regex \<Rightarrow> regex" where
  "exactly 0 r = Eps"
| "exactly (Suc n) r = Cat r (exactly n r)"

primrec up_to :: "nat \<Rightarrow> regex \<Rightarrow> regex" where
  "up_to 0 r = Eps"
| "up_to (Suc n) r = Alt (Cat r (up_to n r)) Eps"

definition opt :: "regex \<Rightarrow> regex" where "opt r = Alt r Eps"

definition at_least :: "nat \<Rightarrow> regex \<Rightarrow> regex" where "at_least n r = Cat (exactly n r) (Star r)"

definition chr :: "char \<Rightarrow> regex" where "chr c = Cls [(c, c)]"

primrec lit :: "string \<Rightarrow> regex" where
  "lit [] = Eps"
| "lit (c # s) = Cat (chr c) (lit s)"

primrec lit_i :: "string \<Rightarrow> regex" where
  "lit_i [] = Eps"
| "lit_i (c # s) = Cat (Fold [(c, c)]) (lit_i s)"

section \<open>The matcher\<close>

definition eat :: "(char \<Rightarrow> bool) \<Rightarrow> pos \<Rightarrow> pos list" where
  "eat P p = (case snd p of [] \<Rightarrow> [] | c # a \<Rightarrow> if P c then [(c # fst p, a)] else [])"

text \<open>A greedy star: first the ways through one more round of the body, which has to consume something, then
  stopping here.\<close>

function star_ends :: "(pos \<Rightarrow> pos list) \<Rightarrow> pos \<Rightarrow> pos list" where
  "star_ends f p = concat (map (star_ends f) (filter (\<lambda>q. length (snd q) < length (snd p)) (f p))) @ [p]"
  by pat_completeness auto
termination
  by (relation "measure (\<lambda>(f, p). length (snd p))") auto

declare star_ends.simps [simp del]

primrec ends :: "regex \<Rightarrow> pos \<Rightarrow> pos list" where
  "ends Eps p = [p]"
| "ends (Cls rs) p = eat (in_class rs) p"
| "ends (Fold rs) p = eat (\<lambda>c. in_class rs (py_lower_char c)) p"
| "ends (Cat r s) p = concat (map (ends s) (ends r p))"
| "ends (Alt r s) p = ends r p @ ends s p"
| "ends (Star r) p = star_ends (ends r) p"
| "ends (Not_after rs) p = (if assertion (Not_after rs) p then [p] else [])"
| "ends (Not_before rs) p = (if assertion (Not_before rs) p then [p] else [])"
| "ends Boundary p = (if assertion Boundary p then [p] else [])"

text \<open>\<open>finditer\<close>: the leftmost match, then again from its end; after an empty match the scan moves on by one
  character. None of the program's patterns matches the empty string.\<close>

function finditer :: "regex \<Rightarrow> string \<Rightarrow> string \<Rightarrow> string list" where
  "finditer r b a =
     (case ends r (b, a) of
        (b', a') # _ \<Rightarrow>
          if length a' < length a then take (length a - length a') a # finditer r b' a'
          else [] # (case a of [] \<Rightarrow> [] | c # cs \<Rightarrow> finditer r (c # b) cs)
      | [] \<Rightarrow> (case a of [] \<Rightarrow> [] | c # cs \<Rightarrow> finditer r (c # b) cs))"
  by pat_completeness auto
termination
  by (relation "measure (\<lambda>(r, b, a). length a)") auto

declare finditer.simps [simp del]

section \<open>The meaning of a pattern\<close>

inductive re_matches :: "regex \<Rightarrow> pos \<Rightarrow> pos \<Rightarrow> bool" where
  eps: "re_matches Eps p p"
| cls: "in_class rs c \<Longrightarrow> re_matches (Cls rs) (b, c # a) (c # b, a)"
| fold: "in_class rs (py_lower_char c) \<Longrightarrow> re_matches (Fold rs) (b, c # a) (c # b, a)"
| cat: "re_matches r p q \<Longrightarrow> re_matches s q t \<Longrightarrow> re_matches (Cat r s) p t"
| alt_left: "re_matches r p q \<Longrightarrow> re_matches (Alt r s) p q"
| alt_right: "re_matches s p q \<Longrightarrow> re_matches (Alt r s) p q"
| star_none: "re_matches (Star r) p p"
| star_more: "re_matches r p q \<Longrightarrow> re_matches (Star r) q t \<Longrightarrow> re_matches (Star r) p t"
| look: "assertion r p \<Longrightarrow> re_matches r p p"

inductive_simps re_matches_simps [simp]:
  "re_matches Eps p q" "re_matches (Cls rs) p q" "re_matches (Fold rs) p q" "re_matches (Cat r s) p q"
  "re_matches (Alt r s) p q" "re_matches (Not_after rs) p q" "re_matches (Not_before rs) p q" "re_matches Boundary p q"

text \<open>A match moves forward over the text.\<close>

lemma re_matches_span: "re_matches r p q \<Longrightarrow> \<exists>w. snd p = w @ snd q \<and> fst q = rev w @ fst p"
proof (induction rule: re_matches.induct)
  case (cat r p q s t)
  then obtain u v where "snd p = u @ snd q" "fst q = rev u @ fst p" "snd q = v @ snd t" "fst t = rev v @ fst q" by auto
  then show ?case by (intro exI [of _ "u @ v"]) simp
next
  case (star_more r p q t)
  then obtain u v where "snd p = u @ snd q" "fst q = rev u @ fst p" "snd q = v @ snd t" "fst t = rev v @ fst q" by auto
  then show ?case by (intro exI [of _ "u @ v"]) simp
qed simp_all

lemma no_progress: "re_matches r p q \<Longrightarrow> \<not> length (snd q) < length (snd p) \<Longrightarrow> q = p"
  using re_matches_span [of r p q] by (cases p; cases q) auto

lemma eat_iff: "q \<in> set (eat P (b, a)) \<longleftrightarrow> (\<exists>c cs. a = c # cs \<and> P c \<and> q = (c # b, cs))"
  by (cases a) (auto simp: eat_def)

lemma star_ends_sound:
  assumes "\<And>p q. q \<in> set (f p) \<Longrightarrow> re_matches r p q"
  shows "q \<in> set (star_ends f p) \<Longrightarrow> re_matches (Star r) p q"
proof (induction "length (snd p)" arbitrary: p rule: less_induct)
  case less
  then show ?case
    by (subst (asm) (2) star_ends.simps) (auto intro: re_matches.star_none re_matches.star_more assms)
qed

lemma ends_sound: "q \<in> set (ends r p) \<Longrightarrow> re_matches r p q"
proof (induction r arbitrary: p q)
  case (Cat r s)
  from Cat.prems obtain t where "t \<in> set (ends r p)" "q \<in> set (ends s t)" by auto
  then show ?case by (intro re_matches.cat Cat.IH)
next
  case (Star r)
  then show ?case using star_ends_sound [of "ends r" r] by auto
qed (auto simp: eat_iff split: if_splits)

lemma ends_complete: "re_matches r p q \<Longrightarrow> q \<in> set (ends r p)"
proof (induction rule: re_matches.induct)
  case (star_more r p q t)
  show ?case
  proof (cases "length (snd q) < length (snd p)")
    case True
    with star_more.IH show ?thesis
      unfolding ends.simps star_ends.simps [of "ends r" p] set_append set_concat set_map set_filter by blast
  next
    case False
    with star_more no_progress [of r p q] show ?thesis by simp
  qed
next
  case (look r p)
  then show ?case by (cases r; cases p) auto
next
  case (star_none r p)
  show ?case by (simp add: star_ends.simps [of "ends r" p])
qed (auto simp: eat_def)

theorem ends_exact: "q \<in> set (ends r p) \<longleftrightarrow> re_matches r p q"
  using ends_sound ends_complete by blast

lemma ends_empty: "ends r p = [] \<longleftrightarrow> (\<nexists>q. re_matches r p q)"
  using ends_exact by (metis list.set_intros(1) neq_Nil_conv list.distinct(1) empty_iff list.set(1))

section \<open>Repetition\<close>

text \<open>Words over a class.\<close>

lemma exactly_cls: "re_matches (exactly n (Cls rs)) (b, a) q \<longleftrightarrow>
    (\<exists>w a'. a = w @ a' \<and> length w = n \<and> list_all (in_class rs) w \<and> q = (rev w @ b, a'))"
proof (induction n arbitrary: b a)
  case (Suc n)
  show ?case
  proof
    assume "re_matches (exactly (Suc n) (Cls rs)) (b, a) q"
    then obtain c cs w a' where "a = c # cs" "in_class rs c" "cs = w @ a'" "length w = n" "list_all (in_class rs) w"
      "q = (rev w @ c # b, a')" by (auto simp: Suc)
    then show "\<exists>w a'. a = w @ a' \<and> length w = Suc n \<and> list_all (in_class rs) w \<and> q = (rev w @ b, a')"
      by (intro exI [of _ "c # w"] exI [of _ a']) simp
  next
    assume "\<exists>w a'. a = w @ a' \<and> length w = Suc n \<and> list_all (in_class rs) w \<and> q = (rev w @ b, a')"
    then obtain c v a' where w: "a = c # v @ a'" "length v = n" "in_class rs c" "list_all (in_class rs) v" "q = (rev v @ c # b, a')"
      by (auto simp: length_Suc_conv)
    then have "re_matches (exactly n (Cls rs)) (c # b, v @ a') q" unfolding Suc by blast
    with w show "re_matches (exactly (Suc n) (Cls rs)) (b, a) q" by auto
  qed
qed auto

lemma up_to_cls: "re_matches (up_to n (Cls rs)) (b, a) q \<longleftrightarrow>
    (\<exists>w a'. a = w @ a' \<and> length w \<le> n \<and> list_all (in_class rs) w \<and> q = (rev w @ b, a'))"
proof (induction n arbitrary: b a)
  case (Suc n)
  show ?case
  proof
    assume "re_matches (up_to (Suc n) (Cls rs)) (b, a) q"
    then consider "q = (b, a)" | c cs w a' where "a = c # cs" "in_class rs c" "cs = w @ a'" "length w \<le> n"
      "list_all (in_class rs) w" "q = (rev w @ c # b, a')" by (auto simp: Suc)
    then show "\<exists>w a'. a = w @ a' \<and> length w \<le> Suc n \<and> list_all (in_class rs) w \<and> q = (rev w @ b, a')"
    proof cases
      case 1
      then show ?thesis by (intro exI [of _ "[]"] exI [of _ a]) simp
    next
      case 2
      then show ?thesis by (intro exI [of _ "c # w"] exI [of _ a']) simp
    qed
  next
    assume "\<exists>w a'. a = w @ a' \<and> length w \<le> Suc n \<and> list_all (in_class rs) w \<and> q = (rev w @ b, a')"
    then obtain w a' where "a = w @ a'" "length w \<le> Suc n" "list_all (in_class rs) w" "q = (rev w @ b, a')" by blast
    then consider "q = (b, a)" | c v where "a = c # v @ a'" "length v \<le> n" "in_class rs c" "list_all (in_class rs) v" "q = (rev v @ c # b, a')"
      by (cases w) auto
    then show "re_matches (up_to (Suc n) (Cls rs)) (b, a) q"
    proof cases
      case 2
      then have "re_matches (up_to n (Cls rs)) (c # b, v @ a') q" unfolding Suc by blast
      with 2 show ?thesis by auto
    qed simp
  qed
qed auto

section \<open>What a scan finds\<close>

text \<open>A pattern that cannot match the empty string.\<close>

primrec nullable :: "regex \<Rightarrow> bool" where
  "nullable Eps = True"
| "nullable (Cls rs) = False"
| "nullable (Fold rs) = False"
| "nullable (Cat r s) = (nullable r \<and> nullable s)"
| "nullable (Alt r s) = (nullable r \<or> nullable s)"
| "nullable (Star r) = True"
| "nullable (Not_after rs) = True"
| "nullable (Not_before rs) = True"
| "nullable Boundary = True"

lemma not_nullable: "re_matches r p q \<Longrightarrow> \<not> nullable r \<Longrightarrow> length (snd q) < length (snd p)"
proof (induction rule: re_matches.induct)
  case (cat r p q s t)
  then show ?case using re_matches_span [of r p q] re_matches_span [of s q t] by (cases "nullable r") force+
next
  case (look r p)
  then show ?case by (cases r; cases p) auto
qed auto

lemma finditer_step:
  assumes "\<not> nullable r"
  shows "finditer r b a =
     (case ends r (b, a) of
        (b', a') # _ \<Rightarrow> take (length a - length a') a # finditer r b' a'
      | [] \<Rightarrow> (case a of [] \<Rightarrow> [] | c # cs \<Rightarrow> finditer r (c # b) cs))"
proof (cases "ends r (b, a)")
  case (Cons q qs)
  then have "re_matches r (b, a) q" by (metis ends_exact list.set_intros(1))
  then have "length (snd q) < length a" using not_nullable [of r "(b, a)" q] assms by simp
  then show ?thesis by (subst finditer.simps) (cases q; simp add: Cons)
qed (subst finditer.simps, simp)

text \<open>A scan finds nothing exactly if the pattern matches nowhere.\<close>

theorem finditer_none:
  assumes "\<not> nullable r"
  shows "finditer r b a = [] \<longleftrightarrow> (\<nexists>x y q. a = x @ y \<and> re_matches r (rev x @ b, y) q)"
proof (induction "length a" arbitrary: a b rule: less_induct)
  case less
  show ?case
  proof (cases "ends r (b, a)")
    case (Cons q qs)
    then have "re_matches r (b, a) q" by (metis ends_exact list.set_intros(1))
    then have "\<exists>x y q. a = x @ y \<and> re_matches r (rev x @ b, y) q" by (intro exI [of _ "[]"] exI [of _ a] exI [of _ q]) simp
    moreover have "finditer r b a \<noteq> []" by (subst finditer_step [OF assms]) (simp add: Cons split: prod.split)
    ultimately show ?thesis by blast
  next
    case Nil
    then have no: "\<not> re_matches r (b, a) q" for q using ends_empty by blast
    show ?thesis
    proof (cases a)
      case Nil': Nil
      then show ?thesis using no Nil by (subst finditer_step [OF assms]) auto
    next
      case (Cons c cs)
      have "finditer r b a = finditer r (c # b) cs" using Nil Cons by (subst finditer_step [OF assms]) simp
      then have "finditer r b a = [] \<longleftrightarrow> (\<nexists>x y q. cs = x @ y \<and> re_matches r (rev x @ c # b, y) q)"
        using less [of cs "c # b"] Cons by simp
      moreover have "(\<exists>x y q. a = x @ y \<and> re_matches r (rev x @ b, y) q) \<longleftrightarrow> (\<exists>x y q. cs = x @ y \<and> re_matches r (rev x @ c # b, y) q)"
      proof
        assume "\<exists>x y q. a = x @ y \<and> re_matches r (rev x @ b, y) q"
        then obtain x y q where m: "a = x @ y" "re_matches r (rev x @ b, y) q" by blast
        then obtain x' where "x = c # x'" using no Cons by (cases x) auto
        with m Cons show "\<exists>x y q. cs = x @ y \<and> re_matches r (rev x @ c # b, y) q"
          by (intro exI [of _ x'] exI [of _ y] exI [of _ q]) simp
      next
        assume "\<exists>x y q. cs = x @ y \<and> re_matches r (rev x @ c # b, y) q"
        then obtain x y q where "cs = x @ y" "re_matches r (rev x @ c # b, y) q" by blast
        then show "\<exists>x y q. a = x @ y \<and> re_matches r (rev x @ b, y) q"
          using Cons by (intro exI [of _ "c # x"] exI [of _ y] exI [of _ q]) simp
      qed
      ultimately show ?thesis by simp
    qed
  qed
qed

text \<open>Every text a scan yields is a match at its place.\<close>

lemma finditer_sound:
  assumes "\<not> nullable r"
  shows "w \<in> set (finditer r b a) \<Longrightarrow> \<exists>x y. a = x @ w @ y \<and> re_matches r (rev x @ b, w @ y) (rev w @ rev x @ b, y)"
proof (induction "length a" arbitrary: a b rule: less_induct)
  case less
  show ?case
  proof (cases "ends r (b, a)")
    case (Cons q qs)
    obtain b' a' where q: "q = (b', a')" by force
    have m: "re_matches r (b, a) (b', a')" using Cons q by (metis ends_exact list.set_intros(1))
    then obtain u where u: "a = u @ a'" "b' = rev u @ b" using re_matches_span by force
    have "length a' < length a" using not_nullable [OF m assms] by simp
    moreover have "w = u \<or> w \<in> set (finditer r b' a')"
      using less.prems Cons by (subst (asm) finditer_step [OF assms]) (simp add: q u(1))
    ultimately consider "w = u" | x y where "a' = x @ w @ y" "re_matches r (rev x @ b', w @ y) (rev w @ rev x @ b', y)"
      using less.hyps [of a' b'] by blast
    then show ?thesis
    proof cases
      case 1
      with m u show ?thesis by (intro exI [of _ "[]"] exI [of _ a']) simp
    next
      case 2
      with u show ?thesis by (intro exI [of _ "u @ x"] exI [of _ y]) simp
    qed
  next
    case Nil
    then obtain c cs where a: "a = c # cs" and w: "w \<in> set (finditer r (c # b) cs)"
      using less.prems by (subst (asm) finditer_step [OF assms]) (auto split: list.splits)
    from less.hyps [of cs "c # b"] a w obtain x y where "cs = x @ w @ y"
      "re_matches r (rev x @ c # b, w @ y) (rev w @ rev x @ c # b, y)" by auto
    with a show ?thesis by (intro exI [of _ "c # x"] exI [of _ y]) simp
  qed
qed

text \<open>A pattern is solid over a set of characters if its matches are maximal runs of them. Matches of a solid
  pattern do not overlap, so the scan yields all of them.\<close>

definition solid :: "(char \<Rightarrow> bool) \<Rightarrow> regex \<Rightarrow> bool" where
  "solid S r \<longleftrightarrow> (\<forall>b w y. re_matches r (b, w @ y) (rev w @ b, y) \<longrightarrow>
     list_all S w \<and> \<not> holds_next S b \<and> \<not> holds_next S y)"

lemma maximal_run: "list_all S w \<Longrightarrow> \<not> holds_next S y \<Longrightarrow> takeWhile S (w @ y) = w"
  by (induction w) (auto simp: holds_next_def split: list.splits)

theorem finditer_solid:
  assumes "\<not> nullable r" and "solid S r"
  shows "w \<in> set (finditer r b a) \<longleftrightarrow> (\<exists>x y. a = x @ w @ y \<and> re_matches r (rev x @ b, w @ y) (rev w @ rev x @ b, y))"
proof
  assume "\<exists>x y. a = x @ w @ y \<and> re_matches r (rev x @ b, w @ y) (rev w @ rev x @ b, y)"
  then show "w \<in> set (finditer r b a)"
  proof (induction "length a" arbitrary: a b rule: less_induct)
    case less
    then obtain x y where a: "a = x @ w @ y" and m: "re_matches r (rev x @ b, w @ y) (rev w @ rev x @ b, y)" by blast
    have w: "list_all S w" "\<not> holds_next S (rev x @ b)" "\<not> holds_next S y" using m assms(2) unfolding solid_def by blast+
    show ?case
    proof (cases "ends r (b, a)")
      case (Cons q qs)
      obtain b' a' where q: "q = (b', a')" by force
      have m0: "re_matches r (b, a) (b', a')" using Cons q by (metis ends_exact list.set_intros(1))
      then obtain u where u: "a = u @ a'" "b' = rev u @ b" using re_matches_span by force
      have shorter: "length a' < length a" using not_nullable [OF m0 assms(1)] by simp
      have run: "list_all S u" "\<not> holds_next S a'" using m0 u assms(2) unfolding solid_def by blast+
      have step: "set (finditer r b a) = insert u (set (finditer r b' a'))"
        using Cons by (subst finditer_step [OF assms(1)]) (simp add: q u(1))
      show ?thesis
      proof (cases x rule: rev_cases)
        case Nil
        then have "w = u" using maximal_run [OF w(1,3)] maximal_run [OF run] a u by simp
        with step show ?thesis by simp
      next
        case (snoc x0 c)
        have "\<nexists>us. us \<noteq> [] \<and> u = x @ us"
          using run(1) w(2) snoc by auto
        moreover obtain us where "u = x @ us \<or> u @ us = x"
          using a u append_eq_append_conv2 [of u a' x "w @ y"] by auto
        ultimately obtain x' where x: "x = u @ x'" by (cases "us = []") auto
        have "\<exists>x y. a' = x @ w @ y \<and> re_matches r (rev x @ b', w @ y) (rev w @ rev x @ b', y)"
          using a m u x by (intro exI [of _ x'] exI [of _ y]) simp
        with less.hyps [OF shorter] step show ?thesis by simp
      qed
    next
      case Nil
      then have "x \<noteq> []" using m a by (metis append.left_neutral append_Nil ends_empty rev.simps(1))
      then obtain c x' where x: "x = c # x'" by (cases x) auto
      have "finditer r b a = finditer r (c # b) (x' @ w @ y)" using Nil a x by (subst finditer_step [OF assms(1)]) simp
      moreover have "w \<in> set (finditer r (c # b) (x' @ w @ y))"
        by (rule less.hyps) (use a m x in auto)
      ultimately show ?thesis by simp
    qed
  qed
qed (rule finditer_sound [OF assms(1)])

end
