(* ===== verification/PublicSurface.thy ===== *)
theory PublicSurface
  imports Regex "HOL-Library.Word"
begin

text \<open>
  The public-surface check of the repository, \<open>scripts/check_public_surface.py\<close>: the patterns, the classification
  of addresses, the problems of one file and the verdict over the tracked files. A file is what the script
  asks of its path; its text is what \<open>read_text\<close> returns. Texts and paths are ASCII: the word
  characters and the case folding of the patterns are those of ASCII. \<open>git\<close> is the bytes it prints, or its failure.
\<close>

section \<open>Patterns\<close>

definition digit :: ranges where "digit = [(CHR ''0'', CHR ''9'')]"
definition lower_or_digit :: ranges where "lower_or_digit = [(CHR ''a'', CHR ''z''), (CHR ''0'', CHR ''9'')]"
definition lower_digit_dash :: ranges where
  "lower_digit_dash = [(CHR ''a'', CHR ''z''), (CHR ''0'', CHR ''9''), (CHR ''-'', CHR ''-'')]"
definition letter_or_digit :: ranges where
  "letter_or_digit = [(CHR ''A'', CHR ''Z''), (CHR ''a'', CHR ''z''), (CHR ''0'', CHR ''9'')]"
definition address_char :: ranges where
  "address_char = [(CHR ''A'', CHR ''Z''), (CHR ''a'', CHR ''z''), (CHR ''0'', CHR ''9''), (CHR ''.'', CHR ''.'')]"
definition hex :: ranges where "hex = [(CHR ''0'', CHR ''9''), (CHR ''a'', CHR ''f'')]"
definition hex_colon :: ranges where
  "hex_colon = [(CHR ''0'', CHR ''9''), (CHR ''a'', CHR ''f''), (CHR '':'', CHR '':'')]"

text \<open>\<open>[0-9]{1,3}\<close>\<close>

definition octet :: regex where "octet = Cat (Cls digit) (up_to 2 (Cls digit))"

definition IPV4 :: regex where
  "IPV4 = Cat (Not_after address_char)
     (Cat (exactly 3 (Cat octet (chr (CHR ''.'')))) (Cat octet (Not_before address_char)))"

text \<open>The first label of a host name and the labels after it.\<close>

definition host_labels :: regex where
  "host_labels = Cat (Cat (Fold lower_or_digit) (opt (Cat (up_to 61 (Fold lower_digit_dash)) (Fold lower_or_digit))))
     (Star (Cat (lit_i ''.'') (at_least 1 (Fold lower_digit_dash))))"

definition PRIVATE_DNS :: regex where
  "PRIVATE_DNS = Cat Boundary (Cat host_labels
     (Cat (lit_i ''.'') (Cat (Alt (lit_i ''internal'') (Alt (lit_i ''lan'') (lit_i ''local''))) Boundary)))"

definition TAILNET_DNS :: regex where
  "TAILNET_DNS = Cat Boundary (Cat host_labels (Cat (lit_i ''.ts.net'') Boundary))"

text \<open>The look-behind is under \<open>(?i)\<close> too.\<close>

definition PRIVATE_IPV6 :: regex where
  "PRIVATE_IPV6 = Cat (Not_after ((CHR ''A'', CHR ''F'') # hex_colon))
     (Cat (lit_i ''f'') (Cat (Fold [(CHR ''c'', CHR ''d'')]) (Cat (exactly 2 (Fold hex)) (Cat (lit_i '':'') (at_least 1 (Fold hex_colon))))))"

definition CREDENTIAL :: regex where
  "CREDENTIAL =
     Alt (Cat (lit ''-----BEGIN '') (Cat (opt (Alt (lit ''RSA '') (Alt (lit ''EC '') (Alt (lit ''OPENSSH '') (lit ''PGP ''))))) (lit ''PRIVATE KEY-----'')))
    (Alt (Cat (lit ''tskey-'') (Cat (at_least 1 (Cls [(CHR ''a'', CHR ''z'')])) (Cat (lit ''-'') (at_least 8 (Cls letter_or_digit)))))
    (Alt (Cat (lit ''xox'') (Cat (Cls (map (\<lambda>c. (c, c)) ''baprs'')) (Cat (lit ''-'') (at_least 10 (Cls ((CHR ''-'', CHR ''-'') # letter_or_digit))))))
      (Cat (lit ''ghp_'') (at_least 20 (Cls letter_or_digit)))))"

definition FORBIDDEN_PHRASES :: "string list" where
  "FORBIDDEN_PHRASES = [''tafy'' @ ''labs'', ''tafy'' @ '' labs'', ''batfang'']"

text \<open>The prefix of a reverse-DNS application identifier; \<open>re.match\<close> only tries the start.\<close>

definition app_identifier :: "string \<Rightarrow> bool" where
  "app_identifier name \<longleftrightarrow> ends (Cat (Alt (lit_i ''com'') (Alt (lit_i ''io'') (Alt (lit_i ''net'') (Alt (lit_i ''org'')
     (Alt (lit_i ''md'') (lit_i ''app'')))))) (lit_i ''.'')) ([], name) \<noteq> []"

section \<open>Addresses\<close>

text \<open>\<open>ipaddress.ip_address\<close> on a text without a colon: an \<open>IPv4Address\<close>, or \<open>ValueError\<close>. Leading zeros are refused.\<close>

definition parse_octet :: "string \<Rightarrow> nat option" where
  "parse_octet s =
     (if s = [] \<or> \<not> list_all is_digit s \<or> 3 < length s then None
      else if s \<noteq> ''0'' \<and> hd s = CHR ''0'' then None
      else if 255 < digits_value s then None else Some (digits_value s))"

definition ipv4 :: "nat \<Rightarrow> nat \<Rightarrow> nat \<Rightarrow> nat \<Rightarrow> 32 word" where
  "ipv4 a b c d = word_of_nat (((a * 256 + b) * 256 + c) * 256 + d)"

definition ip_address :: "string \<Rightarrow> 32 word option" where
  "ip_address s = (case map parse_octet (split_on (CHR ''.'') s) of
     [Some a, Some b, Some c, Some d] \<Rightarrow> Some (ipv4 a b c d) | _ \<Rightarrow> None)"

text \<open>The bytes of an address, \<open>packed\<close>, and \<open>str\<close> of it.\<close>

definition packed :: "32 word \<Rightarrow> nat list" where
  "packed ip = map (\<lambda>k. unat ip div 256 ^ k mod 256) [3, 2, 1, 0]"

definition str_address :: "32 word \<Rightarrow> string" where
  "str_address ip = join (CHR ''.'') (map nat_digits (packed ip))"

text \<open>A network is an address and the length of its prefix. The private networks and their exceptions are those of
  \<open>IPv4Address.is_private\<close> in Python 3.12.\<close>

definition in_network :: "32 word \<Rightarrow> 32 word \<times> nat \<Rightarrow> bool" where
  "in_network ip net = (unat ip div 2 ^ (32 - snd net) = unat (fst net) div 2 ^ (32 - snd net))"

definition PRIVATE_NETWORKS :: "(32 word \<times> nat) list" where
  "PRIVATE_NETWORKS = [(ipv4 0 0 0 0, 8), (ipv4 10 0 0 0, 8), (ipv4 127 0 0 0, 8), (ipv4 169 254 0 0, 16), (ipv4 172 16 0 0, 12),
     (ipv4 192 0 0 0, 24), (ipv4 192 0 0 170, 31), (ipv4 192 0 2 0, 24), (ipv4 192 168 0 0, 16), (ipv4 198 18 0 0, 15),
     (ipv4 198 51 100 0, 24), (ipv4 203 0 113 0, 24), (ipv4 240 0 0 0, 4), (ipv4 255 255 255 255, 32)]"

definition PRIVATE_EXCEPTIONS :: "(32 word \<times> nat) list" where
  "PRIVATE_EXCEPTIONS = [(ipv4 192 0 0 9, 32), (ipv4 192 0 0 10, 32)]"

definition is_private :: "32 word \<Rightarrow> bool" where
  "is_private ip \<longleftrightarrow> list_ex (in_network ip) PRIVATE_NETWORKS \<and> \<not> list_ex (in_network ip) PRIVATE_EXCEPTIONS"

definition is_loopback :: "32 word \<Rightarrow> bool" where "is_loopback ip \<longleftrightarrow> in_network ip (ipv4 127 0 0 0, 8)"
definition is_unspecified :: "32 word \<Rightarrow> bool" where "is_unspecified ip \<longleftrightarrow> ip = 0"
definition TAILSCALE_CGNAT :: "32 word \<times> nat" where "TAILSCALE_CGNAT = (ipv4 100 64 0 0, 10)"

definition address_problem :: "32 word \<Rightarrow> string list" where
  "address_problem address =
     (if in_network address TAILSCALE_CGNAT then [''Tailscale CGNAT address '' @ str_address address]
      else if is_private address \<and> hd (packed address) \<noteq> 0 \<and> \<not> is_loopback address \<and> \<not> is_unspecified address
      then [''private IPv4 address '' @ str_address address]
      else [])"

section \<open>The problems of a file\<close>

definition quad_problem :: "string \<Rightarrow> string list" where
  "quad_problem w = (case ip_address w of None \<Rightarrow> [] | Some address \<Rightarrow> address_problem address)"

definition text_problems :: "string \<Rightarrow> string list" where
  "text_problems text =
     map (\<lambda>p. ''organization-specific phrase '' @ py_repr_ident p) (filter (\<lambda>p. contains p (py_lower text)) FORBIDDEN_PHRASES) @
     map (\<lambda>w. ''private DNS name '' @ py_repr_ident w) (filter (\<lambda>w. \<not> app_identifier w) (finditer PRIVATE_DNS [] text)) @
     map (\<lambda>w. ''tailnet MagicDNS name '' @ py_repr_ident w) (finditer TAILNET_DNS [] text) @
     map (\<lambda>w. ''private IPv6 address '' @ py_repr_ident w) (finditer PRIVATE_IPV6 [] text) @
     map (\<lambda>w. ''possible embedded credential '' @ py_repr_ident (take 24 w) @ ''...'') (finditer CREDENTIAL [] text) @
     concat (map quad_problem (finditer IPV4 [] text))"

text \<open>\<open>sf_text\<close> is \<open>None\<close> when the file does not decode; \<open>sf_is_checker\<close> says that the path resolves to the script.\<close>

record surface_file =
  sf_is_file :: bool
  sf_name :: string
  sf_text :: "string option"
  sf_is_checker :: bool

text \<open>\<open>PurePath.suffix\<close>: from the last dot, unless that is the first or the last character.\<close>

definition path_suffix :: "string \<Rightarrow> string" where
  "path_suffix name = (let ext = last (split_on (CHR ''.'') name) in
     if CHR ''.'' \<in> set name \<and> ext \<noteq> [] \<and> name \<noteq> CHR ''.'' # ext then CHR ''.'' # ext else [])"

definition SKIP_SUFFIXES :: "string list" where
  "SKIP_SUFFIXES = [''.png'', ''.jpg'', ''.jpeg'', ''.gif'', ''.ico'', ''.woff'', ''.woff2'']"

definition surface_findings :: "surface_file \<Rightarrow> string list" where
  "surface_findings f =
     (if \<not> sf_is_file f then []
      else if py_lower (path_suffix (sf_name f)) \<in> set SKIP_SUFFIXES then []
      else case sf_text f of
        None \<Rightarrow> []
      | Some text \<Rightarrow>
          if sf_is_checker f then []
          else if sf_name f = ''test_public_surface.py'' then []
          else text_problems text)"

section \<open>The verdict\<close>

definition tracked_files :: "string \<Rightarrow> string list" where
  "tracked_files git_output = filter (\<lambda>item. item \<noteq> []) (split_on (CHR 0x00) git_output)"

datatype surface_verdict = Surface_ok string | Surface_exit string | Git_failed

definition surface_main :: "string option \<Rightarrow> (string \<Rightarrow> surface_file) \<Rightarrow> surface_verdict" where
  "surface_main git file_at =
     (case git of
        None \<Rightarrow> Git_failed
      | Some git_output \<Rightarrow>
          (let failures = concat (map (\<lambda>path. map (\<lambda>problem. path @ '': '' @ problem) (surface_findings (file_at path)))
             (tracked_files git_output))
           in if failures \<noteq> [] then Surface_exit (''public-surface validation failed:'' @ [CHR 0x0A] @ join (CHR 0x0A) failures)
              else Surface_ok ''public-surface validation passed''))"

section \<open>Addresses in a text\<close>

lemma digit_class [simp]: "in_class digit = is_digit"
  by (simp add: in_class_def digit_def is_digit_def fun_eq_iff)

lemma digit_address [simp]: "is_digit c \<Longrightarrow> in_class address_char c"
  by (simp add: in_class_def address_char_def is_digit_def)

lemma dot_address [simp]: "in_class address_char (CHR ''.'')"
  by (simp add: in_class_def address_char_def)

lemma chr_matches [simp]: "re_matches (chr c) (b, a) q \<longleftrightarrow> (\<exists>a'. a = c # a' \<and> q = (c # b, a'))"
  by (auto simp: chr_def in_class_def)

definition octet_text :: "string \<Rightarrow> bool" where
  "octet_text w \<longleftrightarrow> list_all is_digit w \<and> w \<noteq> [] \<and> length w \<le> 3"

lemma octet_matches: "re_matches octet (b, a) q \<longleftrightarrow> (\<exists>w a'. octet_text w \<and> a = w @ a' \<and> q = (rev w @ b, a'))"
proof
  assume "re_matches octet (b, a) q"
  then obtain c w a' where "a = c # w @ a'" "is_digit c" "length w \<le> 2" "list_all is_digit w" "q = (rev w @ c # b, a')"
    by (auto simp: octet_def up_to_cls)
  then show "\<exists>w a'. octet_text w \<and> a = w @ a' \<and> q = (rev w @ b, a')"
    by (intro exI [of _ "c # w"] exI [of _ a']) (simp add: octet_text_def)
next
  assume "\<exists>w a'. octet_text w \<and> a = w @ a' \<and> q = (rev w @ b, a')"
  then obtain c w a' where "a = c # w @ a'" "is_digit c" "length w \<le> 2" "list_all is_digit w" "q = (rev w @ c # b, a')"
    by (auto simp: octet_text_def neq_Nil_conv)
  then show "re_matches octet (b, a) q" by (auto simp: octet_def up_to_cls)
qed

text \<open>Four octets with dots between them.\<close>

definition quad_text :: "string \<Rightarrow> bool" where
  "quad_text w \<longleftrightarrow> (\<exists>s t u v. list_all octet_text [s, t, u, v] \<and> w = join (CHR ''.'') [s, t, u, v])"

lemma quadI: "list_all octet_text [s, t, u, v] \<Longrightarrow> quad_text (join (CHR ''.'') [s, t, u, v])"
  unfolding quad_text_def by blast

lemma IPV4_matches: "re_matches IPV4 (b, a) q \<longleftrightarrow>
    (\<exists>w y. a = w @ y \<and> q = (rev w @ b, y) \<and> quad_text w \<and> \<not> holds_next (in_class address_char) b \<and> \<not> holds_next (in_class address_char) y)"
    (is "?m \<longleftrightarrow> ?r")
proof -
  define D where "D = Cat octet (chr (CHR ''.''))"
  have dotted: "re_matches D (b, a) q \<longleftrightarrow> (\<exists>w a'. octet_text w \<and> a = w @ CHR ''.'' # a' \<and> q = (CHR ''.'' # rev w @ b, a'))"
    for b a q by (auto simp: octet_matches D_def)
  have IPV4: "IPV4 = Cat (Not_after address_char) (Cat (Cat D (Cat D (Cat D Eps))) (Cat octet (Not_before address_char)))"
    by (simp add: IPV4_def numeral_3_eq_3 D_def)
  show ?thesis
  proof
    assume ?m
    then obtain s t u v y where "list_all octet_text [s, t, u, v]" "a = s @ CHR ''.'' # t @ CHR ''.'' # u @ CHR ''.'' # v @ y"
      "q = (rev v @ CHR ''.'' # rev u @ CHR ''.'' # rev t @ CHR ''.'' # rev s @ b, y)"
      "\<not> holds_next (in_class address_char) b" "\<not> holds_next (in_class address_char) y"
      by (auto simp: IPV4 dotted octet_matches)
    then show ?r using quadI [of s t u v] by (intro exI [of _ "join (CHR ''.'') [s, t, u, v]"] exI [of _ y]) simp
  next
    assume ?r
    then obtain s t u v y where o: "octet_text s" "octet_text t" "octet_text u" "octet_text v"
      and a: "a = s @ CHR ''.'' # t @ CHR ''.'' # u @ CHR ''.'' # v @ y"
      and q: "q = (rev v @ CHR ''.'' # rev u @ CHR ''.'' # rev t @ CHR ''.'' # rev s @ b, y)"
      and n: "\<not> holds_next (in_class address_char) b" "\<not> holds_next (in_class address_char) y"
      by (auto simp: quad_text_def)
    have d: "octet_text w \<Longrightarrow> re_matches D (b, w @ CHR ''.'' # a) (CHR ''.'' # rev w @ b, a)"
      and e: "octet_text w \<Longrightarrow> re_matches octet (b, w @ a) (rev w @ b, a)" for w b a
      by (auto simp: dotted octet_matches)
    show ?m unfolding IPV4 a q
      by (rule re_matches.cat re_matches.look re_matches.eps d e | simp add: o n)+
  qed
qed

lemma quad_address: "quad_text w \<Longrightarrow> list_all (in_class address_char) w"
  by (auto simp: quad_text_def octet_text_def list_all_iff)

lemma IPV4_solid: "solid (in_class address_char) IPV4"
  using quad_address by (auto simp: solid_def IPV4_matches)

lemma IPV4_not_nullable: "\<not> nullable IPV4"
  by (simp add: IPV4_def octet_def numeral_3_eq_3)

lemma parse_octet_text: "parse_octet s = Some n \<Longrightarrow> octet_text s"
  by (auto simp: parse_octet_def octet_text_def split: if_splits)

lemma ip_address_quad:
  assumes "ip_address w = Some ip"
  shows "quad_text w"
proof -
  obtain a b c d where parts: "map parse_octet (split_on (CHR ''.'') w) = [Some a, Some b, Some c, Some d]"
    using assms by (auto simp: ip_address_def split: list.splits option.splits)
  then obtain s t u v where w: "split_on (CHR ''.'') w = [s, t, u, v]"
    and p: "parse_octet s = Some a" "parse_octet t = Some b" "parse_octet u = Some c" "parse_octet v = Some d" by auto
  have "w = join (CHR ''.'') [s, t, u, v]" using split_on_parts [of "CHR ''.''" w] w by simp
  with p [THEN parse_octet_text] show ?thesis unfolding quad_text_def by auto
qed

text \<open>The addresses the scan reads are exactly those that stand alone in the text.\<close>

lemma IPV4_found: "(\<exists>w \<in> set (finditer IPV4 [] text). ip_address w = Some ip) \<longleftrightarrow>
    (\<exists>x w y. text = x @ w @ y \<and> \<not> holds_next (in_class address_char) (rev x) \<and> \<not> holds_next (in_class address_char) y \<and> ip_address w = Some ip)"
proof -
  have "w \<in> set (finditer IPV4 [] text) \<longleftrightarrow> (\<exists>x y. text = x @ w @ y \<and> quad_text w \<and>
      \<not> holds_next (in_class address_char) (rev x) \<and> \<not> holds_next (in_class address_char) y)" for w
    unfolding finditer_solid [OF IPV4_not_nullable IPV4_solid] IPV4_matches by fastforce
  then show ?thesis using ip_address_quad by blast
qed

text \<open>The octets of an address and back.\<close>

lemma unat_ipv4:
  assumes "a \<le> 255" and "b \<le> 255" and "c \<le> 255" and "d \<le> 255"
  shows "unat (ipv4 a b c d) = ((a * 256 + b) * 256 + c) * 256 + d"
proof -
  have "((a * 256 + b) * 256 + c) * 256 + d < 2 ^ 32" using assms by simp
  moreover have "unat (word_of_nat n :: 32 word) = n" if "n < 2 ^ 32" for n using that by (simp add: unat_of_nat)
  ultimately show ?thesis unfolding ipv4_def by blast
qed

lemma div_256: "y \<le> 255 \<Longrightarrow> (x * 256 + y) div 256 = (x :: nat)" "y \<le> 255 \<Longrightarrow> (x * 256 + y) mod 256 = (y :: nat)"
  by auto

lemma packed_ipv4:
  assumes "a \<le> 255" and "b \<le> 255" and "c \<le> 255" and "d \<le> 255"
  shows "packed (ipv4 a b c d) = [a, b, c, d]"
proof -
  have "256 ^ 3 = 256 * 256 * (256 :: nat)" "256\<^sup>2 = 256 * (256 :: nat)" by simp_all
  then show ?thesis using assms
    by (simp only: packed_def unat_ipv4 list.map div_mult2_eq div_256 power_one_right power_0 div_by_1) simp
qed

text \<open>Numerals of at most three digits without a leading zero are printed as they were read.\<close>

lemma is_digit_iff: "is_digit c \<longleftrightarrow> (\<exists>d < 10. c = digit_char d)"
proof
  assume c: "is_digit c"
  then have "48 + (of_char c - 48) = (of_char c :: nat)" "of_char c - 48 < (10 :: nat)" by (auto simp: is_digit_def)
  then show "\<exists>d < 10. c = digit_char d" unfolding digit_char_def by (metis char_of_char)
qed auto

lemma parse_octet_prints:
  assumes "parse_octet s = Some n"
  shows "n \<le> 255 \<and> nat_digits n = s"
proof -
  have s: "list_all is_digit s" "s \<noteq> []" "length s \<le> 3" "s \<noteq> ''0'' \<longrightarrow> hd s \<noteq> CHR ''0''" "n = digits_value s" "n \<le> 255"
    using assms by (auto simp: parse_octet_def split: if_splits)
  have zero: "digit_char 0 = CHR ''0''" by code_simp
  have dv: "digits_value (w @ [digit_char d]) = 10 * digits_value w + d" if "d < 10" for w d
    using that by (simp add: digits_value_def)
  have one: "nat_digits (digits_value [digit_char d]) = [digit_char d]" if "d < 10" for d
    using that by (simp add: digits_value_def nat_digits.simps [of d])
  have more: "nat_digits (digits_value (w @ [digit_char d])) = w @ [digit_char d]"
    if "d < 10" "0 < digits_value w" "nat_digits (digits_value w) = w" for w d
    using that by (simp add: dv nat_digits.simps [of "10 * digits_value w + d"])
  have pos: "0 < digits_value (digit_char d # w)" if "d < 10" "d \<noteq> 0" for d w
  proof (induction w rule: rev_induct)
    case (snoc c w)
    then show ?case by (simp add: digits_value_def)
  qed (use that in \<open>simp add: digits_value_def\<close>)
  consider a where "s = [a]" | a b where "s = [a, b]" | a b c where "s = [a, b, c]"
    using s(2,3) by (cases s; cases "tl s"; cases "tl (tl s)") auto
  then have "nat_digits (digits_value s) = s"
  proof cases
    case 1
    with s(1) one show ?thesis by (auto simp: is_digit_iff)
  next
    case 2
    with s(1) obtain i j where ij: "i < 10" "j < 10" "s = [digit_char i, digit_char j]" by (auto simp: is_digit_iff)
    with s(4) zero have "i \<noteq> 0" by (cases "i = 0") auto
    with more [of j "[digit_char i]"] one [of i] pos [of i "[]"] ij show ?thesis by simp
  next
    case 3
    with s(1) obtain i j k where ij: "i < 10" "j < 10" "k < 10" "s = [digit_char i, digit_char j, digit_char k]"
      by (auto simp: is_digit_iff)
    with s(4) zero have "i \<noteq> 0" by (cases "i = 0") auto
    with more [of j "[digit_char i]"] more [of k "[digit_char i, digit_char j]"] one [of i] pos [of i "[]"] pos [of i "[digit_char j]"] ij
    show ?thesis by simp
  qed
  with s show ?thesis by simp
qed

text \<open>A report prints the address as it stands in the text.\<close>

lemma str_address_reads:
  assumes "ip_address w = Some ip"
  shows "str_address ip = w"
proof -
  obtain a b c d where parts: "map parse_octet (split_on (CHR ''.'') w) = [Some a, Some b, Some c, Some d]" and ip: "ip = ipv4 a b c d"
    using assms by (auto simp: ip_address_def split: list.splits option.splits)
  then obtain s t u v where w: "split_on (CHR ''.'') w = [s, t, u, v]"
    and p: "parse_octet s = Some a" "parse_octet t = Some b" "parse_octet u = Some c" "parse_octet v = Some d" by auto
  note pr = p [THEN parse_octet_prints]
  have "str_address ip = join (CHR ''.'') [s, t, u, v]" using pr by (simp add: str_address_def ip packed_ipv4)
  then show ?thesis using split_on_parts [of "CHR ''.''" w] w by simp
qed

section \<open>What the check guarantees\<close>

lemma contains_iff: "contains p s \<longleftrightarrow> (\<exists>x y. s = x @ p @ y)"
proof (induction s)
  case (Cons c s)
  have "(\<exists>x y. c # s = x @ p @ y) \<longleftrightarrow> (\<exists>y. c # s = p @ y) \<or> (\<exists>x y. s = x @ p @ y)"
    by (auto simp: Cons_eq_append_conv)
  then show ?case by (simp add: Cons starts_with_iff)
qed simp

definition occurs :: "regex \<Rightarrow> string \<Rightarrow> bool" where
  "occurs r text \<longleftrightarrow> (\<exists>x y q. text = x @ y \<and> re_matches r (rev x, y) q)"

lemma finditer_occurs: "\<not> nullable r \<Longrightarrow> finditer r [] text = [] \<longleftrightarrow> \<not> occurs r text"
  by (simp add: finditer_none occurs_def)

lemma patterns_not_nullable: "\<not> nullable TAILNET_DNS" "\<not> nullable PRIVATE_IPV6" "\<not> nullable CREDENTIAL"
  by (simp_all add: TAILNET_DNS_def host_labels_def PRIVATE_IPV6_def CREDENTIAL_def opt_def at_least_def chr_def numeral_2_eq_2)

text \<open>An address that a public text must not contain.\<close>

definition leaking :: "32 word \<Rightarrow> bool" where
  "leaking ip \<longleftrightarrow> in_network ip TAILSCALE_CGNAT \<or>
     is_private ip \<and> hd (packed ip) \<noteq> 0 \<and> \<not> is_loopback ip \<and> \<not> is_unspecified ip"

text \<open>A clean text, said without scanning: no phrase, no private name other than application identifiers, no
  tailnet name, private IPv6 address or credential anywhere, and no leaking address that stands alone.\<close>

definition clean_text :: "string \<Rightarrow> bool" where
  "clean_text text \<longleftrightarrow>
     list_all (\<lambda>p. \<nexists>x y. py_lower text = x @ p @ y) FORBIDDEN_PHRASES \<and>
     list_all app_identifier (finditer PRIVATE_DNS [] text) \<and>
     \<not> occurs TAILNET_DNS text \<and> \<not> occurs PRIVATE_IPV6 text \<and> \<not> occurs CREDENTIAL text \<and>
     (\<nexists>x w y ip. text = x @ w @ y \<and> \<not> holds_next (in_class address_char) (rev x) \<and> \<not> holds_next (in_class address_char) y \<and>
        ip_address w = Some ip \<and> leaking ip)"

definition skipped :: "surface_file \<Rightarrow> bool" where
  "skipped f \<longleftrightarrow> \<not> sf_is_file f \<or> py_lower (path_suffix (sf_name f)) \<in> set SKIP_SUFFIXES \<or> sf_text f = None \<or>
     sf_is_checker f \<or> sf_name f = ''test_public_surface.py''"

lemma address_problem_none: "address_problem ip = [] \<longleftrightarrow> \<not> leaking ip"
  by (auto simp: address_problem_def leaking_def)

lemma quads_clean: "concat (map quad_problem (finditer IPV4 [] text)) = [] \<longleftrightarrow>
    (\<nexists>x w y ip. text = x @ w @ y \<and> \<not> holds_next (in_class address_char) (rev x) \<and> \<not> holds_next (in_class address_char) y \<and>
      ip_address w = Some ip \<and> leaking ip)"
proof -
  have "concat (map quad_problem (finditer IPV4 [] text)) = [] \<longleftrightarrow>
      (\<nexists>ip. (\<exists>w \<in> set (finditer IPV4 [] text). ip_address w = Some ip) \<and> leaking ip)"
    by (force simp: quad_problem_def address_problem_none split: option.splits)
  then show ?thesis unfolding IPV4_found by blast
qed

lemma text_problems_none: "text_problems text = [] \<longleftrightarrow> clean_text text"
  unfolding text_problems_def clean_text_def append_is_Nil_conv quads_clean map_is_Nil_conv
    finditer_occurs [OF patterns_not_nullable(1)] finditer_occurs [OF patterns_not_nullable(2)] finditer_occurs [OF patterns_not_nullable(3)]
  by (auto simp: filter_empty_conv list_all_iff contains_iff)

lemma surface_findings_none: "surface_findings f = [] \<longleftrightarrow> skipped f \<or> list_all clean_text (case sf_text f of None \<Rightarrow> [] | Some t \<Rightarrow> [t])"
  by (auto simp: surface_findings_def skipped_def text_problems_none split: option.splits)

text \<open>The same in terms of the four octets.\<close>

lemma base_eq:
  assumes "y < n" and "z < (n :: nat)"
  shows "x * n + y = v * n + z \<longleftrightarrow> x = v \<and> y = z"
proof
  assume eq: "x * n + y = v * n + z"
  have "(x * n + y) div n = x" "(v * n + z) div n = v" using assms by simp_all
  with eq show "x = v \<and> y = z" by simp
qed simp

lemma div_part: "(x * 256 + y) div 16 = x * 16 + y div (16 :: nat)" "(x * 256 + y) div 64 = x * 4 + y div (64 :: nat)"
  "(x * 256 + y) div 2 = x * 128 + y div (2 :: nat)"
  using div_mult_self1 [of 16 y "x * 16"] div_mult_self1 [of 64 y "x * 4"] div_mult_self1 [of 2 y "x * 128"]
  by (simp_all add: ac_simps)

lemma digits_eq:
  "y \<le> 255 \<Longrightarrow> z \<le> 255 \<Longrightarrow> x * 256 + y = v * 256 + z \<longleftrightarrow> x = v \<and> y = (z :: nat)"
  "y \<le> 255 \<Longrightarrow> z \<le> 255 \<Longrightarrow> x * 16 + y div 16 = v * 16 + z div 16 \<longleftrightarrow> x = v \<and> y div 16 = z div (16 :: nat)"
  "y \<le> 255 \<Longrightarrow> z \<le> 255 \<Longrightarrow> x * 4 + y div 64 = v * 4 + z div 64 \<longleftrightarrow> x = v \<and> y div 64 = z div (64 :: nat)"
  "y \<le> 255 \<Longrightarrow> z \<le> 255 \<Longrightarrow> x * 128 + y div 2 = v * 128 + z div 2 \<longleftrightarrow> x = v \<and> y div 2 = z div (2 :: nat)"
  by (rule base_eq; simp add: div_less_iff_less_mult)+

lemma network_sizes:
  "2 ^ (32 - 4) = 256 * 256 * 256 * (16 :: nat)" "2 ^ (32 - 8) = 256 * 256 * (256 :: nat)" "2 ^ (32 - 10) = 256 * 256 * (64 :: nat)"
  "2 ^ (32 - 12) = 256 * 256 * (16 :: nat)" "2 ^ (32 - 15) = 256 * 256 * (2 :: nat)" "2 ^ (32 - 16) = 256 * (256 :: nat)"
  "2 ^ (32 - 24) = (256 :: nat)" "2 ^ (32 - 31) = (2 :: nat)" "2 ^ (32 - 32) = (1 :: nat)"
  by simp_all

lemma in_network_prefix:
  assumes "a \<le> 255" and "b \<le> 255" and "c \<le> 255" and "d \<le> 255"
    and "k \<le> 255" and "l \<le> 255" and "m \<le> 255" and "n \<le> 255"
  shows "in_network (ipv4 a b c d) (ipv4 k l m n, 8) \<longleftrightarrow> a = k"
    "in_network (ipv4 a b c d) (ipv4 k l m n, 16) \<longleftrightarrow> a = k \<and> b = l"
    "in_network (ipv4 a b c d) (ipv4 k l m n, 24) \<longleftrightarrow> a = k \<and> b = l \<and> c = m"
    "in_network (ipv4 a b c d) (ipv4 k l m n, 32) \<longleftrightarrow> a = k \<and> b = l \<and> c = m \<and> d = n"
    "in_network (ipv4 a b c d) (ipv4 k l m n, 4) \<longleftrightarrow> a div 16 = k div 16"
    "in_network (ipv4 a b c d) (ipv4 k l m n, 10) \<longleftrightarrow> a = k \<and> b div 64 = l div 64"
    "in_network (ipv4 a b c d) (ipv4 k l m n, 12) \<longleftrightarrow> a = k \<and> b div 16 = l div 16"
    "in_network (ipv4 a b c d) (ipv4 k l m n, 15) \<longleftrightarrow> a = k \<and> b div 2 = l div 2"
    "in_network (ipv4 a b c d) (ipv4 k l m n, 31) \<longleftrightarrow> a = k \<and> b = l \<and> c = m \<and> d div 2 = n div 2"
  unfolding in_network_def unat_ipv4 [OF assms(1-4)] unat_ipv4 [OF assms(5-8)] snd_conv fst_conv network_sizes div_mult2_eq
  using assms by (simp_all only: div_256 div_part digits_eq div_by_1) auto

lemma div_eq: "0 < k \<Longrightarrow> x div k = q \<longleftrightarrow> q * k \<le> x \<and> x < q * k + (k :: nat)"
  using div_mult_mod_eq [of x k] dividend_less_div_times [of k x] div_nat_eqI [of k q x] by (auto simp: algebra_simps)

lemma leaking_octets:
  assumes "a \<le> 255" and "b \<le> 255" and "c \<le> 255" and "d \<le> 255"
  shows "leaking (ipv4 a b c d) \<longleftrightarrow>
    a = 10 \<or> a = 100 \<and> 64 \<le> b \<and> b \<le> 127 \<or> a = 169 \<and> b = 254 \<or> a = 172 \<and> 16 \<le> b \<and> b \<le> 31 \<or> a = 192 \<and> b = 168 \<or>
    a = 192 \<and> b = 0 \<and> (c = 0 \<and> d \<noteq> 9 \<and> d \<noteq> 10 \<or> c = 2) \<or> a = 198 \<and> (b = 18 \<or> b = 19 \<or> b = 51 \<and> c = 100) \<or>
    a = 203 \<and> b = 0 \<and> c = 113 \<or> 240 \<le> a"
proof -
  have "ipv4 a b c d = 0 \<longleftrightarrow> a = 0 \<and> b = 0 \<and> c = 0 \<and> d = 0"
    using unat_ipv4 [OF assms] by (auto simp: unat_eq_0 [symmetric])
  note zero = this
  have ranges: "a div 16 = 15 \<longleftrightarrow> 240 \<le> a" "b div 64 = Suc 0 \<longleftrightarrow> 64 \<le> b \<and> b \<le> 127" "b div 16 = Suc 0 \<longleftrightarrow> 16 \<le> b \<and> b \<le> 31"
    "b div 2 = 9 \<longleftrightarrow> b = 18 \<or> b = 19" "d div 2 = 85 \<longleftrightarrow> d = 170 \<or> d = 171"
    using assms(1) by (auto simp: div_eq)
  have leaking: "leaking (ipv4 a b c d) \<longleftrightarrow> a = 100 \<and> 64 \<le> b \<and> b \<le> 127 \<or>
      (a = 0 \<or> a = 10 \<or> a = 127 \<or> a = 169 \<and> b = 254 \<or> a = 172 \<and> 16 \<le> b \<and> b \<le> 31 \<or> a = 192 \<and> b = 0 \<and> c = 0 \<or>
       a = 192 \<and> b = 0 \<and> c = 0 \<and> (d = 170 \<or> d = 171) \<or> a = 192 \<and> b = 0 \<and> c = 2 \<or> a = 192 \<and> b = 168 \<or> a = 198 \<and> (b = 18 \<or> b = 19) \<or>
       a = 198 \<and> b = 51 \<and> c = 100 \<or> a = 203 \<and> b = 0 \<and> c = 113 \<or> 240 \<le> a \<or> a = 255 \<and> b = 255 \<and> c = 255 \<and> d = 255) \<and>
      \<not> (a = 192 \<and> b = 0 \<and> c = 0 \<and> d = 9 \<or> a = 192 \<and> b = 0 \<and> c = 0 \<and> d = 10) \<and> a \<noteq> 0 \<and> a \<noteq> 127 \<and> \<not> (a = 0 \<and> b = 0 \<and> c = 0 \<and> d = 0)"
    unfolding leaking_def is_private_def PRIVATE_NETWORKS_def PRIVATE_EXCEPTIONS_def TAILSCALE_CGNAT_def is_loopback_def
      is_unspecified_def by (simp add: packed_ipv4 in_network_prefix assms zero ranges)
  consider "a = 0" | "a = 10" | "a = 100" | "a = 127" | "a = 169" | "a = 172" | "a = 192" | "a = 198" | "a = 203" | "a = 255"
    | "a \<noteq> 0 \<and> a \<noteq> 10 \<and> a \<noteq> 100 \<and> a \<noteq> 127 \<and> a \<noteq> 169 \<and> a \<noteq> 172 \<and> a \<noteq> 192 \<and> a \<noteq> 198 \<and> a \<noteq> 203 \<and> a \<noteq> 255"
    by blast
  then show ?thesis
  proof cases
    case 7
    then show ?thesis unfolding leaking by (cases "b = 0"; cases "c = 0") simp_all
  qed (unfold leaking, simp_all)
qed

text \<open>A leaking address that stands alone is reported as it is written.\<close>

lemma address_reported:
  assumes "text = x @ w @ y" and "\<not> holds_next (in_class address_char) (rev x)" and "\<not> holds_next (in_class address_char) y"
    and "ip_address w = Some ip" and "leaking ip"
  shows "(if in_network ip TAILSCALE_CGNAT then ''Tailscale CGNAT address '' else ''private IPv4 address '') @ w \<in> set (text_problems text)"
proof -
  obtain w' where "w' \<in> set (finditer IPV4 [] text)" and w': "ip_address w' = Some ip" using IPV4_found assms(1-4) by blast
  moreover have "str_address ip = w" using str_address_reads [OF assms(4)] .
  ultimately show ?thesis using assms(5) by (fastforce simp: text_problems_def quad_problem_def address_problem_def leaking_def)
qed

text \<open>Two gaps of the patterns: an address with a full stop after it, as at the end of a sentence, is no match; and any
  host under \<open>app\<close>, \<open>io\<close>, \<open>net\<close> and the like counts as an application identifier.\<close>

lemma sentence_end_missed: "finditer IPV4 [] ''at 10.0.0.5.'' = []"
  by code_simp

lemma app_hosts_exempt: "app_identifier (''app.'' @ rest)"
  by (simp add: app_identifier_def eat_def chr_def in_class_def py_lower_char_def)


end
