(* ===== verification/Ganglion.thy ===== *)
theory Ganglion
  imports HostLaws
begin

text \<open>
  \<open>ganglion.py\<close>, the client of a signed WASM component through the \<open>gang\<close> command line, with the adapter and
  status provider over it, and \<open>wasm_host_main.py\<close>, which serves such a component to the broker. Finding the
  binary on the path and running a process are parameters; a process is its argument vector and
  ends as \<open>process_end\<close> says.
\<close>

section \<open>Connections\<close>

definition MAX_RESULT_BYTES :: nat where
  "MAX_RESULT_BYTES = 1048576"

definition EXPORTS :: "string list" where
  "EXPORTS = [''describe'', ''health'', ''plan'', ''execute'', ''observe'', ''verify'', ''cancel'']"

record wasm_description =
  wd_manifest :: plugin_manifest
  wd_adapters :: "string list"
  wd_status_providers :: "string list"
  wd_actions :: "action_definition list"

record wasm_connection =
  wc_gang_binary :: string
  wc_data_dir :: string
  wc_robot :: string
  wc_capability :: string
  wc_socket :: "host_connection option"

text \<open>\<open>[a-z0-9][a-z0-9_-]{0,63}\<close>\<close>

definition capability_name_ok :: "string \<Rightarrow> bool" where
  "capability_name_ok s = (case s of [] \<Rightarrow> False
     | c # r \<Rightarrow> lower_alnum c \<and> length r \<le> 63 \<and> list_all (\<lambda>d. lower_alnum d \<or> d = CHR ''_'' \<or> d = CHR ''-'') r)"

definition validate_binary :: "string \<Rightarrow> bool" where
  "validate_binary s \<longleftrightarrow> starts_with ''/'' s \<or>
     \<not> list_ex (\<lambda>c. c \<in> set ([CHR ''/'', CHR '' '', CHR 0x09, CHR 0x0A] @ '';|&$`'')) s"

definition wasm_connection_ok :: "wasm_connection \<Rightarrow> bool" where
  "wasm_connection_ok wc \<longleftrightarrow> length (wc_gang_binary wc) \<le> 256 \<and> validate_binary (wc_gang_binary wc) \<and>
     starts_with ''/'' (wc_data_dir wc) \<and> capability_name_ok (wc_robot wc) \<and> capability_name_ok (wc_capability wc)"

section \<open>The client\<close>

definition WasmError :: "string \<Rightarrow> adapter_error_kind \<Rightarrow> exn" where
  "WasmError message kind = AdapterExn ((AdapterError message kind RETRY_SAFE False [])\<lparr>ae_class := WasmErrorClass\<rparr>)"

datatype process_end = No_such_file | Ran_too_long | Exited int string

record ganglion_client =
  gl_connection :: wasm_connection
  gl_which :: "string \<Rightarrow> string option"
  gl_run :: "string list \<Rightarrow> process_end"
  gl_float :: "string \<Rightarrow> string"

definition binary :: "ganglion_client \<Rightarrow> exn + string" where
  "binary client =
     (let name = wc_gang_binary (gl_connection client);
          resolved = (if starts_with ''/'' name then Some name else gl_which client name)
      in case resolved of
           Some (c # path) \<Rightarrow> Inr (c # path)
         | _ \<Rightarrow> Inl (WasmError (''gang binary '' @ py_repr_ident name @ '' not found'') K_CONFIGURATION))"

text \<open>The payload is the last argument, as compact JSON.\<close>

definition gang_argv :: "wasm_connection \<Rightarrow> string \<Rightarrow> string \<Rightarrow> json_object \<Rightarrow> string list" where
  "gang_argv wc path export payload =
     [path, ''--data-dir'', wc_data_dir wc, ''--format'', ''json'', ''run'', wc_robot wc, wc_capability wc, ''--export'', export,
      render (JObj payload)]"

definition read_document :: "(string \<Rightarrow> string) \<Rightarrow> string \<Rightarrow> string \<Rightarrow> exn + json_object" where
  "read_document fl export stdout =
     (if MAX_RESULT_BYTES < length stdout then Inl (WasmError (''gang '' @ export @ '' result exceeds the size limit'') K_PROTOCOL)
      else case loads_bytes fl stdout of
             None \<Rightarrow> Inl (WasmError (''gang '' @ export @ '' returned invalid JSON'') K_PROTOCOL)
           | Some (JObj document) \<Rightarrow> Inr document
           | Some _ \<Rightarrow> Inl (WasmError (''gang '' @ export @ '' result envelope is invalid'') K_PROTOCOL))"

definition process_result :: "(string \<Rightarrow> string) \<Rightarrow> string \<Rightarrow> process_end \<Rightarrow> exn + json_object" where
  "process_result fl export ended =
     (case ended of
        No_such_file \<Rightarrow> Inl (WasmError ''gang binary is unavailable'' K_CONFIGURATION)
      | Ran_too_long \<Rightarrow> Inl (AdapterExn (AdapterError (''gang invoke of '' @ export @ '' timed out'') K_TIMEOUT RECONCILE_FIRST True []))
      | Exited code stdout \<Rightarrow>
          if code \<noteq> 0
          then Inl (WasmError (''gang invoke of '' @ export @ '' failed (exit '' @ str_int code @ '')'') K_UNAVAILABLE)
          else read_document fl export stdout)"

definition gang_invoke :: "ganglion_client \<Rightarrow> string \<Rightarrow> json_object \<Rightarrow> exn + json_object" where
  "gang_invoke client export payload =
     (if export \<notin> set EXPORTS then Inl (WasmError (''unknown lifecycle export '' @ py_repr_ident export) K_PROTOCOL)
      else bind_sum (binary client) (\<lambda>path.
        process_result (gl_float client) export (gl_run client (gang_argv (gl_connection client) path export payload))))"

definition describe :: "(json_object \<Rightarrow> wasm_description option) \<Rightarrow> ganglion_client \<Rightarrow> exn + wasm_description" where
  "describe read_description client =
     bind_sum (gang_invoke client ''describe'' []) (\<lambda>raw. validated (read_description raw))"

section \<open>Adapters\<close>

definition request_payload_of :: "action_definition \<Rightarrow> action_request \<Rightarrow> json_object" where
  "request_payload_of action request = [(''action'', action_json action), (''request'', JObj (request_json request))]"

definition wasm_unknown_for_mutation :: "action_definition \<Rightarrow> exn + json_object \<Rightarrow> exn + json_object" where
  "wasm_unknown_for_mutation action r =
     (case r of
        Inl (AdapterExn e) \<Rightarrow>
          if ae_class e = WasmErrorClass \<and> ad_mutation action
          then Inl (AdapterExn (UnknownOutcome ''wasm transport failed during mutation'' [])) else r
      | _ \<Rightarrow> r)"

definition GanglionAdapter :: "pydantic \<Rightarrow> ganglion_client \<Rightarrow> adapter" where
  "GanglionAdapter py client = \<lparr>
     ap_health = bind_sum (gang_invoke client ''health'' []) (\<lambda>raw. validated (py_health py raw)),
     ap_plan = (\<lambda>action request. bind_sum (gang_invoke client ''plan'' (request_payload_of action request)) (\<lambda>raw.
        validated (py_plan py raw))),
     ap_execute = (\<lambda>action request. bind_sum (wasm_unknown_for_mutation action
        (gang_invoke client ''execute'' (request_payload_of action request))) (\<lambda>raw. validated (py_execution py (JObj raw)))),
     ap_observe = (\<lambda>action request. bind_sum (wasm_unknown_for_mutation action
        (gang_invoke client ''observe'' (request_payload_of action request))) (\<lambda>raw. validated (py_observation py (JObj raw)))),
     ap_verify = (\<lambda>action request execution observation.
        bind_sum (gang_invoke client ''verify'' (request_payload_of action request @
          [(''execution'', execution_json execution), (''observation'', observation_json observation)])) (\<lambda>raw.
        validated (py_verification py raw))),
     ap_cancel = (\<lambda>action request execution.
        bind_sum (gang_invoke client ''cancel'' (request_payload_of action request @
          [(''execution'', opt_json execution_json execution)])) (\<lambda>raw. validated (py_cancellation py raw)))\<rparr>"

definition GanglionStatusProvider :: "pydantic \<Rightarrow> ganglion_client \<Rightarrow> string \<Rightarrow> status_provider" where
  "GanglionStatusProvider py client provider_id =
     bind_sum (gang_invoke client ''observe'' [(''provider'', JStr provider_id)]) (\<lambda>raw. validated (py_status py raw))"

definition wasm_contribution :: "pydantic \<Rightarrow> ganglion_client \<Rightarrow> wasm_description \<Rightarrow> plugin_contribution" where
  "wasm_contribution py client d = \<lparr>
     pc_adapters = fold (\<lambda>name. dict_set name (Some (GanglionAdapter py client))) (wd_adapters d) [],
     pc_status_providers = fold (\<lambda>name. dict_set name (Some (GanglionStatusProvider py client name))) (wd_status_providers d) [],
     pc_actions = wd_actions d\<rparr>"

section \<open>Serving a component\<close>

definition wasm_host_plugin :: "pydantic \<Rightarrow> ganglion_client \<Rightarrow> wasm_description \<Rightarrow> plugin" where
  "wasm_host_plugin py client d = \<lparr>pl_manifest = Inr (wd_manifest d), pl_build = (\<lambda>context. Inr (wasm_contribution py client d))\<rparr>"

definition serve_component ::
  "(string \<Rightarrow> string) \<Rightarrow> files \<Rightarrow> pydantic \<Rightarrow> (json_object \<Rightarrow> wasm_description option) \<Rightarrow> ganglion_client \<Rightarrow> int \<Rightarrow> path \<Rightarrow> path \<Rightarrow>
     int \<Rightarrow> nat \<Rightarrow> nat \<Rightarrow> exn + host_server" where
  "serve_component sha fs py read_description client uid socket_path artifact_path broker_uid max_frame_bytes max_artifact_bytes =
     bind_sum (describe read_description client) (\<lambda>d.
     bind_sum (WasmHostServer sha fs (wasm_host_plugin py client d) [] artifact_path broker_uid max_frame_bytes max_artifact_bytes) (\<lambda>s.
     bind_sum (start_guards fs uid socket_path) (\<lambda>_. Inr s)))"

section \<open>Argument vectors\<close>

lemma render_object: "\<exists>s. render (JObj kvs) = CHR ''{'' # s"
  by simp

lemma capability_no_dash: "capability_name_ok s \<Longrightarrow> \<not> starts_with ''-'' s"
  by (auto simp: capability_name_ok_def starts_with_def lower_alnum_def lower_alpha_def is_digit_def split: list.splits)

text \<open>No request reaches the command line of \<open>gang\<close> as anything but data: the only processes an invocation depends on
  are started with one fixed argument vector whose last argument alone, the JSON payload, varies with the
  request; and that argument, the robot and the capability never start with a dash, so none of them can be
  taken for an option.\<close>

theorem gang_argv_fixed:
  assumes "wasm_connection_ok (gl_connection client)"
  shows "butlast (gang_argv (gl_connection client) path export payload) = butlast (gang_argv (gl_connection client) path export payload') \<and>
    last (gang_argv (gl_connection client) path export payload) = render (JObj payload) \<and>
    (\<forall>i \<in> {6, 7, 10}. \<not> starts_with ''-'' (gang_argv (gl_connection client) path export payload ! i)) \<and>
    (\<forall>run run'. (\<forall>path. run (gang_argv (gl_connection client) path export payload) = run' (gang_argv (gl_connection client) path export payload)) \<longrightarrow>
       gang_invoke (client\<lparr>gl_run := run\<rparr>) export payload = gang_invoke (client\<lparr>gl_run := run'\<rparr>) export payload)"
proof (intro conjI allI impI)
  fix run run' :: "string list \<Rightarrow> process_end"
  assume same: "\<forall>path. run (gang_argv (gl_connection client) path export payload) = run' (gang_argv (gl_connection client) path export payload)"
  have "binary (client\<lparr>gl_run := run\<rparr>) = binary (client\<lparr>gl_run := run'\<rparr>)"
    by (simp add: binary_def Let_def cong: if_cong)
  with same show "gang_invoke (client\<lparr>gl_run := run\<rparr>) export payload = gang_invoke (client\<lparr>gl_run := run'\<rparr>) export payload"
    by (cases "binary (client\<lparr>gl_run := run'\<rparr>)") (simp_all add: gang_invoke_def cong: if_cong)
qed (use assms capability_no_dash [of "wc_robot (gl_connection client)"] capability_no_dash [of "wc_capability (gl_connection client)"] in
    \<open>simp_all add: gang_argv_def wasm_connection_ok_def starts_with_def\<close>)

section \<open>Failing mutations\<close>

lemma read_document_cases:
  "read_document fl export stdout = Inl e \<Longrightarrow> \<exists>m k. e = WasmError m k"
  "read_document fl export stdout = Inr d \<Longrightarrow> loads_bytes fl stdout = Some (JObj d) \<and> length stdout \<le> MAX_RESULT_BYTES"
  by (auto simp: read_document_def split: if_splits option.splits json.splits)

lemma process_result_cases:
  "process_result fl export ended = Inl e \<Longrightarrow>
     (\<exists>m k. e = WasmError m k) \<or> (\<exists>x. e = AdapterExn x \<and> ae_class x = PlainAdapterError \<and> ae_reconciliation_required x)"
  "process_result fl export ended = Inr d \<Longrightarrow> \<exists>stdout. ended = Exited 0 stdout \<and> loads_bytes fl stdout = Some (JObj d)"
  by (cases ended; auto simp: process_result_def AdapterError_def split: if_splits dest: read_document_cases)+

lemma gang_invoke_raises:
  assumes "gang_invoke client export payload = Inl e"
  shows "(\<exists>m k. e = WasmError m k) \<or> (\<exists>x. e = AdapterExn x \<and> ae_class x = PlainAdapterError \<and> ae_reconciliation_required x)"
proof -
  have "\<exists>m k. x = WasmError m k" if "binary client = Inl x" for x
    using that by (auto simp: binary_def Let_def split: option.splits list.splits if_splits)
  moreover have "(\<exists>m k. e = WasmError m k) \<or> (\<exists>path. process_result (gl_float client) export
      (gl_run client (gang_argv (gl_connection client) path export payload)) = Inl e) \<or> binary client = Inl e"
    using assms unfolding gang_invoke_def by (auto split: if_splits)
  ultimately show ?thesis using process_result_cases(1) by blast
qed

lemma wasm_unknown_raises:
  assumes "ad_mutation action" and "wasm_unknown_for_mutation action (gang_invoke client export payload) = Inl e"
  shows "\<exists>x. e = AdapterExn x \<and> ae_reconciliation_required x"
proof (cases "gang_invoke client export payload")
  case (Inl f)
  from gang_invoke_raises [OF this] show ?thesis
    using assms Inl by (auto simp: wasm_unknown_for_mutation_def WasmError_def)
qed (use assms(2) in \<open>simp add: wasm_unknown_for_mutation_def\<close>)

lemma gang_invoke_returns:
  assumes "gang_invoke client export payload = Inr d"
  shows "\<exists>path stdout. gl_run client (gang_argv (gl_connection client) path export payload) = Exited 0 stdout \<and>
    loads_bytes (gl_float client) stdout = Some (JObj d)"
proof -
  obtain path where "process_result (gl_float client) export (gl_run client (gang_argv (gl_connection client) path export payload)) = Inr d"
    using assms unfolding gang_invoke_def by (auto split: if_splits)
  then show ?thesis using process_result_cases(2) by blast
qed


section \<open>An example\<close>

definition demo_gang :: ganglion_client where
  "demo_gang = \<lparr>gl_connection = \<lparr>wc_gang_binary = ''/bin/gang'', wc_data_dir = ''/var/gang'', wc_robot = ''r1'', wc_capability = ''vm'',
       wc_socket = None\<rparr>, gl_which = (\<lambda>_. None), gl_run = (\<lambda>_. Exited 1 []), gl_float = (\<lambda>t. t)\<rparr>"

theorem gang_argv_fixed_witness:
  "\<not> starts_with ''-'' (gang_argv (gl_connection demo_gang) ''/bin/gang'' ''plan'' [(''x'', JNull)] ! 10)"
proof -
  have "wasm_connection_ok (gl_connection demo_gang)"
    by (simp add: demo_gang_def wasm_connection_ok_def validate_binary_def capability_name_ok_def lower_alnum_def lower_alpha_def
        is_digit_def starts_with_def)
  from gang_argv_fixed [OF this, of "''/bin/gang''" "''plan''" "[(''x'', JNull)]" "[]"] show ?thesis by blast
qed


end
