(* ===== verification/Plugins.thy ===== *)
theory Plugins
  imports Ganglion
begin

text \<open>
  \<open>plugins.py\<close> and \<open>extensions.py\<close>: the configuration and the lock, the plugin manager that loads what both
  name, and the catalog over the loaded plugins. What is outside the program is a parameter: the installed
  distributions, the JSON Schema validator, the files and processes behind a WASM plugin, the parsed
  YAML documents and the clock.
\<close>

section \<open>Configuration and lock\<close>

datatype runtime_mode = IN_PROCESS | WASM_RUNTIME

record plugin_runtime =
  pr_policy :: resilience_policy
  pr_mode :: runtime_mode
  pr_wasm :: "wasm_connection option"

definition validate_isolation_configuration :: "plugin_runtime \<Rightarrow> bool" where
  "validate_isolation_configuration r \<longleftrightarrow> (pr_mode r = WASM_RUNTIME \<longleftrightarrow> pr_wasm r \<noteq> None)"

record plugin_activation =
  pa_enabled :: bool
  pa_config :: json_object
  pa_runtime :: plugin_runtime

type_synonym plugin_configuration = "(string \<times> plugin_activation) list"

datatype lock_source = BUILTIN | PYTHON | WASM_SOURCE

record plugin_lock_entry =
  le_id :: string
  le_version :: string
  le_source :: lock_source
  le_digest :: "string option"

type_synonym plugin_lock = "plugin_lock_entry list"

definition by_id :: "plugin_lock \<Rightarrow> exn + (string \<times> plugin_lock_entry) list" where
  "by_id plugins =
     (let result = fold (\<lambda>p. dict_set (le_id p) p) plugins []
      in if length result \<noteq> length plugins then Inl (PluginError ''plugin lock contains duplicate IDs'') else Inr result)"

text \<open>The guard and the adapter it wraps; the guards are named by their plugin.\<close>

record loaded_plugins =
  lp_manifests :: "plugin_manifest list"
  lp_adapters :: "(string \<times> string \<times> adapter) list"
  lp_status :: "(string \<times> string \<times> status_provider) list"
  lp_actions :: "action_definition list"
  lp_resilience :: "(string \<times> guard) list"

definition nothing_loaded :: loaded_plugins where
  "nothing_loaded = \<lparr>lp_manifests = [], lp_adapters = [], lp_status = [], lp_actions = [], lp_resilience = []\<rparr>"

definition description_is_mutation_capable :: "wasm_description \<Rightarrow> bool" where
  "description_is_mutation_capable d \<longleftrightarrow> pp_mutation (pm_permissions (wd_manifest d)) \<or> list_ex ad_mutation (wd_actions d)"

section \<open>The built-in plugin\<close>

definition core_manifest :: plugin_manifest where
  "core_manifest = \<lparr>pm_schema_version = 1, pm_id = ''dh-core'', pm_name = ''Deckhand Core Development Adapter'',
     pm_version = ''0.5.0'', pm_api_version = PLUGIN_API_VERSION,
     pm_description = ''Topology-neutral deterministic adapters for development and tests.'',
     pm_adapters = [''dh-core.fake'', ''dh-core.disabled''], pm_status_provider_types = [], pm_actions = [],
     pm_permissions = \<lparr>pp_mutation = False, pp_credential_slots = [], pp_egress_bindings = []\<rparr>,
     pm_config_schema = [(''$schema'', JStr ''https://json-schema.org/draft/2020-12/schema''), (''type'', JStr ''object''),
       (''additionalProperties'', JBool False), (''properties'', JObj [])]\<rparr>"

definition CorePlugin :: "instant \<Rightarrow> plugin" where
  "CorePlugin now = \<lparr>pl_manifest = Inr core_manifest,
     pl_build = (\<lambda>context. Inr \<lparr>pc_adapters = [(''dh-core.fake'', Some (FakeAdapter now)),
         (''dh-core.disabled'', Some (DisabledMutationAdapter now ''disabled''))], pc_status_providers = [], pc_actions = []\<rparr>)\<rparr>"

definition default_plugin_configuration :: "resilience_policy \<Rightarrow> plugin_configuration" where
  "default_plugin_configuration policy =
     [(''dh-core'', \<lparr>pa_enabled = True, pa_config = [], pa_runtime = \<lparr>pr_policy = policy, pr_mode = IN_PROCESS, pr_wasm = None\<rparr>\<rparr>)]"

definition default_plugin_lock :: plugin_lock where
  "default_plugin_lock = [\<lparr>le_id = ''dh-core'', le_version = ''0.5.0'', le_source = BUILTIN, le_digest = None\<rparr>]"

text \<open>A file that may be missing, read as YAML and validated by its model.\<close>

definition load_document :: "string \<Rightarrow> 'a \<Rightarrow> (json_object \<Rightarrow> 'a option) \<Rightarrow> json option \<Rightarrow> exn + 'a" where
  "load_document description fallback validate file =
     (case file of
        None \<Rightarrow> Inr fallback
      | Some (JObj raw) \<Rightarrow> validated (validate raw)
      | Some _ \<Rightarrow> Inl (PluginError (description @ '' must be a mapping'')))"

section \<open>The manager\<close>

text \<open>An entry point of an installed distribution: its version, where it has a distribution, and what loading it
  gives; \<open>None\<close> is an object that is no plugin.\<close>

record entry_point =
  ep_version :: "string option"
  ep_load :: "exn + plugin option"

record plugin_manager =
  pg_builtin :: "(string \<times> (exn + plugin)) list"
  pg_external :: "(string \<times> entry_point) list"

fun discover :: "(string \<times> entry_point) list \<Rightarrow> (string \<times> entry_point) list \<Rightarrow> exn + (string \<times> entry_point) list" where
  "discover [] discovered = Inr discovered"
| "discover ((name, point) # points) discovered =
     (if name \<in> fst ` set discovered
      then Inl (PluginError (''multiple installed distributions provide '' @ py_repr_ident name))
      else discover points (dict_set name point discovered))"

text \<open>What a WASM plugin meets: hashing, keys, files, models, and the processes and sockets of its connection.\<close>

record wasm_world =
  ww_sha :: "string \<Rightarrow> string"
  ww_load_key :: "string \<Rightarrow> exn + (string \<Rightarrow> string \<Rightarrow> bool) option"
  ww_files :: files
  ww_pydantic :: pydantic
  ww_description :: "json_object \<Rightarrow> wasm_description option"
  ww_gang :: "wasm_connection \<Rightarrow> ganglion_client"
  ww_wire :: "host_connection \<Rightarrow> wire"
  ww_request_id :: string

text \<open>\<open>except (OSError, ValueError, RuntimeError)\<close>: the exceptions of the program are runtime errors.\<close>

definition load_failure :: "exn \<Rightarrow> bool" where
  "load_failure e = (case e of PyKeyError m \<Rightarrow> False | PyTypeError m \<Rightarrow> False | IncompleteRead \<Rightarrow> False | HTTPException c d \<Rightarrow> False
     | OtherException m \<Rightarrow> False | _ \<Rightarrow> True)"

definition reraise :: "string \<Rightarrow> exn + 'a \<Rightarrow> exn + 'a" where
  "reraise message r = (case r of Inl e \<Rightarrow> if load_failure e then Inl (PluginError message) else Inl e | Inr x \<Rightarrow> Inr x)"

definition wasm_out_of_process ::
  "wasm_world \<Rightarrow> string \<Rightarrow> host_connection \<Rightarrow> string \<Rightarrow> exn + plugin_manifest \<times> plugin_contribution" where
  "wasm_out_of_process ww plugin_id socket digest =
     bind_sum (reraise (''wasm plugin '' @ py_repr_ident plugin_id @ '' failed secure out-of-process handshake'')
       (bind_sum (WasmHostClient (ww_sha ww) (ww_load_key ww) (ww_files ww) plugin_id socket digest) (\<lambda>client.
        bind_sum (handshake (ww_pydantic ww) client (ww_wire ww socket) (ww_request_id ww)) (\<lambda>h. Inr (client, h))))) (\<lambda>(client, h).
     Inr (hh_manifest h, \<lparr>
       pc_adapters = fold (\<lambda>name. dict_set name (Some (WasmHostAdapter (ww_pydantic ww) client (ww_wire ww socket) (ww_request_id ww) name)))
         (pm_adapters (hh_manifest h)) [],
       pc_status_providers = fold (\<lambda>name. dict_set name
         (Some (WasmHostStatusProvider (ww_pydantic ww) client (ww_wire ww socket) (ww_request_id ww) name))) (hh_status_providers h) [],
       pc_actions = hh_actions h\<rparr>))"

definition wasm_in_process ::
  "wasm_world \<Rightarrow> string \<Rightarrow> wasm_connection \<Rightarrow> exn + plugin_manifest \<times> plugin_contribution" where
  "wasm_in_process ww plugin_id connection =
     bind_sum (reraise (''wasm plugin '' @ py_repr_ident plugin_id @ '' failed to describe'')
       (describe (ww_description ww) (ww_gang ww connection))) (\<lambda>d.
     if description_is_mutation_capable d
     then Inl (PluginError (''mutation-capable wasm plugin '' @ py_repr_ident plugin_id @
       '' requires the out-of-process host; the in-process CLI transport is a read-only/dev convenience only''))
     else Inr (wd_manifest d, wasm_contribution (ww_pydantic ww) (ww_gang ww connection) d))"

definition wasm_plugin ::
  "wasm_world \<Rightarrow> bool \<Rightarrow> string \<Rightarrow> plugin_activation \<Rightarrow> plugin_lock_entry \<Rightarrow> exn + plugin_manifest \<times> plugin_contribution" where
  "wasm_plugin ww allow_wasm plugin_id activation lock =
     (if \<not> allow_wasm
      then Inl (PluginError (''wasm plugin '' @ py_repr_ident plugin_id @ '' requires DECKHAND_ALLOW_WASM_PLUGINS=true''))
      else case (pr_mode (pa_runtime activation), pr_wasm (pa_runtime activation)) of
        (WASM_RUNTIME, Some connection) \<Rightarrow>
          if pa_config activation \<noteq> []
          then Inl (PluginError (''wasm plugin '' @ py_repr_ident plugin_id @ '' configuration is declared in its signed manifest''))
          else (case le_digest lock of
              None \<Rightarrow> Inl (PluginError (''wasm plugin '' @ py_repr_ident plugin_id @ '' requires an artifact digest''))
            | Some digest \<Rightarrow>
                (case wc_socket connection of
                   Some socket \<Rightarrow> wasm_out_of_process ww plugin_id socket digest
                 | None \<Rightarrow> wasm_in_process ww plugin_id connection))
      | _ \<Rightarrow> Inl (PluginError (''wasm plugin '' @ py_repr_ident plugin_id @ '' requires wasm runtime settings'')))"

definition instantiate :: "plugin_manager \<Rightarrow> bool \<Rightarrow> plugin_lock_entry \<Rightarrow> exn + plugin" where
  "instantiate pg allow_external lock =
     (if le_source lock = BUILTIN
      then case map_of (pg_builtin pg) (le_id lock) of
             Some made \<Rightarrow> made
           | None \<Rightarrow> Inl (PluginError (''locked builtin plugin '' @ py_repr_ident (le_id lock) @ '' is unavailable''))
      else if \<not> allow_external
      then Inl (PluginError (''external plugin '' @ py_repr_ident (le_id lock) @ '' requires DECKHAND_ALLOW_EXTERNAL_PLUGINS=true''))
      else case map_of (pg_external pg) (le_id lock) of
             None \<Rightarrow> Inl (PluginError (''locked Python plugin '' @ py_repr_ident (le_id lock) @ '' is not installed''))
           | Some point \<Rightarrow>
               if ep_version point \<noteq> None \<and> ep_version point \<noteq> Some (le_version lock)
               then Inl (PluginError (''installed distribution for '' @ py_repr_ident (le_id lock) @ '' is '' @ the (ep_version point) @
                 '', but the lock requires '' @ le_version lock))
               else bind_sum (ep_load point) (\<lambda>loaded.
                 case loaded of
                   None \<Rightarrow> Inl (PluginError (''entry point '' @ py_repr_ident (le_id lock) @ '' does not implement DeckhandPlugin''))
                 | Some p \<Rightarrow> Inr p))"

definition validate_manifest :: "string \<Rightarrow> plugin_manifest \<Rightarrow> plugin_lock_entry \<Rightarrow> exn + unit" where
  "validate_manifest expected_id manifest lock =
     (if pm_id manifest \<noteq> expected_id
      then Inl (PluginError (''plugin manifest ID '' @ py_repr_ident (pm_id manifest) @ '' does not match '' @ py_repr_ident expected_id))
      else if pm_version manifest \<noteq> le_version lock
      then Inl (PluginError (''plugin '' @ py_repr_ident expected_id @ '' version '' @ pm_version manifest @ '' does not match lock '' @ le_version lock))
      else if pm_api_version manifest \<noteq> PLUGIN_API_VERSION
      then Inl (PluginError (''plugin '' @ py_repr_ident expected_id @ '' requires unsupported API '' @ str_int (pm_api_version manifest)))
      else Inr ())"

section \<open>Merging a contribution\<close>

definition check_action :: "string \<Rightarrow> plugin_contribution \<Rightarrow> action_definition \<Rightarrow> exn + unit" where
  "check_action plugin_id contribution action =
     (if ad_plugin action \<noteq> plugin_id
      then Inl (PluginError (''action '' @ py_repr_ident (ad_id action) @ '' declares the wrong plugin''))
      else if ad_adapter action \<notin> fst ` set (pc_adapters contribution)
      then Inl (PluginError (''action '' @ py_repr_ident (ad_id action) @ '' references an unowned adapter''))
      else Inr ())"

definition add_guarded ::
  "string \<Rightarrow> string \<Rightarrow> string \<Rightarrow> string \<Rightarrow> string \<times> 'a option \<Rightarrow> (string \<times> string \<times> 'a) list \<Rightarrow> exn + (string \<times> string \<times> 'a) list" where
  "add_guarded what lacking finish plugin_id item table =
     (case item of (name, object) \<Rightarrow>
        if name \<in> fst ` set table then Inl (PluginError (what @ '' '' @ py_repr_ident name @ '' is contributed more than once''))
        else (case object of
            None \<Rightarrow> Inl (PluginError (what @ '' '' @ py_repr_ident name @ lacking @ finish))
          | Some x \<Rightarrow> Inr (dict_set name (plugin_id, x) table)))"

definition merge :: "string \<Rightarrow> plugin_manifest \<Rightarrow> plugin_contribution \<Rightarrow> loaded_plugins \<Rightarrow> exn + loaded_plugins" where
  "merge plugin_id manifest contribution lp =
     (if set (map fst (pc_adapters contribution)) \<noteq> set (pm_adapters manifest)
      then Inl (PluginError (''plugin '' @ py_repr_ident plugin_id @ '' adapter contribution differs from manifest''))
      else if \<not> set (map ad_id (pc_actions contribution)) \<subseteq> set (pm_actions manifest)
      then Inl (PluginError (''plugin '' @ py_repr_ident plugin_id @ '' contributed undeclared actions: ['' @
        join_with '', '' (map py_repr_ident (sort (remdups (filter (\<lambda>i. i \<notin> set (pm_actions manifest)) (map ad_id (pc_actions contribution)))))) @ '']''))
      else bind_sum (for_each (\<lambda>action u. check_action plugin_id contribution action) (pc_actions contribution) ()) (\<lambda>_.
           bind_sum (for_each (add_guarded ''adapter'' '' does not implement'' '' the complete lifecycle contract'' plugin_id)
             (pc_adapters contribution) (lp_adapters lp)) (\<lambda>adapters.
           bind_sum (for_each (add_guarded ''status provider'' '' does not implement'' '' observe'' plugin_id)
             (pc_status_providers contribution) (lp_status lp)) (\<lambda>status.
           if list_ex (\<lambda>action. ad_id action \<in> ad_id ` set (lp_actions lp)) (pc_actions contribution)
           then Inl (PluginError (''plugin '' @ py_repr_ident plugin_id @ '' contributes a duplicate action ID''))
           else Inr (lp\<lparr>lp_adapters := adapters, lp_status := status, lp_actions := lp_actions lp @ pc_actions contribution\<rparr>)))))"

section \<open>Loading\<close>

record load_options =
  lo_allow_external :: bool
  lo_allow_wasm :: bool
  lo_iter_errors :: schema_validator
  lo_now :: rat

text \<open>The manifest and the contribution of a plugin with its lock entry, checked in the order of the code: a WASM
  plugin contributes before its manifest is compared with the lock, any other one after its configuration
  was validated.\<close>

definition resolve_plugin ::
  "plugin_manager \<Rightarrow> wasm_world \<Rightarrow> load_options \<Rightarrow> string \<Rightarrow> plugin_activation \<Rightarrow> plugin_lock_entry \<Rightarrow>
     exn + plugin_manifest \<times> plugin_contribution" where
  "resolve_plugin pg ww lo plugin_id activation lock =
     (if le_source lock = WASM_SOURCE
      then bind_sum (wasm_plugin ww (lo_allow_wasm lo) plugin_id activation lock) (\<lambda>(manifest, contribution).
           bind_sum (validate_manifest plugin_id manifest lock) (\<lambda>_. Inr (manifest, contribution)))
      else if pr_mode (pa_runtime activation) \<noteq> IN_PROCESS
      then Inl (PluginError (''plugin '' @ py_repr_ident plugin_id @ '' lock source does not permit isolated runtime''))
      else bind_sum (instantiate pg (lo_allow_external lo) lock) (\<lambda>plugin.
           bind_sum (pl_manifest plugin) (\<lambda>manifest.
           bind_sum (validate_manifest plugin_id manifest lock) (\<lambda>_.
           let errors = sort_key fst (lo_iter_errors lo (pm_config_schema manifest) (pa_config activation))
           in if errors \<noteq> []
              then Inl (PluginError (''invalid configuration for '' @ plugin_id @ '': '' @ join_with ''; '' (map snd errors)))
              else bind_sum (pl_build plugin (pa_config activation)) (\<lambda>contribution. Inr (manifest, contribution))))))"

definition load_one ::
  "plugin_manager \<Rightarrow> wasm_world \<Rightarrow> load_options \<Rightarrow> (string \<times> plugin_lock_entry) list \<Rightarrow> string \<times> plugin_activation \<Rightarrow>
     loaded_plugins \<Rightarrow> exn + loaded_plugins" where
  "load_one pg ww lo locked item lp =
     (case item of (plugin_id, activation) \<Rightarrow>
        if \<not> pa_enabled activation then Inr lp
        else (case map_of locked plugin_id of
            None \<Rightarrow> Inl (PluginError (''enabled plugin '' @ py_repr_ident plugin_id @ '' is not version-locked''))
          | Some lock_entry \<Rightarrow>
              bind_sum (resolve_plugin pg ww lo plugin_id activation lock_entry) (\<lambda>(manifest, contribution).
              bind_sum (merge plugin_id manifest contribution lp) (\<lambda>lp'.
              Inr (lp'\<lparr>lp_resilience := dict_set plugin_id (ResilienceGuard (pr_policy (pa_runtime activation)) (lo_now lo)) (lp_resilience lp'),
                      lp_manifests := lp_manifests lp' @ [manifest]\<rparr>)))))"

definition load :: "plugin_manager \<Rightarrow> wasm_world \<Rightarrow> load_options \<Rightarrow> plugin_configuration \<Rightarrow> plugin_lock \<Rightarrow> exn + loaded_plugins" where
  "load pg ww lo configuration lock =
     bind_sum (by_id lock) (\<lambda>locked. for_each (load_one pg ww lo locked) (sort_key fst configuration) nothing_loaded)"

text \<open>The files that may be missing and how their models read them are the arguments of \<open>load_extensions\<close>.\<close>

definition load_extensions ::
  "plugin_manager \<Rightarrow> wasm_world \<Rightarrow> load_options \<Rightarrow> resilience_policy \<Rightarrow> (json_object \<Rightarrow> plugin_configuration option) \<Rightarrow>
     (json_object \<Rightarrow> plugin_lock option) \<Rightarrow> json option \<Rightarrow> json option \<Rightarrow> exn + loaded_plugins" where
  "load_extensions pg ww lo policy read_configuration read_lock configuration_file lock_file =
     bind_sum (load_document ''plugin configuration'' (default_plugin_configuration policy) read_configuration configuration_file) (\<lambda>configuration.
     bind_sum (load_document ''plugin lock'' default_plugin_lock read_lock lock_file) (\<lambda>lock. load pg ww lo configuration lock))"

section \<open>The catalog over the plugins\<close>

definition registry_of :: "loaded_plugins \<Rightarrow> registry" where
  "registry_of lp = map (\<lambda>(name, guard, a). (name, a)) (lp_adapters lp)"

definition check_catalogued :: "loaded_plugins \<Rightarrow> action_definition \<Rightarrow> exn + unit" where
  "check_catalogued lp action =
     (if ad_plugin action \<notin> pm_id ` set (lp_manifests lp)
      then Inl (PluginError (''action '' @ py_repr_ident (ad_id action) @ '' requires disabled or missing plugin '' @ py_repr_ident (ad_plugin action)))
      else bind_sum (registry_get (registry_of lp) (ad_adapter action)) (\<lambda>_. Inr ()))"

definition load_catalog ::
  "(string \<Rightarrow> exn + action_definition) \<Rightarrow> string list option \<Rightarrow> loaded_plugins \<Rightarrow> exn + catalog" where
  "load_catalog read_action files lp =
     bind_sum (catalog_from_path read_action files (lp_actions lp)) (\<lambda>catalog.
     bind_sum (for_each (\<lambda>action u. check_catalogued lp action) (list_actions catalog) ()) (\<lambda>_. Inr catalog))"

section \<open>What loading guarantees\<close>

lemma for_each_checks: "for_each (\<lambda>x u. f x) xs () = Inr u \<longleftrightarrow> (\<forall>x \<in> set xs. f x = Inr ())"
  by (induction xs) auto

lemma add_guarded_Inr:
  "add_guarded what lacking finish pid item table = Inr t \<Longrightarrow>
     \<exists>n x. item = (n, Some x) \<and> n \<notin> fst ` set table \<and> t = table @ [(n, pid, x)]"
  by (cases item) (auto simp: add_guarded_def dict_set_new split: if_splits option.splits)

lemma add_guarded_all:
  "for_each (add_guarded what lacking finish pid) items table = Inr table' \<Longrightarrow>
     table' = table @ map (\<lambda>(n, x). (n, pid, the x)) items \<and> distinct (map fst items) \<and>
     fst ` set items \<inter> fst ` set table = {} \<and> (\<forall>(n, x) \<in> set items. x \<noteq> None)"
proof (induction items arbitrary: table)
  case (Cons item items)
  then obtain t where t: "add_guarded what lacking finish pid item table = Inr t"
    "for_each (add_guarded what lacking finish pid) items t = Inr table'" by auto
  obtain n x where "item = (n, Some x)" "n \<notin> fst ` set table" "t = table @ [(n, pid, x)]"
    using add_guarded_Inr [OF t(1)] by blast
  with Cons.IH [OF t(2)] show ?case by auto
qed simp

lemma merge_Inr:
  assumes "merge pid m c lp = Inr lp'"
  shows "lp_manifests lp' = lp_manifests lp" "lp_resilience lp' = lp_resilience lp" "lp_actions lp' = lp_actions lp @ pc_actions c"
    "\<And>a. a \<in> set (pc_actions c) \<Longrightarrow> ad_plugin a = pid \<and> ad_id a \<in> set (pm_actions m) \<and> ad_adapter a \<in> set (pm_adapters m)"
    "\<exists>new. lp_adapters lp' = lp_adapters lp @ new \<and> distinct (map fst new) \<and> fst ` set new = set (pm_adapters m) \<and>
       fst ` set new \<inter> fst ` set (lp_adapters lp) = {} \<and> (\<forall>(n, p, x) \<in> set new. p = pid)"
proof -
  obtain adapters status where parts: "set (map fst (pc_adapters c)) = set (pm_adapters m)"
    "set (map ad_id (pc_actions c)) \<subseteq> set (pm_actions m)" "\<forall>a \<in> set (pc_actions c). check_action pid c a = Inr ()"
    "for_each (add_guarded ''adapter'' '' does not implement'' '' the complete lifecycle contract'' pid) (pc_adapters c) (lp_adapters lp) = Inr adapters"
    "lp' = lp\<lparr>lp_adapters := adapters, lp_status := status, lp_actions := lp_actions lp @ pc_actions c\<rparr>"
    using assms unfolding merge_def by (auto simp: for_each_checks split: if_splits)
  then show "lp_manifests lp' = lp_manifests lp" "lp_resilience lp' = lp_resilience lp" "lp_actions lp' = lp_actions lp @ pc_actions c" by simp_all
  show "ad_plugin a = pid \<and> ad_id a \<in> set (pm_actions m) \<and> ad_adapter a \<in> set (pm_adapters m)" if "a \<in> set (pc_actions c)" for a
    using that parts(1-3) by (auto simp: check_action_def split: if_splits)
  let ?new = "map (\<lambda>(n, x). (n, pid, the x)) (pc_adapters c)"
  have names: "map fst ?new = map fst (pc_adapters c)" by (auto simp: comp_def)
  have "fst ` set ?new = fst ` set (pc_adapters c)" using names by (metis list.set_map)
  then show "\<exists>new. lp_adapters lp' = lp_adapters lp @ new \<and> distinct (map fst new) \<and> fst ` set new = set (pm_adapters m) \<and>
      fst ` set new \<inter> fst ` set (lp_adapters lp) = {} \<and> (\<forall>(n, p, x) \<in> set new. p = pid)"
    using add_guarded_all [OF parts(4)] parts(1,5) names
    by (intro exI [of _ ?new] conjI) (simp_all del: map_map, auto)
qed

text \<open>The source of a plugin is permitted, and one that can mutate through WASM is reached out of process.\<close>

definition source_permitted ::
  "load_options \<Rightarrow> plugin_lock_entry \<Rightarrow> plugin_activation \<Rightarrow> bool \<Rightarrow> bool" where
  "source_permitted lo le activation mutates =
     (case le_source le of
        BUILTIN \<Rightarrow> True
      | PYTHON \<Rightarrow> lo_allow_external lo
      | WASM_SOURCE \<Rightarrow> lo_allow_wasm lo \<and> le_digest le \<noteq> None \<and>
          (mutates \<longrightarrow> (\<exists>c. pr_wasm (pa_runtime activation) = Some c \<and> wc_socket c \<noteq> None)))"

definition mutates :: "plugin_manifest \<Rightarrow> action_definition list \<Rightarrow> bool" where
  "mutates m actions \<longleftrightarrow> pp_mutation (pm_permissions m) \<or> (\<exists>a \<in> set actions. ad_plugin a = pm_id m \<and> ad_mutation a)"

lemma validate_manifest_Inr:
  "validate_manifest pid m le = Inr () \<longleftrightarrow> pm_id m = pid \<and> pm_version m = le_version le \<and> pm_api_version m = PLUGIN_API_VERSION"
  by (simp add: validate_manifest_def)

lemma reraise_Inr [simp]: "reraise message r = Inr x \<longleftrightarrow> r = Inr x"
  by (auto simp: reraise_def split: sum.splits if_splits)

lemma wasm_plugin_permitted:
  assumes "wasm_plugin ww allow pid activation le = Inr (m, c)" and "le_source le = WASM_SOURCE" and "allow = lo_allow_wasm lo"
  shows "source_permitted lo le activation (mutates m (pc_actions c))"
proof -
  obtain conn digest where found: "allow" "pr_wasm (pa_runtime activation) = Some conn" "le_digest le = Some digest"
    "(case wc_socket conn of Some socket \<Rightarrow> wasm_out_of_process ww pid socket digest | None \<Rightarrow> wasm_in_process ww pid conn) = Inr (m, c)"
    using assms(1) unfolding wasm_plugin_def by (auto split: if_splits runtime_mode.splits option.splits)
  show ?thesis
  proof (cases "wc_socket conn")
    case None
    then obtain d where "\<not> description_is_mutation_capable d" "m = wd_manifest d" "c = wasm_contribution (ww_pydantic ww) (ww_gang ww conn) d"
      using found(4) by (auto simp: wasm_in_process_def split: if_splits)
    then show ?thesis using found assms(2,3)
      by (auto simp: source_permitted_def mutates_def description_is_mutation_capable_def wasm_contribution_def list_ex_iff)
  qed (use found assms(2,3) in \<open>simp add: source_permitted_def\<close>)
qed

lemma resolve_plugin_Inr:
  assumes "resolve_plugin pg ww lo pid activation le = Inr (m, c)"
  shows "pm_id m = pid" "pm_version m = le_version le" "pm_api_version m = PLUGIN_API_VERSION"
    "source_permitted lo le activation (mutates m (pc_actions c))"
proof -
  have "pm_id m = pid \<and> pm_version m = le_version le \<and> pm_api_version m = PLUGIN_API_VERSION \<and>
    source_permitted lo le activation (mutates m (pc_actions c))"
  proof (cases "le_source le = WASM_SOURCE")
    case True
    then have "wasm_plugin ww (lo_allow_wasm lo) pid activation le = Inr (m, c)" "validate_manifest pid m le = Inr ()"
      using assms by (auto simp: resolve_plugin_def)
    then show ?thesis using wasm_plugin_permitted [OF _ True refl] by (simp add: validate_manifest_Inr)
  next
    case False
    then obtain plugin where plugin: "instantiate pg (lo_allow_external lo) le = Inr plugin" "validate_manifest pid m le = Inr ()"
      using assms by (auto simp: resolve_plugin_def Let_def split: if_splits)
    then have "le_source le = PYTHON \<Longrightarrow> lo_allow_external lo" by (auto simp: instantiate_def split: if_splits)
    with plugin(2) False show ?thesis by (cases "le_source le") (simp_all add: validate_manifest_Inr source_permitted_def)
  qed
  then show "pm_id m = pid" "pm_version m = le_version le" "pm_api_version m = PLUGIN_API_VERSION"
    "source_permitted lo le activation (mutates m (pc_actions c))" by simp_all
qed

lemma fold_dict_set:
  "map_of (fold (\<lambda>p. dict_set (le_id p) p) plugins d) i = Some p \<Longrightarrow> p \<in> set plugins \<and> le_id p = i \<or> map_of d i = Some p"
proof (induction plugins arbitrary: d)
  case (Cons q plugins)
  then show ?case using Cons.IH [of "dict_set (le_id q) q d"] by (auto simp: map_of_dict_set split: if_splits)
qed simp

lemma by_id_entry: "by_id lock = Inr locked \<Longrightarrow> map_of locked i = Some le \<Longrightarrow> le \<in> set lock \<and> le_id le = i"
  using fold_dict_set [of lock "[]" i le] by (auto simp: by_id_def Let_def split: if_splits)

text \<open>A loaded plugin is enabled in the configuration, pinned by the lock to its version, speaks the supported interface,
  and comes from a source the options permit.\<close>

definition admitted :: "load_options \<Rightarrow> plugin_configuration \<Rightarrow> plugin_lock \<Rightarrow> loaded_plugins \<Rightarrow> plugin_manifest \<Rightarrow> bool" where
  "admitted lo configuration lock lp m \<longleftrightarrow>
     (\<exists>le activation. le \<in> set lock \<and> le_id le = pm_id m \<and> (pm_id m, activation) \<in> set configuration \<and> pa_enabled activation \<and>
        pm_version m = le_version le \<and> pm_api_version m = PLUGIN_API_VERSION \<and>
        source_permitted lo le activation (mutates m (lp_actions lp)))"

text \<open>Every adapter has one owner, and every contributed action runs on an adapter of its own plugin.\<close>

definition owned :: "loaded_plugins \<Rightarrow> bool" where
  "owned lp \<longleftrightarrow> distinct (map pm_id (lp_manifests lp)) \<and> distinct (map fst (lp_adapters lp)) \<and>
     (\<forall>(n, p, a) \<in> set (lp_adapters lp). \<exists>m \<in> set (lp_manifests lp). pm_id m = p \<and> n \<in> set (pm_adapters m)) \<and>
     (\<forall>a \<in> set (lp_actions lp). \<exists>m \<in> set (lp_manifests lp). pm_id m = ad_plugin a \<and> ad_id a \<in> set (pm_actions m) \<and>
        (\<exists>x. (ad_adapter a, ad_plugin a, x) \<in> set (lp_adapters lp))) \<and>
     map fst (lp_resilience lp) = map pm_id (lp_manifests lp)"

definition plugins_ok :: "load_options \<Rightarrow> plugin_configuration \<Rightarrow> plugin_lock \<Rightarrow> loaded_plugins \<Rightarrow> bool" where
  "plugins_ok lo configuration lock lp \<longleftrightarrow> owned lp \<and> (\<forall>m \<in> set (lp_manifests lp). admitted lo configuration lock lp m)"

lemma load_one_ok:
  assumes "load_one pg ww lo locked (pid, activation) lp = Inr lp'" and "by_id lock = Inr locked"
    and "plugins_ok lo configuration lock lp" and "pid \<notin> pm_id ` set (lp_manifests lp)" and "(pid, activation) \<in> set configuration"
  shows "plugins_ok lo configuration lock lp' \<and> pm_id ` set (lp_manifests lp') \<subseteq> insert pid (pm_id ` set (lp_manifests lp))"
proof (cases "pa_enabled activation")
  case False
  then show ?thesis using assms by (auto simp: load_one_def)
next
  case True
  then obtain le m c lp1 where step: "map_of locked pid = Some le" "resolve_plugin pg ww lo pid activation le = Inr (m, c)"
    "merge pid m c lp = Inr lp1"
    "lp' = lp1\<lparr>lp_resilience := dict_set pid (ResilienceGuard (pr_policy (pa_runtime activation)) (lo_now lo)) (lp_resilience lp1),
       lp_manifests := lp_manifests lp1 @ [m]\<rparr>"
    using assms(1) unfolding load_one_def by (auto split: if_splits option.splits)
  note resolved = resolve_plugin_Inr [OF step(2)]
  note merged = merge_Inr [OF step(3)]
  have le: "le \<in> set lock" "le_id le = pid" using by_id_entry [OF assms(2) step(1)] by auto
  have ok: "owned lp" "\<forall>m \<in> set (lp_manifests lp). admitted lo configuration lock lp m" using assms(3) by (simp_all add: plugins_ok_def)
  have fields: "lp_manifests lp' = lp_manifests lp @ [m]" "lp_actions lp' = lp_actions lp @ pc_actions c" "lp_adapters lp' = lp_adapters lp1"
    using step(4) merged(1,3) by simp_all
  have guards: "map fst (lp_resilience lp') = map fst (lp_resilience lp) @ [pid]"
  proof -
    have "set (map fst (lp_resilience lp)) = set (map pm_id (lp_manifests lp))" using ok(1) by (simp only: owned_def)
    then have "pid \<notin> fst ` set (lp_resilience lp)" using assms(4) by simp
    then show ?thesis unfolding step(4) by (simp add: merged(2) dict_set_new)
  qed
  have old: "mutates m' (lp_actions lp') = mutates m' (lp_actions lp)" if "m' \<in> set (lp_manifests lp)" for m'
  proof -
    have "pm_id m' \<noteq> pid" using that assms(4) by blast
    then show ?thesis using merged(4) fields(2) by (auto simp: mutates_def)
  qed
  have new: "mutates m (lp_actions lp') = mutates m (pc_actions c)"
  proof -
    have "ad_plugin a \<noteq> pm_id m" if "a \<in> set (lp_actions lp)" for a
      using ok(1) that assms(4) resolved(1) unfolding owned_def by fastforce
    then show ?thesis using fields(2) by (auto simp: mutates_def)
  qed
  obtain added where added: "lp_adapters lp' = lp_adapters lp @ added" "distinct (map fst added)" "fst ` set added = set (pm_adapters m)"
    "fst ` set added \<inter> fst ` set (lp_adapters lp) = {}" "\<forall>(n, p, x) \<in> set added. p = pid" using merged(5) fields(3) by auto
  have "owned lp'" unfolding owned_def
  proof (intro conjI)
    show "distinct (map pm_id (lp_manifests lp'))" "map fst (lp_resilience lp') = map pm_id (lp_manifests lp')"
      using ok(1) fields(1) guards resolved(1) assms(4) by (simp_all add: owned_def)
    show "distinct (map fst (lp_adapters lp'))" using ok(1) added(1,2,4) by (auto simp: owned_def)
    show "\<forall>(n, p, a) \<in> set (lp_adapters lp'). \<exists>m \<in> set (lp_manifests lp'). pm_id m = p \<and> n \<in> set (pm_adapters m)"
    proof (clarify, unfold added(1) fields(1) set_append Un_iff, elim disjE)
      fix n p a
      assume "(n, p, a) \<in> set (lp_adapters lp)"
      then show "\<exists>m' \<in> set (lp_manifests lp) \<union> set [m]. pm_id m' = p \<and> n \<in> set (pm_adapters m')"
        using ok(1) unfolding owned_def by fast
    next
      fix n p a
      assume in_added: "(n, p, a) \<in> set added"
      then have "p = pid" using added(5) by blast
      moreover have "n \<in> set (pm_adapters m)" using in_added added(3) by (metis fst_conv image_eqI)
      ultimately show "\<exists>m' \<in> set (lp_manifests lp) \<union> set [m]. pm_id m' = p \<and> n \<in> set (pm_adapters m')" using resolved(1) by simp
    qed
    show "\<forall>a \<in> set (lp_actions lp'). \<exists>m \<in> set (lp_manifests lp'). pm_id m = ad_plugin a \<and> ad_id a \<in> set (pm_actions m) \<and>
        (\<exists>x. (ad_adapter a, ad_plugin a, x) \<in> set (lp_adapters lp'))"
    proof (unfold fields(2) set_append, rule ballI, elim UnE)
      fix a assume "a \<in> set (lp_actions lp)"
      then obtain m' x where "m' \<in> set (lp_manifests lp)" "pm_id m' = ad_plugin a" "ad_id a \<in> set (pm_actions m')"
        "(ad_adapter a, ad_plugin a, x) \<in> set (lp_adapters lp)" using ok(1) unfolding owned_def by blast
      then show "\<exists>m \<in> set (lp_manifests lp'). pm_id m = ad_plugin a \<and> ad_id a \<in> set (pm_actions m) \<and>
          (\<exists>x. (ad_adapter a, ad_plugin a, x) \<in> set (lp_adapters lp'))"
        unfolding fields(1) added(1) by auto
    next
      fix a assume "a \<in> set (pc_actions c)"
      from merged(4) [OF this] have a: "ad_plugin a = pid" "ad_id a \<in> set (pm_actions m)" "ad_adapter a \<in> fst ` set added"
        using added(3) by simp_all
      then obtain p x where "(ad_adapter a, p, x) \<in> set added" by auto
      moreover from this have "p = pid" using added(5) by auto
      ultimately show "\<exists>m \<in> set (lp_manifests lp'). pm_id m = ad_plugin a \<and> ad_id a \<in> set (pm_actions m) \<and>
          (\<exists>x. (ad_adapter a, ad_plugin a, x) \<in> set (lp_adapters lp'))"
        using a resolved(1) unfolding fields(1) added(1) by auto
    qed
  qed
  moreover have "\<forall>m' \<in> set (lp_manifests lp'). admitted lo configuration lock lp' m'"
    using ok(2) old new fields(1) resolved le assms(5) True unfolding admitted_def by auto
  ultimately show ?thesis using fields(1) resolved(1) by (auto simp: plugins_ok_def)
qed

lemma load_all_ok:
  assumes "for_each (load_one pg ww lo locked) items lp = Inr lp'" and "by_id lock = Inr locked" and "plugins_ok lo configuration lock lp"
    and "distinct (map fst items)" and "fst ` set items \<inter> pm_id ` set (lp_manifests lp) = {}" and "set items \<subseteq> set configuration"
  shows "plugins_ok lo configuration lock lp'"
  using assms
proof (induction items arbitrary: lp)
  case (Cons item items)
  obtain pid activation where item: "item = (pid, activation)" by fastforce
  then obtain lp1 where step: "load_one pg ww lo locked (pid, activation) lp = Inr lp1" "for_each (load_one pg ww lo locked) items lp1 = Inr lp'"
    using Cons.prems(1) by auto
  have one: "plugins_ok lo configuration lock lp1 \<and> pm_id ` set (lp_manifests lp1) \<subseteq> insert pid (pm_id ` set (lp_manifests lp))"
    by (rule load_one_ok [OF step(1) Cons.prems(2,3)]) (use Cons.prems(5,6) item in auto)
  show ?case
  proof (rule Cons.IH [OF step(2) Cons.prems(2)])
    have "fst ` set items \<inter> insert pid (pm_id ` set (lp_manifests lp)) = {}" using Cons.prems(4,5) item by auto
    with one show "fst ` set items \<inter> pm_id ` set (lp_manifests lp1) = {}" by blast
  qed (use one Cons.prems(4,6) in auto)
qed simp

text \<open>(C30) What the manager loads is what configuration and lock allow. Every loaded plugin is enabled, has exactly the
  version its lock entry names and the supported interface, comes from an installed distribution only where
  external plugins are allowed and from WASM only where that is allowed with a locked digest, and a WASM
  plugin that declares or contributes a mutation is only ever reached through the out-of-process host;
  no two plugins share an adapter name, and every contributed action is declared by its plugin's
  manifest and runs on an adapter of that plugin.\<close>

theorem loaded_plugins_sound:
  assumes "load pg ww lo configuration lock = Inr lp" and "distinct (map fst configuration)"
  shows "owned lp \<and> (\<forall>m \<in> set (lp_manifests lp). admitted lo configuration lock lp m)"
proof -
  obtain locked where load: "by_id lock = Inr locked" "for_each (load_one pg ww lo locked) (sort_key fst configuration) nothing_loaded = Inr lp"
    using assms(1) by (auto simp: load_def)
  have "plugins_ok lo configuration lock nothing_loaded" by (simp add: plugins_ok_def owned_def nothing_loaded_def)
  moreover have "distinct (map fst (sort_key fst configuration))" using assms(2) by (simp add: distinct_map)
  ultimately have "plugins_ok lo configuration lock lp"
    using load_all_ok [OF load(2,1)] by (simp add: nothing_loaded_def)
  then show ?thesis by (simp add: plugins_ok_def)
qed

text \<open>A request that validates against the loaded catalog always finds its adapter: its action belongs to a loaded plugin and
  names a registered adapter, so the worker and the reconciler never fail to resolve the adapter of an
  action that is in the catalog they started with.\<close>

theorem catalogued_requests_resolve:
  assumes "load_catalog read_action files lp = Inr c" and "validate_request iter_errors c r = Inr action"
  shows "ad_plugin action \<in> pm_id ` set (lp_manifests lp) \<and> (\<exists>adapter. registry_get (registry_of lp) (ad_adapter action) = Inr adapter)"
proof -
  have checked: "\<forall>a \<in> set (list_actions c). check_catalogued lp a = Inr ()"
    using assms(1) by (auto simp: load_catalog_def for_each_checks)
  have "catalog_get c (rq_action_id r) (rq_action_version r) = Inr action"
    using assms(2) by (auto simp: validate_request_def Let_def split: if_splits)
  then have "action \<in> set (list_actions c)"
    by (auto simp: list_actions_def catalog_get_def split: option.splits dest!: map_of_SomeD intro: rev_image_eqI)
  with checked show ?thesis by (auto simp: check_catalogued_def split: if_splits)
qed

section \<open>An example\<close>

definition demo_manager :: plugin_manager where
  "demo_manager = \<lparr>pg_builtin = [(''dh-core'', Inr (CorePlugin 0))], pg_external = []\<rparr>"

definition demo_world :: wasm_world where
  "demo_world = \<lparr>ww_sha = (\<lambda>s. s), ww_load_key = (\<lambda>_. Inr None), ww_files = demo_files, ww_pydantic = demo_pydantic,
     ww_description = (\<lambda>_. None), ww_gang = (\<lambda>_. demo_gang), ww_wire = (\<lambda>_. served demo_pydantic demo_server demo_client),
     ww_request_id = ''r''\<rparr>"

definition demo_options :: load_options where
  "demo_options = \<lparr>lo_allow_external = False, lo_allow_wasm = False, lo_iter_errors = (\<lambda>_ _. []), lo_now = 0\<rparr>"

definition demo_policy :: resilience_policy where
  "demo_policy = \<lparr>rp_timeout_seconds = 10, rp_max_concurrency = 8, rp_requests_per_second = 20, rp_burst = 20,
     rp_failure_threshold = 5, rp_recovery_seconds = 30\<rparr>"

definition demo_loaded :: loaded_plugins where
  "demo_loaded = \<lparr>lp_manifests = [core_manifest],
     lp_adapters = [(''dh-core.fake'', ''dh-core'', FakeAdapter 0), (''dh-core.disabled'', ''dh-core'', DisabledMutationAdapter 0 ''disabled'')],
     lp_status = [], lp_actions = [], lp_resilience = [(''dh-core'', ResilienceGuard demo_policy 0)]\<rparr>"

lemma demo_load:
  "load demo_manager demo_world demo_options (default_plugin_configuration demo_policy) default_plugin_lock = Inr demo_loaded"
  by (simp add: load_def by_id_def default_plugin_lock_def default_plugin_configuration_def load_one_def resolve_plugin_def
      instantiate_def demo_manager_def CorePlugin_def validate_manifest_def core_manifest_def PLUGIN_API_VERSION_def demo_options_def
      merge_def add_guarded_def nothing_loaded_def demo_loaded_def insert_commute)

theorem loaded_plugins_sound_witness:
  "owned demo_loaded \<and> admitted demo_options (default_plugin_configuration demo_policy) default_plugin_lock demo_loaded core_manifest"
  using loaded_plugins_sound [OF demo_load] by (simp add: default_plugin_configuration_def demo_loaded_def)

theorem catalogued_requests_resolve_witness:
  "\<exists>adapter. registry_get (registry_of demo_loaded) (ad_adapter demo_action) = Inr adapter"
proof -
  have "load_catalog (\<lambda>_. Inr demo_action) (Some [''a.json'']) demo_loaded = Inr [(action_key demo_action, demo_action)]"
    by (simp add: load_catalog_def catalog_from_path_def catalog_init_def catalog_dict_def list_actions_def check_catalogued_def
        registry_of_def registry_get_def demo_loaded_def core_manifest_def demo_action_def)
  moreover have "validate_request (\<lambda>_ _. []) [(action_key demo_action, demo_action)] demo_request = Inr demo_action"
    by (simp add: validate_request_def catalog_get_def demo_action_def demo_request_def)
  ultimately show ?thesis using catalogued_requests_resolve by blast
qed

end
