(* ===== verification/MacModels.thy ===== *)
theory MacModels
  imports PublicJson Identity
begin

text \<open>
  The data of the macOS agent, \<open>models.py\<close> and \<open>config.py\<close> of \<open>deckhand_macos\<close>: the enumerated actions, requests and results,
  and the operator's inventory with the validators of its models. A dictionary is a list of pairs.
\<close>

section \<open>Actions\<close>

datatype local_action =
    APP_ENSURE_RUNNING | BROWSER_SESSION_OPEN | SHORTCUT_RUN | MIC_MUTE | MIC_UNMUTE | MIC_TOGGLE | MIC_STATE
  | AUDIO_OUTPUT_SELECT | AUDIO_INPUT_SELECT | AUDIO_STATE | FOCUS_SET | FOCUS_CLEAR | FOCUS_STATE
  | POMODORO_START | POMODORO_STOP | POMODORO_STATE | DISPLAY_MODE_APPLY | DISPLAY_STATE | SLEEP_INHIBIT_ON
  | SLEEP_INHIBIT_OFF | SLEEP_INHIBIT_STATE | WORKSPACE_OPEN | OBS_SCENE_SET | OBS_RECORD_START
  | OBS_RECORD_STOP | OBS_RECORD_STATE | OBS_SOURCE_TOGGLE | OBS_REPLAY_SAVE | INPUT_SELECT | INPUT_STATE
  | RESET_MODIFIERS | APP_COMMAND

fun local_action_value :: "local_action \<Rightarrow> string" where
  "local_action_value APP_ENSURE_RUNNING = ''mac.app.ensure_running''"
| "local_action_value BROWSER_SESSION_OPEN = ''browser.session.open''"
| "local_action_value SHORTCUT_RUN = ''mac.shortcut.run''"
| "local_action_value MIC_MUTE = ''mac.mic.mute''"
| "local_action_value MIC_UNMUTE = ''mac.mic.unmute''"
| "local_action_value MIC_TOGGLE = ''mac.mic.toggle''"
| "local_action_value MIC_STATE = ''mac.mic.state''"
| "local_action_value AUDIO_OUTPUT_SELECT = ''mac.audio.output_select''"
| "local_action_value AUDIO_INPUT_SELECT = ''mac.audio.input_select''"
| "local_action_value AUDIO_STATE = ''mac.audio.state''"
| "local_action_value FOCUS_SET = ''mac.focus.set''"
| "local_action_value FOCUS_CLEAR = ''mac.focus.clear''"
| "local_action_value FOCUS_STATE = ''mac.focus.state''"
| "local_action_value POMODORO_START = ''mac.pomodoro.start''"
| "local_action_value POMODORO_STOP = ''mac.pomodoro.stop''"
| "local_action_value POMODORO_STATE = ''mac.pomodoro.state''"
| "local_action_value DISPLAY_MODE_APPLY = ''mac.display.mode_apply''"
| "local_action_value DISPLAY_STATE = ''mac.display.state''"
| "local_action_value SLEEP_INHIBIT_ON = ''mac.sleep.inhibit_on''"
| "local_action_value SLEEP_INHIBIT_OFF = ''mac.sleep.inhibit_off''"
| "local_action_value SLEEP_INHIBIT_STATE = ''mac.sleep.inhibit_state''"
| "local_action_value WORKSPACE_OPEN = ''mac.workspace.open''"
| "local_action_value OBS_SCENE_SET = ''mac.obs.scene_set''"
| "local_action_value OBS_RECORD_START = ''mac.obs.record_start''"
| "local_action_value OBS_RECORD_STOP = ''mac.obs.record_stop''"
| "local_action_value OBS_RECORD_STATE = ''mac.obs.record_state''"
| "local_action_value OBS_SOURCE_TOGGLE = ''mac.obs.source_toggle''"
| "local_action_value OBS_REPLAY_SAVE = ''mac.obs.replay_save''"
| "local_action_value INPUT_SELECT = ''mac.keyboard.input_select''"
| "local_action_value INPUT_STATE = ''mac.keyboard.input_state''"
| "local_action_value RESET_MODIFIERS = ''mac.keyboard.reset_modifiers''"
| "local_action_value APP_COMMAND = ''mac.app.command''"

definition NO_TARGET_ACTIONS :: "local_action list" where
  "NO_TARGET_ACTIONS = [MIC_MUTE, MIC_UNMUTE, MIC_TOGGLE, MIC_STATE, AUDIO_STATE, FOCUS_CLEAR, FOCUS_STATE,
     POMODORO_STOP, POMODORO_STATE, DISPLAY_STATE, SLEEP_INHIBIT_OFF, SLEEP_INHIBIT_STATE, OBS_RECORD_START,
     OBS_RECORD_STOP, OBS_RECORD_STATE, OBS_REPLAY_SAVE, INPUT_STATE, RESET_MODIFIERS]"

definition action_requires_target :: "local_action \<Rightarrow> bool" where
  "action_requires_target action \<longleftrightarrow> action \<notin> set NO_TARGET_ACTIONS"

record local_request =
  lr_action_id :: local_action
  lr_target :: string

text \<open>\<open>[a-z_][a-z0-9_-]{0,63}\<close>\<close>

definition local_request_ok :: "local_request \<Rightarrow> bool" where
  "local_request_ok r = (case lr_target r of [] \<Rightarrow> False
     | c # s \<Rightarrow> (lower_alpha c \<or> c = CHR ''_'') \<and> length s \<le> 63 \<and>
         list_all (\<lambda>d. lower_alnum d \<or> d = CHR ''_'' \<or> d = CHR ''-'') s)"

record local_result =
  ls_action_id :: local_action
  ls_target :: string
  ls_state :: string
  ls_verified :: bool
  ls_details :: json_object

section \<open>Validators of the inventory\<close>

definition alpha :: "char \<Rightarrow> bool" where
  "alpha c \<longleftrightarrow> lower_alpha c \<or> 65 \<le> (of_char c :: nat) \<and> (of_char c :: nat) \<le> 90"

definition alnum :: "char \<Rightarrow> bool" where
  "alnum c \<longleftrightarrow> alpha c \<or> is_digit c"

definition alias_value_ok :: "string \<Rightarrow> bool" where
  "alias_value_ok s \<longleftrightarrow> 1 \<le> length s \<and> length s \<le> 128 \<and>
     list_all (\<lambda>c. alnum c \<or> c \<in> {CHR '' '', CHR ''.'', CHR ''_'', CHR ''-''}) s"

definition bundle_id_ok :: "string \<Rightarrow> bool" where
  "bundle_id_ok s \<longleftrightarrow> s \<noteq> [] \<and> list_all (\<lambda>c. alnum c \<or> c = CHR ''.'' \<or> c = CHR ''-'') s"

text \<open>\<open>[A-Za-z0-9-]+\<close>, at least twice, separated by dots\<close>

definition app_value_ok :: "string \<Rightarrow> bool" where
  "app_value_ok s = (let parts = split_on (CHR ''.'') s
     in 2 \<le> length parts \<and> list_all (\<lambda>p. p \<noteq> [] \<and> list_all (\<lambda>c. alnum c \<or> c = CHR ''-'') p) parts)"

definition KEYSTROKE_WORDS :: "string list" where
  "KEYSTROKE_WORDS = [''keystroke'', ''key'', ''code'', ''using'', ''command'', ''option'', ''control'', ''shift'', ''down'']"

definition keystroke_chars :: "string \<Rightarrow> bool" where
  "keystroke_chars s \<longleftrightarrow> s \<noteq> [] \<and> list_all (\<lambda>c. alnum c \<or> c \<in> {CHR '' '', CHR 0x22, CHR ''{'', CHR ''}'', CHR '',''}) s"

lemma dropWhile_shorter: "dropWhile p s = c # r \<Longrightarrow> length r < length s"
  using length_dropWhile_le [of p s] by simp

text \<open>Replacing every quoted span by a space: a quote without a partner stays.\<close>

function outside_quotes :: "string \<Rightarrow> string" where
  "outside_quotes [] = []"
| "outside_quotes (c # s) =
     (if c = CHR 0x22
      then (case dropWhile (\<lambda>d. d \<noteq> CHR 0x22) s of
          [] \<Rightarrow> c # outside_quotes s
        | _ # r \<Rightarrow> CHR '' '' # outside_quotes r)
      else c # outside_quotes s)"
  by pat_completeness auto

termination
  by (relation "measure length") (auto dest!: dropWhile_shorter)

text \<open>\<open>re.findall("[A-Za-z]+", s)\<close>\<close>

function words :: "string \<Rightarrow> string list" where
  "words [] = []"
| "words (c # s) = (if alpha c then (c # takeWhile alpha s) # words (dropWhile alpha s) else words s)"
  by pat_completeness auto

termination
  by (relation "measure length") (auto simp: less_Suc_eq_le length_dropWhile_le)

definition validate_keystroke :: "string \<Rightarrow> bool" where
  "validate_keystroke s \<longleftrightarrow> keystroke_chars s \<and> list_all (\<lambda>w. py_lower w \<in> set KEYSTROKE_WORDS) (words (outside_quotes s))"

section \<open>URLs\<close>

text \<open>\<open>urllib.parse.urlparse\<close> as far as the validator reads it, the scheme and the host name, \<open>None\<close> for a \<open>ValueError\<close>.
  What a bracketed host may be is the argument \<open>literal\<close>.\<close>

definition c0_or_space :: "char \<Rightarrow> bool" where
  "c0_or_space c \<longleftrightarrow> (of_char c :: nat) \<le> 32"

definition cleaned_url :: "string \<Rightarrow> string" where
  "cleaned_url url = filter (\<lambda>c. c \<notin> {CHR 0x09, CHR 0x0A, CHR 0x0D}) (dropWhile c0_or_space url)"

definition split_scheme :: "string \<Rightarrow> string \<times> string" where
  "split_scheme url =
     (let i = takeWhile (\<lambda>c. c \<noteq> CHR '':'') url
      in if i \<noteq> [] \<and> length i < length url \<and> alpha (hd i) \<and>
            list_all (\<lambda>c. alnum c \<or> c \<in> {CHR ''+'', CHR ''-'', CHR ''.''}) i
         then (py_lower i, drop (Suc (length i)) url) else ([], url))"

definition netloc :: "string \<Rightarrow> string" where
  "netloc rest = (if starts_with ''//'' rest
     then takeWhile (\<lambda>c. c \<notin> {CHR ''/'', CHR ''?'', CHR ''#''}) (drop 2 rest) else [])"

text \<open>What follows the last occurrence of a character, everything when there is none.\<close>

definition after_last :: "char \<Rightarrow> string \<Rightarrow> string" where
  "after_last c s = rev (takeWhile (\<lambda>d. d \<noteq> c) (rev s))"

definition hostname :: "string \<Rightarrow> string" where
  "hostname loc =
     (let info = after_last (CHR ''@'') loc; bracketed = dropWhile (\<lambda>c. c \<noteq> CHR ''['') info
      in if bracketed = [] then takeWhile (\<lambda>c. c \<noteq> CHR '':'') info
         else takeWhile (\<lambda>c. c \<noteq> CHR '']'') (tl bracketed))"

definition urlparse :: "(string \<Rightarrow> bool) \<Rightarrow> string \<Rightarrow> (string \<times> string) option" where
  "urlparse literal url =
     (case split_scheme (cleaned_url url) of (scheme, rest) \<Rightarrow>
        let loc = netloc rest; open_bracket = CHR ''['' \<in> set loc; close_bracket = CHR '']'' \<in> set loc
        in if open_bracket \<noteq> close_bracket then None
           else if open_bracket \<and> \<not> literal loc then None
           else Some (scheme, hostname loc))"

definition url_ok :: "(string \<Rightarrow> bool) \<Rightarrow> string \<Rightarrow> bool" where
  "url_ok literal url = (case urlparse literal url of
     None \<Rightarrow> False | Some (scheme, host) \<Rightarrow> scheme \<in> {''https'', ''http''} \<and> host \<noteq> [])"

definition workspace_ok :: "string \<Rightarrow> bool" where
  "workspace_ok path \<longleftrightarrow> starts_with ''/'' path \<or> starts_with ''~'' path"

section \<open>The inventory\<close>

type_synonym aliases = "(string \<times> string) list"

record obs_settings =
  os_host :: string
  os_port :: int
  os_password_file :: "string option"
  os_scenes :: aliases
  os_sources :: aliases

record app_command =
  ac_bundle_id :: string
  ac_keystroke :: string

record mac_inventory =
  mi_apps :: aliases
  mi_browser_sessions :: aliases
  mi_shortcuts :: aliases
  mi_audio_inputs :: aliases
  mi_audio_outputs :: aliases
  mi_focus_modes :: aliases
  mi_pomodoro_routines :: aliases
  mi_display_modes :: aliases
  mi_workspaces :: aliases
  mi_input_sources :: aliases
  mi_app_commands :: "(string \<times> app_command) list"
  mi_obs :: obs_settings

definition values_ok :: "('a \<Rightarrow> bool) \<Rightarrow> (string \<times> 'a) list \<Rightarrow> bool" where
  "values_ok ok table \<longleftrightarrow> list_all (\<lambda>(k, v). ok v) table"

definition obs_settings_ok :: "obs_settings \<Rightarrow> bool" where
  "obs_settings_ok o' \<longleftrightarrow> 1 \<le> os_port o' \<and> os_port o' \<le> 65535 \<and> values_ok alias_value_ok (os_scenes o') \<and>
     values_ok alias_value_ok (os_sources o')"

definition app_command_ok :: "app_command \<Rightarrow> bool" where
  "app_command_ok c \<longleftrightarrow> bundle_id_ok (ac_bundle_id c) \<and> validate_keystroke (ac_keystroke c)"

definition mac_inventory_ok :: "(string \<Rightarrow> bool) \<Rightarrow> mac_inventory \<Rightarrow> bool" where
  "mac_inventory_ok literal mi \<longleftrightarrow>
     values_ok app_value_ok (mi_apps mi) \<and> values_ok (url_ok literal) (mi_browser_sessions mi) \<and>
     values_ok alias_value_ok (mi_shortcuts mi) \<and> values_ok alias_value_ok (mi_audio_inputs mi) \<and>
     values_ok alias_value_ok (mi_audio_outputs mi) \<and> values_ok alias_value_ok (mi_focus_modes mi) \<and>
     values_ok alias_value_ok (mi_pomodoro_routines mi) \<and> values_ok alias_value_ok (mi_display_modes mi) \<and>
     values_ok workspace_ok (mi_workspaces mi) \<and> values_ok alias_value_ok (mi_input_sources mi) \<and>
     values_ok app_command_ok (mi_app_commands mi) \<and> obs_settings_ok (mi_obs mi)"

definition load_inventory :: "(json_object \<Rightarrow> mac_inventory option) \<Rightarrow> json \<Rightarrow> exn + mac_inventory" where
  "load_inventory validate raw =
     (case raw of
        JObj kvs \<Rightarrow> (case validate kvs of None \<Rightarrow> Inl (ValidationError ''MacInventory'') | Some mi \<Rightarrow> Inr mi)
      | _ \<Rightarrow> Inl (PyValueError ''macOS inventory must be a mapping''))"

end
