(* ===== verification/MacMachine.thy ===== *)
theory MacMachine
  imports MacModels
begin

text \<open>
  The machine under the macOS agent: programs that start processes, talk to OBS over a WebSocket and keep one
  \<open>caffeinate\<close> process. A program may return, raise, or wait for ever: the agent sets no limit on the time a process or
  OBS may take. What the machine answers may depend on all that was done before.
\<close>

section \<open>Effects\<close>

datatype effect =
    Ran "string list"
  | Spawned "string list"
  | Terminated nat
  | Connected string
  | Sent json

text \<open>\<open>mc_caffeinate\<close> is the module variable \<open>_caffeinate_process\<close>; a process is named by its place in the history.\<close>

record machine =
  mc_history :: "effect list"
  mc_caffeinate :: "nat option"

text \<open>\<open>sy_run\<close>: exit status, standard output and standard error of a process, decoded; an exception where it cannot be
  started; \<open>None\<close> where it never ends. \<open>sy_connect\<close>: the messages that OBS sends on a connection over which the given request
  is made, the last one possibly the exception of a lost connection; after them nothing comes. \<open>sy_sha256\<close> is the digest
  of the UTF-8 encoding of a text, \<open>sy_str\<close> is \<open>str\<close> of a JSON value.\<close>

record system =
  sy_run :: "effect list \<Rightarrow> string list \<Rightarrow> (exn + int \<times> string \<times> string) option"
  sy_spawn :: "effect list \<Rightarrow> string list \<Rightarrow> exn + unit"
  sy_exited :: "effect list \<Rightarrow> nat \<Rightarrow> bool"
  sy_which :: "string \<Rightarrow> string option"
  sy_expanduser :: "string \<Rightarrow> exn + string"
  sy_read_text :: "string \<Rightarrow> exn + string"
  sy_connect :: "effect list \<Rightarrow> string \<Rightarrow> json_object \<Rightarrow> (exn + (exn + string) list) option"
  sy_float :: "string \<Rightarrow> string"
  sy_str :: "json \<Rightarrow> string"
  sy_sha256 :: "string \<Rightarrow> string"

section \<open>Programs\<close>

type_synonym 'a mac = "machine \<Rightarrow> (exn + 'a) option \<times> machine"

definition ret :: "'a \<Rightarrow> 'a mac" where
  "ret x m = (Some (Inr x), m)"

definition throw :: "exn \<Rightarrow> 'a mac" where
  "throw e m = (Some (Inl e), m)"

definition pure_or :: "exn + 'a \<Rightarrow> 'a mac" where
  "pure_or r m = (Some r, m)"

definition seq :: "'a mac \<Rightarrow> ('a \<Rightarrow> 'b mac) \<Rightarrow> 'b mac" where
  "seq p f m = (case p m of
       (None, m') \<Rightarrow> (None, m')
     | (Some (Inl e), m') \<Rightarrow> (Some (Inl e), m')
     | (Some (Inr x), m') \<Rightarrow> f x m')"

definition catch :: "'a mac \<Rightarrow> (exn \<Rightarrow> 'a mac) \<Rightarrow> 'a mac" where
  "catch p h m = (case p m of (Some (Inl e), m') \<Rightarrow> h e m' | r \<Rightarrow> r)"

definition waits :: "'a mac" where
  "waits m = (None, m)"

text \<open>An effect whose answer is taken at once.\<close>

definition effect :: "effect \<Rightarrow> (effect list \<Rightarrow> (exn + 'a) option) \<Rightarrow> 'a mac" where
  "effect x ask m = (ask (mc_history m), m\<lparr>mc_history := mc_history m @ [x]\<rparr>)"

section \<open>What programs do\<close>

text \<open>The history grew by effects that satisfy \<open>P\<close>, and the \<open>caffeinate\<close> process was left alone.\<close>

definition grew :: "(effect \<Rightarrow> bool) \<Rightarrow> machine \<Rightarrow> machine \<Rightarrow> bool" where
  "grew P m m' \<longleftrightarrow> mc_caffeinate m' = mc_caffeinate m \<and> (\<exists>new. mc_history m' = mc_history m @ new \<and> list_all P new)"

lemma grew_refl [simp]: "grew P m m"
  by (simp add: grew_def)

lemma grew_trans: "grew P m m1 \<Longrightarrow> grew P m1 m2 \<Longrightarrow> grew P m m2"
  unfolding grew_def by fastforce

definition does_only :: "(effect \<Rightarrow> bool) \<Rightarrow> 'a mac \<Rightarrow> bool" where
  "does_only P p \<longleftrightarrow> (\<forall>m. grew P m (snd (p m)))"

named_theorems only_intros \<open>programs whose effects are bounded\<close>

lemma does_only_pure [only_intros]:
  "does_only P (ret x)" "does_only P (throw e)" "does_only P (pure_or r)" "does_only P waits"
  by (simp_all add: does_only_def ret_def throw_def pure_or_def waits_def)

lemma does_only_effect [only_intros]: "P x \<Longrightarrow> does_only P (effect x ask)"
  by (simp add: does_only_def grew_def effect_def)

lemma does_only_seq [only_intros]:
  assumes "does_only P p" and "\<And>x. does_only P (f x)"
  shows "does_only P (seq p f)"
  unfolding does_only_def
proof
  fix m
  obtain r m1 where p: "p m = (r, m1)" by fastforce
  with assms(1) have one: "grew P m m1" unfolding does_only_def by (metis snd_conv)
  consider x where "r = Some (Inr x)" | "snd (seq p f m) = m1"
    by (cases r; cases "the r") (auto simp: seq_def p)
  then show "grew P m (snd (seq p f m))"
  proof cases
    case 1
    then have "seq p f m = f x m1" by (simp add: seq_def p)
    with assms(2) one show ?thesis unfolding does_only_def by (metis grew_trans)
  qed (simp add: one)
qed

lemma does_only_catch [only_intros]:
  assumes "does_only P p" and "\<And>e. does_only P (h e)"
  shows "does_only P (catch p h)"
  unfolding does_only_def
proof
  fix m
  obtain r m1 where p: "p m = (r, m1)" by fastforce
  with assms(1) have one: "grew P m m1" unfolding does_only_def by (metis snd_conv)
  consider e where "r = Some (Inl e)" | "snd (catch p h m) = m1"
    by (cases r; cases "the r") (auto simp: catch_def p)
  then show "grew P m (snd (catch p h m))"
  proof cases
    case 1
    then have "catch p h m = h e m1" by (simp add: catch_def p)
    with assms(2) one show ?thesis unfolding does_only_def by (metis grew_trans)
  qed (simp add: one)
qed

lemma does_only_mono: "does_only P p \<Longrightarrow> (\<And>x. P x \<Longrightarrow> Q x) \<Longrightarrow> does_only Q p"
  unfolding does_only_def grew_def list_all_iff by blast

lemma does_only_if [only_intros]:
  "(b \<Longrightarrow> does_only P p) \<Longrightarrow> (\<not> b \<Longrightarrow> does_only P q) \<Longrightarrow> does_only P (if b then p else q)"
  by simp

lemma does_only_option [only_intros]:
  "does_only P p \<Longrightarrow> (\<And>x. v = Some x \<Longrightarrow> does_only P (f x)) \<Longrightarrow> does_only P (case v of None \<Rightarrow> p | Some x \<Rightarrow> f x)"
  by (cases v) simp_all

end
