(* ===== verification/MacObs.thy ===== *)
theory MacObs
  imports MacMachine
begin

text \<open>
  \<open>obs.py\<close>: the client of obs-websocket. Every request opens a connection, identifies itself, sends one request and
  waits for the response that carries its identifier.
\<close>

section \<open>JSON values as Python uses them\<close>

definition attribute_error :: exn where
  "attribute_error = OtherException ''AttributeError''"

text \<open>\<open>v.get(key, default)\<close> and \<open>v[key]\<close>\<close>

definition json_get :: "json \<Rightarrow> string \<Rightarrow> json \<Rightarrow> exn + json" where
  "json_get v key fallback = (case v of
       JObj kvs \<Rightarrow> Inr (case obj_get kvs key of None \<Rightarrow> fallback | Some x \<Rightarrow> x)
     | _ \<Rightarrow> Inl attribute_error)"

definition json_item :: "json \<Rightarrow> string \<Rightarrow> exn + json" where
  "json_item v key = (case v of
       JObj kvs \<Rightarrow> (case obj_get kvs key of None \<Rightarrow> Inl (PyKeyError key) | Some x \<Rightarrow> Inr x)
     | _ \<Rightarrow> Inl (PyTypeError ''not subscriptable by a string''))"

fun truthy :: "json \<Rightarrow> bool" where
  "truthy JNull = False"
| "truthy (JBool b) = b"
| "truthy (JInt i) = (i \<noteq> 0)"
| "truthy (JFloat t) = (t \<noteq> ''0.0'' \<and> t \<noteq> ''-0.0'')"
| "truthy (JStr s) = (s \<noteq> [])"
| "truthy (JList vs) = (vs \<noteq> [])"
| "truthy (JObj kvs) = (kvs \<noteq> [])"

text \<open>Equality with an opcode, which is neither \<open>0\<close> nor \<open>1\<close>\<close>

definition is_op :: "json \<Rightarrow> int \<Rightarrow> bool" where
  "is_op v n \<longleftrightarrow> v = JInt n \<or> v = JFloat (str_int n @ ''.0'')"

section \<open>Authentication\<close>

definition b64encode :: "string \<Rightarrow> string" where
  "b64encode raw = map (\<lambda>c. if c = CHR ''-'' then CHR ''+'' else if c = CHR ''_'' then CHR ''/'' else c) (urlsafe_b64encode raw)"

definition auth_response :: "system \<Rightarrow> string \<Rightarrow> string \<Rightarrow> string \<Rightarrow> string" where
  "auth_response sy password salt challenge =
     (let secret = b64encode (sy_sha256 sy (password @ salt)) in b64encode (sy_sha256 sy (secret @ challenge)))"

definition obs_password :: "system \<Rightarrow> obs_settings \<Rightarrow> exn + string option" where
  "obs_password sy os =
     (case os_password_file os of
        None \<Rightarrow> Inr None
      | Some file \<Rightarrow>
          (case bind_sum (sy_expanduser sy file) (sy_read_text sy) of
             Inl (PyOSError m) \<Rightarrow> Inl (ObsError (''OBS password file unavailable: '' @ m))
           | Inl e \<Rightarrow> Inl e
           | Inr text \<Rightarrow> Inr (Some (py_strip text))))"

definition as_text :: "json \<Rightarrow> exn + string" where
  "as_text v = (case v of JStr s \<Rightarrow> Inr s | _ \<Rightarrow> Inl (PyTypeError ''can only concatenate str''))"

definition identify :: "system \<Rightarrow> obs_settings \<Rightarrow> json \<Rightarrow> exn + json" where
  "identify sy os hello =
     bind_sum (json_get hello ''d'' (JObj [])) (\<lambda>d.
     bind_sum (json_get d ''authentication'' JNull) (\<lambda>auth.
     if \<not> truthy auth then Inr (JObj [(''op'', JInt 1), (''d'', JObj [(''rpcVersion'', JInt 1)])])
     else bind_sum (obs_password sy os) (\<lambda>password.
       case password of
         Some (c # cs) \<Rightarrow>
           bind_sum (json_item auth ''salt'') (\<lambda>salt. bind_sum (json_item auth ''challenge'') (\<lambda>challenge.
           bind_sum (as_text salt) (\<lambda>salt. bind_sum (as_text challenge) (\<lambda>challenge.
           Inr (JObj [(''op'', JInt 1), (''d'', JObj [(''rpcVersion'', JInt 1),
             (''authentication'', JStr (auth_response sy (c # cs) salt challenge))])])))))
       | _ \<Rightarrow> Inl (ObsError ''OBS requires a password but none is configured''))))"

section \<open>Requests\<close>

definition request_frame :: "string \<Rightarrow> json_object \<Rightarrow> json" where
  "request_frame request_type data = JObj [(''op'', JInt 6), (''d'', JObj [(''requestType'', JStr request_type),
     (''requestId'', JStr ''deckhand''), (''requestData'', JObj data)])]"

text \<open>\<open>json.loads(await ws.recv())\<close> on the messages still to come\<close>

definition next_message :: "system \<Rightarrow> (exn + string) list \<Rightarrow> (json \<times> (exn + string) list) mac" where
  "next_message sy ms = (case ms of
       [] \<Rightarrow> waits
     | Inl e # _ \<Rightarrow> throw e
     | Inr text # rest \<Rightarrow> (case json_loads (sy_float sy) text of
         None \<Rightarrow> throw (PyValueError ''JSONDecodeError'') | Some v \<Rightarrow> ret (v, rest)))"

text \<open>One turn of the loop: \<open>None\<close> for a message that is not the response.\<close>

definition response_of :: "system \<Rightarrow> string \<Rightarrow> json \<Rightarrow> exn + json option" where
  "response_of sy request_type message =
     bind_sum (json_get message ''op'' JNull) (\<lambda>op.
     if \<not> is_op op 7 then Inr None
     else bind_sum (json_item message ''d'') (\<lambda>d. bind_sum (json_get d ''requestId'' JNull) (\<lambda>request_id.
       if request_id \<noteq> JStr ''deckhand'' then Inr None
       else bind_sum (json_get d ''requestStatus'' (JObj [])) (\<lambda>status. bind_sum (json_get status ''result'' (JBool False)) (\<lambda>result.
         if \<not> truthy result
         then bind_sum (json_get status ''comment'' JNull) (\<lambda>comment.
           Inl (ObsError (''OBS request '' @ request_type @ '' failed: '' @ sy_str sy comment)))
         else bind_sum (json_get d ''responseData'' JNull) (\<lambda>response.
           Inr (Some (if truthy response then response else JObj []))))))))"

fun await_response :: "system \<Rightarrow> string \<Rightarrow> (exn + string) list \<Rightarrow> json mac" where
  "await_response sy request_type [] = waits"
| "await_response sy request_type (m # ms) =
     seq (next_message sy (m # ms)) (\<lambda>(message, _).
     seq (pure_or (response_of sy request_type message)) (\<lambda>response.
       case response of Some r \<Rightarrow> ret r | None \<Rightarrow> await_response sy request_type ms))"

definition obs_unreachable :: "exn \<Rightarrow> 'a mac" where
  "obs_unreachable e = (case e of PyOSError m \<Rightarrow> throw (ObsError (''OBS is unreachable: '' @ m)) | _ \<Rightarrow> throw e)"

definition obs_url :: "obs_settings \<Rightarrow> string" where
  "obs_url os = ''ws://'' @ os_host os @ '':'' @ str_int (os_port os)"

definition obs_request :: "system \<Rightarrow> obs_settings \<Rightarrow> string \<Rightarrow> json_object \<Rightarrow> json mac" where
  "obs_request sy os request_type data =
     catch
        (seq (effect (Connected (obs_url os)) (\<lambda>h. sy_connect sy h request_type data)) (\<lambda>ms.
         seq (next_message sy ms) (\<lambda>(hello, ms).
         seq (pure_or (identify sy os hello)) (\<lambda>frame.
         seq (effect (Sent frame) (\<lambda>_. Some (Inr ()))) (\<lambda>_.
         seq (next_message sy ms) (\<lambda>(identified, ms).
         seq (pure_or (json_get identified ''op'' JNull)) (\<lambda>op.
         if \<not> is_op op 2 then throw (ObsError ''OBS identify handshake failed'')
         else seq (effect (Sent (request_frame request_type data)) (\<lambda>_. Some (Inr ()))) (\<lambda>_.
           await_response sy request_type ms))))))))
        obs_unreachable"

section \<open>Operations\<close>

definition set_scene :: "system \<Rightarrow> obs_settings \<Rightarrow> string \<Rightarrow> unit mac" where
  "set_scene sy os scene = seq (obs_request sy os ''SetCurrentProgramScene'' [(''sceneName'', JStr scene)]) (\<lambda>_. ret ())"

definition obs_record :: "system \<Rightarrow> obs_settings \<Rightarrow> bool \<Rightarrow> unit mac" where
  "obs_record sy os begin = seq (obs_request sy os (if begin then ''StartRecord'' else ''StopRecord'') []) (\<lambda>_. ret ())"

definition record_state :: "system \<Rightarrow> obs_settings \<Rightarrow> string mac" where
  "record_state sy os = seq (obs_request sy os ''GetRecordStatus'' []) (\<lambda>data.
     seq (pure_or (json_get data ''outputActive'' JNull)) (\<lambda>active. ret (if truthy active then ''recording'' else ''idle'')))"

text \<open>The search for the first item of that source: its identifier and whether it is enabled.\<close>

fun find_item :: "string \<Rightarrow> json list \<Rightarrow> exn + (json \<times> json) option" where
  "find_item source [] = Inr None"
| "find_item source (item # items) =
     bind_sum (json_get item ''sourceName'' JNull) (\<lambda>name.
     if name = JStr source
     then bind_sum (json_get item ''sceneItemId'' JNull) (\<lambda>item_id.
       bind_sum (json_get item ''sceneItemEnabled'' (JBool True)) (\<lambda>enabled. Inr (Some (item_id, enabled))))
     else find_item source items)"

text \<open>What a \<open>for\<close> loop over a JSON value runs through.\<close>

definition iterated :: "json \<Rightarrow> exn + json list" where
  "iterated v = (case v of
       JList vs \<Rightarrow> Inr vs
     | JObj kvs \<Rightarrow> Inr (map (\<lambda>(k, _). JStr k) kvs)
     | JStr s \<Rightarrow> Inr (map (\<lambda>c. JStr [c]) s)
     | _ \<Rightarrow> Inl (PyTypeError ''not iterable''))"

definition toggle_source :: "system \<Rightarrow> obs_settings \<Rightarrow> string \<Rightarrow> bool mac" where
  "toggle_source sy os source =
     seq (obs_request sy os ''GetCurrentProgramScene'' []) (\<lambda>current.
     seq (pure_or (json_get current ''currentProgramSceneName'' JNull)) (\<lambda>scene.
     seq (obs_request sy os ''GetSceneItemList'' [(''sceneName'', scene)]) (\<lambda>items.
     seq (pure_or (bind_sum (json_get items ''sceneItems'' (JList [])) (\<lambda>vs. bind_sum (iterated vs) (find_item source)))) (\<lambda>found.
     case found of
       None \<Rightarrow> throw (ObsError (''OBS source '' @ py_repr_ident source @ '' not found in current scene''))
     | Some (item_id, enabled) \<Rightarrow>
         let new_state = (\<not> truthy enabled)
         in seq (obs_request sy os ''SetSceneItemEnabled''
              [(''sceneName'', scene), (''sceneItemId'', item_id), (''sceneItemEnabled'', JBool new_state)]) (\<lambda>_. ret new_state)))))"

definition save_replay :: "system \<Rightarrow> obs_settings \<Rightarrow> unit mac" where
  "save_replay sy os = seq (obs_request sy os ''SaveReplayBuffer'' []) (\<lambda>_. ret ())"

section \<open>What is sent\<close>

text \<open>An identification: it carries nothing but the protocol version and a digest over the password.\<close>

definition identification :: "system \<Rightarrow> obs_settings \<Rightarrow> json \<Rightarrow> bool" where
  "identification sy os v \<longleftrightarrow> v = JObj [(''op'', JInt 1), (''d'', JObj [(''rpcVersion'', JInt 1)])] \<or>
     (\<exists>password salt challenge. obs_password sy os = Inr (Some password) \<and>
        v = JObj [(''op'', JInt 1), (''d'', JObj [(''rpcVersion'', JInt 1),
          (''authentication'', JStr (auth_response sy password salt challenge))])])"

lemma identify_identification:
  assumes "identify sy os hello = Inr v"
  shows "identification sy os v"
proof -
  obtain d auth where "json_get hello ''d'' (JObj []) = Inr d" "json_get d ''authentication'' JNull = Inr auth"
    using assms by (auto simp: identify_def)
  note got = assms [unfolded identify_def this bind_sum_simps]
  show ?thesis
  proof (cases "truthy auth")
    case True
    then obtain password where p: "obs_password sy os = Inr password" using got by auto
    obtain c cs where "password = Some (c # cs)" using got True p by (cases password; cases "the password") auto
    with got True p show ?thesis unfolding identification_def by auto
  qed (use got in \<open>simp add: identification_def\<close>)
qed

definition obs_traffic :: "system \<Rightarrow> obs_settings \<Rightarrow> string \<Rightarrow> (json_object \<Rightarrow> bool) \<Rightarrow> effect \<Rightarrow> bool" where
  "obs_traffic sy os request_type data_ok x \<longleftrightarrow>
     x = Connected (obs_url os) \<or>
     (\<exists>v. x = Sent v \<and> (identification sy os v \<or> (\<exists>data. data_ok data \<and> v = request_frame request_type data)))"

lemma does_only_split [only_intros]: "(\<And>x y. p = (x, y) \<Longrightarrow> does_only P (f x y)) \<Longrightarrow> does_only P (case p of (x, y) \<Rightarrow> f x y)"
  by (cases p) simp

lemma does_only_pure_seq:
  assumes "\<And>x. r = Inr x \<Longrightarrow> does_only P (f x)"
  shows "does_only P (seq (pure_or r) f)"
  using assms by (cases r) (simp_all add: does_only_def seq_def pure_or_def)

lemma next_message_only [only_intros]: "does_only P (next_message sy ms)"
  by (cases "(sy, ms)" rule: prod.exhaust)
    (auto simp: next_message_def intro!: only_intros split: list.split sum.split option.split)

lemma obs_unreachable_only [only_intros]: "does_only P (obs_unreachable e)"
  by (auto simp: obs_unreachable_def intro!: only_intros split: exn.split)

lemma await_response_only [only_intros]: "does_only P (await_response sy t ms)"
  by (induction ms) (auto intro!: only_intros)

lemma obs_request_only: "data_ok data \<Longrightarrow> does_only (obs_traffic sy os t data_ok) (obs_request sy os t data)"
  unfolding obs_request_def
  by (intro only_intros does_only_pure_seq)
    (auto simp: obs_traffic_def dest: identify_identification)

end
