(* ===== verification/MacExecutor.thy ===== *)
theory MacExecutor
  imports MacObs
begin

text \<open>
  \<open>executor.py\<close>: one handler per local action. A handler looks the alias of the request up in the operator's inventory and
  runs fixed commands with what it finds.
\<close>

section \<open>Helpers\<close>

definition alias_lookup :: "(string \<times> 'a) list \<Rightarrow> string \<Rightarrow> exn + 'a" where
  "alias_lookup mapping alias = (case map_of mapping alias of
       Some v \<Rightarrow> Inr v | None \<Rightarrow> Inl (LocalActionError (''unknown local target alias '' @ py_repr_ident alias)))"

definition mac_run :: "system \<Rightarrow> string list \<Rightarrow> string mac" where
  "mac_run sy argv =
     seq (effect (Ran argv) (\<lambda>h. sy_run sy h argv)) (\<lambda>(code, stdout, stderr).
       if code \<noteq> 0 then throw (LocalActionError (''local action failed with exit '' @ str_int code @ '': '' @ take 256 stderr))
       else ret (py_strip stdout))"

definition osascript :: "system \<Rightarrow> string \<Rightarrow> string mac" where
  "osascript sy script = mac_run sy [''/usr/bin/osascript'', ''-e'', script]"

definition run_shortcut :: "system \<Rightarrow> string \<Rightarrow> string mac" where
  "run_shortcut sy shortcut = mac_run sy [''/usr/bin/shortcuts'', ''run'', shortcut]"

definition mac_result :: "local_request \<Rightarrow> string \<Rightarrow> bool \<Rightarrow> json_object \<Rightarrow> local_result" where
  "mac_result request state verified details =
     \<lparr>ls_action_id = lr_action_id request, ls_target = lr_target request, ls_state = state, ls_verified = verified,
      ls_details = filter (\<lambda>(k, v). v \<noteq> JNull) details\<rparr>"

type_synonym handler = "system \<Rightarrow> mac_inventory \<Rightarrow> local_request \<Rightarrow> local_result mac"

text \<open>The handlers that look a shortcut up, run it and report an unverified state.\<close>

definition shortcut_handler :: "(mac_inventory \<Rightarrow> aliases) \<Rightarrow> string \<Rightarrow> string \<Rightarrow> handler" where
  "shortcut_handler mapping state detail sy mi request =
     seq (pure_or (alias_lookup (mapping mi) (lr_target request))) (\<lambda>shortcut.
     seq (run_shortcut sy shortcut) (\<lambda>_. ret (mac_result request state False [(detail, JStr shortcut)])))"

section \<open>Applications, browser, shortcuts\<close>

definition running_script :: "string \<Rightarrow> string" where
  "running_script bundle_id = ''application id '' @ CHR 0x22 # bundle_id @ CHR 0x22 # '' is running''"

definition application_running :: "system \<Rightarrow> string \<Rightarrow> bool mac" where
  "application_running sy bundle_id =
     (if \<not> bundle_id_ok bundle_id then throw (LocalActionError ''invalid bundle identifier'')
      else catch (seq (osascript sy (running_script bundle_id)) (\<lambda>result. ret (py_lower (py_strip result) = ''true'')))
        (\<lambda>e. case e of LocalActionError m \<Rightarrow> ret False | _ \<Rightarrow> throw e))"

definition app_ensure_running :: handler where
  "app_ensure_running sy mi request =
     seq (pure_or (alias_lookup (mi_apps mi) (lr_target request))) (\<lambda>bundle_id.
     seq (mac_run sy [''/usr/bin/open'', ''-b'', bundle_id]) (\<lambda>_.
     seq (application_running sy bundle_id) (\<lambda>running.
     ret (mac_result request (if running then ''running'' else ''unknown'') running [(''bundle_id'', JStr bundle_id)]))))"

definition browser_session_open :: handler where
  "browser_session_open sy mi request =
     seq (pure_or (alias_lookup (mi_browser_sessions mi) (lr_target request))) (\<lambda>url.
     seq (mac_run sy [''/usr/bin/open'', url]) (\<lambda>_. ret (mac_result request ''requested'' False [])))"

definition shortcut_run :: handler where
  "shortcut_run sy mi request =
     seq (pure_or (alias_lookup (mi_shortcuts mi) (lr_target request))) (\<lambda>shortcut.
     seq (run_shortcut sy shortcut) (\<lambda>_. ret (mac_result request ''completed'' True [])))"

definition workspace_open :: handler where
  "workspace_open sy mi request =
     seq (pure_or (alias_lookup (mi_workspaces mi) (lr_target request))) (\<lambda>path.
     seq (pure_or (sy_expanduser sy path)) (\<lambda>expanded.
     seq (mac_run sy [''/usr/bin/open'', expanded]) (\<lambda>_. ret (mac_result request ''requested'' False [(''path'', JStr expanded)]))))"

section \<open>Audio\<close>

text \<open>\<open>int(s)\<close> of the characters below 256: white space around it, a sign, digits with single underscores between them\<close>

definition digit_groups :: "string \<Rightarrow> nat option" where
  "digit_groups s = (let groups = split_on (CHR ''_'') s
     in if list_all (\<lambda>g. g \<noteq> [] \<and> list_all is_digit g) groups then Some (digits_value (concat groups)) else None)"

definition py_int :: "string \<Rightarrow> int option" where
  "py_int s = (case py_strip s of
       [] \<Rightarrow> None
     | c # r \<Rightarrow> if c = CHR ''-'' then map_option (\<lambda>n. - int n) (digit_groups r)
               else if c = CHR ''+'' then map_option int (digit_groups r) else map_option int (digit_groups (c # r)))"

definition volume_script :: "bool \<Rightarrow> string" where
  "volume_script muted = ''set volume input volume '' @ (if muted then ''0'' else ''75'')"

definition volume_query :: string where
  "volume_query = ''input volume of (get volume settings)''"

definition mic_query :: "system \<Rightarrow> string mac" where
  "mic_query sy = seq (osascript sy volume_query) (\<lambda>level.
     ret (case py_int level of None \<Rightarrow> ''unknown'' | Some n \<Rightarrow> if n = 0 then ''muted'' else ''live''))"

definition mic_set :: "bool \<Rightarrow> handler" where
  "mic_set muted sy mi request =
     seq (osascript sy (volume_script muted)) (\<lambda>_.
     seq (mic_query sy) (\<lambda>state.
     ret (mac_result request state (state = (if muted then ''muted'' else ''live'')) [])))"

definition mic_mute :: handler where "mic_mute = mic_set True"

definition mic_unmute :: handler where "mic_unmute = mic_set False"

definition mic_toggle :: handler where
  "mic_toggle sy mi request = seq (mic_query sy) (\<lambda>current. mic_set (current \<noteq> ''muted'') sy mi request)"

definition mic_state :: handler where
  "mic_state sy mi request = seq (mic_query sy) (\<lambda>state. ret (mac_result request state True []))"

definition audio_tool :: string where
  "audio_tool = ''SwitchAudioSource''"

definition set_audio_device :: "system \<Rightarrow> string \<Rightarrow> bool \<Rightarrow> unit mac" where
  "set_audio_device sy device is_output =
     (case sy_which sy audio_tool of
        None \<Rightarrow> throw (LocalActionError ''audio device switching requires SwitchAudioSource (brew install switchaudio-osx)'')
      | Some tool \<Rightarrow> seq (mac_run sy [tool, ''-t'', if is_output then ''output'' else ''input'', ''-s'', device]) (\<lambda>_. ret ()))"

definition audio_output_select :: handler where
  "audio_output_select sy mi request =
     seq (pure_or (alias_lookup (mi_audio_outputs mi) (lr_target request))) (\<lambda>device.
     seq (set_audio_device sy device True) (\<lambda>_. ret (mac_result request ''selected'' True [(''device'', JStr device)])))"

definition audio_input_select :: handler where
  "audio_input_select sy mi request =
     seq (pure_or (alias_lookup (mi_audio_inputs mi) (lr_target request))) (\<lambda>device.
     seq (set_audio_device sy device False) (\<lambda>_. ret (mac_result request ''selected'' True [(''device'', JStr device)])))"

definition audio_state :: handler where
  "audio_state sy mi request =
     (case sy_which sy audio_tool of
        None \<Rightarrow> ret (mac_result request ''unknown'' False [(''reason'', JStr ''SwitchAudioSource absent'')])
      | Some tool \<Rightarrow>
          seq (mac_run sy [tool, ''-t'', ''output'', ''-c'']) (\<lambda>out.
          seq (mac_run sy [tool, ''-t'', ''input'', ''-c'']) (\<lambda>inp.
          ret (mac_result request ''ok'' True [(''output'', JStr out), (''input'', JStr inp)]))))"

section \<open>Focus, Pomodoro, displays\<close>

definition focus_set :: handler where
  "focus_set = shortcut_handler mi_focus_modes ''set'' ''mode''"

definition focus_clear :: handler where
  "focus_clear sy mi request =
     (case map_of (mi_focus_modes mi) ''_clear'' of
        None \<Rightarrow> throw (LocalActionError (''no '' @ py_repr_ident ''_clear'' @ '' focus alias configured''))
      | Some shortcut \<Rightarrow> seq (run_shortcut sy shortcut) (\<lambda>_. ret (mac_result request ''cleared'' False [])))"

definition focus_state :: handler where
  "focus_state sy mi request = ret (mac_result request ''unknown'' False [])"

definition pomodoro_start :: handler where
  "pomodoro_start = shortcut_handler mi_pomodoro_routines ''started'' ''routine''"

definition pomodoro_stop :: handler where
  "pomodoro_stop sy mi request =
     seq (case map_of (mi_pomodoro_routines mi) ''_stop'' of
            None \<Rightarrow> ret () | Some shortcut \<Rightarrow> seq (run_shortcut sy shortcut) (\<lambda>_. ret ())) (\<lambda>_.
     ret (mac_result request ''stopped'' False []))"

definition pomodoro_state :: handler where
  "pomodoro_state sy mi request = ret (mac_result request ''unknown'' False [])"

definition display_mode_apply :: handler where
  "display_mode_apply = shortcut_handler mi_display_modes ''applied'' ''mode''"

definition desktops_script :: string where
  "desktops_script = ''tell application '' @ CHR 0x22 # ''System Events'' @ CHR 0x22 # '' to count of desktops''"

definition display_state :: handler where
  "display_state sy mi request =
     seq (osascript sy desktops_script) (\<lambda>count. ret (mac_result request ''ok'' True [(''displays'', JStr count)]))"

section \<open>Sleep inhibition\<close>

definition caffeinate_active :: "system \<Rightarrow> machine \<Rightarrow> bool" where
  "caffeinate_active sy m = (case mc_caffeinate m of None \<Rightarrow> False | Some pid \<Rightarrow> \<not> sy_exited sy (mc_history m) pid)"

definition caffeinate_argv :: "string list" where
  "caffeinate_argv = [''/usr/bin/caffeinate'', ''-di'']"

text \<open>The bodies of the two blocks under \<open>_caffeinate_lock\<close>; the lock makes each of them one step.\<close>

definition inhibit_sleep :: "system \<Rightarrow> unit mac" where
  "inhibit_sleep sy m =
     (if caffeinate_active sy m then (Some (Inr ()), m)
      else case sy_spawn sy (mc_history m) caffeinate_argv of
        Inl e \<Rightarrow> (Some (Inl e), m)
      | Inr _ \<Rightarrow> (Some (Inr ()), m\<lparr>mc_history := mc_history m @ [Spawned caffeinate_argv], mc_caffeinate := Some (length (mc_history m))\<rparr>))"

definition release_sleep :: "system \<Rightarrow> unit mac" where
  "release_sleep sy m =
     (if caffeinate_active sy m
      then (Some (Inr ()), m\<lparr>mc_history := mc_history m @ [Terminated (the (mc_caffeinate m))], mc_caffeinate := None\<rparr>)
      else (Some (Inr ()), m))"

definition sleep_inhibit_on :: handler where
  "sleep_inhibit_on sy mi request = seq (inhibit_sleep sy) (\<lambda>_. ret (mac_result request ''inhibited'' True []))"

definition sleep_inhibit_off :: handler where
  "sleep_inhibit_off sy mi request = seq (release_sleep sy) (\<lambda>_. ret (mac_result request ''released'' True []))"

definition sleep_inhibit_state :: handler where
  "sleep_inhibit_state sy mi request m =
     (Some (Inr (mac_result request (if caffeinate_active sy m then ''inhibited'' else ''released'') True [])), m)"

section \<open>Recording\<close>

text \<open>\<open>except ObsError as error: raise LocalActionError(str(error))\<close>\<close>

definition obs_guarded :: "'a mac \<Rightarrow> 'a mac" where
  "obs_guarded p = catch p (\<lambda>e. case e of ObsError m \<Rightarrow> throw (LocalActionError m) | _ \<Rightarrow> throw e)"

definition obs_scene_set :: handler where
  "obs_scene_set sy mi request =
     seq (pure_or (alias_lookup (os_scenes (mi_obs mi)) (lr_target request))) (\<lambda>scene.
     seq (obs_guarded (set_scene sy (mi_obs mi) scene)) (\<lambda>_. ret (mac_result request ''set'' True [(''scene'', JStr scene)])))"

definition obs_record_start :: handler where
  "obs_record_start sy mi request =
     seq (obs_guarded (seq (obs_record sy (mi_obs mi) True) (\<lambda>_. record_state sy (mi_obs mi)))) (\<lambda>state.
     ret (mac_result request state (state = ''recording'') []))"

definition obs_record_stop :: handler where
  "obs_record_stop sy mi request =
     seq (obs_guarded (seq (obs_record sy (mi_obs mi) False) (\<lambda>_. record_state sy (mi_obs mi)))) (\<lambda>state.
     ret (mac_result request state (state \<noteq> ''recording'') []))"

definition obs_record_state :: handler where
  "obs_record_state sy mi request =
     catch (seq (record_state sy (mi_obs mi)) (\<lambda>state. ret (mac_result request state True [])))
       (\<lambda>e. case e of ObsError m \<Rightarrow> ret (mac_result request ''unknown'' False [(''reason'', JStr m)]) | _ \<Rightarrow> throw e)"

definition obs_source_toggle :: handler where
  "obs_source_toggle sy mi request =
     seq (pure_or (alias_lookup (os_sources (mi_obs mi)) (lr_target request))) (\<lambda>source.
     seq (obs_guarded (toggle_source sy (mi_obs mi) source)) (\<lambda>visible.
     ret (mac_result request (if visible then ''visible'' else ''hidden'') True [(''source'', JStr source)])))"

definition obs_replay_save :: handler where
  "obs_replay_save sy mi request =
     seq (obs_guarded (save_replay sy (mi_obs mi))) (\<lambda>_. ret (mac_result request ''saved'' True []))"

section \<open>Keyboard\<close>

definition input_select :: handler where
  "input_select = shortcut_handler mi_input_sources ''requested'' ''source''"

definition input_script :: string where
  "input_script = ''tell application '' @ CHR 0x22 # ''System Events'' @ CHR 0x22 # '' to tell process '' @ CHR 0x22 #
     ''SystemUIServer'' @ CHR 0x22 # '' to get the value of the first menu bar item of menu bar 1 whose description is '' @
     CHR 0x22 # ''text input'' @ [CHR 0x22]"

definition input_state :: handler where
  "input_state sy mi request =
     catch (seq (osascript sy input_script) (\<lambda>name.
        let name = py_strip name
        in ret (if name = [] then mac_result request ''unknown'' False [] else mac_result request ''ok'' False [(''source'', JStr name)])))
       (\<lambda>e. case e of LocalActionError m \<Rightarrow> ret (mac_result request ''unknown'' False []) | _ \<Rightarrow> throw e)"

definition modifiers_script :: string where
  "modifiers_script = ''tell application '' @ CHR 0x22 # ''System Events'' @ CHR 0x22 #
     '' to key up {command, option, control, shift}''"

definition reset_modifiers :: handler where
  "reset_modifiers sy mi request = seq (osascript sy modifiers_script) (\<lambda>_. ret (mac_result request ''reset'' True []))"

section \<open>Application commands\<close>

definition activate_script :: "string \<Rightarrow> string" where
  "activate_script bundle_id = ''tell application id '' @ CHR 0x22 # bundle_id @ CHR 0x22 # '' to activate''"

definition keystroke_script :: "string \<Rightarrow> string" where
  "keystroke_script keystroke = ''tell application '' @ CHR 0x22 # ''System Events'' @ CHR 0x22 #
     '' to tell (first process whose frontmost is true) to '' @ keystroke"

definition app_command_send :: handler where
  "app_command_send sy mi request =
     seq (pure_or (alias_lookup (mi_app_commands mi) (lr_target request))) (\<lambda>command.
     if \<not> bundle_id_ok (ac_bundle_id command) then throw (LocalActionError ''invalid bundle identifier'')
     else seq (osascript sy (activate_script (ac_bundle_id command))) (\<lambda>_.
          seq (osascript sy (keystroke_script (ac_keystroke command))) (\<lambda>_.
          ret (mac_result request ''requested'' False [(''bundle_id'', JStr (ac_bundle_id command))]))))"

section \<open>Dispatch\<close>

text \<open>The table \<open>_HANDLERS\<close> has every action, so the refusal of an action without handler is never reached.\<close>

fun handler_of :: "local_action \<Rightarrow> handler" where
  "handler_of APP_ENSURE_RUNNING = app_ensure_running"
| "handler_of BROWSER_SESSION_OPEN = browser_session_open"
| "handler_of SHORTCUT_RUN = shortcut_run"
| "handler_of WORKSPACE_OPEN = workspace_open"
| "handler_of MIC_MUTE = mic_mute"
| "handler_of MIC_UNMUTE = mic_unmute"
| "handler_of MIC_TOGGLE = mic_toggle"
| "handler_of MIC_STATE = mic_state"
| "handler_of AUDIO_OUTPUT_SELECT = audio_output_select"
| "handler_of AUDIO_INPUT_SELECT = audio_input_select"
| "handler_of AUDIO_STATE = audio_state"
| "handler_of FOCUS_SET = focus_set"
| "handler_of FOCUS_CLEAR = focus_clear"
| "handler_of FOCUS_STATE = focus_state"
| "handler_of POMODORO_START = pomodoro_start"
| "handler_of POMODORO_STOP = pomodoro_stop"
| "handler_of POMODORO_STATE = pomodoro_state"
| "handler_of DISPLAY_MODE_APPLY = display_mode_apply"
| "handler_of DISPLAY_STATE = display_state"
| "handler_of SLEEP_INHIBIT_ON = sleep_inhibit_on"
| "handler_of SLEEP_INHIBIT_OFF = sleep_inhibit_off"
| "handler_of SLEEP_INHIBIT_STATE = sleep_inhibit_state"
| "handler_of OBS_SCENE_SET = obs_scene_set"
| "handler_of OBS_RECORD_START = obs_record_start"
| "handler_of OBS_RECORD_STOP = obs_record_stop"
| "handler_of OBS_RECORD_STATE = obs_record_state"
| "handler_of OBS_SOURCE_TOGGLE = obs_source_toggle"
| "handler_of OBS_REPLAY_SAVE = obs_replay_save"
| "handler_of INPUT_SELECT = input_select"
| "handler_of INPUT_STATE = input_state"
| "handler_of RESET_MODIFIERS = reset_modifiers"
| "handler_of APP_COMMAND = app_command_send"

definition mac_execute :: "system \<Rightarrow> mac_inventory \<Rightarrow> local_request \<Rightarrow> local_result mac" where
  "mac_execute sy mi request =
     (if action_requires_target (lr_action_id request) \<and> lr_target request = ''_''
      then throw (LocalActionError (''action '' @ local_action_value (lr_action_id request) @ '' requires a target alias''))
      else handler_of (lr_action_id request) sy mi request)"

end
