(* ===== verification/MacLaws.thy ===== *)
theory MacLaws
  imports MacExecutor
begin

text \<open>
  What the local executor guarantees: whatever a request says, the commands it runs are fixed or come from the
  operator's inventory; and at most one \<open>caffeinate\<close> process holds the machine awake.
\<close>

section \<open>Commands and messages the inventory allows\<close>

definition inventory_shortcuts :: "mac_inventory \<Rightarrow> string set" where
  "inventory_shortcuts mi = snd ` (set (mi_shortcuts mi) \<union> set (mi_focus_modes mi) \<union> set (mi_pomodoro_routines mi) \<union>
     set (mi_display_modes mi) \<union> set (mi_input_sources mi))"

definition permitted_script :: "mac_inventory \<Rightarrow> string \<Rightarrow> bool" where
  "permitted_script mi script \<longleftrightarrow>
     script \<in> {volume_script True, volume_script False, volume_query, desktops_script, input_script, modifiers_script} \<or>
     (\<exists>b. bundle_id_ok b \<and> (b \<in> snd ` set (mi_apps mi) \<and> script = running_script b \<or>
        b \<in> ac_bundle_id ` snd ` set (mi_app_commands mi) \<and> script = activate_script b)) \<or>
     script \<in> keystroke_script ` ac_keystroke ` snd ` set (mi_app_commands mi)"

definition permitted_argv :: "system \<Rightarrow> mac_inventory \<Rightarrow> string list \<Rightarrow> bool" where
  "permitted_argv sy mi argv \<longleftrightarrow>
     (\<exists>script. permitted_script mi script \<and> argv = [''/usr/bin/osascript'', ''-e'', script]) \<or>
     (\<exists>s \<in> inventory_shortcuts mi. argv = [''/usr/bin/shortcuts'', ''run'', s]) \<or>
     (\<exists>b \<in> snd ` set (mi_apps mi). argv = [''/usr/bin/open'', ''-b'', b]) \<or>
     (\<exists>url \<in> snd ` set (mi_browser_sessions mi). argv = [''/usr/bin/open'', url]) \<or>
     (\<exists>p \<in> snd ` set (mi_workspaces mi). \<exists>q. sy_expanduser sy p = Inr q \<and> argv = [''/usr/bin/open'', q]) \<or>
     (\<exists>tool. sy_which sy audio_tool = Some tool \<and>
        ((\<exists>d \<in> snd ` set (mi_audio_outputs mi). argv = [tool, ''-t'', ''output'', ''-s'', d]) \<or>
         (\<exists>d \<in> snd ` set (mi_audio_inputs mi). argv = [tool, ''-t'', ''input'', ''-s'', d]) \<or>
         argv = [tool, ''-t'', ''output'', ''-c''] \<or> argv = [tool, ''-t'', ''input'', ''-c'']))"

definition obs_data_ok :: "obs_settings \<Rightarrow> string \<Rightarrow> json_object \<Rightarrow> bool" where
  "obs_data_ok os t data \<longleftrightarrow>
     data = [] \<and> t \<in> {''StartRecord'', ''StopRecord'', ''GetRecordStatus'', ''GetCurrentProgramScene'', ''SaveReplayBuffer''} \<or>
     t = ''SetCurrentProgramScene'' \<and> (\<exists>scene \<in> snd ` set (os_scenes os). data = [(''sceneName'', JStr scene)]) \<or>
     t = ''GetSceneItemList'' \<and> map fst data = [''sceneName''] \<or>
     t = ''SetSceneItemEnabled'' \<and> map fst data = [''sceneName'', ''sceneItemId'', ''sceneItemEnabled'']"

definition permitted_effect :: "system \<Rightarrow> mac_inventory \<Rightarrow> effect \<Rightarrow> bool" where
  "permitted_effect sy mi x \<longleftrightarrow>
     (case x of
        Ran argv \<Rightarrow> permitted_argv sy mi argv
      | Spawned argv \<Rightarrow> False
      | Terminated pid \<Rightarrow> False
      | _ \<Rightarrow> \<exists>t. obs_traffic sy (mi_obs mi) t (obs_data_ok (mi_obs mi) t) x)"

abbreviation stays_permitted :: "system \<Rightarrow> mac_inventory \<Rightarrow> 'a mac \<Rightarrow> bool" where
  "stays_permitted sy mi \<equiv> does_only (permitted_effect sy mi)"

section \<open>Handlers\<close>

lemma alias_lookup_value: "alias_lookup mapping alias = Inr v \<Longrightarrow> v \<in> snd ` set mapping"
  by (auto simp: alias_lookup_def image_iff split: option.splits dest!: map_of_SomeD intro: bexI [of _ "(alias, v)"])

lemma permitted_scripts:
  "bundle_id_ok b \<Longrightarrow> b \<in> snd ` set (mi_apps mi) \<Longrightarrow> permitted_script mi (running_script b)"
  "bundle_id_ok (ac_bundle_id c) \<Longrightarrow> c \<in> snd ` set (mi_app_commands mi) \<Longrightarrow> permitted_script mi (activate_script (ac_bundle_id c))"
  "c \<in> snd ` set (mi_app_commands mi) \<Longrightarrow> permitted_script mi (keystroke_script (ac_keystroke c))"
  unfolding permitted_script_def by blast+

lemma permitted_commands:
  "b \<in> snd ` set (mi_apps mi) \<Longrightarrow> permitted_argv sy mi [''/usr/bin/open'', ''-b'', b]"
  "url \<in> snd ` set (mi_browser_sessions mi) \<Longrightarrow> permitted_argv sy mi [''/usr/bin/open'', url]"
  "p \<in> snd ` set (mi_workspaces mi) \<Longrightarrow> sy_expanduser sy p = Inr q \<Longrightarrow> permitted_argv sy mi [''/usr/bin/open'', q]"
  "sy_which sy audio_tool = Some tool \<Longrightarrow> permitted_argv sy mi [tool, ''-t'', ''output'', ''-c'']"
  "sy_which sy audio_tool = Some tool \<Longrightarrow> permitted_argv sy mi [tool, ''-t'', ''input'', ''-c'']"
  "sy_which sy audio_tool = Some tool \<Longrightarrow> d \<in> snd ` set (mi_audio_outputs mi) \<Longrightarrow>
     permitted_argv sy mi [tool, ''-t'', ''output'', ''-s'', d]"
  "sy_which sy audio_tool = Some tool \<Longrightarrow> d \<in> snd ` set (mi_audio_inputs mi) \<Longrightarrow>
     permitted_argv sy mi [tool, ''-t'', ''input'', ''-s'', d]"
  by (simp_all add: permitted_argv_def del: set_map, auto)

lemma mac_run_permitted: "permitted_argv sy mi argv \<Longrightarrow> stays_permitted sy mi (mac_run sy argv)"
  unfolding mac_run_def by (intro only_intros) (simp_all add: permitted_effect_def)

lemma osascript_permitted [only_intros]: "permitted_script mi script \<Longrightarrow> stays_permitted sy mi (osascript sy script)"
  unfolding osascript_def by (rule mac_run_permitted) (simp add: permitted_argv_def)

lemma run_shortcut_permitted [only_intros]: "s \<in> inventory_shortcuts mi \<Longrightarrow> stays_permitted sy mi (run_shortcut sy s)"
  unfolding run_shortcut_def by (rule mac_run_permitted) (simp add: permitted_argv_def)

lemma shortcut_handler_permitted:
  assumes "snd ` set (mapping mi) \<subseteq> inventory_shortcuts mi"
  shows "stays_permitted sy mi (shortcut_handler mapping state detail sy mi request)"
  unfolding shortcut_handler_def
  by (intro only_intros does_only_pure_seq) (use assms in \<open>auto dest: alias_lookup_value\<close>)

lemma obs_traffic_permitted: "obs_traffic sy (mi_obs mi) t (obs_data_ok (mi_obs mi) t) x \<Longrightarrow> permitted_effect sy mi x"
  by (cases x) (auto simp: permitted_effect_def, auto simp: obs_traffic_def)

lemma obs_request_permitted:
  "obs_data_ok (mi_obs mi) t data \<Longrightarrow> stays_permitted sy mi (obs_request sy (mi_obs mi) t data)"
  by (rule does_only_mono [OF obs_request_only [of "obs_data_ok (mi_obs mi) t"] obs_traffic_permitted])

lemma obs_guarded_permitted [only_intros]: "stays_permitted sy mi p \<Longrightarrow> stays_permitted sy mi (obs_guarded p)"
  unfolding obs_guarded_def by (intro only_intros) (auto intro!: only_intros split: exn.split)

lemma fixed_scripts [simp]:
  "permitted_script mi (volume_script b)" "permitted_script mi volume_query" "permitted_script mi desktops_script"
  "permitted_script mi input_script" "permitted_script mi modifiers_script"
  by (cases b; simp add: permitted_script_def)+

lemma mic_permitted [only_intros]:
  "stays_permitted sy mi (mic_query sy)" "stays_permitted sy mi (mic_set b sy mi request)"
  unfolding mic_query_def mic_set_def by (intro only_intros; simp)+

lemma obs_permitted [only_intros]:
  "scene \<in> snd ` set (os_scenes (mi_obs mi)) \<Longrightarrow> stays_permitted sy mi (set_scene sy (mi_obs mi) scene)"
  "stays_permitted sy mi (obs_record sy (mi_obs mi) b)" "stays_permitted sy mi (record_state sy (mi_obs mi))"
  "stays_permitted sy mi (toggle_source sy (mi_obs mi) source)" "stays_permitted sy mi (save_replay sy (mi_obs mi))"
  unfolding set_scene_def obs_record_def record_state_def toggle_source_def save_replay_def Let_def
  by (intro only_intros obs_request_permitted; simp add: obs_data_ok_def)+

lemma set_audio_device_permitted [only_intros]:
  "device \<in> snd ` set (if b then mi_audio_outputs mi else mi_audio_inputs mi) \<Longrightarrow> stays_permitted sy mi (set_audio_device sy device b)"
  unfolding set_audio_device_def
  by (cases b) (auto intro!: only_intros mac_run_permitted permitted_commands split: option.split)

lemma application_running_permitted [only_intros]:
  "bundle_id \<in> snd ` set (mi_apps mi) \<Longrightarrow> stays_permitted sy mi (application_running sy bundle_id)"
  unfolding application_running_def
  by (cases "bundle_id_ok bundle_id")
    (auto intro!: only_intros permitted_scripts split: exn.split)

definition sleep_actions :: "local_action set" where
  "sleep_actions = {SLEEP_INHIBIT_ON, SLEEP_INHIBIT_OFF, SLEEP_INHIBIT_STATE}"

lemma shortcut_sources:
  "x \<in> set (mi_focus_modes mi) \<Longrightarrow> snd x \<in> inventory_shortcuts mi"
  "x \<in> set (mi_pomodoro_routines mi) \<Longrightarrow> snd x \<in> inventory_shortcuts mi"
  "x \<in> set (mi_display_modes mi) \<Longrightarrow> snd x \<in> inventory_shortcuts mi"
  "x \<in> set (mi_input_sources mi) \<Longrightarrow> snd x \<in> inventory_shortcuts mi"
  "x \<in> set (mi_shortcuts mi) \<Longrightarrow> snd x \<in> inventory_shortcuts mi"
  by (simp_all add: inventory_shortcuts_def)

lemma mapped_shortcut:
  "map_of (mi_focus_modes mi) k = Some s \<Longrightarrow> s \<in> inventory_shortcuts mi"
  "map_of (mi_pomodoro_routines mi) k = Some s \<Longrightarrow> s \<in> inventory_shortcuts mi"
  using shortcut_sources(1,2) [of "(k, s)" mi] by (auto dest!: map_of_SomeD)

named_theorems handler_defs \<open>the handlers of the local actions\<close>

declare app_ensure_running_def [handler_defs] browser_session_open_def [handler_defs] shortcut_run_def [handler_defs]
  workspace_open_def [handler_defs] mic_mute_def [handler_defs] mic_unmute_def [handler_defs] mic_toggle_def [handler_defs]
  mic_state_def [handler_defs] audio_output_select_def [handler_defs] audio_input_select_def [handler_defs]
  audio_state_def [handler_defs] focus_set_def [handler_defs] focus_clear_def [handler_defs] focus_state_def [handler_defs]
  pomodoro_start_def [handler_defs] pomodoro_stop_def [handler_defs] pomodoro_state_def [handler_defs]
  display_mode_apply_def [handler_defs] display_state_def [handler_defs] obs_scene_set_def [handler_defs]
  obs_record_start_def [handler_defs] obs_record_stop_def [handler_defs] obs_record_state_def [handler_defs]
  obs_source_toggle_def [handler_defs] obs_replay_save_def [handler_defs] input_select_def [handler_defs]
  input_state_def [handler_defs] reset_modifiers_def [handler_defs] app_command_send_def [handler_defs]

lemma handler_permitted:
  assumes "action \<notin> sleep_actions"
  shows "stays_permitted sy mi (handler_of action sy mi request)"
proof (cases action)
  case WORKSPACE_OPEN
  then show ?thesis
    by (auto simp: workspace_open_def dest!: alias_lookup_value intro!: only_intros does_only_pure_seq mac_run_permitted permitted_commands(3))
next
  case APP_COMMAND
  then show ?thesis
    by (auto simp: app_command_send_def dest!: alias_lookup_value intro!: only_intros does_only_pure_seq permitted_scripts)
qed (use assms in \<open>auto simp: handler_defs sleep_actions_def Let_def
    dest!: alias_lookup_value dest: mapped_shortcut intro: shortcut_sources [of "(a, b)" for a b, simplified]
    intro!: only_intros does_only_pure_seq shortcut_handler_permitted mac_run_permitted permitted_commands(1,2,4,5)
    split: option.split exn.split\<close>)

section \<open>The sleep handlers\<close>

definition agent_effect :: "system \<Rightarrow> mac_inventory \<Rightarrow> effect \<Rightarrow> bool" where
  "agent_effect sy mi x \<longleftrightarrow> permitted_effect sy mi x \<or> x = Spawned caffeinate_argv \<or> (\<exists>pid. x = Terminated pid)"

text \<open>The \<open>caffeinate\<close> processes that run: started, not terminated, not ended by themselves.\<close>

definition caffeinated :: "system \<Rightarrow> machine \<Rightarrow> nat set" where
  "caffeinated sy m = {p. p < length (mc_history m) \<and> mc_history m ! p = Spawned caffeinate_argv \<and>
     Terminated p \<notin> set (mc_history m) \<and> \<not> sy_exited sy (mc_history m) p}"

definition tracked_ok :: "machine \<Rightarrow> bool" where
  "tracked_ok m \<longleftrightarrow> (\<forall>p. mc_caffeinate m = Some p \<longrightarrow>
     p < length (mc_history m) \<and> mc_history m ! p = Spawned caffeinate_argv \<and> Terminated p \<notin> set (mc_history m)) \<and>
     (\<forall>p. Terminated p \<in> set (mc_history m) \<longrightarrow> p < length (mc_history m))"

definition sleep_ok :: "system \<Rightarrow> machine \<Rightarrow> bool" where
  "sleep_ok sy m \<longleftrightarrow> tracked_ok m \<and> (\<forall>p \<in> caffeinated sy m. mc_caffeinate m = Some p)"

text \<open>A process that has ended stays so.\<close>

definition exits_final :: "system \<Rightarrow> bool" where
  "exits_final sy \<longleftrightarrow> (\<forall>h h' p. sy_exited sy h p \<longrightarrow> sy_exited sy (h @ h') p)"

lemma still_running: "exits_final sy \<Longrightarrow> \<not> sy_exited sy (h @ h') p \<Longrightarrow> \<not> sy_exited sy h p"
  unfolding exits_final_def by blast

lemma active_iff:
  assumes "sleep_ok sy m"
  shows "caffeinate_active sy m \<longleftrightarrow> caffeinated sy m \<noteq> {}"
proof (cases "mc_caffeinate m")
  case (Some pid)
  then have "caffeinate_active sy m \<longleftrightarrow> pid \<in> caffeinated sy m"
    using assms by (simp add: caffeinate_active_def caffeinated_def sleep_ok_def tracked_ok_def)
  then show ?thesis using assms Some unfolding sleep_ok_def by auto
qed (use assms in \<open>auto simp: caffeinate_active_def sleep_ok_def\<close>)

lemma quiet_effects: "list_all (permitted_effect sy mi) new \<Longrightarrow> Terminated p \<notin> set new \<and> Spawned argv \<notin> set new"
  by (auto simp: list_all_iff permitted_effect_def)

lemma quiet_keeps:
  assumes "sleep_ok sy m" and "exits_final sy" and "grew (permitted_effect sy mi) m m'"
  shows "sleep_ok sy m' \<and> caffeinated sy m' \<subseteq> caffeinated sy m"
proof -
  obtain new where new: "mc_caffeinate m' = mc_caffeinate m" "mc_history m' = mc_history m @ new" "list_all (permitted_effect sy mi) new"
    using assms(3) by (auto simp: grew_def)
  have quiet: "Terminated p \<notin> set new" "Spawned argv \<notin> set new" for p argv using quiet_effects [OF new(3)] by auto
  have "caffeinated sy m' \<subseteq> caffeinated sy m"
  proof
    fix p assume p: "p \<in> caffeinated sy m'"
    have "p < length (mc_history m)"
    proof (rule ccontr)
      assume beyond: "\<not> p < length (mc_history m)"
      then have "new ! (p - length (mc_history m)) = Spawned caffeinate_argv" "p - length (mc_history m) < length new"
        using p new(2) by (auto simp: caffeinated_def nth_append)
      then show False using quiet(2) [of caffeinate_argv] nth_mem by metis
    qed
    then show "p \<in> caffeinated sy m" using p still_running [OF assms(2), of "mc_history m" new p] by (simp add: caffeinated_def nth_append new(2))
  qed
  moreover have "tracked_ok m'" using assms(1) new(1,2) quiet(1) by (auto simp: sleep_ok_def tracked_ok_def nth_append)
  ultimately show ?thesis using assms(1) new(1) by (auto simp: sleep_ok_def)
qed

lemma spawn_keeps:
  assumes "sleep_ok sy m" and "exits_final sy" and "\<not> caffeinate_active sy m"
  shows "sleep_ok sy (m\<lparr>mc_history := mc_history m @ [Spawned caffeinate_argv], mc_caffeinate := Some (length (mc_history m))\<rparr>)"
proof -
  have none: "caffeinated sy m = {}" using active_iff [OF assms(1)] assms(3) by simp
  have "p = length (mc_history m)"
    if "p \<in> caffeinated sy (m\<lparr>mc_history := mc_history m @ [Spawned caffeinate_argv], mc_caffeinate := Some (length (mc_history m))\<rparr>)" for p
  proof (rule ccontr)
    assume "p \<noteq> length (mc_history m)"
    with that have "p \<in> caffeinated sy m"
      using still_running [OF assms(2), of "mc_history m" "[Spawned caffeinate_argv]" p] by (simp add: caffeinated_def nth_append split: if_splits)
    with none show False by simp
  qed
  moreover have "tracked_ok (m\<lparr>mc_history := mc_history m @ [Spawned caffeinate_argv], mc_caffeinate := Some (length (mc_history m))\<rparr>)"
    using assms(1) by (auto simp: sleep_ok_def tracked_ok_def)
  ultimately show ?thesis unfolding sleep_ok_def by auto
qed

lemma terminate_keeps:
  assumes "sleep_ok sy m" and "exits_final sy" and "mc_caffeinate m = Some pid"
  shows "sleep_ok sy (m\<lparr>mc_history := mc_history m @ [Terminated pid], mc_caffeinate := None\<rparr>) \<and>
    caffeinated sy (m\<lparr>mc_history := mc_history m @ [Terminated pid], mc_caffeinate := None\<rparr>) = {}"
proof -
  have "caffeinated sy (m\<lparr>mc_history := mc_history m @ [Terminated pid], mc_caffeinate := None\<rparr>) \<subseteq> caffeinated sy m - {pid}"
    using still_running [OF assms(2), of "mc_history m" "[Terminated pid]"] by (auto simp: caffeinated_def nth_append split: if_splits)
  moreover have "caffeinated sy m \<subseteq> {pid}" using assms(1,3) by (auto simp: sleep_ok_def)
  ultimately have "caffeinated sy (m\<lparr>mc_history := mc_history m @ [Terminated pid], mc_caffeinate := None\<rparr>) = {}" by blast
  then show ?thesis using assms(1,3) by (auto simp: sleep_ok_def tracked_ok_def)
qed

lemma seq_ret [simp]: "snd (seq p (\<lambda>_. ret x) m) = snd (p m)"
  by (cases "p m"; cases "fst (p m)"; cases "the (fst (p m))") (auto simp: seq_def ret_def)

text \<open>What any call of \<open>execute\<close> does to the machine.\<close>

definition agent_step :: "system \<Rightarrow> mac_inventory \<Rightarrow> machine \<Rightarrow> machine \<Rightarrow> bool" where
  "agent_step sy mi m m' \<longleftrightarrow> grew (permitted_effect sy mi) m m' \<or>
     \<not> caffeinate_active sy m \<and> m' = m\<lparr>mc_history := mc_history m @ [Spawned caffeinate_argv], mc_caffeinate := Some (length (mc_history m))\<rparr> \<or>
     (\<exists>pid. mc_caffeinate m = Some pid \<and> m' = m\<lparr>mc_history := mc_history m @ [Terminated pid], mc_caffeinate := None\<rparr>)"

lemma sleep_steps:
  "agent_step sy mi m (snd (inhibit_sleep sy m))" "agent_step sy mi m (snd (release_sleep sy m))" "agent_step sy mi m m"
  by (auto simp: agent_step_def inhibit_sleep_def split: sum.split)
    (auto simp: release_sleep_def caffeinate_active_def split: option.splits)

lemma execute_step: "agent_step sy mi m (snd (mac_execute sy mi request m))"
proof (cases "lr_action_id request \<in> sleep_actions")
  case False
  then have "stays_permitted sy mi (mac_execute sy mi request)"
    unfolding mac_execute_def by (intro only_intros handler_permitted)
  then show ?thesis by (simp add: does_only_def agent_step_def)
next
  case True
  then show ?thesis
    by (auto simp: mac_execute_def throw_def sleep_actions_def sleep_inhibit_on_def sleep_inhibit_off_def sleep_inhibit_state_def sleep_steps)
qed

lemma agent_step_keeps: "agent_step sy mi m m' \<Longrightarrow> exits_final sy \<Longrightarrow> sleep_ok sy m \<Longrightarrow> sleep_ok sy m'"
  unfolding agent_step_def using quiet_keeps spawn_keeps terminate_keeps by blast

end
