(* ===== verification/MacAgent.thy ===== *)
theory MacAgent
  imports MacLaws
begin

text \<open>
  The two local services of \<open>deckhand_macos\<close>: \<open>api.py\<close>, which executes requests that carry the local bearer token, and
  \<open>issuer.py\<close>, which mints the identity tokens that the broker verifies. Reading a credential file is an argument.
\<close>

section \<open>The bearer token\<close>

definition bearer :: "string option \<Rightarrow> string" where
  "bearer authorization = (case authorization of
       None \<Rightarrow> []
     | Some h \<Rightarrow> if starts_with ''Bearer '' h then drop 7 h else h)"

definition check_bearer :: "string \<Rightarrow> exn + string \<Rightarrow> string option \<Rightarrow> exn + unit" where
  "check_bearer missing file authorization =
     (case file of
        Inl (PyOSError m) \<Rightarrow> Inl (HTTPException 503 (JStr missing))
      | Inl e \<Rightarrow> Inl e
      | Inr text \<Rightarrow>
          (let supplied = bearer authorization; refused = HTTPException 401 (JStr ''local authorization required'')
           in if supplied = [] then Inl refused
              else bind_sum (compare_digest supplied (py_strip text)) (\<lambda>same. if same then Inr () else Inl refused)))"

section \<open>Executing a request\<close>

definition mac_authenticate :: "exn + string \<Rightarrow> string option \<Rightarrow> exn + unit" where
  "mac_authenticate = check_bearer ''local credential unavailable''"

definition mac_api_execute :: "system \<Rightarrow> mac_inventory \<Rightarrow> exn + string \<Rightarrow> string option \<Rightarrow> local_request \<Rightarrow> local_result mac" where
  "mac_api_execute sy mi file authorization request =
     seq (pure_or (mac_authenticate file authorization)) (\<lambda>_.
     catch (mac_execute sy mi request)
       (\<lambda>e. case e of LocalActionError m \<Rightarrow> throw (HTTPException 422 (JStr m)) | _ \<Rightarrow> throw e))"

fun agent_run :: "system \<Rightarrow> mac_inventory \<Rightarrow> local_request list \<Rightarrow> machine \<Rightarrow> machine" where
  "agent_run sy mi [] m = m"
| "agent_run sy mi (r # rs) m = agent_run sy mi rs (snd (mac_execute sy mi r m))"

definition started :: machine where
  "started = \<lparr>mc_history = [], mc_caffeinate = None\<rparr>"

section \<open>The issuer\<close>

record issuer_settings =
  is_subject :: string
  is_device :: string
  is_channel :: string
  is_token_ttl_seconds :: int
  is_caller_token :: "(exn + string) option"

definition issuer_settings_ok :: "issuer_settings \<Rightarrow> bool" where
  "issuer_settings_ok st \<longleftrightarrow> 10 \<le> is_token_ttl_seconds st \<and> is_token_ttl_seconds st \<le> 300"

definition issuer_mint :: "(string \<Rightarrow> string) \<Rightarrow> issuer_settings \<Rightarrow> string \<Rightarrow> instant \<Rightarrow> exn + string \<times> string" where
  "issuer_mint sign st nonce issued =
     (let expires = issued + seconds (is_token_ttl_seconds st)
      in if \<not> instant_ok expires then Inl overflow
         else let claims = claims_json (is_subject st) (is_device st) (is_channel st) issued expires nonce;
                  body = json_dumps (JObj claims);
                  signature = sign (''deckhand-identity-v1'' @ CHR 0x1F # body)
              in Inr (b64u_encode (render (JObj (claims @ [(''sig'', JStr (b64u_encode signature))]))), isoformat expires))"

definition issuer_authorize :: "issuer_settings \<Rightarrow> string option \<Rightarrow> exn + unit" where
  "issuer_authorize st authorization = (case is_caller_token st of
       None \<Rightarrow> Inr ()
     | Some file \<Rightarrow> check_bearer ''issuer credential unavailable'' file authorization)"

definition issuer_token :: "(string \<Rightarrow> string) \<Rightarrow> issuer_settings \<Rightarrow> string option \<Rightarrow> string \<Rightarrow> instant \<Rightarrow> exn + string \<times> string" where
  "issuer_token sign st authorization nonce now = bind_sum (issuer_authorize st authorization) (\<lambda>_. issuer_mint sign st nonce now)"

section \<open>What the agent may do\<close>

lemma agent_step_effects:
  assumes "agent_step sy mi m m'"
  shows "\<exists>new. mc_history m' = mc_history m @ new \<and> list_all (agent_effect sy mi) new"
  using assms unfolding agent_step_def grew_def agent_effect_def by (auto elim!: list.pred_mono_strong)

lemma api_runs_execute:
  "mac_authenticate file authorization = Inr () \<Longrightarrow>
     snd (mac_api_execute sy mi file authorization request m) = snd (mac_execute sy mi request m)"
  by (cases "mac_execute sy mi request m"; cases "fst (mac_execute sy mi request m)"; cases "the (fst (mac_execute sy mi request m))")
    (auto simp: mac_api_execute_def seq_def pure_or_def catch_def throw_def split: exn.split)


section \<open>One process keeps the machine awake\<close>

lemma agent_run_keeps: "exits_final sy \<Longrightarrow> sleep_ok sy m \<Longrightarrow> sleep_ok sy (agent_run sy mi requests m)"
  by (induction requests arbitrary: m) (auto intro: agent_step_keeps execute_step)

lemma started_ok: "sleep_ok sy started"
  by (simp add: started_def sleep_ok_def tracked_ok_def caffeinated_def)

text \<open>(C22) After any requests, in any order, at most one \<open>caffeinate\<close> process of the agent runs; the reported state says
  truthfully whether one does; and after the release none does. (A process that has ended stays ended.)\<close>

theorem one_caffeinate:
  assumes "exits_final sy" and "m = agent_run sy mi requests started"
  shows "card (caffeinated sy m) \<le> 1 \<and>
    fst (sleep_inhibit_state sy mi request m) =
      Some (Inr (mac_result request (if caffeinated sy m = {} then ''released'' else ''inhibited'') True [])) \<and>
    caffeinated sy (snd (sleep_inhibit_off sy mi request m)) = {}"
proof -
  have ok: "sleep_ok sy m" using agent_run_keeps [OF assms(1) started_ok] assms(2) by simp
  have "card (caffeinated sy m) \<le> 1"
  proof (cases "mc_caffeinate m")
    case None
    then have "caffeinated sy m = {}" using ok unfolding sleep_ok_def by auto
    then show ?thesis by simp
  next
    case (Some pid)
    then have "caffeinated sy m \<subseteq> {pid}" using ok unfolding sleep_ok_def by auto
    then show ?thesis using card_mono [of "{pid}"] by fastforce
  qed
  moreover have "caffeinated sy (snd (sleep_inhibit_off sy mi request m)) = {}"
  proof (cases "caffeinate_active sy m")
    case True
    then obtain pid where "mc_caffeinate m = Some pid" by (auto simp: caffeinate_active_def split: option.splits)
    with terminate_keeps [OF ok assms(1) this] True show ?thesis by (simp add: sleep_inhibit_off_def release_sleep_def)
  qed (use active_iff [OF ok] in \<open>simp add: sleep_inhibit_off_def release_sleep_def\<close>)
  ultimately show ?thesis using active_iff [OF ok] by (simp add: sleep_inhibit_state_def)
qed

section \<open>From the issuer to the broker\<close>

lemma read_wire:
  "read_envelope fl (b64u_encode (render (JObj (claims_json s d ch iat ex n @ [(''sig'', JStr (b64u_encode sig))])))) =
     (if s \<noteq> [] \<and> d \<noteq> [] \<and> ch \<noteq> [] \<and> n \<noteq> [] then Inr (s, d, ch, JStr (isoformat iat), JStr (isoformat ex), n, sig)
      else Inl (IdentityError ''identity token fields must be non-empty strings''))"
proof -
  let ?env = "claims_json s d ch iat ex n @ [(''sig'', JStr (b64u_encode sig))]"
  have "loads_bytes fl (render (JObj ?env)) = Some (JObj ?env)"
    by (rule loads_bytes_render) (simp_all add: claims_json_def)
  then show ?thesis
    by (simp add: read_envelope_def) (simp add: claims_json_def lookup_fields_def nonempty_text_def decode_signature_def)
qed

lemma issuer_mint_token:
  assumes "issuer_mint sign st nonce now = Inr (token, ex)" and "issuer_settings_ok st" and "nonce \<noteq> []"
    and "is_subject st \<noteq> []" and "is_device st \<noteq> []" and "is_channel st \<in> set ALLOWED_CHANNELS"
  shows "mint_token sign (is_subject st) (is_device st) (is_channel st) nonce (is_token_ttl_seconds st) now = Inr token"
  using assms by (auto simp: issuer_mint_def mint_token_def Let_def issuer_settings_ok_def MAX_TTL_SECONDS_def canonical_claims_def
      split: if_splits)

lemma issuer_misconfigured:
  assumes "issuer_mint sign st nonce now = Inr (token, ex)" and "nonce \<noteq> []"
    and "\<not> (is_subject st \<noteq> [] \<and> is_device st \<noteq> [] \<and> is_channel st \<in> set ALLOWED_CHANNELS)"
  shows "\<exists>m. verify_token verifies fl fromisoformat token later = Inl (IdentityError m)"
proof -
  obtain sig where "token = b64u_encode (render (JObj (claims_json (is_subject st) (is_device st) (is_channel st) now
      (now + seconds (is_token_ttl_seconds st)) nonce @ [(''sig'', JStr (b64u_encode sig))])))"
    using assms(1) unfolding issuer_mint_def Let_def by (simp del: render.simps split: if_splits) blast
  then have "read_envelope fl token = (if is_subject st \<noteq> [] \<and> is_device st \<noteq> [] \<and> is_channel st \<noteq> []
      then Inr (is_subject st, is_device st, is_channel st, JStr (isoformat now),
        JStr (isoformat (now + seconds (is_token_ttl_seconds st))), nonce, sig)
      else Inl (IdentityError ''identity token fields must be non-empty strings''))"
    using assms(2) by (simp only: read_wire not_False_eq_True simp_thms)
  then show ?thesis using assms(3) by (auto simp: verify_token_def)
qed

text \<open>The local issuer and the broker agree, although they share no code: a request to the broker that carries a
  token of the issuer is authenticated, while the token is valid, as exactly the subject, device and channel of the
  issuer's settings, provided these are ones the broker knows; otherwise every token of the issuer is refused. The caller
  of the issuer has no influence on the identity.\<close>

theorem issuer_token_authenticates:
  assumes "issuer_token sign st authorization nonce now = Inr (token, ex)" and "issuer_settings_ok st" and "nonce \<noteq> []"
    and "\<And>material. verifies (sign material) material"
    and "instant_ok (now - seconds 30)" and "instant_ok (now + seconds (is_token_ttl_seconds st) + seconds 30)"
    and "\<And>t. t \<in> {now, now + seconds (is_token_ttl_seconds st)} \<Longrightarrow> fromisoformat (isoformat t) = Some (utc_stamp t)"
    and "now \<le> later" and "later \<le> now + seconds (is_token_ttl_seconds st)"
    and "ig_verify_token ig = Some (\<lambda>t. verify_token verifies fl fromisoformat t later)" and "hd_identity h = Some token"
  shows "authenticated_subject ig h =
    (if is_subject st \<noteq> [] \<and> is_device st \<noteq> [] \<and> is_channel st \<in> set ALLOWED_CHANNELS
     then Inr \<lparr>sj_name = is_subject st, sj_device = is_device st, sj_channel = is_channel st\<rparr>
     else Inl (unauthorized ''invalid identity token''))"
proof (cases "is_subject st \<noteq> [] \<and> is_device st \<noteq> [] \<and> is_channel st \<in> set ALLOWED_CHANNELS")
  case True
  have mint: "issuer_mint sign st nonce now = Inr (token, ex)" using assms(1) by (simp add: issuer_token_def)
  have token: "mint_token sign (is_subject st) (is_device st) (is_channel st) nonce (is_token_ttl_seconds st) now = Inr token"
    using issuer_mint_token [OF mint assms(2,3)] True by simp
  show ?thesis
    using minted_verifies [OF token, where verifies = verifies and fl = fl and later = later, OF assms(4-7)] assms(8-11) True
    by (auto simp: authenticated_subject_def subject_from_identity_token_def to_subject_def seconds_def)
next
  case False
  have "issuer_mint sign st nonce now = Inr (token, ex)" using assms(1) by (simp add: issuer_token_def)
  then obtain m where refused: "verify_token verifies fl fromisoformat token later = Inl (IdentityError m)"
    using issuer_misconfigured [OF _ assms(3) False] by blast
  then have "authenticated_subject ig h = Inl (unauthorized ''invalid identity token'')"
    using assms(10,11) by (simp add: authenticated_subject_def subject_from_identity_token_def)
  with False show ?thesis by (simp only: if_False)
qed

section \<open>An example\<close>

definition demo_system :: system where
  "demo_system = \<lparr>sy_run = (\<lambda>h argv. Some (Inr (0, ''true'', []))), sy_spawn = (\<lambda>h argv. Inr ()), sy_exited = (\<lambda>h pid. False),
     sy_which = (\<lambda>name. None), sy_expanduser = Inr, sy_read_text = (\<lambda>path. Inl (PyOSError ''missing'')),
     sy_connect = (\<lambda>h t data. None), sy_float = (\<lambda>t. t), sy_str = (\<lambda>v. []), sy_sha256 = (\<lambda>s. s)\<rparr>"

definition demo_mac :: mac_inventory where
  "demo_mac = \<lparr>mi_apps = [(''editor'', ''org.example.Editor'')], mi_browser_sessions = [], mi_shortcuts = [], mi_audio_inputs = [],
     mi_audio_outputs = [], mi_focus_modes = [], mi_pomodoro_routines = [], mi_display_modes = [], mi_workspaces = [],
     mi_input_sources = [], mi_app_commands = [],
     mi_obs = \<lparr>os_host = ''127.0.0.1'', os_port = 4455, os_password_file = None, os_scenes = [], os_sources = []\<rparr>\<rparr>"

definition demo_inhibit :: local_request where
  "demo_inhibit = \<lparr>lr_action_id = SLEEP_INHIBIT_ON, lr_target = ''desk''\<rparr>"

theorem one_caffeinate_witness:
  "card (caffeinated demo_system (agent_run demo_system demo_mac [demo_inhibit, demo_inhibit] started)) \<le> 1 \<and>
   caffeinated demo_system (snd (sleep_inhibit_off demo_system demo_mac demo_inhibit
     (agent_run demo_system demo_mac [demo_inhibit, demo_inhibit] started))) = {}"
  using one_caffeinate [of demo_system _ demo_mac "[demo_inhibit, demo_inhibit]" demo_inhibit, OF _ refl]
  by (simp add: exits_final_def demo_system_def)

definition demo_issuer :: issuer_settings where
  "demo_issuer = \<lparr>is_subject = ''operator'', is_device = ''deck-1'', is_channel = ''tailscale'', is_token_ttl_seconds = 60,
     is_caller_token = None\<rparr>"

lemma demo_issued_token: "issuer_token (\<lambda>m. m) demo_issuer None ''n1'' demo_issued_at = Inr (demo_token, isoformat (demo_issued_at + seconds 60))"
  using demo_token
  by (auto simp: issuer_token_def issuer_authorize_def issuer_mint_def demo_issuer_def mint_token_def Let_def canonical_claims_def split: if_splits)

theorem issuer_token_authenticates_witness:
  "authenticated_subject (demo_ingress\<lparr>ig_verify_token := Some (\<lambda>t. verify_token (\<lambda>sig m. sig = m) (\<lambda>t. t) demo_fromisoformat t demo_issued_at)\<rparr>)
     demo_headers = Inr \<lparr>sj_name = ''operator'', sj_device = ''deck-1'', sj_channel = ''tailscale''\<rparr>"
proof -
  let ?ig = "demo_ingress\<lparr>ig_verify_token := Some (\<lambda>t. verify_token (\<lambda>sig m. sig = m) (\<lambda>t. t) demo_fromisoformat t demo_issued_at)\<rparr>"
  have "authenticated_subject ?ig demo_headers =
    (if is_subject demo_issuer \<noteq> [] \<and> is_device demo_issuer \<noteq> [] \<and> is_channel demo_issuer \<in> set ALLOWED_CHANNELS
     then Inr \<lparr>sj_name = is_subject demo_issuer, sj_device = is_device demo_issuer, sj_channel = is_channel demo_issuer\<rparr>
     else Inl (unauthorized ''invalid identity token''))"
    by (rule issuer_token_authenticates [where verifies = "\<lambda>sig m. sig = m" and fl = "\<lambda>t. t" and fromisoformat = demo_fromisoformat
        and later = demo_issued_at, OF demo_issued_token])
      (use demo_instants demo_reads in \<open>simp_all add: issuer_settings_ok_def demo_issuer_def demo_headers_def seconds_def\<close>)
  then show ?thesis by (simp add: demo_issuer_def ALLOWED_CHANNELS_def)
qed

end
