(* ===== verification/MacResults.thy ===== *)
theory MacResults
  imports MacAgent
begin

text \<open>
  What comes back from the local executor: the shape of every result, the refusal of aliases the operator did not
  configure, and what the validator of keystroke clauses lets through.
\<close>

section \<open>Results\<close>

definition gives :: "('a \<Rightarrow> bool) \<Rightarrow> 'a mac \<Rightarrow> bool" where
  "gives Q p \<longleftrightarrow> (\<forall>m x m'. p m = (Some (Inr x), m') \<longrightarrow> Q x)"

named_theorems gives_intros \<open>programs whose result is bounded\<close>

lemma gives_basic [gives_intros]:
  "Q x \<Longrightarrow> gives Q (ret x)" "gives Q (throw e)" "gives Q waits"
  by (simp_all add: gives_def ret_def throw_def waits_def)

lemma gives_seq [gives_intros]: "(\<And>x. gives Q (f x)) \<Longrightarrow> gives Q (seq p f)"
  unfolding gives_def seq_def by (auto split: prod.splits option.splits sum.splits)

lemma gives_seq_from:
  assumes "gives R p" and "\<And>x. R x \<Longrightarrow> gives Q (f x)"
  shows "gives Q (seq p f)"
  using assms unfolding gives_def seq_def by (auto split: prod.splits option.splits sum.splits) blast

lemma gives_catch [gives_intros]: "gives Q p \<Longrightarrow> (\<And>e. gives Q (h e)) \<Longrightarrow> gives Q (catch p h)"
  unfolding gives_def catch_def by (auto split: prod.splits option.splits sum.splits)

lemma gives_cases [gives_intros]:
  "(b \<Longrightarrow> gives Q p) \<Longrightarrow> (\<not> b \<Longrightarrow> gives Q q) \<Longrightarrow> gives Q (if b then p else q)"
  "gives Q p \<Longrightarrow> (\<And>x. gives Q (g x)) \<Longrightarrow> gives Q (case v of None \<Rightarrow> p | Some x \<Rightarrow> g x)"
  by (auto split: option.split)

definition LOCAL_STATES :: "string list" where
  "LOCAL_STATES = [''running'', ''unknown'', ''requested'', ''completed'', ''muted'', ''live'', ''selected'', ''ok'', ''set'', ''cleared'',
     ''started'', ''stopped'', ''applied'', ''inhibited'', ''released'', ''recording'', ''idle'', ''visible'', ''hidden'', ''saved'', ''reset'']"

text \<open>A result of the request: a known state, and details that are texts under distinct names.\<close>

definition result_of :: "local_request \<Rightarrow> local_result \<Rightarrow> bool" where
  "result_of request r \<longleftrightarrow> ls_action_id r = lr_action_id request \<and> ls_target r = lr_target request \<and> ls_state r \<in> set LOCAL_STATES \<and>
     distinct (map fst (ls_details r)) \<and> (\<forall>(k, v) \<in> set (ls_details r). \<exists>s. v = JStr s)"

lemma mac_result_of:
  "state \<in> set LOCAL_STATES \<Longrightarrow> distinct (map fst details) \<Longrightarrow> (\<And>k v. (k, v) \<in> set details \<Longrightarrow> \<exists>s. v = JStr s) \<Longrightarrow>
     result_of request (mac_result request state verified details)"
  by (auto simp: result_of_def mac_result_def distinct_map_filter)

lemma mic_query_gives: "gives (\<lambda>s. s \<in> {''unknown'', ''muted'', ''live''}) (mic_query sy)"
  unfolding mic_query_def by (intro gives_intros) (simp split: option.split)

lemma record_state_gives: "gives (\<lambda>s. s \<in> {''recording'', ''idle''}) (record_state sy os)"
  unfolding record_state_def by (intro gives_intros) simp

lemma gives_mono: "gives P p \<Longrightarrow> (\<And>x. P x \<Longrightarrow> Q x) \<Longrightarrow> gives Q p"
  unfolding gives_def by blast

lemma obs_guarded_gives: "gives Q p \<Longrightarrow> gives Q (obs_guarded p)"
  unfolding obs_guarded_def by (auto intro!: gives_intros split: exn.split)

lemma shortcut_handler_gives:
  "state \<in> set LOCAL_STATES \<Longrightarrow> gives (result_of request) (shortcut_handler mapping state detail sy mi request)"
  unfolding shortcut_handler_def by (intro gives_intros mac_result_of) auto

lemma mic_set_gives: "gives (result_of request) (mic_set b sy mi request)"
  unfolding mic_set_def
  by (intro gives_intros gives_seq_from [OF mic_query_gives] mac_result_of) (auto simp: LOCAL_STATES_def)

lemma recorded_gives: "gives (\<lambda>s. s \<in> {''recording'', ''idle''}) (obs_guarded (seq p (\<lambda>_. record_state sy os)))"
  by (intro obs_guarded_gives gives_intros record_state_gives)

lemma handler_gives: "gives (result_of request) (handler_of action sy mi request)"
proof (cases action)
  case SLEEP_INHIBIT_STATE
  then show ?thesis by (auto simp: gives_def sleep_inhibit_state_def LOCAL_STATES_def intro!: mac_result_of)
next
  case MIC_STATE
  then show ?thesis unfolding MIC_STATE handler_of.simps mic_state_def
    by (intro gives_seq_from [OF mic_query_gives] gives_intros mac_result_of) (auto simp: LOCAL_STATES_def)
next
  case OBS_RECORD_START
  then show ?thesis unfolding OBS_RECORD_START handler_of.simps obs_record_start_def
    by (intro gives_seq_from [OF recorded_gives] gives_intros mac_result_of) (auto simp: LOCAL_STATES_def)
next
  case OBS_RECORD_STOP
  then show ?thesis unfolding OBS_RECORD_STOP handler_of.simps obs_record_stop_def
    by (intro gives_seq_from [OF recorded_gives] gives_intros mac_result_of) (auto simp: LOCAL_STATES_def)
next
  case OBS_RECORD_STATE
  then show ?thesis unfolding OBS_RECORD_STATE handler_of.simps obs_record_state_def
    by (auto simp: LOCAL_STATES_def intro!: gives_seq_from [OF record_state_gives] gives_catch gives_basic mac_result_of split: exn.split)
qed (auto simp: handler_defs sleep_inhibit_on_def sleep_inhibit_off_def Let_def LOCAL_STATES_def
    intro!: gives_intros mac_result_of mic_set_gives shortcut_handler_gives split: exn.split)


section \<open>Aliases\<close>

text \<open>The table of the inventory that an action looks its target up in, as the set of its aliases.\<close>

fun configured_aliases :: "mac_inventory \<Rightarrow> local_action \<Rightarrow> string set option" where
  "configured_aliases mi APP_ENSURE_RUNNING = Some (fst ` set (mi_apps mi))"
| "configured_aliases mi BROWSER_SESSION_OPEN = Some (fst ` set (mi_browser_sessions mi))"
| "configured_aliases mi SHORTCUT_RUN = Some (fst ` set (mi_shortcuts mi))"
| "configured_aliases mi WORKSPACE_OPEN = Some (fst ` set (mi_workspaces mi))"
| "configured_aliases mi AUDIO_OUTPUT_SELECT = Some (fst ` set (mi_audio_outputs mi))"
| "configured_aliases mi AUDIO_INPUT_SELECT = Some (fst ` set (mi_audio_inputs mi))"
| "configured_aliases mi FOCUS_SET = Some (fst ` set (mi_focus_modes mi))"
| "configured_aliases mi POMODORO_START = Some (fst ` set (mi_pomodoro_routines mi))"
| "configured_aliases mi DISPLAY_MODE_APPLY = Some (fst ` set (mi_display_modes mi))"
| "configured_aliases mi OBS_SCENE_SET = Some (fst ` set (os_scenes (mi_obs mi)))"
| "configured_aliases mi OBS_SOURCE_TOGGLE = Some (fst ` set (os_sources (mi_obs mi)))"
| "configured_aliases mi INPUT_SELECT = Some (fst ` set (mi_input_sources mi))"
| "configured_aliases mi APP_COMMAND = Some (fst ` set (mi_app_commands mi))"
| "configured_aliases mi _ = None"

lemma alias_lookup_unknown:
  "alias \<notin> fst ` set mapping \<Longrightarrow> alias_lookup mapping alias = Inl (LocalActionError (''unknown local target alias '' @ py_repr_ident alias))"
  using map_of_eq_None_iff [of mapping "alias"] by (simp add: alias_lookup_def)

lemma throw_seq [simp]: "seq (pure_or (Inl e)) f = throw e"
  by (simp add: seq_def pure_or_def throw_def fun_eq_iff)

lemma unknown_alias_throws:
  assumes "configured_aliases mi action = Some keys" and "lr_target request \<notin> keys"
  shows "handler_of action sy mi request = throw (LocalActionError (''unknown local target alias '' @ py_repr_ident (lr_target request)))"
  using assms by (cases action) (auto simp: handler_defs shortcut_handler_def alias_lookup_unknown)

text \<open>An action that names something the operator did not configure is refused before anything happens: for each of the
  thirteen actions that look their target up, a target outside the configured aliases ends in a \<open>LocalActionError\<close>, which the
  service answers with status 422, and the machine is exactly as before.\<close>

theorem unknown_alias_does_nothing:
  assumes "configured_aliases mi (lr_action_id request) = Some keys" and "lr_target request \<notin> keys"
  shows "\<exists>message. mac_execute sy mi request m = (Some (Inl (LocalActionError message)), m) \<and>
    (mac_authenticate file authorization = Inr () \<longrightarrow>
       mac_api_execute sy mi file authorization request m = (Some (Inl (HTTPException 422 (JStr message))), m))"
  using unknown_alias_throws [OF assms, of sy]
  by (auto simp: mac_execute_def mac_api_execute_def throw_def seq_def pure_or_def catch_def)

theorem unknown_alias_does_nothing_witness:
  "\<exists>message. mac_execute demo_system demo_mac \<lparr>lr_action_id = APP_ENSURE_RUNNING, lr_target = ''browser''\<rparr> started =
     (Some (Inl (LocalActionError message)), started)"
  using unknown_alias_does_nothing [of demo_mac "\<lparr>lr_action_id = APP_ENSURE_RUNNING, lr_target = ''browser''\<rparr>" "{''editor''}"
      demo_system started] by (auto simp: demo_mac_def)

section \<open>Keystroke clauses\<close>

text \<open>The parts of a text outside of quotes, from its parts between quotes: every other one, and the one after a quote
  that has no partner.\<close>

fun bare_parts :: "string list \<Rightarrow> string list" where
  "bare_parts [] = []"
| "bare_parts [p] = [p]"
| "bare_parts [p, q] = [p, q]"
| "bare_parts (p # q # r # parts) = p # bare_parts (r # parts)"

definition quote_char :: char where
  "quote_char = CHR 0x22"

lemma words_append: "\<not> alpha c \<Longrightarrow> words (xs @ c # ys) = words xs @ words ys"
proof (induction xs rule: words.induct)
  case (2 d xs)
  show ?case
  proof (cases "alpha d")
    case True
    show ?thesis
    proof (cases "list_all alpha xs")
      case all: True
      then have "takeWhile alpha (xs @ c # ys) = xs" "dropWhile alpha (xs @ c # ys) = c # ys" "takeWhile alpha xs = xs" "dropWhile alpha xs = []"
        using 2(3) by (auto simp: takeWhile_append2 dropWhile_append2 list_all_iff takeWhile_eq_all_conv dropWhile_eq_Nil_conv)
      then show ?thesis using True 2(3) by (simp only: append_Cons words.simps if_True) simp
    next
      case False
      then have "takeWhile alpha (xs @ c # ys) = takeWhile alpha xs" "dropWhile alpha (xs @ c # ys) = dropWhile alpha xs @ c # ys"
        by (auto simp: takeWhile_append1 dropWhile_append1 list_all_iff)
      then show ?thesis using 2(1) [OF True 2(3)] True by simp
    qed
  qed (use 2 in simp)
qed simp

lemma outside_unquoted: "quote_char \<notin> set p \<Longrightarrow> outside_quotes (p @ s) = p @ outside_quotes s"
  by (induction p) (auto simp: quote_char_def)

lemma outside_pair:
  assumes "quote_char \<notin> set q"
  shows "outside_quotes (quote_char # q @ quote_char # s) = CHR '' '' # outside_quotes s"
proof -
  have "dropWhile (\<lambda>d. d \<noteq> CHR 0x22) (q @ CHR 0x22 # s) = CHR 0x22 # s"
    using assms by (subst dropWhile_append2) (auto simp: quote_char_def)
  then show ?thesis by (simp add: quote_char_def)
qed

lemma outside_single:
  assumes "quote_char \<notin> set q"
  shows "outside_quotes (quote_char # q) = quote_char # q"
proof -
  have "dropWhile (\<lambda>d. d \<noteq> CHR 0x22) q = []" using assms by (auto simp: quote_char_def dropWhile_eq_Nil_conv)
  moreover have "outside_quotes q = q" using outside_unquoted [OF assms, of "[]"] by simp
  ultimately show ?thesis by (simp add: quote_char_def del: dropWhile_eq_Nil_conv)
qed

lemma words_outside:
  assumes "\<And>p. p \<in> set parts \<Longrightarrow> quote_char \<notin> set p" and "parts \<noteq> []"
  shows "words (outside_quotes (join quote_char parts)) = concat (map words (bare_parts parts))"
  using assms
proof (induction parts rule: bare_parts.induct)
  case (3 p q)
  have "\<not> alpha quote_char" by (simp add: alpha_def lower_alpha_def quote_char_def)
  then show ?case using 3 by (simp add: outside_unquoted outside_single words_append del: outside_quotes.simps)
next
  case (4 p q r parts)
  have "join quote_char (p # q # r # parts) = p @ quote_char # q @ quote_char # join quote_char (r # parts)" by simp
  then have "outside_quotes (join quote_char (p # q # r # parts)) = p @ CHR '' '' # outside_quotes (join quote_char (r # parts))"
    using outside_unquoted [of p "quote_char # q @ quote_char # join quote_char (r # parts)"] outside_pair [of q] 4(2) [of p] 4(2) [of q]
    by simp
  moreover have "\<not> alpha (CHR '' '')" by (simp add: alpha_def lower_alpha_def)
  ultimately show ?case using 4 by (simp add: words_append)
qed (use outside_unquoted [of _ "[]"] in auto)

text \<open>What the validator of an operator's keystroke clause accepts, without regular expressions: the characters are
  letters, digits, blanks, quotes, braces and commas, and when the clause is cut at its quotes, every maximal run of letters
  in every part that is not between two quotes, the part after an unpaired quote included, is one of the nine
  words of a keystroke clause. So no \<open>tell\<close>, \<open>do shell script\<close> or other statement can stand outside a quoted key.\<close>

theorem keystroke_clause_exact:
  "validate_keystroke s \<longleftrightarrow> keystroke_chars s \<and>
     list_all (\<lambda>part. list_all (\<lambda>w. py_lower w \<in> set KEYSTROKE_WORDS) (words part)) (bare_parts (split_on quote_char s))"
proof -
  have "words (outside_quotes s) = concat (map words (bare_parts (split_on quote_char s)))"
    using words_outside [of "split_on quote_char s"] split_on_parts [of quote_char s] by simp
  then show ?thesis by (simp add: validate_keystroke_def list_all_iff)
qed

end
