(* ===== verification/Mcp.thy ===== *)
theory Mcp
  imports HostTransport ApiLaws Identity
begin

text \<open>
  The clients of the broker: \<open>broker_client.py\<close>, which signs every request with a fresh identity token, and the tools of
  \<open>mcp_server.py\<close> over it. The HTTP transport is an argument, a function on whatever state the other end has; so are
  the reading of a reply by its model and the clock, the nonces and the keys of a call.
\<close>

section \<open>The client\<close>

record http_request =
  ht_method :: string
  ht_url :: string
  ht_headers :: "(string \<times> string) list"
  ht_body :: "json option"

text \<open>The body as JSON, where it is JSON, and as text.\<close>

record http_response =
  hs_status :: int
  hs_json :: "json option"
  hs_text :: string

text \<open>\<open>Inl\<close> is the message of an \<open>httpx.HTTPError\<close>.\<close>

type_synonym 's transport = "http_request \<Rightarrow> 's \<Rightarrow> (string + http_response) \<times> 's"

datatype client_error = BrokerClientError string "int option" | Raised_inside exn

record broker_client =
  bk_base_url :: string
  bk_sign :: "string \<Rightarrow> string"
  bk_channel :: string
  bk_token_ttl :: int
  bk_str :: "json \<Rightarrow> string"

definition BrokerClient :: "string \<Rightarrow> (string \<Rightarrow> string) \<Rightarrow> string \<Rightarrow> int \<Rightarrow> (json \<Rightarrow> string) \<Rightarrow> broker_client" where
  "BrokerClient base_url sign channel ttl str =
     \<lparr>bk_base_url = rstrip (CHR ''/'') base_url, bk_sign = sign, bk_channel = channel, bk_token_ttl = ttl, bk_str = str\<rparr>"

text \<open>Whom a call is made for, with the nonce and the time of its token.\<close>

record call_identity =
  ci_subject :: string
  ci_device :: string
  ci_nonce :: string
  ci_now :: instant

definition client_headers :: "broker_client \<Rightarrow> call_identity \<Rightarrow> exn + (string \<times> string) list" where
  "client_headers client who =
     bind_sum (mint_token (bk_sign client) (ci_subject who) (ci_device who) (bk_channel client) (ci_nonce who)
       (bk_token_ttl client) (ci_now who)) (\<lambda>token.
     Inr [(''X-Deckhand-Identity'', token), (''Content-Type'', ''application/json'')])"

definition safe_detail :: "broker_client \<Rightarrow> http_response \<Rightarrow> string" where
  "safe_detail client response =
     (case hs_json response of
        None \<Rightarrow> take 200 (hs_text response)
      | Some body \<Rightarrow>
          (case body of
             JObj kvs \<Rightarrow> (case obj_get kvs ''detail'' of
                 Some (JStr s) \<Rightarrow> take 200 s | Some d \<Rightarrow> take 200 (bk_str client d) | None \<Rightarrow> take 200 (bk_str client body))
           | JStr s \<Rightarrow> take 200 s
           | _ \<Rightarrow> take 200 (bk_str client body)))"

definition read_response :: "broker_client \<Rightarrow> http_response \<Rightarrow> client_error + json" where
  "read_response client response =
     (if 400 \<le> hs_status response
      then Inl (BrokerClientError (''broker returned '' @ str_int (hs_status response) @ '': '' @ safe_detail client response)
        (Some (hs_status response)))
      else case hs_json response of None \<Rightarrow> Inl (Raised_inside (PyValueError ''JSONDecodeError'')) | Some v \<Rightarrow> Inr v)"

definition client_request ::
  "broker_client \<Rightarrow> 's transport \<Rightarrow> string \<Rightarrow> string \<Rightarrow> call_identity \<Rightarrow> json option \<Rightarrow> 's \<Rightarrow> (client_error + json) \<times> 's" where
  "client_request client http method url_path who body s =
     (case client_headers client who of
        Inl e \<Rightarrow> (Inl (Raised_inside e), s)
      | Inr headers \<Rightarrow>
          (case http \<lparr>ht_method = method, ht_url = bk_base_url client @ url_path, ht_headers = headers, ht_body = body\<rparr> s of
             (Inl m, s') \<Rightarrow> (Inl (BrokerClientError (''broker unreachable: '' @ m) None), s')
           | (Inr response, s') \<Rightarrow> (read_response client response, s')))"

definition reading :: "(json \<Rightarrow> 'a option) \<Rightarrow> (client_error + json) \<times> 's \<Rightarrow> (client_error + 'a) \<times> 's" where
  "reading read r =
     (case r of
        (Inl e, s) \<Rightarrow> (Inl e, s)
      | (Inr v, s) \<Rightarrow> (case read v of None \<Rightarrow> Inl (Raised_inside (ValidationError ''response'')) | Some x \<Rightarrow> Inr x, s))"

definition client_list_actions :: "broker_client \<Rightarrow> 's transport \<Rightarrow> call_identity \<Rightarrow> 's \<Rightarrow> (client_error + json) \<times> 's" where
  "client_list_actions client http who = client_request client http ''GET'' ''/v1/actions'' who None"

definition client_status_summary :: "broker_client \<Rightarrow> 's transport \<Rightarrow> call_identity \<Rightarrow> 's \<Rightarrow> (client_error + json) \<times> 's" where
  "client_status_summary client http who = client_request client http ''GET'' ''/v1/status/summary'' who None"

definition client_plan ::
  "broker_client \<Rightarrow> 's transport \<Rightarrow> (json \<Rightarrow> plan_view option) \<Rightarrow> string \<Rightarrow> json \<Rightarrow> call_identity \<Rightarrow> 's \<Rightarrow> (client_error + plan_view) \<times> 's" where
  "client_plan client http read_plan action_id body who s =
     reading read_plan (client_request client http ''POST'' (''/v1/actions/'' @ action_id @ '':plan'') who (Some body) s)"

definition client_execute ::
  "broker_client \<Rightarrow> 's transport \<Rightarrow> (json \<Rightarrow> job_view option) \<Rightarrow> string \<Rightarrow> json \<Rightarrow> call_identity \<Rightarrow> 's \<Rightarrow> (client_error + job_view) \<times> 's" where
  "client_execute client http read_job action_id body who s =
     reading read_job (client_request client http ''POST'' (''/v1/actions/'' @ action_id @ '':execute'') who (Some body) s)"

definition client_job ::
  "broker_client \<Rightarrow> 's transport \<Rightarrow> (json \<Rightarrow> job_view option) \<Rightarrow> string \<Rightarrow> call_identity \<Rightarrow> 's \<Rightarrow> (client_error + job_view) \<times> 's" where
  "client_job client http read_job job_id who s =
     reading read_job (client_request client http ''GET'' (''/v1/jobs/'' @ job_id) who None s)"

section \<open>The tools\<close>

text \<open>A tool answers with a view, which the code then dumps to JSON.\<close>

record mcp_caller =
  mk_subject :: string
  mk_device :: string

definition calling :: "mcp_caller \<Rightarrow> string \<Rightarrow> instant \<Rightarrow> call_identity" where
  "calling caller nonce now = \<lparr>ci_subject = mk_subject caller, ci_device = mk_device caller, ci_nonce = nonce, ci_now = now\<rparr>"

definition mcp_request_body ::
  "string \<Rightarrow> string \<Rightarrow> string \<Rightarrow> json_object option \<Rightarrow> string \<Rightarrow> bool \<Rightarrow> string option \<Rightarrow> string option \<Rightarrow> json" where
  "mcp_request_body action_id target_type target_id parameters key dry_run token response =
     JObj ([(''action_id'', JStr action_id), (''action_version'', JInt 1),
       (''target'', JObj [(''type'', JStr target_type), (''id'', JStr target_id)]),
       (''parameters'', JObj (case parameters of None \<Rightarrow> [] | Some p \<Rightarrow> p)),
       (''context'', JObj [(''client'', JStr ''deckhand-mcp''), (''control'', JStr ''mcp'')]),
       (''idempotency_key'', JStr key), (''dry_run'', JBool dry_run)] @
       (case token of None \<Rightarrow> [] | Some t \<Rightarrow> [(''confirmation_token'', JStr t)]) @
       (case response of None \<Rightarrow> [] | Some r \<Rightarrow> [(''confirmation_response'', JStr r)]))"

definition mcp_plan_action ::
  "broker_client \<Rightarrow> 's transport \<Rightarrow> (json \<Rightarrow> plan_view option) \<Rightarrow> mcp_caller \<Rightarrow> string \<Rightarrow> string \<Rightarrow> string \<Rightarrow> json_object option \<Rightarrow>
     string \<Rightarrow> string \<Rightarrow> instant \<Rightarrow> 's \<Rightarrow> (client_error + plan_view) \<times> 's" where
  "mcp_plan_action client http read_plan caller action_id target_type target_id parameters key nonce now =
     client_plan client http read_plan action_id (mcp_request_body action_id target_type target_id parameters key True None None)
       (calling caller nonce now)"

definition mcp_execute_action ::
  "broker_client \<Rightarrow> 's transport \<Rightarrow> (json \<Rightarrow> job_view option) \<Rightarrow> mcp_caller \<Rightarrow> string \<Rightarrow> string \<Rightarrow> string \<Rightarrow> json_object option \<Rightarrow>
     string option \<Rightarrow> string option \<Rightarrow> string \<Rightarrow> string \<Rightarrow> instant \<Rightarrow> 's \<Rightarrow> (client_error + job_view) \<times> 's" where
  "mcp_execute_action client http read_job caller action_id target_type target_id parameters token response key nonce now =
     client_execute client http read_job action_id
       (mcp_request_body action_id target_type target_id parameters key False token response) (calling caller nonce now)"

definition mcp_job_status ::
  "broker_client \<Rightarrow> 's transport \<Rightarrow> (json \<Rightarrow> job_view option) \<Rightarrow> mcp_caller \<Rightarrow> string \<Rightarrow> string \<Rightarrow> instant \<Rightarrow> 's \<Rightarrow>
     (client_error + job_view) \<times> 's" where
  "mcp_job_status client http read_job caller job_id nonce now = client_job client http read_job job_id (calling caller nonce now)"

definition mcp_list_actions ::
  "broker_client \<Rightarrow> 's transport \<Rightarrow> mcp_caller \<Rightarrow> string \<Rightarrow> instant \<Rightarrow> 's \<Rightarrow> (client_error + json) \<times> 's" where
  "mcp_list_actions client http caller nonce now = client_list_actions client http (calling caller nonce now)"

definition mcp_status_summary ::
  "broker_client \<Rightarrow> 's transport \<Rightarrow> mcp_caller \<Rightarrow> string \<Rightarrow> instant \<Rightarrow> 's \<Rightarrow> (client_error + json) \<times> 's" where
  "mcp_status_summary client http caller nonce now = client_status_summary client http (calling caller nonce now)"

definition build_broker_client ::
  "string option \<Rightarrow> (string \<Rightarrow> exn + (string \<Rightarrow> string)) \<Rightarrow> string \<Rightarrow> (json \<Rightarrow> string) \<Rightarrow> exn + broker_client" where
  "build_broker_client key_file load_private_key broker_url str =
     (case key_file of
        None \<Rightarrow> Inl (OtherException ''McpConfigError'')
      | Some file \<Rightarrow> bind_sum (load_private_key file) (\<lambda>sign. Inr (BrokerClient broker_url sign ''mcp'' 60 str)))"

section \<open>No authority of its own\<close>

text \<open>The request that a body stands for.\<close>

definition mcp_request ::
  "string \<Rightarrow> string \<Rightarrow> string \<Rightarrow> json_object option \<Rightarrow> string \<Rightarrow> bool \<Rightarrow> string option \<Rightarrow> string option \<Rightarrow> action_request" where
  "mcp_request action_id target_type target_id parameters key dry_run token response =
     \<lparr>rq_action_id = action_id, rq_action_version = 1, rq_target = \<lparr>tg_type = target_type, tg_id = target_id\<rparr>,
      rq_parameters = (case parameters of None \<Rightarrow> [] | Some p \<Rightarrow> p),
      rq_context = \<lparr>cx_profile = None, cx_frontmost_app = None, cx_client = ''deckhand-mcp'', cx_control = Some ''mcp''\<rparr>,
      rq_idempotency_key = key, rq_dry_run = dry_run, rq_confirmation_token = token, rq_confirmation_response = response\<rparr>"

text \<open>The model of a request reads the JSON of a valid request, a field that may be missing standing for \<open>None\<close>.\<close>

definition optional :: "string \<Rightarrow> string option \<Rightarrow> json_object" where
  "optional key v = (case v of None \<Rightarrow> [] | Some s \<Rightarrow> [(key, JStr s)])"

definition request_body_json :: "action_request \<Rightarrow> json" where
  "request_body_json r =
     JObj ([(''action_id'', JStr (rq_action_id r)), (''action_version'', JInt (rq_action_version r)),
       (''target'', JObj [(''type'', JStr (tg_type (rq_target r))), (''id'', JStr (tg_id (rq_target r)))]),
       (''parameters'', JObj (rq_parameters r)),
       (''context'', JObj (optional ''profile'' (cx_profile (rq_context r)) @ optional ''frontmost_app'' (cx_frontmost_app (rq_context r)) @
          [(''client'', JStr (cx_client (rq_context r)))] @ optional ''control'' (cx_control (rq_context r)))),
       (''idempotency_key'', JStr (rq_idempotency_key r)), (''dry_run'', JBool (rq_dry_run r))] @
       optional ''confirmation_token'' (rq_confirmation_token r) @ optional ''confirmation_response'' (rq_confirmation_response r))"

definition reads_requests :: "(json \<Rightarrow> action_request option) \<Rightarrow> bool" where
  "reads_requests read \<longleftrightarrow> (\<forall>r. request_ok r \<longrightarrow> read (request_body_json r) = Some r)"

lemma mcp_body_is_request:
  "mcp_request_body action_id target_type target_id parameters key dry_run token response =
     request_body_json (mcp_request action_id target_type target_id parameters key dry_run token response)"
  by (simp add: mcp_request_body_def request_body_json_def mcp_request_def optional_def)

text \<open>Such a reader.\<close>

definition text_field :: "json_object \<Rightarrow> string \<Rightarrow> string option" where
  "text_field kvs key = (case obj_get kvs key of Some (JStr s) \<Rightarrow> Some s | _ \<Rightarrow> None)"

definition read_body :: "json \<Rightarrow> action_request option" where
  "read_body v =
     (case v of
        JObj kvs \<Rightarrow>
          (case (obj_get kvs ''action_version'', obj_get kvs ''target'', obj_get kvs ''parameters'', obj_get kvs ''context'', obj_get kvs ''dry_run'') of
             (Some (JInt version), Some (JObj t), Some (JObj parameters), Some (JObj c), Some (JBool dry_run)) \<Rightarrow>
               Some \<lparr>rq_action_id = the (text_field kvs ''action_id''), rq_action_version = version,
                 rq_target = \<lparr>tg_type = the (text_field t ''type''), tg_id = the (text_field t ''id'')\<rparr>, rq_parameters = parameters,
                 rq_context = \<lparr>cx_profile = text_field c ''profile'', cx_frontmost_app = text_field c ''frontmost_app'',
                   cx_client = the (text_field c ''client''), cx_control = text_field c ''control''\<rparr>,
                 rq_idempotency_key = the (text_field kvs ''idempotency_key''), rq_dry_run = dry_run,
                 rq_confirmation_token = text_field kvs ''confirmation_token'', rq_confirmation_response = text_field kvs ''confirmation_response''\<rparr>
           | _ \<Rightarrow> None)
      | _ \<Rightarrow> None)"

lemma obj_get_optional: "obj_get (optional key v @ kvs) k = (if k = key \<and> v \<noteq> None then map_option JStr v else obj_get kvs k)"
  by (cases v) (auto simp: optional_def)

lemma read_body_reads: "reads_requests read_body"
proof -
  have "obj_get (optional key v) k = (if k = key then map_option JStr v else None)" for key v k
    using obj_get_optional [of key v "[]" k] by (cases v) auto
  then show ?thesis
    by (auto simp: reads_requests_def read_body_def request_body_json_def obj_get_optional text_field_def split: option.splits)
qed

text \<open>How a web framework answers: the value as JSON, an \<open>HTTPException\<close> with its status and detail, status 500 for any other.\<close>

definition respond :: "exn + json \<Rightarrow> http_response" where
  "respond r =
     (case r of
        Inr v \<Rightarrow> \<lparr>hs_status = 200, hs_json = Some v, hs_text = []\<rparr>
      | Inl (HTTPException code detail) \<Rightarrow> \<lparr>hs_status = code, hs_json = Some (JObj [(''detail'', detail)]), hs_text = []\<rparr>
      | Inl _ \<Rightarrow> \<lparr>hs_status = 500, hs_json = None, hs_text = ''Internal Server Error''\<rparr>)"

definition only_token :: "string \<Rightarrow> headers" where
  "only_token token = \<lparr>hd_identity = Some token, hd_user_login = None, hd_app_capabilities = None, hd_subject = None, hd_device = None,
     hd_channel = None, hd_proxy_assertion = None\<rparr>"

text \<open>A transport that delivers execute requests to a handler of the broker: the caller is authenticated by the token of
  the request and its body is read by the model of a request. An id in the path is delivered as it is when it has only
  characters that a URL does not escape.\<close>

definition url_plain :: "string \<Rightarrow> bool" where
  "url_plain s = list_all (\<lambda>c. c \<in> set ''abcdefghijklmnopqrstuvwxyzABCDEFGHIJKLMNOPQRSTUVWXYZ0123456789-._~'') s"

definition delivers_execute ::
  "db transport \<Rightarrow> string \<Rightarrow> ingress \<Rightarrow> (json \<Rightarrow> action_request option) \<Rightarrow> (job_view \<Rightarrow> json) \<Rightarrow>
     (string \<Rightarrow> action_request \<Rightarrow> subject \<Rightarrow> job_view program) \<Rightarrow> bool" where
  "delivers_execute http base ig read_request dump_job handler \<longleftrightarrow>
     (\<forall>action_id token body request subj db. url_plain action_id \<longrightarrow> read_request body = Some request \<longrightarrow> authenticated_subject ig (only_token token) = Inr subj \<longrightarrow>
        http \<lparr>ht_method = ''POST'', ht_url = base @ ''/v1/actions/'' @ action_id @ '':execute'',
               ht_headers = [(''X-Deckhand-Identity'', token), (''Content-Type'', ''application/json'')], ht_body = Some body\<rparr> db =
          (case handler action_id request subj db of (r, db') \<Rightarrow> (Inr (respond (map_sum id dump_job r)), db')))"

text \<open>Such a transport, in one process with the broker.\<close>

definition cut_between :: "string \<Rightarrow> string \<Rightarrow> string \<Rightarrow> string" where
  "cut_between a b s = drop (length a) (take (length s - length b) s)"

lemma cut_between: "cut_between a b (a @ x @ b) = x"
  by (simp add: cut_between_def)

definition in_process ::
  "string \<Rightarrow> ingress \<Rightarrow> (json \<Rightarrow> action_request option) \<Rightarrow> (job_view \<Rightarrow> json) \<Rightarrow>
     (string \<Rightarrow> action_request \<Rightarrow> subject \<Rightarrow> job_view program) \<Rightarrow> db transport" where
  "in_process base ig read_request dump_job handler rq db =
     (let action_id = cut_between ''/v1/actions/'' '':execute'' (drop (length base) (ht_url rq))
      in case (Option.bind (ht_body rq) read_request, authenticated_subject ig (only_token (snd (hd (ht_headers rq))))) of
           (Some request, Inr subj) \<Rightarrow>
             (case handler action_id request subj db of (r, db') \<Rightarrow> (Inr (respond (map_sum id dump_job r)), db'))
         | _ \<Rightarrow> (Inl ''refused'', db))"

lemma in_process_delivers: "delivers_execute (in_process base ig read_request dump_job handler) base ig read_request dump_job handler"
  using cut_between [of "''/v1/actions/''" "'':execute''"] by (simp add: delivers_execute_def in_process_def)

text \<open>What the client makes of a handler's outcome.\<close>

definition client_outcome :: "broker_client \<Rightarrow> exn + job_view \<Rightarrow> client_error + job_view" where
  "client_outcome client r =
     (case r of
        Inr v \<Rightarrow> Inr v
      | Inl (HTTPException code (JStr m)) \<Rightarrow> Inl (BrokerClientError (''broker returned '' @ str_int code @ '': '' @ take 200 m) (Some code))
      | Inl (HTTPException code d) \<Rightarrow> Inl (BrokerClientError (''broker returned '' @ str_int code @ '': '' @ take 200 (bk_str client d)) (Some code))
      | Inl _ \<Rightarrow> Inl (BrokerClientError ''broker returned 500: Internal Server Error'' (Some 500)))"

lemma read_respond:
  assumes "\<And>v. r = Inr v \<Longrightarrow> read_job (dump_job v) = Some v" and "\<And>code d. r = Inl (HTTPException code d) \<Longrightarrow> 400 \<le> code"
  shows "reading read_job (read_response client (respond (map_sum id dump_job r)), s) = (client_outcome client r, s)"
proof (cases r)
  case (Inr v)
  then show ?thesis using assms(1) by (simp add: reading_def read_response_def respond_def client_outcome_def)
next
  case (Inl e)
  have five: "str_int 500 = ''500''" by code_simp
  show ?thesis
  proof (cases e)
    case (HTTPException code d)
    then show ?thesis using assms(2) Inl
      by (cases d) (auto simp: reading_def read_response_def respond_def client_outcome_def safe_detail_def)
  qed (simp_all add: Inl reading_def read_response_def respond_def client_outcome_def safe_detail_def five)
qed

end
