(* ===== verification/McpLaws.thy ===== *)
theory McpLaws
  imports Mcp
begin

text \<open>
  What a tool call amounts to: exactly a request to the broker by its caller over the channel \<open>mcp\<close>, and a planned action
  that its caller confirms can be executed with the tools.
\<close>

definition mcp_subject :: "mcp_caller \<Rightarrow> subject" where
  "mcp_subject caller = \<lparr>sj_name = mk_subject caller, sj_device = mk_device caller, sj_channel = ''mcp''\<rparr>"

text \<open>A broker that verifies the tokens of a client's key at the time of a call.\<close>

definition verifies_calls ::
  "ingress \<Rightarrow> (string \<Rightarrow> string) \<Rightarrow> instant \<Rightarrow> bool" where
  "verifies_calls ig sign now \<longleftrightarrow>
     (\<exists>verifies fl fromisoformat later.
        ig_verify_token ig = Some (\<lambda>t. verify_token verifies fl fromisoformat t later) \<and>
        (\<forall>material. verifies (sign material) material) \<and>
        (\<forall>t \<in> {now, now + seconds 60}. fromisoformat (isoformat t) = Some (utc_stamp t)) \<and>
        now \<le> later \<and> later \<le> now + seconds 60 \<and> instant_ok (now - seconds 30) \<and> instant_ok (now + seconds 60 + seconds 30))"

lemma call_authenticated:
  assumes "verifies_calls ig sign now" and "mk_subject caller \<noteq> []" and "mk_device caller \<noteq> []" and "nonce \<noteq> []"
  shows "\<exists>token. client_headers (BrokerClient url sign ''mcp'' 60 str) (calling caller nonce now) =
      Inr [(''X-Deckhand-Identity'', token), (''Content-Type'', ''application/json'')] \<and>
    authenticated_subject ig (only_token token) = Inr (mcp_subject caller)"
proof -
  obtain verifies fl fromisoformat later where v:
    "ig_verify_token ig = Some (\<lambda>t. verify_token verifies fl fromisoformat t later)" "\<forall>material. verifies (sign material) material"
    "\<forall>t \<in> {now, now + seconds 60}. fromisoformat (isoformat t) = Some (utc_stamp t)"
    "now \<le> later" "later \<le> now + seconds 60" "instant_ok (now - seconds 30)" "instant_ok (now + seconds 60 + seconds 30)"
    using assms(1) unfolding verifies_calls_def by blast
  have "instant_ok (now + seconds 60)" using v(6,7) by (auto simp: instant_ok_def seconds_def)
  then obtain token where token: "mint_token sign (mk_subject caller) (mk_device caller) ''mcp'' nonce 60 now = Inr token"
    using assms(2-4) by (auto simp: mint_token_def ALLOWED_CHANNELS_def MAX_TTL_SECONDS_def Let_def)
  have "verify_token verifies fl fromisoformat token later = Inr \<lparr>ic_subject = mk_subject caller, ic_device = mk_device caller,
      ic_channel = ''mcp'', ic_issued_at = utc_stamp now, ic_expires_at = utc_stamp (now + seconds 60), ic_nonce = nonce\<rparr>"
    using minted_verifies [OF token, of verifies fromisoformat fl later] v(2-7) by (auto simp: seconds_def)
  then have "authenticated_subject ig (only_token token) = Inr (mcp_subject caller)"
    using v(1) by (simp add: authenticated_subject_def subject_from_identity_token_def only_token_def to_subject_def mcp_subject_def)
  moreover have "client_headers (BrokerClient url sign ''mcp'' 60 str) (calling caller nonce now) =
      Inr [(''X-Deckhand-Identity'', token), (''Content-Type'', ''application/json'')]"
    using token by (simp add: client_headers_def BrokerClient_def calling_def)
  ultimately show ?thesis by blast
qed

text \<open>(C28) A model's tool call has no authority of its own: \<open>execute_action\<close> is the broker's execute handler, run on the typed
  request of the arguments for the subject and device of the MCP caller over the channel \<open>mcp\<close>, with its effects and
  nothing else; the tool returns the job the handler created or raises the status and detail it refused with. (The
  arguments make a valid request, the client's tokens verify, and the transport delivers to the handler.)\<close>

theorem mcp_execute_is_broker_execute:
  assumes "client = BrokerClient url sign ''mcp'' 60 str" and "verifies_calls ig sign now"
    and "mk_subject caller \<noteq> []" and "mk_device caller \<noteq> []" and "nonce \<noteq> []"
    and "delivers_execute http (bk_base_url client) ig read_request dump_job (execute cfg rt env uid)"
    and "reads_requests read_request" and "request_ok (mcp_request action_id target_type target_id parameters key False token response)"
    and "url_plain action_id" and "\<And>v. r = Inr v \<Longrightarrow> read_job (dump_job v) = Some v"
    and "execute cfg rt env uid action_id (mcp_request action_id target_type target_id parameters key False token response)
      (mcp_subject caller) db = (r, db')"
    and "\<And>code d. r = Inl (HTTPException code d) \<Longrightarrow> 400 \<le> code"
  shows "mcp_execute_action client http read_job caller action_id target_type target_id parameters token response key nonce now db =
    (client_outcome client r, db')"
proof -
  obtain t where headers: "client_headers client (calling caller nonce now) =
      Inr [(''X-Deckhand-Identity'', t), (''Content-Type'', ''application/json'')]"
    and who: "authenticated_subject ig (only_token t) = Inr (mcp_subject caller)"
    using call_authenticated [OF assms(2-5)] unfolding assms(1) by blast
  have body: "read_request (mcp_request_body action_id target_type target_id parameters key False token response) =
      Some (mcp_request action_id target_type target_id parameters key False token response)"
    using assms(7,8) by (simp add: mcp_body_is_request reads_requests_def)
  have "http \<lparr>ht_method = ''POST'', ht_url = bk_base_url client @ ''/v1/actions/'' @ action_id @ '':execute'',
      ht_headers = [(''X-Deckhand-Identity'', t), (''Content-Type'', ''application/json'')],
      ht_body = Some (mcp_request_body action_id target_type target_id parameters key False token response)\<rparr> db =
    (Inr (respond (map_sum id dump_job r)), db')"
    using assms(6) [unfolded delivers_execute_def, rule_format, OF assms(9) body who] assms(11) by simp
  then have "client_request client http ''POST'' (''/v1/actions/'' @ action_id @ '':execute'') (calling caller nonce now)
      (Some (mcp_request_body action_id target_type target_id parameters key False token response)) db =
    (read_response client (respond (map_sum id dump_job r)), db')"
    by (simp add: client_request_def headers)
  then show ?thesis
    unfolding mcp_execute_action_def client_execute_def using read_respond [OF assms(10,12)] by simp
qed

section \<open>Planning and executing\<close>

lemma mcp_execute_request:
  "mcp_request action_id target_type target_id parameters key' False (Some token) response =
     (confirmed (mcp_request action_id target_type target_id parameters key True None None) token response)\<lparr>rq_idempotency_key := key'\<rparr>"
  by (simp add: mcp_request_def confirmed_def)

lemma rekeyed_same:
  "validate_request iter c (r\<lparr>rq_idempotency_key := k\<rparr>) = validate_request iter c r"
  "confirmation_digest cr (r\<lparr>rq_idempotency_key := k\<rparr>) = confirmation_digest cr r"
  "new_confirmation_row cfg now i token (r\<lparr>rq_idempotency_key := k\<rparr>) subj mode ttl = new_confirmation_row cfg now i token r subj mode ttl"
  "rego_permits dt pe w action (r\<lparr>rq_idempotency_key := k\<rparr>) subj phase valid = rego_permits dt pe w action r subj phase valid"
  by (simp_all add: validate_request_def confirmation_digest_def confirmation_payload_def new_confirmation_row_def rego_permits_def
      Let_def cong: if_cong)

text \<open>With the tools, a confirmed plan can be executed: when \<open>plan_action\<close> answers with a challenge, \<open>execute_action\<close> with
  the same arguments, the token of the challenge and, where it is typed, the target as response queues the job, although
  each call makes an idempotency key of its own and the plan was a dry run: neither is part of what is confirmed.\<close>

theorem mcp_plan_then_execute:
  assumes "reachable cfg db" and "hex_output (sc_crypto cfg)" and "collision_free cfg" and "db_writable db"
    and "alone env" and "alone env'" and "rt_decide rt = opa_decide (rego_service dt)"
    and "planned = mcp_request action_id target_type target_id parameters key True None None"
    and "validate_request (rt_validator rt) (rt_catalog rt) planned = Inr action"
    and "registry_get (rt_adapters rt) (ad_adapter action) = Inr adapter" and "ap_plan adapter action planned = Inr steps"
    and "ad_mutation action" and "ad_confirmation action \<noteq> MODE_NONE"
    and "rego_permits dt (rt_policy_env rt) True action planned (mcp_subject caller) ''plan'' False"
    and "''confirm_'' @ uid \<notin> cr_id ` set (db_confirmations db)" and "''job_'' @ uid' \<notin> jr_id ` set (db_jobs db)"
    and "key' \<notin> jr_idempotency_key ` set (db_jobs db)"
    and "\<forall>c \<in> set (db_confirmations db). cr_created_at c < env_now env 1 \<and> instant_ok (cr_created_at c)"
    and "instant_ok (env_now env 1)" and "env_now env' 0 < env_now env 1 + seconds (rt_confirmation_ttl_seconds rt)"
    and "env_token env \<noteq> []"
    and "ad_confirmation action = MODE_TYPED \<longrightarrow> response = Some target_id \<and> ascii target_id"
  shows "\<exists>pv ch db1 v db2. plan cfg rt env uid action_id planned (mcp_subject caller) db = (Inr pv, db1) \<and> pv_confirmation pv = Some ch \<and> cc_token ch = env_token env \<and>
    execute cfg rt env' uid' action_id (mcp_request action_id target_type target_id parameters key' False (Some (cc_token ch)) response)
      (mcp_subject caller) db1 = (Inr v, db2) \<and>
    jv_id v = ''job_'' @ uid' \<and> jv_state v = QUEUED \<and> map jr_id (db_jobs db2) = map jr_id (db_jobs db) @ [''job_'' @ uid']"
proof -
  let ?subj = "mcp_subject caller" and ?digest = "confirmation_digest (sc_crypto cfg) planned"
  let ?req = "mcp_request action_id target_type target_id parameters key' False (Some (env_token env)) response"
  let ?row = "new_confirmation_row cfg (env_now env 1) (''confirm_'' @ uid) (env_token env) planned ?subj
    (ad_confirmation action) (rt_confirmation_ttl_seconds rt)"
  have ids: "rq_action_id planned = action_id" "tg_id (rq_target planned) = target_id" by (simp_all add: assms(8) mcp_request_def)
  have req: "?req = (confirmed planned (env_token env) response)\<lparr>rq_idempotency_key := key'\<rparr>"
    unfolding assms(8) by (rule mcp_execute_request)
  note same = req rekeyed_same confirmed_same
  from plan_issues_challenge [OF reachable_inv [OF assms(1,2)] assms(3-5,7,9-15)] assms(2) obtain pv ch db1 where
    pv: "plan cfg rt env uid action_id planned ?subj db = (Inr pv, db1)" "pv_confirmation pv = Some ch" "cc_token ch = env_token env"
    and db1: "db_confirmations db1 = db_confirmations db @ [?row]" "db_jobs db1 = db_jobs db" "db_writable db1" "db_inv cfg db1"
    unfolding ids by blast
  have "matches ?digest ?subj ?row" by (simp add: matches_def new_confirmation_row_def)
  moreover have "newest (filter (matches ?digest ?subj) (db_confirmations db) @ [?row]) = Some ?row"
    by (rule newest_last) (use assms(18,19) in \<open>auto simp: new_confirmation_row_def sql_before_iff\<close>)
  ultimately have found: "newest (filter (matches (confirmation_digest (sc_crypto cfg) ?req) ?subj) (db_confirmations db1)) =
      Some (new_confirmation_row cfg (env_now env 1) (''confirm_'' @ uid) (env_token env) ?req ?subj (ad_confirmation action) (rt_confirmation_ttl_seconds rt))"
    by (simp add: db1(1) same)
  have "rego_permits dt (rt_policy_env rt) True action ?req ?subj ''execute'' True"
    using assms(14) unfolding same by (simp add: rego_permits_def confirmed_def)
  then have "\<exists>v db2. execute cfg rt env' uid' (rq_action_id ?req) ?req ?subj db1 = (Inr v, db2) \<and> jv_id v = ''job_'' @ uid' \<and> jv_state v = QUEUED \<and>
    db_jobs db2 = db_jobs db1 @ [new_job_row cfg (env_now env' 1) (''job_'' @ uid') ?req ?subj] \<and> db_writable db2"
    by (intro execute_confirmed_request [OF db1(4) assms(2,3) db1(3) assms(6,7) _ found])
      (use assms(9,16,17,20-22) in \<open>simp_all add: same db1(2)\<close>, simp_all add: mcp_request_def confirmed_def)
  then obtain v db2 where "execute cfg rt env' uid' action_id ?req ?subj db1 = (Inr v, db2)" "jv_id v = ''job_'' @ uid'" "jv_state v = QUEUED"
    "map jr_id (db_jobs db2) = map jr_id (db_jobs db) @ [''job_'' @ uid']"
    by (auto simp: db1(2) new_job_row_def mcp_request_def)
  with pv show ?thesis by (intro exI [of _ pv] exI [of _ ch] exI [of _ db1] exI [of _ v] exI [of _ db2]) simp
qed

section \<open>An example\<close>

definition mcp_demo_request :: "bool \<Rightarrow> string option \<Rightarrow> action_request" where
  "mcp_demo_request dry_run token = mcp_request ''pve.vm.start'' ''vm'' ''100'' None (if dry_run then ''k1'' else ''k2'') dry_run token None"

definition mcp_demo_caller :: mcp_caller where
  "mcp_demo_caller = \<lparr>mk_subject = ''operator'', mk_device = ''deck-1''\<rparr>"

definition mcp_demo_ingress :: ingress where
  "mcp_demo_ingress = \<lparr>ig_verify_token = Some (\<lambda>t. verify_token (\<lambda>sig m. sig = m) (\<lambda>t. t) demo_fromisoformat t demo_issued_at),
     ig_allow_legacy = False, ig_trusted_proxy = False, ig_assertion_file = None, ig_capability = [],
     ig_decode_header = Inr, ig_fl = (\<lambda>t. t)\<rparr>"

lemma mcp_demo_verifies: "verifies_calls mcp_demo_ingress (\<lambda>m. m) demo_issued_at"
  unfolding verifies_calls_def mcp_demo_ingress_def using demo_instants demo_reads
  by (intro exI [of _ "\<lambda>sig m. sig = m"] exI [of _ "\<lambda>t. t"] exI [of _ demo_fromisoformat] exI [of _ demo_issued_at])
    (auto simp: seconds_def)

definition demo_secret :: string where
  "demo_secret = replicate 40 (CHR ''x'')"

lemma mcp_demo_planned:
  "\<exists>db v db'. execute demo_cfg demo_runtime (demo_quiet 10) ''2'' ''pve.vm.start'' (mcp_demo_request False (Some demo_secret))
     (mcp_subject mcp_demo_caller) db = (Inr v, db') \<and> jv_id v = ''job_2'' \<and> jv_state v = QUEUED"
proof -
  let ?planned = "mcp_demo_request True None"
  have loud: "alone ((demo_quiet 0)\<lparr>env_token := demo_secret\<rparr>)" by (simp add: alone_def demo_quiet_def)
  note defs = mcp_demo_request_def mcp_request_def demo_runtime_def demo_quiet_def
  have valid: "validate_request (rt_validator demo_runtime) (rt_catalog demo_runtime) ?planned = Inr demo_action"
    "ap_plan (FakeAdapter 0) demo_action ?planned = Inr [''observe vm:100'']"
    "rego_permits demo_data (rt_policy_env demo_runtime) True demo_action ?planned (mcp_subject mcp_demo_caller) ''plan'' False"
    by (simp_all add: defs validate_request_def catalog_get_def demo_action_def FakeAdapter_def rego_permits_def demo_data_def
        demo_policy_env_def mcp_subject_def mcp_demo_caller_def rego_channels_def is_protected_def no_inventory_def)
  have "\<exists>pv ch db1 v db2. plan demo_cfg demo_runtime ((demo_quiet 0)\<lparr>env_token := demo_secret\<rparr>) ''1'' ''pve.vm.start'' ?planned (mcp_subject mcp_demo_caller) empty_db = (Inr pv, db1) \<and>
      pv_confirmation pv = Some ch \<and> cc_token ch = env_token ((demo_quiet 0)\<lparr>env_token := demo_secret\<rparr>) \<and>
      execute demo_cfg demo_runtime (demo_quiet 10) ''2'' ''pve.vm.start''
        (mcp_request ''pve.vm.start'' ''vm'' ''100'' None ''k2'' False (Some (cc_token ch)) None) (mcp_subject mcp_demo_caller) db1 = (Inr v, db2) \<and>
      jv_id v = ''job_'' @ ''2'' \<and> jv_state v = QUEUED \<and> map jr_id (db_jobs db2) = map jr_id (db_jobs empty_db) @ [''job_'' @ ''2'']"
    by (rule mcp_plan_then_execute [OF db_steps.start demo_cfg_hex demo_collision_free _ loud demo_runtime_setup(1,2) _ valid(1)
          demo_runtime_setup(4) valid(2) demo_runtime_setup(6,7) valid(3)])
      (simp_all add: empty_db_def demo_quiet_def demo_runtime_def instant_ok_def seconds_def mcp_demo_request_def demo_action_def demo_secret_def)
  then obtain pv :: plan_view and ch db1 v db2 where "pv_confirmation pv = Some ch" "cc_token ch = env_token ((demo_quiet 0)\<lparr>env_token := demo_secret\<rparr>)" "jv_id v = ''job_'' @ ''2''" "jv_state v = QUEUED"
    "execute demo_cfg demo_runtime (demo_quiet 10) ''2'' ''pve.vm.start''
      (mcp_request ''pve.vm.start'' ''vm'' ''100'' None ''k2'' False (Some (cc_token ch)) None) (mcp_subject mcp_demo_caller) db1 = (Inr v, db2)"
    by blast
  then show ?thesis by (intro exI [of _ db1] exI [of _ v] exI [of _ db2]) (simp add: mcp_demo_request_def)
qed

theorem mcp_execute_is_broker_execute_witness:
  "\<exists>(db :: db) http read_job v db'. mcp_execute_action (BrokerClient ''http://broker/'' (\<lambda>m. m) ''mcp'' 60 (\<lambda>_. [])) http read_job mcp_demo_caller
     ''pve.vm.start'' ''vm'' ''100'' None (Some demo_secret) None ''k2'' ''n1'' demo_issued_at db = (Inr v, db') \<and> jv_id v = ''job_2'' \<and> jv_state v = QUEUED"
proof -
  let ?client = "BrokerClient ''http://broker/'' (\<lambda>m. m) ''mcp'' 60 (\<lambda>_. [])"
  obtain db v db' where run: "execute demo_cfg demo_runtime (demo_quiet 10) ''2'' ''pve.vm.start''
      (mcp_request ''pve.vm.start'' ''vm'' ''100'' None ''k2'' False (Some demo_secret) None) (mcp_subject mcp_demo_caller) db = (Inr v, db')"
    "jv_id v = ''job_2''" "jv_state v = QUEUED"
    using mcp_demo_planned unfolding mcp_demo_request_def by auto
  let ?http = "in_process (bk_base_url ?client) mcp_demo_ingress read_body (\<lambda>_. JNull) (execute demo_cfg demo_runtime (demo_quiet 10) ''2'')"
  have valid: "request_ok (mcp_request ''pve.vm.start'' ''vm'' ''100'' None ''k2'' False (Some demo_secret) None)"
    by (simp add: request_ok_def mcp_request_def action_id_ok_def ident_ok_def lower_alpha_def lower_alnum_def target_ok_def len_between_def
        context_ok_def opt_ok_def demo_secret_def)
  have "mcp_execute_action ?client ?http (\<lambda>_. Some v) mcp_demo_caller ''pve.vm.start'' ''vm'' ''100'' None (Some demo_secret) None
      ''k2'' ''n1'' demo_issued_at db = (client_outcome ?client (Inr v), db')"
    by (rule mcp_execute_is_broker_execute [OF refl mcp_demo_verifies _ _ _ in_process_delivers read_body_reads _ _ _ run(1)])
      (simp_all add: mcp_demo_caller_def url_plain_def valid)
  then have "mcp_execute_action ?client ?http (\<lambda>_. Some v) mcp_demo_caller ''pve.vm.start'' ''vm'' ''100'' None (Some demo_secret) None
      ''k2'' ''n1'' demo_issued_at db = (Inr v, db')"
    by (simp only: client_outcome_def sum.case)
  then show ?thesis using run(2,3) by blast
qed

end
