(* ===== verification/Conformance.thy ===== *)
theory Conformance
  imports HostLaws
begin

text \<open>
  The conformance suite of \<open>conformance.py\<close>: one pass through the six operations of an adapter and the check of each
  result. An \<open>isinstance\<close> check is the typing of the protocol here; the idempotency key of the request is an argument.
\<close>

definition LIFECYCLE_VERSION :: string where
  "LIFECYCLE_VERSION = ''1.0.0''"

definition VALID_ERROR_KINDS :: "string list" where
  "VALID_ERROR_KINDS = map kind_value [K_CONFIGURATION, K_AUTHENTICATION, K_AUTHORIZATION, K_NOT_FOUND, K_CONFLICT,
     K_RATE_LIMITED, K_UNAVAILABLE, K_TIMEOUT, K_PROTOCOL, K_UNEXPECTED]"

definition VALID_RETRY :: "string list" where
  "VALID_RETRY = map retry_value [RETRY_NEVER, RETRY_SAFE, RECONCILE_FIRST]"

definition VALID_CANCEL :: "string list" where
  "VALID_CANCEL = map disposition_value [D_CANCELLED, D_NOT_SUPPORTED, D_ALREADY_TERMINAL, D_UNKNOWN]"

text \<open>\<open>adapter_id.split(".", 1)[0]\<close> is the part before the first dot. The model of an action checks its fields.\<close>

definition read_action :: "string \<Rightarrow> exn + action_definition" where
  "read_action adapter_id =
     (let a = \<lparr>ad_id = ''conformance.resource.observe'', ad_version = 1, ad_title = ''Conformance observe'',
         ad_description = ''Read action used by the lifecycle conformance suite.'', ad_risk_class = READ,
         ad_plugin = hd (split_on (CHR ''.'') adapter_id), ad_adapter = adapter_id, ad_target_types = [''resource''],
         ad_parameter_schema = [(''$schema'', JStr ''https://json-schema.org/draft/2020-12/schema''), (''type'', JStr ''object''),
           (''additionalProperties'', JBool False), (''properties'', JObj [])],
         ad_policy_action = ''conformance.resource.read'', ad_confirmation = MODE_NONE, ad_timeout_seconds = 10,
         ad_idempotency = ''read-only'', ad_mutation = False\<rparr>
      in if action_ok a then Inr a else Inl (ValidationError ''ActionDefinition''))"

definition conformance_request :: "string \<Rightarrow> action_definition \<Rightarrow> exn + action_request" where
  "conformance_request key action =
     (let r = \<lparr>rq_action_id = ad_id action, rq_action_version = ad_version action,
         rq_target = \<lparr>tg_type = ''resource'', tg_id = ''example''\<rparr>, rq_parameters = [],
         rq_context = \<lparr>cx_profile = None, cx_frontmost_app = None, cx_client = ''conformance'', cx_control = None\<rparr>,
         rq_idempotency_key = key, rq_dry_run = False, rq_confirmation_token = None, rq_confirmation_response = None\<rparr>
      in if request_ok r then Inr r else Inl (ValidationError ''ActionRequest''))"

definition conf_require :: "bool \<Rightarrow> string \<Rightarrow> exn + unit" where
  "conf_require condition message = (if \<not> condition then Inl (OtherException (''ConformanceError: '' @ message)) else Inr ())"

definition assert_error_shape :: "adapter_error \<Rightarrow> exn + unit" where
  "assert_error_shape e =
     bind_sum (as_job_error e) (\<lambda>j.
     bind_sum (conf_require (je_code j \<in> set VALID_ERROR_KINDS) (''adapter error kind '' @ je_code j @ '' is not a bounded AdapterErrorKind'')) (\<lambda>_.
     conf_require (retry_value (je_retry j) \<in> set VALID_RETRY) ''adapter retry disposition is not bounded''))"

definition assert_adapter_conformance ::
  "adapter \<Rightarrow> string \<Rightarrow> bool \<Rightarrow> action_definition option \<Rightarrow> action_request option \<Rightarrow> string \<Rightarrow> exn + unit" where
  "assert_adapter_conformance a adapter_id expect_health given_action given_request key =
     bind_sum (case given_action of Some x \<Rightarrow> Inr x | None \<Rightarrow> read_action adapter_id) (\<lambda>action.
     bind_sum (case given_request of Some r \<Rightarrow> Inr r | None \<Rightarrow> conformance_request key action) (\<lambda>request.
     bind_sum (ap_health a) (\<lambda>health.
     bind_sum (if expect_health then conf_require (ah_state health = H_HEALTHY) ''expected healthy adapter'' else Inr ()) (\<lambda>_.
     bind_sum (ap_plan a action request) (\<lambda>steps.
     bind_sum (conf_require (1 \<le> length steps) ''plan must return at least one step'') (\<lambda>_.
     bind_sum (ap_execute a action request) (\<lambda>execution.
     bind_sum (ap_observe a action request) (\<lambda>observation.
     bind_sum (conf_require (1 \<le> length (ob_state observation)) ''observation.state must be non-empty'') (\<lambda>_.
     bind_sum (ap_verify a action request execution observation) (\<lambda>verification.
     bind_sum (ap_cancel a action request (Some execution)) (\<lambda>cancellation.
     conf_require (disposition_value (ca_disposition cancellation) \<in> set VALID_CANCEL) ''cancel disposition is not bounded'')))))))))))"

section \<open>What passing means\<close>

lemma conf_require_Inr [simp]: "conf_require c m = Inr u \<longleftrightarrow> c"
  by (simp add: conf_require_def)

lemma disposition_bounded [simp]: "disposition_value d \<in> set VALID_CANCEL"
  by (cases d) (simp_all add: VALID_CANCEL_def)

text \<open>Every error that converts to a job error passes the check of its shape: the enumerations bound it already.\<close>

lemma error_shape_exact: "assert_error_shape e = Inr () \<longleftrightarrow> len_between 1 1024 (ae_message e)"
proof -
  have "kind_value (ae_kind e) \<in> set VALID_ERROR_KINDS" by (cases "ae_kind e") (simp_all add: VALID_ERROR_KINDS_def)
  moreover have "retry_value (ae_retry e) \<in> set VALID_RETRY" by (cases "ae_retry e") (simp_all add: VALID_RETRY_def)
  ultimately show ?thesis by (auto simp: assert_error_shape_def as_job_error_Inr)
qed

lemma read_action_Inr: "read_action adapter_id = Inr a \<Longrightarrow> adapter_id_ok adapter_id \<and> ad_adapter a = adapter_id \<and> \<not> ad_mutation a \<and> action_ok a"
  by (auto simp: read_action_def Let_def action_ok_def split: if_splits)

text \<open>The results of the six operations, in the order of the suite.\<close>

record lifecycle =
  lc_health :: adapter_health
  lc_plan :: "string list"
  lc_execution :: adapter_execution
  lc_observation :: adapter_observation
  lc_verification :: adapter_verification
  lc_cancellation :: adapter_cancellation

definition lives :: "adapter \<Rightarrow> action_definition \<Rightarrow> action_request \<Rightarrow> lifecycle \<Rightarrow> bool" where
  "lives a action request l \<longleftrightarrow> ap_health a = Inr (lc_health l) \<and> ap_plan a action request = Inr (lc_plan l) \<and>
     ap_execute a action request = Inr (lc_execution l) \<and> ap_observe a action request = Inr (lc_observation l) \<and>
     ap_verify a action request (lc_execution l) (lc_observation l) = Inr (lc_verification l) \<and>
     ap_cancel a action request (Some (lc_execution l)) = Inr (lc_cancellation l)"

text \<open>What the suite asserts, exactly, of an action and a request: each operation returns, the adapter is healthy where that
  is expected, it plans a step and observes a state. The verdict of the verification is free.\<close>

lemma conformance_iff:
  "assert_adapter_conformance a adapter_id expect_health (Some action) (Some request) key = Inr () \<longleftrightarrow>
     (\<exists>l. lives a action request l \<and> (expect_health \<longrightarrow> ah_state (lc_health l) = H_HEALTHY) \<and> lc_plan l \<noteq> [] \<and>
        ob_state (lc_observation l) \<noteq> [])" (is "?suite \<longleftrightarrow> ?passes")
proof
  assume ?suite
  then obtain h steps x b v c where r: "ap_health a = Inr h" "expect_health \<longrightarrow> ah_state h = H_HEALTHY" "ap_plan a action request = Inr steps"
    "steps \<noteq> []" "ap_execute a action request = Inr x" "ap_observe a action request = Inr b" "ob_state b \<noteq> []"
    "ap_verify a action request x b = Inr v" "ap_cancel a action request (Some x) = Inr c"
    by (auto simp: assert_adapter_conformance_def Suc_le_eq split: if_splits)
  then show ?passes
    by (intro exI [of _ "\<lparr>lc_health = h, lc_plan = steps, lc_execution = x, lc_observation = b, lc_verification = v, lc_cancellation = c\<rparr>"])
      (simp add: lives_def)
next
  assume ?passes
  then show ?suite by (auto simp: assert_adapter_conformance_def lives_def Suc_le_eq)
qed

text \<open>The suite does not look at the verdict of the verification, although it is documented to assert that success is
  gated on the observation: an adapter that passes still passes when it reports whatever it observes as satisfying the
  request, or as failing it.\<close>

theorem conformance_blind_to_verdict:
  assumes "assert_adapter_conformance a adapter_id expect_health (Some action) (Some request) key = Inr ()"
  shows "assert_adapter_conformance (a\<lparr>ap_verify := \<lambda>action request execution observation. Inr verdict\<rparr>) adapter_id expect_health
    (Some action) (Some request) key = Inr ()"
proof -
  obtain l where "lives a action request l" "expect_health \<longrightarrow> ah_state (lc_health l) = H_HEALTHY" "lc_plan l \<noteq> []" "ob_state (lc_observation l) \<noteq> []"
    using assms unfolding conformance_iff by blast
  then show ?thesis
    unfolding conformance_iff by (intro exI [of _ "l\<lparr>lc_verification := verdict\<rparr>"]) (simp add: lives_def)
qed

section \<open>One suite for every tier\<close>

text \<open>A call crosses the wire: its payload is public and both its messages cross.\<close>

definition call_crosses :: "pydantic \<Rightarrow> host_server \<Rightarrow> host_client \<Rightarrow> string \<Rightarrow> host_operation \<times> json_object \<Rightarrow> bool" where
  "call_crosses py s client rid call \<longleftrightarrow> (case call of (operation, payload) \<Rightarrow>
     validate_public_json 0 (JObj payload) = Inr () \<and>
     crosses py (cn_max_frame_bytes (hc_connection client)) (host_request_json (sent client rid operation payload))
       (py_request py) (sent client rid operation payload) \<and>
     crosses py (cn_max_frame_bytes (hc_connection client)) (host_response_json (dispatch py s (sent client rid operation payload)))
       (py_response py) (dispatch py s (sent client rid operation payload)))"

lemma served_result:
  assumes "plugin_id_ok (hc_plugin_id client)" and "hc_plugin_id client = pm_id (ss_manifest s)"
    and "ss_max_frame_bytes s = cn_max_frame_bytes (hc_connection client)"
    and "call_crosses py s client rid (operation, payload)" and "operation \<noteq> HANDSHAKE"
    and "invoke py s operation payload = Inr (object_of (dump x))" and "\<And>y. dump y = JObj (object_of (dump y))"
    and "read (object_of (dump x)) = Some x" and "public_json (dump x)"
  shows "model py client (served py s client) rid operation payload read = Inr x"
proof -
  have format: "result_format dump read (\<lambda>y. read (object_of (dump y)) = Some y)" by unfold_locales (use assms(7) in auto)
  have link: "receive py client (served py s client) (sent client rid operation payload) = Inr (dispatch py s (sent client rid operation payload))"
    using assms(3,4) by (intro served_receive) (simp_all add: call_crosses_def)
  have "validate_public_json 0 (JObj payload) = Inr ()" using assms(4) by (simp add: call_crosses_def)
  from result_format.served_model [OF format assms(1,2) this assms(5) link, of "Inr x"] assms(6,8,9) show ?thesis by simp
qed

lemma invoke_lifecycle:
  assumes "hosts s client name a action" and "reads_call py action request" and "action_payload name action request = Inr payload"
  shows "invoke py s HEALTH [(''adapter'', JStr name)] = bind_sum (ap_health a) (\<lambda>h. Inr (object_of (health_json h)))"
    and "py_execution py (execution_json x) = Some x \<Longrightarrow> py_observation py (observation_json b) = Some b \<Longrightarrow>
      invoke py s VERIFY (payload @ [(''execution'', execution_json x), (''observation'', observation_json b)]) =
        bind_sum (ap_verify a action (untokened request) x b) (\<lambda>v. Inr (object_of (verification_json v)))"
    and "py_execution py (execution_json x) = Some x \<Longrightarrow>
      invoke py s CANCEL (payload @ [(''execution'', opt_json execution_json (Some x))]) =
        bind_sum (ap_cancel a action (untokened request) (Some x)) (\<lambda>c. Inr (object_of (cancellation_json c)))"
proof -
  show "invoke py s HEALTH [(''adapter'', JStr name)] = bind_sum (ap_health a) (\<lambda>h. Inr (object_of (health_json h)))"
    using assms(1) by (simp add: invoke_def hosts_def entry_def key_text_def field_def)
  obtain dumped where dumped: "request_dump request = Inr dumped"
    "payload = [(''adapter'', JStr name), (''action'', action_json action), (''request'', dumped)]"
    using assms(3) by (auto simp: action_payload_def)
  then have "py_action_request py dumped = Some (untokened request)" "py_action py (action_json action) = Some action"
    using assms(2) by (auto simp: reads_call_def)
  then have found: "invoke py s operation (payload @ rest) =
      bind_sum (invoke_action py a operation (payload @ rest) action (untokened request)) (\<lambda>result. Inr (object_of result))"
    if "operation \<notin> {HANDSHAKE, STATUS_OBSERVE, HEALTH}" for operation rest
    using that assms(1) by (simp add: invoke_def hosts_def entry_def key_text_def validated_def dumped(2) field_def)
  show "invoke py s VERIFY (payload @ [(''execution'', execution_json x), (''observation'', observation_json b)]) =
        bind_sum (ap_verify a action (untokened request) x b) (\<lambda>v. Inr (object_of (verification_json v)))"
    if "py_execution py (execution_json x) = Some x" "py_observation py (observation_json b) = Some b"
    using that by (cases "ap_verify a action (untokened request) x b")
      (simp_all add: found, simp_all add: invoke_action_def field_def dumped(2) validated_def)
  show "invoke py s CANCEL (payload @ [(''execution'', opt_json execution_json (Some x))]) =
        bind_sum (ap_cancel a action (untokened request) (Some x)) (\<lambda>c. Inr (object_of (cancellation_json c)))"
    if "py_execution py (execution_json x) = Some x"
    using that by (cases "ap_cancel a action (untokened request) (Some x)")
      (simp_all add: found, simp_all add: invoke_action_def dumped(2) validated_def opt_json_def execution_json_def)
qed

text \<open>The calls of a run of the suite over the wire, and that its results are public and read back as they were dumped.\<close>

definition suite_calls :: "string \<Rightarrow> json_object \<Rightarrow> lifecycle \<Rightarrow> (host_operation \<times> json_object) list" where
  "suite_calls name payload l =
     [(HEALTH, [(''adapter'', JStr name)]), (PLAN, payload), (EXECUTE, payload), (OBSERVE, payload),
      (VERIFY, payload @ [(''execution'', execution_json (lc_execution l)), (''observation'', observation_json (lc_observation l))]),
      (CANCEL, payload @ [(''execution'', opt_json execution_json (Some (lc_execution l)))])]"

definition results_public :: "lifecycle \<Rightarrow> bool" where
  "results_public l \<longleftrightarrow> public_json (health_json (lc_health l)) \<and> public_json (plan_json (lc_plan l)) \<and>
     public_json (execution_json (lc_execution l)) \<and> public_json (observation_json (lc_observation l)) \<and>
     public_json (verification_json (lc_verification l)) \<and> public_json (cancellation_json (lc_cancellation l))"

definition results_read :: "pydantic \<Rightarrow> lifecycle \<Rightarrow> bool" where
  "results_read py l \<longleftrightarrow> py_health py (object_of (health_json (lc_health l))) = Some (lc_health l) \<and>
     py_plan py (object_of (plan_json (lc_plan l))) = Some (lc_plan l) \<and>
     py_execution py (execution_json (lc_execution l)) = Some (lc_execution l) \<and>
     py_observation py (observation_json (lc_observation l)) = Some (lc_observation l) \<and>
     py_verification py (object_of (verification_json (lc_verification l))) = Some (lc_verification l) \<and>
     py_cancellation py (object_of (cancellation_json (lc_cancellation l))) = Some (lc_cancellation l)"

lemma dumps_objects:
  "health_json h = JObj (object_of (health_json h))" "plan_json p = JObj (object_of (plan_json p))"
  "execution_json x = JObj (object_of (execution_json x))" "observation_json b = JObj (object_of (observation_json b))"
  "verification_json v = JObj (object_of (verification_json v))" "cancellation_json c = JObj (object_of (cancellation_json c))"
  by (simp_all add: health_json_def plan_json_def execution_json_def observation_json_def verification_json_def cancellation_json_def)

lemma hosted_lives:
  assumes "hosts s client name a action" and "reads_call py action request" and "action_payload name action request = Inr payload"
    and "lives a action (untokened request) l" and "results_public l" and "results_read py l"
    and "list_all (call_crosses py s client rid) (suite_calls name payload l)"
  shows "lives (WasmHostAdapter py client (served py s client) rid name) action request l"
proof -
  have ids: "plugin_id_ok (hc_plugin_id client)" "hc_plugin_id client = pm_id (ss_manifest s)"
    "ss_max_frame_bytes s = cn_max_frame_bytes (hc_connection client)" using assms(1) unfolding hosts_def by blast+
  have public: "public_json (health_json (lc_health l))" "public_json (plan_json (lc_plan l))" "public_json (execution_json (lc_execution l))"
    "public_json (observation_json (lc_observation l))" "public_json (verification_json (lc_verification l))"
    "public_json (cancellation_json (lc_cancellation l))"
    using assms(5) unfolding results_public_def by blast+
  note read = assms(6) [unfolded results_read_def]
  have crossed: "call_crosses py s client rid c" if "c \<in> set (suite_calls name payload l)" for c
    using assms(7) that by (simp add: list_all_iff)
  note calls = crossed [unfolded suite_calls_def]
  note invoked = invoke_lifecycle [OF assms(1-3)] invoke_hosted [OF assms(1-3)]
  have returned: "ap_health a = Inr (lc_health l)" "ap_plan a action (untokened request) = Inr (lc_plan l)"
    "ap_execute a action (untokened request) = Inr (lc_execution l)" "ap_observe a action (untokened request) = Inr (lc_observation l)"
    "ap_verify a action (untokened request) (lc_execution l) (lc_observation l) = Inr (lc_verification l)"
    "ap_cancel a action (untokened request) (Some (lc_execution l)) = Inr (lc_cancellation l)"
    using assms(4) unfolding lives_def by blast+
  have h: "model py client (served py s client) rid HEALTH [(''adapter'', JStr name)] (py_health py) = Inr (lc_health l)"
    by (rule served_result [where dump = health_json, OF ids calls _ _ dumps_objects(1) _ public(1)]) (use read in \<open>simp_all add: invoked(1) returned(1) dumps_objects [symmetric]\<close>)
  have p: "model py client (served py s client) rid PLAN payload (py_plan py) = Inr (lc_plan l)"
    by (rule served_result [where dump = plan_json, OF ids calls _ _ dumps_objects(2) _ public(2)]) (use read in \<open>simp_all add: invoked(5) returned(2) dumps_objects [symmetric]\<close>)
  have x: "model py client (served py s client) rid EXECUTE payload (\<lambda>raw. py_execution py (JObj raw)) = Inr (lc_execution l)"
    by (rule served_result [where dump = execution_json, OF ids calls _ _ dumps_objects(3) _ public(3)]) (use read in \<open>simp_all add: invoked(4) returned(3) dumps_objects [symmetric]\<close>)
  have b: "model py client (served py s client) rid OBSERVE payload (\<lambda>raw. py_observation py (JObj raw)) = Inr (lc_observation l)"
    by (rule served_result [where dump = observation_json, OF ids calls _ _ dumps_objects(4) _ public(4)]) (use read in \<open>simp_all add: invoked(6) returned(4) dumps_objects [symmetric]\<close>)
  have v: "model py client (served py s client) rid VERIFY
      (payload @ [(''execution'', execution_json (lc_execution l)), (''observation'', observation_json (lc_observation l))]) (py_verification py) =
    Inr (lc_verification l)"
    by (rule served_result [where dump = verification_json, OF ids calls _ _ dumps_objects(5) _ public(5)]) (use read in \<open>simp_all add: invoked(2) returned(5) dumps_objects [symmetric]\<close>)
  have c: "model py client (served py s client) rid CANCEL (payload @ [(''execution'', opt_json execution_json (Some (lc_execution l)))])
      (py_cancellation py) = Inr (lc_cancellation l)"
    by (rule served_result [where dump = cancellation_json, OF ids calls _ _ dumps_objects(6) _ public(6)]) (use read in \<open>simp_all add: invoked(3) returned(6) dumps_objects [symmetric]\<close>)
  show ?thesis using h p x b v c by (simp add: lives_def WasmHostAdapter_def assms(3) relayed_kept)
qed

lemma same_lifecycle_same_verdict:
  assumes "lives a action request l" and "lives a' action request' l"
  shows "assert_adapter_conformance a name expect_health (Some action) (Some request) key =
    assert_adapter_conformance a' name expect_health (Some action) (Some request') key"
  using assms by (simp add: assert_adapter_conformance_def lives_def)

text \<open>(C39) One suite for every tier: an adapter behind the host process gets the verdict of the suite that it gets in process,
  when its operations return, for an action the host serves to the client, as long as the results are public JSON
  that reads back and the messages of the six calls cross the wire.\<close>

theorem conformance_same_over_wire:
  assumes "hosts s client name a action" and "reads_call py action request" and "action_payload name action request = Inr payload"
    and "lives a action (untokened request) l" and "results_public l" and "results_read py l"
    and "list_all (call_crosses py s client rid) (suite_calls name payload l)"
  shows "assert_adapter_conformance (WasmHostAdapter py client (served py s client) rid name) name expect_health (Some action) (Some request) key =
    assert_adapter_conformance a name expect_health (Some action) (Some (untokened request)) key"
  by (rule same_lifecycle_same_verdict [OF hosted_lives [OF assms] assms(4)])

section \<open>An example\<close>

text \<open>The run of the built-in adapter, and models that read the messages of that run.\<close>

definition demo_life :: lifecycle where
  "demo_life = \<lparr>lc_health = \<lparr>ah_state = H_HEALTHY, ah_checked_at = 0, ah_details = [(''source'', JStr ''fake'')]\<rparr>,
     lc_plan = [''observe vm:100''], lc_execution = demo_execution,
     lc_observation = \<lparr>ob_state = ''healthy'', ob_observed_at = 0,
       ob_details = [(''target'', target_json (rq_target demo_request)), (''source'', JStr ''fake'')]\<rparr>,
     lc_verification = \<lparr>ve_satisfied = True, ve_details = [(''execution_reference'', JStr ''fake:u1'')]\<rparr>,
     lc_cancellation = \<lparr>ca_disposition = D_ALREADY_TERMINAL, ca_details = []\<rparr>\<rparr>"

definition read_sent :: "json_object \<Rightarrow> host_request option" where
  "read_sent kvs =
     (case (obj_get kvs ''operation'', obj_get kvs ''payload'') of
        (Some (JStr w), Some (JObj p)) \<Rightarrow>
          map_option (\<lambda>op. sent demo_client ''r'' op p)
            (find (\<lambda>op. operation_value op = w) [HEALTH, PLAN, EXECUTE, OBSERVE, VERIFY, CANCEL])
      | _ \<Rightarrow> None)"

definition read_ok :: "json_object \<Rightarrow> host_response option" where
  "read_ok kvs =
     (case obj_get kvs ''result'' of
        Some (JObj p) \<Rightarrow> Some \<lparr>hr_protocol_version = 1, hr_request_id = ''r'', hr_ok = True, hr_result = Some p, hr_error = None\<rparr>
      | _ \<Rightarrow> None)"

definition suite_pydantic :: pydantic where
  "suite_pydantic = demo_pydantic\<lparr>py_request := read_sent, py_response := read_ok,
     py_health := (\<lambda>_. Some (lc_health demo_life)), py_observation := (\<lambda>_. Some (lc_observation demo_life)),
     py_verification := (\<lambda>_. Some (lc_verification demo_life)), py_cancellation := (\<lambda>_. Some (lc_cancellation demo_life))\<rparr>"

lemma demo_lives: "lives (FakeAdapter 0) demo_action (untokened demo_request) demo_life"
  by (simp add: lives_def demo_life_def FakeAdapter_def untokened_def demo_request_def demo_execution_def opt_json_def)

lemmas public_defs = validate_public_json.simps too_deep_def MAX_PUBLIC_DEPTH_def MAX_PUBLIC_ITEMS_def
  MAX_PUBLIC_STRING_def sensitive_key_def SENSITIVE_KEY_PARTS_def py_lower_def py_lower_char_def starts_with_def

text \<open>A public, well-formed value with a short text.\<close>

definition light :: "json \<Rightarrow> bool" where
  "light v \<longleftrightarrow> public_json v \<and> json_wf v \<and> float_free v \<and> text_bound v \<le> 100000"

lemma public_iff: "public_json v \<longleftrightarrow> validate_public_json 0 v = Inr ()"
  by (simp add: validate_public_iff public_json_def)

lemma light_append:
  assumes "light (JObj xs)" and "light (JObj ys)" and "set (map fst xs) \<inter> set (map fst ys) = {}"
    and "length xs + length ys \<le> 256" and "text_bound (JObj xs) + text_bound (JObj ys) \<le> 100000"
  shows "light (JObj (xs @ ys))"
proof -
  have "public_json (JObj (xs @ ys))" using assms(1,2,4) by (auto simp: light_def public_json_def)
  then show ?thesis using assms by (auto simp: light_def)
qed

lemma demo_call_crosses:
  assumes "operation \<in> {HEALTH, PLAN, EXECUTE, OBSERVE, VERIFY, CANCEL}" and "light (JObj payload)" and "light v"
    and "v = JObj (object_of v)" and "invoke suite_pydantic demo_server operation payload = Inr (object_of v)"
  shows "call_crosses suite_pydantic demo_server demo_client ''r'' (operation, payload)"
proof -
  let ?q = "sent demo_client ''r'' operation payload"
  let ?r = "\<lparr>hr_protocol_version = 1, hr_request_id = ''r'', hr_ok = True, hr_result = Some (object_of v), hr_error = None\<rparr>"
  have limit: "cn_max_frame_bytes (hc_connection demo_client) = 1048576" by (simp add: demo_client_def)
  note l = assms(2,3) [unfolded light_def public_iff]
  then have "serve suite_pydantic demo_server operation payload = Inr (object_of v)" using assms(1,4,5) by (simp add: serve_def)
  then have reply: "dispatch suite_pydantic demo_server ?q = ?r"
    by (simp add: dispatch_def sent_def demo_client_def demo_server_def demo_manifest_def HOST_PROTOCOL_VERSION_def)
  have q: "json_wf (host_request_json ?q)" "float_free (host_request_json ?q)" "render (host_request_json ?q) \<noteq> []"
    using l by (simp_all add: host_request_json_def sent_def)
  have rj: "host_response_json ?r = JObj [(''protocol_version'', JInt 1), (''request_id'', JStr ''r''), (''ok'', JBool True),
      (''result'', v), (''error'', JNull)]"
    using assms(4) by (simp add: host_response_json_def opt_json_def)
  have r: "json_wf (host_response_json ?r)" "float_free (host_response_json ?r)" "render (host_response_json ?r) \<noteq> []"
    using l by (simp_all add: rj)
  have lengths: "length (render (host_request_json ?q)) \<le> 1048576"
    by (rule order_trans [OF render_length]) (use assms(1) l in \<open>auto simp: host_request_json_def sent_def demo_client_def
        HOST_PROTOCOL_VERSION_def str_int_def nat_digits.simps\<close>)
  have length_reply: "length (render (host_response_json ?r)) \<le> 1048576"
    by (rule order_trans [OF render_length]) (use l in \<open>simp add: rj str_int_def nat_digits.simps\<close>)
  have "read_sent [(''protocol_version'', JInt i), (''request_id'', JStr t), (''plugin_id'', JStr p),
      (''operation'', JStr (operation_value operation)), (''payload'', JObj payload)] = Some ?q" for i t p
    using assms(1) unfolding read_sent_def by (elim insertE emptyE) simp_all
  then have "crosses suite_pydantic 1048576 (host_request_json ?q) (py_request suite_pydantic) ?q"
    using lengths q(3) loads_bytes_render [OF q(1,2)]
    by (auto simp: crosses_def suite_pydantic_def demo_pydantic_def encode_frame_Inr host_request_json_def sent_def)
  moreover have "crosses suite_pydantic 1048576 (host_response_json ?r) (py_response suite_pydantic) ?r"
  proof -
    have "read_ok [(''protocol_version'', JInt 1), (''request_id'', JStr ''r''), (''ok'', JBool True), (''result'', v), (''error'', JNull)] = Some ?r"
      using assms(4) by (cases v) (simp_all add: read_ok_def)
    then show ?thesis using length_reply r(3) loads_bytes_render [OF r(1,2)]
      unfolding rj by (auto simp: crosses_def suite_pydantic_def demo_pydantic_def encode_frame_Inr)
  qed
  ultimately show ?thesis using l by (simp add: call_crosses_def limit reply)
qed

lemma demo_suite_setup:
  "reads_call suite_pydantic demo_action demo_request" "results_read suite_pydantic demo_life"
  "py_execution suite_pydantic (execution_json demo_execution) = Some demo_execution"
proof -
  show "reads_call suite_pydantic demo_action demo_request"
    using demo_host_reads by (simp add: reads_call_def suite_pydantic_def)
  have "execution_ok demo_execution" by (simp add: execution_ok_def demo_execution_def opt_ok_def len_between_def)
  from execution_format.reads_back [OF this]
  show read: "py_execution suite_pydantic (execution_json demo_execution) = Some demo_execution"
    by (simp add: suite_pydantic_def demo_pydantic_def)
  have "py_plan suite_pydantic (object_of (plan_json [''observe vm:100''])) = Some [''observe vm:100'']"
    using plan_format.reads_back [of "[''observe vm:100'']"] by (simp add: suite_pydantic_def demo_pydantic_def)
  then show "results_read suite_pydantic demo_life" using read by (simp add: results_read_def suite_pydantic_def demo_life_def)
qed

lemma epoch: "length (json_instant 0) = 20"
  by (simp add: json_instant_def isoformat_def length_date_text time_text_def fraction_def)

lemmas demo_life_defs = demo_life_def health_json_def plan_json_def execution_json_def observation_json_def verification_json_def
  cancellation_json_def demo_execution_def demo_json_defs epoch

lemma light_results:
  "light (health_json (lc_health demo_life))" "light (plan_json (lc_plan demo_life))" "light (execution_json (lc_execution demo_life))"
  "light (observation_json (lc_observation demo_life))" "light (verification_json (lc_verification demo_life))"
  "light (cancellation_json (lc_cancellation demo_life))"
  unfolding light_def public_iff by (simp_all add: demo_life_defs public_defs)

lemma demo_results_public: "results_public demo_life"
  using light_results by (simp add: results_public_def light_def)

lemma light_payloads:
  "light (JObj [(''adapter'', JStr ''dh-core.fake'')])" "light (JObj demo_payload)"
  "light (JObj (demo_payload @ [(''execution'', execution_json (lc_execution demo_life)), (''observation'', observation_json (lc_observation demo_life))]))"
  "light (JObj (demo_payload @ [(''execution'', opt_json execution_json (Some (lc_execution demo_life)))]))"
proof -
  have keys: "set (map fst demo_payload) = {''adapter'', ''action'', ''request''}" "length demo_payload = 3" by (auto simp: demo_payload_def)
  have bound: "text_bound (JObj demo_payload) \<le> 50000" by (simp add: demo_json_defs str_int_def nat_digits.simps)
  then show payload: "light (JObj demo_payload)"
    using demo_payload_public unfolding light_def public_iff by (simp add: demo_json_defs)
  show "light (JObj [(''adapter'', JStr ''dh-core.fake'')])" unfolding light_def public_iff by (simp add: public_defs)
  have rest: "light (JObj [(''execution'', execution_json (lc_execution demo_life)), (''observation'', observation_json (lc_observation demo_life))])"
    "light (JObj [(''execution'', opt_json execution_json (Some (lc_execution demo_life)))])"
    unfolding light_def public_iff by (simp_all add: demo_life_defs public_defs)
  have bounds: "text_bound (JObj [(''execution'', execution_json (lc_execution demo_life)), (''observation'', observation_json (lc_observation demo_life))]) \<le> 50000"
    "text_bound (JObj [(''execution'', opt_json execution_json (Some (lc_execution demo_life)))]) \<le> 50000"
    by (simp_all add: demo_life_defs)
  show "light (JObj (demo_payload @ [(''execution'', execution_json (lc_execution demo_life)), (''observation'', observation_json (lc_observation demo_life))]))"
    by (rule light_append [OF payload rest(1)]) (use bound bounds(1) keys in \<open>simp_all del: text_bound.simps\<close>)
  show "light (JObj (demo_payload @ [(''execution'', opt_json execution_json (Some (lc_execution demo_life)))]))"
    by (rule light_append [OF payload rest(2)]) (use bound bounds(2) keys in \<open>simp_all del: text_bound.simps\<close>)
qed

lemma demo_suite_crosses:
  "list_all (call_crosses suite_pydantic demo_server demo_client ''r'') (suite_calls ''dh-core.fake'' demo_payload demo_life)"
proof -
  note alive = demo_lives [unfolded lives_def] and read = demo_suite_setup(2) [unfolded results_read_def]
  note invoked = invoke_lifecycle [OF demo_hosts demo_suite_setup(1) demo_action_payload]
    invoke_hosted [OF demo_hosts demo_suite_setup(1) demo_action_payload]
  have "call_crosses suite_pydantic demo_server demo_client ''r'' (HEALTH, [(''adapter'', JStr ''dh-core.fake'')])"
    by (rule demo_call_crosses [OF _ light_payloads(1) light_results(1) dumps_objects(1)]) (simp_all add: invoked(1) alive read)
  moreover
  have "call_crosses suite_pydantic demo_server demo_client ''r'' (PLAN, demo_payload)"
    by (rule demo_call_crosses [OF _ light_payloads(2) light_results(2) dumps_objects(2)]) (simp_all add: invoked(5) alive read)
  moreover
  have "call_crosses suite_pydantic demo_server demo_client ''r'' (EXECUTE, demo_payload)"
    by (rule demo_call_crosses [OF _ light_payloads(2) light_results(3) dumps_objects(3)]) (simp_all add: invoked(4) alive read)
  moreover
  have "call_crosses suite_pydantic demo_server demo_client ''r'' (OBSERVE, demo_payload)"
    by (rule demo_call_crosses [OF _ light_payloads(2) light_results(4) dumps_objects(4)]) (simp_all add: invoked(6) alive read)
  moreover
  have "call_crosses suite_pydantic demo_server demo_client ''r'' (VERIFY, demo_payload @ [(''execution'', execution_json (lc_execution demo_life)), (''observation'', observation_json (lc_observation demo_life))])"
    by (rule demo_call_crosses [OF _ light_payloads(3) light_results(5) dumps_objects(5)]) (simp_all add: invoked(2) alive read)
  moreover
  have "call_crosses suite_pydantic demo_server demo_client ''r'' (CANCEL, demo_payload @ [(''execution'', opt_json execution_json (Some (lc_execution demo_life)))])"
    by (rule demo_call_crosses [OF _ light_payloads(4) light_results(6) dumps_objects(6)]) (simp_all add: invoked(3) alive read)
  ultimately show ?thesis by (simp add: suite_calls_def)
qed

theorem conformance_same_over_wire_witness:
  "assert_adapter_conformance (WasmHostAdapter suite_pydantic demo_client (served suite_pydantic demo_server demo_client) ''r'' ''dh-core.fake'')
     ''dh-core.fake'' True (Some demo_action) (Some demo_request) ''k'' = Inr ()"
proof -
  have "assert_adapter_conformance (FakeAdapter 0) ''dh-core.fake'' True (Some demo_action) (Some (untokened demo_request)) ''k'' = Inr ()"
    unfolding conformance_iff by (intro exI [of _ demo_life] conjI demo_lives) (simp_all add: demo_life_def)
  then show ?thesis
    using conformance_same_over_wire [OF demo_hosts demo_suite_setup(1) demo_action_payload demo_lives demo_results_public demo_suite_setup(2)
      demo_suite_crosses] by simp
qed

theorem conformance_blind_to_verdict_witness:
  "assert_adapter_conformance (FakeAdapter 0) ''dh-core.fake'' True (Some demo_action) (Some (untokened demo_request)) ''k'' = Inr () \<and>
   assert_adapter_conformance ((FakeAdapter 0)\<lparr>ap_verify := \<lambda>action request execution observation. Inr \<lparr>ve_satisfied = False, ve_details = []\<rparr>\<rparr>)
     ''dh-core.fake'' True (Some demo_action) (Some (untokened demo_request)) ''k'' = Inr ()"
proof -
  have "assert_adapter_conformance (FakeAdapter 0) ''dh-core.fake'' True (Some demo_action) (Some (untokened demo_request)) ''k'' = Inr ()"
    unfolding conformance_iff by (intro exI [of _ demo_life] conjI demo_lives) (simp_all add: demo_life_def)
  from this conformance_blind_to_verdict [OF this] show ?thesis by blast
qed

end
