(* ===== verification/Application.thy ===== *)
theory Application
  imports Plugins Events Daemons
begin

text \<open>
  How the processes are put together: the settings of \<open>config.py\<close>, the keys they name, \<open>create_app\<close> with its read
  routes, and what the worker and the scheduler build at their start. Paths are strings; everything behind
  them, the files, the installed distributions and the policy agent, is a record of functions.
\<close>

section \<open>Settings\<close>

record settings =
  se_bind_host :: string
  se_bind_port :: int
  se_database_path :: string
  se_catalog_path :: string
  se_plugin_config_path :: string
  se_plugin_lock_path :: string
  se_allow_external_plugins :: bool
  se_allow_wasm_plugins :: bool
  se_opa_url :: string
  se_opa_decision_path :: string
  se_protected_inventory_path :: "string option"
  se_environment :: string
  se_trusted_proxy :: bool
  se_proxy_assertion_file :: "string option"
  se_identity_public_key_file :: "string option"
  se_allow_legacy_proxy_assertion :: bool
  se_tailscale_app_capability :: string
  se_allow_mutations :: bool
  se_worker_id :: string
  se_identity_signing_key_file :: "string option"
  se_mcp_broker_url :: string
  se_mcp_bind_host :: string
  se_mcp_bind_port :: int
  se_mcp_default_subject :: string
  se_mcp_default_device :: string
  se_audit_hmac_key_file :: "string option"
  se_confirmation_ttl_seconds :: int
  se_queue_ttl_seconds :: int
  se_reconcile_max_attempts :: int

definition settings_ok :: "settings \<Rightarrow> bool" where
  "settings_ok se \<longleftrightarrow> 1024 \<le> se_bind_port se \<and> se_bind_port se \<le> 65535 \<and> 1024 \<le> se_mcp_bind_port se \<and> se_mcp_bind_port se \<le> 65535 \<and>
     10 \<le> se_confirmation_ttl_seconds se \<and> se_confirmation_ttl_seconds se \<le> 300 \<and>
     60 \<le> se_queue_ttl_seconds se \<and> se_queue_ttl_seconds se \<le> 86400 \<and>
     1 \<le> se_reconcile_max_attempts se \<and> se_reconcile_max_attempts se \<le> 1000"

definition default_settings :: settings where
  "default_settings = \<lparr>se_bind_host = ''127.0.0.1'', se_bind_port = 19470, se_database_path = ''deckhand.db'',
     se_catalog_path = ''packages/catalog/actions'', se_plugin_config_path = ''config/plugins.yaml'',
     se_plugin_lock_path = ''config/plugins.lock.yaml'', se_allow_external_plugins = False, se_allow_wasm_plugins = False,
     se_opa_url = ''http://127.0.0.1:8181'', se_opa_decision_path = ''/v1/data/deckhand/authz/decision'',
     se_protected_inventory_path = None, se_environment = ''development'', se_trusted_proxy = False, se_proxy_assertion_file = None,
     se_identity_public_key_file = None, se_allow_legacy_proxy_assertion = False,
     se_tailscale_app_capability = ''coollyninja.com/cap/deckhand'', se_allow_mutations = False, se_worker_id = ''deckhand-worker-1'',
     se_identity_signing_key_file = None, se_mcp_broker_url = ''http://127.0.0.1:19470'', se_mcp_bind_host = ''127.0.0.1'',
     se_mcp_bind_port = 19471, se_mcp_default_subject = ''mcp-operator'', se_mcp_default_device = ''mcp-agent'',
     se_audit_hmac_key_file = None, se_confirmation_ttl_seconds = 60, se_queue_ttl_seconds = 900, se_reconcile_max_attempts = 10\<rparr>"

lemma default_settings_ok: "settings_ok default_settings"
  by (simp add: settings_ok_def default_settings_def)

section \<open>Keys\<close>

text \<open>A file that is read: its bytes, or the text of an \<open>OSError\<close>. Reading a PEM gives \<open>Inl\<close> for a \<open>ValueError\<close> (or, for a
  private key, a \<open>TypeError\<close>), and \<open>None\<close> for a key of another kind.\<close>

definition load_key ::
  "string \<Rightarrow> string \<Rightarrow> string \<Rightarrow> (string \<Rightarrow> string + string) \<Rightarrow> (string \<Rightarrow> unit + 'k option) \<Rightarrow> string \<Rightarrow> exn + 'k" where
  "load_key what malformed wrong read pem file =
     (case read file of
        Inl e \<Rightarrow> Inl (IdentityError (what @ '' unavailable: '' @ e))
      | Inr material \<Rightarrow>
          (case pem material of
             Inl _ \<Rightarrow> Inl (IdentityError malformed)
           | Inr None \<Rightarrow> Inl (IdentityError wrong)
           | Inr (Some key) \<Rightarrow> Inr key))"

definition load_public_key :: "(string \<Rightarrow> string + string) \<Rightarrow> (string \<Rightarrow> unit + 'k option) \<Rightarrow> string \<Rightarrow> exn + 'k" where
  "load_public_key = load_key ''identity public key'' ''identity public key is not valid PEM'' ''identity trust key must be an Ed25519 public key''"

definition load_private_key :: "(string \<Rightarrow> string + string) \<Rightarrow> (string \<Rightarrow> unit + 'k option) \<Rightarrow> string \<Rightarrow> exn + 'k" where
  "load_private_key = load_key ''identity private key'' ''identity private key is not a valid unencrypted PEM''
     ''identity signing key must be an Ed25519 private key''"

definition load_audit_key :: "(string \<Rightarrow> string + string) \<Rightarrow> settings \<Rightarrow> exn + string option" where
  "load_audit_key read se =
     (case se_audit_hmac_key_file se of
        None \<Rightarrow> Inr None
      | Some file \<Rightarrow>
          (case read file of
             Inl e \<Rightarrow> Inl (PyOSError e)
           | Inr raw \<Rightarrow> let material = bytes_strip raw
                       in if material = [] then Inl (StoreError ''audit HMAC key file is empty'') else Inr (Some material)))"

section \<open>The application\<close>

text \<open>What a process finds outside the program.\<close>

record outside =
  ou_crypto :: crypto
  ou_read :: "string \<Rightarrow> string + string"
  ou_public_pem :: "string \<Rightarrow> unit + (string \<Rightarrow> string \<Rightarrow> bool) option"
  ou_yaml :: "string \<Rightarrow> json option"
  ou_document :: "string \<Rightarrow> document"
  ou_listing :: "string \<Rightarrow> string list option"
  ou_read_action :: "string \<Rightarrow> exn + action_definition"
  ou_read_configuration :: "json_object \<Rightarrow> plugin_configuration option"
  ou_read_lock :: "json_object \<Rightarrow> plugin_lock option"
  ou_default_policy :: resilience_policy
  ou_entry_points :: "(string \<times> entry_point) list"
  ou_wasm :: wasm_world
  ou_validator :: schema_validator
  ou_opa :: "string \<Rightarrow> json \<Rightarrow> opa_reply"
  ou_opa_health :: "string \<Rightarrow> int option"
  ou_decode_header :: "string \<Rightarrow> exn + string"
  ou_float :: "string \<Rightarrow> string"
  ou_fromisoformat :: "string \<Rightarrow> stamp option"
  ou_now :: instant
  ou_monotonic :: rat

definition load_options_of :: "outside \<Rightarrow> settings \<Rightarrow> load_options" where
  "load_options_of ou se = \<lparr>lo_allow_external = se_allow_external_plugins se, lo_allow_wasm = se_allow_wasm_plugins se,
     lo_iter_errors = ou_validator ou, lo_now = ou_monotonic ou\<rparr>"

definition default_manager :: "outside \<Rightarrow> exn + plugin_manager" where
  "default_manager ou =
     bind_sum (discover (ou_entry_points ou) []) (\<lambda>external.
     Inr \<lparr>pg_builtin = [(''dh-core'', Inr (CorePlugin (ou_now ou)))], pg_external = external\<rparr>)"

definition extensions_of :: "outside \<Rightarrow> settings \<Rightarrow> exn + loaded_plugins" where
  "extensions_of ou se =
     bind_sum (default_manager ou) (\<lambda>pg.
     load_extensions pg (ou_wasm ou) (load_options_of ou se) (ou_default_policy ou) (ou_read_configuration ou) (ou_read_lock ou)
       (ou_yaml ou (se_plugin_config_path se)) (ou_yaml ou (se_plugin_lock_path se)))"

definition catalog_of :: "outside \<Rightarrow> settings \<Rightarrow> loaded_plugins \<Rightarrow> exn + catalog" where
  "catalog_of ou se extensions = load_catalog (ou_read_action ou) (ou_listing ou (se_catalog_path se)) extensions"

definition store_of :: "outside \<Rightarrow> settings \<Rightarrow> exn + store_cfg" where
  "store_of ou se =
     bind_sum (load_audit_key (ou_read ou) se) (\<lambda>key. Inr \<lparr>sc_crypto = ou_crypto ou, sc_audit_hmac_key = key\<rparr>)"

record app =
  br_settings :: settings
  br_store :: store_cfg
  br_runtime :: runtime
  br_canceller :: canceller
  br_worker :: worker
  br_extensions :: loaded_plugins
  br_identity_key :: "(string \<Rightarrow> string \<Rightarrow> bool) option"

definition identity_key_of :: "outside \<Rightarrow> settings \<Rightarrow> exn + (string \<Rightarrow> string \<Rightarrow> bool) option" where
  "identity_key_of ou se =
     (case se_identity_public_key_file se of
        None \<Rightarrow> Inr None
      | Some file \<Rightarrow> bind_sum (load_public_key (ou_read ou) (ou_public_pem ou) file) (\<lambda>key. Inr (Some key)))"

text \<open>\<open>create_app(settings, policy=..., adapters=...)\<close>; a policy engine is its decision and whether it is ready.\<close>

definition agent_of :: "outside \<Rightarrow> settings \<Rightarrow> (json_object \<Rightarrow> exn + policy_decision) \<times> bool" where
  "agent_of ou se =
     (let base_url = rstrip (CHR ''/'') (se_opa_url se)
      in (opa_decide (ou_opa ou (base_url @ se_opa_decision_path se)), opa_ready (ou_opa_health ou (base_url @ ''/health?bundles=true''))))"

definition create_app ::
  "outside \<Rightarrow> settings \<Rightarrow> ((json_object \<Rightarrow> exn + policy_decision) \<times> bool) option \<Rightarrow> registry option \<Rightarrow> exn + app" where
  "create_app ou se policy adapters =
     bind_sum (extensions_of ou se) (\<lambda>extensions.
     bind_sum (catalog_of ou se extensions) (\<lambda>catalog.
     bind_sum (identity_key_of ou se) (\<lambda>key.
     bind_sum (store_of ou se) (\<lambda>store.
     bind_sum (load_protected_inventory (map_option (ou_document ou) (se_protected_inventory_path se))) (\<lambda>protected.
     let engine = (case policy of Some p \<Rightarrow> p | None \<Rightarrow> agent_of ou se);
         registry = (case adapters of Some r \<Rightarrow> r | None \<Rightarrow> registry_of extensions)
     in Inr \<lparr>br_settings = se, br_store = store,
          br_runtime = \<lparr>rt_catalog = catalog, rt_validator = ou_validator ou, rt_adapters = registry, rt_decide = fst engine,
            rt_ready = snd engine,
            rt_policy_env = \<lparr>pe_crypto = ou_crypto ou, pe_allow_mutations = se_allow_mutations se,
              pe_environment = se_environment se, pe_inventory = protected\<rparr>,
            rt_confirmation_ttl_seconds = se_confirmation_ttl_seconds se\<rparr>,
          br_canceller = \<lparr>cn_catalog = catalog, cn_validator = ou_validator ou, cn_adapters = registry\<rparr>,
          br_worker = \<lparr>wk_id = se_worker_id se, wk_catalog = catalog, wk_validator = ou_validator ou, wk_adapters = registry\<rparr>,
          br_extensions = extensions, br_identity_key = key\<rparr>)))))"

text \<open>The ingress of the application at the time of a request; the assertion file is read then.\<close>

definition ingress_of :: "outside \<Rightarrow> app \<Rightarrow> instant \<Rightarrow> ingress" where
  "ingress_of ou app now =
     (let se = br_settings app
      in \<lparr>ig_verify_token = map_option (\<lambda>key token. verify_token key (ou_float ou) (ou_fromisoformat ou) token now) (br_identity_key app),
          ig_allow_legacy = se_allow_legacy_proxy_assertion se, ig_trusted_proxy = se_trusted_proxy se,
          ig_assertion_file = map_option (\<lambda>file. case ou_read ou file of Inl _ \<Rightarrow> None | Inr text \<Rightarrow> Some text) (se_proxy_assertion_file se),
          ig_capability = se_tailscale_app_capability se, ig_decode_header = ou_decode_header ou, ig_fl = ou_float ou\<rparr>)"

section \<open>The read routes\<close>

text \<open>Every route but \<open>/healthz\<close> depends on an authenticated subject.\<close>

definition health :: json where
  "health = JObj [(''status'', JStr ''ok'')]"

definition authenticated :: "ingress \<Rightarrow> headers \<Rightarrow> exn + 'a \<Rightarrow> exn + 'a" where
  "authenticated ig h result = bind_sum (authenticated_subject ig h) (\<lambda>_. result)"

definition actions_route :: "app \<Rightarrow> ingress \<Rightarrow> headers \<Rightarrow> exn + json list" where
  "actions_route app ig h = authenticated ig h (Inr (catalog_serializable (rt_catalog (br_runtime app))))"

definition plugins_route :: "app \<Rightarrow> ingress \<Rightarrow> headers \<Rightarrow> exn + plugin_manifest list" where
  "plugins_route app ig h = authenticated ig h (Inr (lp_manifests (br_extensions app)))"

definition plugin_health_route :: "app \<Rightarrow> instant \<Rightarrow> ingress \<Rightarrow> headers \<Rightarrow> exn + (string \<times> adapter_health) list" where
  "plugin_health_route app now ig h = authenticated ig h (registry_health now (rt_adapters (br_runtime app)))"

text \<open>The guards as they are at the time of the request.\<close>

definition plugin_resilience_route ::
  "(string \<times> guard) list \<Rightarrow> rat \<Rightarrow> ingress \<Rightarrow> headers \<Rightarrow> exn + (string \<times> resilience_snapshot) list" where
  "plugin_resilience_route guards monotonic ig h =
     authenticated ig h (Inr (map (\<lambda>(plugin_id, guard). (plugin_id, snapshot monotonic guard)) (sort_key fst guards)))"

definition status_summary_route :: "status_providers \<Rightarrow> instant \<Rightarrow> ingress \<Rightarrow> headers \<Rightarrow> exn + (string \<times> status_value) list" where
  "status_summary_route providers now ig h = authenticated ig h (status_summary now providers)"

definition status_domain_route :: "status_providers \<Rightarrow> string \<Rightarrow> instant \<Rightarrow> ingress \<Rightarrow> headers \<Rightarrow> exn + status_value" where
  "status_domain_route providers domain now ig h = authenticated ig h (status_domain now providers domain)"

section \<open>The daemons\<close>

definition worker_process :: "outside \<Rightarrow> settings \<Rightarrow> exn + store_cfg \<times> worker" where
  "worker_process ou se =
     bind_sum (store_of ou se) (\<lambda>store.
     bind_sum (extensions_of ou se) (\<lambda>extensions.
     bind_sum (catalog_of ou se extensions) (\<lambda>catalog.
     Inr (store, \<lparr>wk_id = se_worker_id se, wk_catalog = catalog, wk_validator = ou_validator ou, wk_adapters = registry_of extensions\<rparr>))))"

definition scheduler_process :: "outside \<Rightarrow> settings \<Rightarrow> exn + store_cfg \<times> scheduler" where
  "scheduler_process ou se =
     bind_sum (store_of ou se) (\<lambda>store.
     bind_sum (extensions_of ou se) (\<lambda>extensions.
     bind_sum (catalog_of ou se extensions) (\<lambda>catalog.
     Inr (store, \<lparr>sd_reconciler = \<lparr>rc_catalog = catalog, rc_validator = ou_validator ou, rc_adapters = registry_of extensions,
       rc_max_attempts = se_reconcile_max_attempts se\<rparr>, sd_queue_ttl_seconds = se_queue_ttl_seconds se\<rparr>))))"

section \<open>What the processes share\<close>

lemma create_app_Inr:
  "create_app ou se policy adapters = Inr app \<Longrightarrow> \<exists>extensions catalog key store protected.
     extensions_of ou se = Inr extensions \<and> catalog_of ou se extensions = Inr catalog \<and> identity_key_of ou se = Inr key \<and>
     store_of ou se = Inr store \<and> load_protected_inventory (map_option (ou_document ou) (se_protected_inventory_path se)) = Inr protected \<and>
     br_settings app = se \<and> br_store app = store \<and> br_extensions app = extensions \<and> br_identity_key app = key \<and>
     rt_catalog (br_runtime app) = catalog \<and> rt_decide (br_runtime app) = fst (case policy of Some p \<Rightarrow> p | None \<Rightarrow> agent_of ou se) \<and>
     rt_adapters (br_runtime app) = (case adapters of Some r \<Rightarrow> r | None \<Rightarrow> registry_of extensions) \<and>
     rt_policy_env (br_runtime app) = \<lparr>pe_crypto = ou_crypto ou, pe_allow_mutations = se_allow_mutations se,
       pe_environment = se_environment se, pe_inventory = protected\<rparr>"
  by (auto simp: create_app_def Let_def)

text \<open>The processes agree: from the settings and files that an application starts with, the worker and the scheduler
  start too, with the same audit key, catalog and adapters, and the adapter of every action that a request to the
  application can be validated for is found by all three.\<close>

theorem processes_agree:
  assumes "create_app ou se None None = Inr app"
  shows "\<exists>w sd. worker_process ou se = Inr (br_store app, w) \<and> scheduler_process ou se = Inr (br_store app, sd) \<and>
    w = br_worker app \<and> rc_catalog (sd_reconciler sd) = wk_catalog w \<and> rc_validator (sd_reconciler sd) = wk_validator w \<and>
    rc_adapters (sd_reconciler sd) = wk_adapters w \<and>
    (\<forall>request action. validate_request (rt_validator (br_runtime app)) (rt_catalog (br_runtime app)) request = Inr action \<longrightarrow>
       validate_request (wk_validator w) (wk_catalog w) request = Inr action \<and>
       (\<exists>adapter. registry_get (rt_adapters (br_runtime app)) (ad_adapter action) = Inr adapter \<and>
          registry_get (wk_adapters w) (ad_adapter action) = Inr adapter))"
proof -
  obtain extensions catalog store where parts: "extensions_of ou se = Inr extensions" "catalog_of ou se extensions = Inr catalog"
    "store_of ou se = Inr store" "br_store app = store"
    "rt_catalog (br_runtime app) = catalog" "rt_validator (br_runtime app) = ou_validator ou" "rt_adapters (br_runtime app) = registry_of extensions"
    "br_worker app = \<lparr>wk_id = se_worker_id se, wk_catalog = catalog, wk_validator = ou_validator ou, wk_adapters = registry_of extensions\<rparr>"
    using assms by (auto simp: create_app_def Let_def)
  have "\<exists>adapter. registry_get (registry_of extensions) (ad_adapter action) = Inr adapter"
    if "validate_request (ou_validator ou) catalog request = Inr action" for request action
    using catalogued_requests_resolve [OF parts(2) [unfolded catalog_of_def] that] by blast
  with parts show ?thesis by (simp add: worker_process_def scheduler_process_def)
qed

section \<open>The default deployment\<close>

text \<open>Only the built-in plugin with its two adapters that touch nothing is loaded.\<close>

definition harmless :: "instant \<Rightarrow> loaded_plugins \<Rightarrow> bool" where
  "harmless now lp \<longleftrightarrow> (\<forall>m \<in> set (lp_manifests lp). m = core_manifest) \<and>
     (\<forall>(n, p, a) \<in> set (lp_adapters lp). a = FakeAdapter now \<or> a = DisabledMutationAdapter now ''disabled'')"

lemma merge_adapters:
  assumes "merge pid m c lp = Inr lp'"
  shows "set (lp_adapters lp') = set (lp_adapters lp) \<union> {(n, pid, x) | n x. (n, Some x) \<in> set (pc_adapters c)}"
proof -
  obtain adapters where a: "for_each (add_guarded ''adapter'' '' does not implement'' '' the complete lifecycle contract'' pid)
      (pc_adapters c) (lp_adapters lp) = Inr adapters" "lp_adapters lp' = adapters"
    using assms unfolding merge_def by (auto split: if_splits)
  from add_guarded_all [OF a(1)] have new: "adapters = lp_adapters lp @ map (\<lambda>(n, x). (n, pid, the x)) (pc_adapters c)"
    "\<forall>(n, x) \<in> set (pc_adapters c). x \<noteq> None" by blast+
  then show ?thesis unfolding a(2) by (force simp: image_iff)
qed

lemma closed_resolve:
  assumes "resolve_plugin pg ww lo pid activation le = Inr (m, c)" and "\<not> lo_allow_external lo" and "\<not> lo_allow_wasm lo"
    and "pg_builtin pg = [(''dh-core'', Inr (CorePlugin now))]"
  shows "m = core_manifest \<and> pc_adapters c = [(''dh-core.fake'', Some (FakeAdapter now)),
    (''dh-core.disabled'', Some (DisabledMutationAdapter now ''disabled''))]"
proof -
  have "le_source le \<noteq> WASM_SOURCE" using assms(1,3) by (auto simp: resolve_plugin_def wasm_plugin_def)
  moreover have "le_source le \<noteq> PYTHON" using assms(1,2) by (auto simp: resolve_plugin_def instantiate_def split: if_splits)
  ultimately have "le_source le = BUILTIN" by (cases "le_source le") simp_all
  then show ?thesis using assms(1,4)
    by (auto simp: resolve_plugin_def instantiate_def CorePlugin_def Let_def split: if_splits)
qed

lemma closed_load:
  assumes "for_each (load_one pg ww lo locked) items lp = Inr lp'" and "harmless now lp"
    and "\<not> lo_allow_external lo" and "\<not> lo_allow_wasm lo" and "pg_builtin pg = [(''dh-core'', Inr (CorePlugin now))]"
  shows "harmless now lp'"
  using assms(1,2)
proof (induction items arbitrary: lp)
  case (Cons item items)
  then obtain lp1 where step: "load_one pg ww lo locked item lp = Inr lp1" "for_each (load_one pg ww lo locked) items lp1 = Inr lp'"
    by auto
  have "harmless now lp1"
  proof (cases "pa_enabled (snd item)")
    case True
    then obtain le m c lp2 where one: "resolve_plugin pg ww lo (fst item) (snd item) le = Inr (m, c)" "merge (fst item) m c lp = Inr lp2"
      "lp_manifests lp1 = lp_manifests lp2 @ [m]" "lp_adapters lp1 = lp_adapters lp2"
      using step(1) by (auto simp: load_one_def split: prod.splits option.splits)
    from closed_resolve [OF one(1) assms(3-5)] merge_adapters [OF one(2)] merge_Inr(1) [OF one(2)] one(3,4) Cons.prems(2)
    show ?thesis by (auto simp: harmless_def)
  qed (use step(1) Cons.prems(2) in \<open>auto simp: load_one_def split: prod.splits\<close>)
  with Cons.IH step(2) show ?case by blast
qed simp

text \<open>(C27) A deployment that sets nothing is closed. The application started with the default settings authenticates no
  request at all, whatever its headers; under the shipped policy it permits no mutation to anybody; and whatever the plugin
  configuration, the lock and the installed distributions say, the only plugin it loads is the built-in one, whose two
  adapters reach no other system.\<close>

theorem default_deployment_closed:
  assumes "create_app ou default_settings None None = Inr app"
    and "ou_opa ou ''http://127.0.0.1:8181/v1/data/deckhand/authz/decision'' = rego_service dt"
  shows "authenticated_subject (ingress_of ou app now) h = Inl (unavailable ''identity verification unavailable'') \<and>
    (\<forall>action request subj phase valid db d db'. ad_mutation action \<and> mutation_matches_risk action \<and>
       decision_of (br_runtime app) action request subj phase valid db = (Inr d, db') \<longrightarrow> \<not> pd_allow d) \<and>
    harmless (ou_now ou) (br_extensions app) \<and>
    (\<forall>name a. registry_get (rt_adapters (br_runtime app)) name = Inr a \<longrightarrow>
       a = FakeAdapter (ou_now ou) \<or> a = DisabledMutationAdapter (ou_now ou) ''disabled'')"
proof -
  obtain extensions where x: "extensions_of ou default_settings = Inr extensions" "br_extensions app = extensions"
    "rt_adapters (br_runtime app) = registry_of extensions" "br_identity_key app = None" "br_settings app = default_settings"
    "rt_decide (br_runtime app) = fst (agent_of ou default_settings)" "\<not> pe_allow_mutations (rt_policy_env (br_runtime app))"
    using assms(1) by (auto simp: create_app_def Let_def identity_key_of_def default_settings_def)
  have closed: "authenticated_subject (ingress_of ou app now) h = Inl (unavailable ''identity verification unavailable'')" if "hd_identity h = None"
    using that by (simp add: authenticated_subject_def ingress_of_def Let_def x(4,5) default_settings_def)
  have token: "authenticated_subject (ingress_of ou app now) h = Inl (unavailable ''identity verification unavailable'')" if "hd_identity h = Some t" for t
    using that by (simp add: authenticated_subject_def subject_from_identity_token_def ingress_of_def Let_def x(4))
  have "fst (agent_of ou default_settings) = opa_decide (rego_service dt)"
    using assms(2) by (simp add: agent_of_def Let_def default_settings_def rstrip_def)
  then have denied: "\<not> pd_allow d" if "ad_mutation action" "mutation_matches_risk action"
      "decision_of (br_runtime app) action request subj phase valid db = (Inr d, db')" for action request subj phase valid db d db'
    using that x(6,7) by (auto simp: decision_of_def opa_on_input rego_permits_def mutation_matches_risk_def program_defs)
  obtain pg configuration lock locked where load: "default_manager ou = Inr pg"
    "for_each (load_one pg (ou_wasm ou) (load_options_of ou default_settings) locked) (sort_key fst configuration) nothing_loaded = Inr extensions"
    using x(1) by (auto simp: extensions_of_def load_extensions_def load_def)
  have "harmless (ou_now ou) extensions"
    by (rule closed_load [OF load(2)])
      (use load(1) in \<open>auto simp: harmless_def nothing_loaded_def load_options_of_def default_settings_def default_manager_def\<close>)
  moreover have "a = FakeAdapter (ou_now ou) \<or> a = DisabledMutationAdapter (ou_now ou) ''disabled''"
    if "registry_get (registry_of extensions) name = Inr a" "harmless (ou_now ou) extensions" for name a
    using that by (auto simp: registry_get_def registry_of_def harmless_def split: option.splits dest!: map_of_SomeD)
  ultimately show ?thesis using closed token denied x(2,3) by (cases "hd_identity h") auto
qed

section \<open>An example\<close>

definition demo_outside :: outside where
  "demo_outside = \<lparr>ou_crypto = demo_crypto, ou_read = (\<lambda>_. Inl ''no such file''), ou_public_pem = (\<lambda>_. Inl ()), ou_yaml = (\<lambda>_. None),
     ou_document = (\<lambda>_. Malformed), ou_listing = (\<lambda>_. Some [''a.json'']), ou_read_action = (\<lambda>_. Inr demo_action),
     ou_read_configuration = (\<lambda>_. None), ou_read_lock = (\<lambda>_. None), ou_default_policy = demo_policy, ou_entry_points = [],
     ou_wasm = demo_world, ou_validator = (\<lambda>_ _. []), ou_opa = (\<lambda>_. rego_service demo_data), ou_opa_health = (\<lambda>_. Some 200),
     ou_decode_header = Inr, ou_float = (\<lambda>t. t), ou_fromisoformat = demo_fromisoformat, ou_now = 0, ou_monotonic = 0\<rparr>"

definition only_headers :: "string \<Rightarrow> headers" where
  "only_headers token = \<lparr>hd_identity = Some token, hd_user_login = Some ''operator'', hd_app_capabilities = None, hd_subject = Some ''operator'',
     hd_device = Some ''deck-1'', hd_channel = Some ''mgmt-mtls'', hd_proxy_assertion = Some ''secret''\<rparr>"

lemma demo_extensions: "extensions_of demo_outside default_settings = Inr demo_loaded"
proof -
  have "default_manager demo_outside = Inr demo_manager" by (simp add: default_manager_def demo_outside_def demo_manager_def)
  moreover have "load_options_of demo_outside default_settings = demo_options"
    by (simp add: load_options_of_def demo_outside_def default_settings_def demo_options_def)
  ultimately show ?thesis
    using demo_load by (simp add: extensions_of_def load_extensions_def load_document_def demo_outside_def)
qed

lemma demo_app:
  "\<exists>app. create_app demo_outside default_settings None None = Inr app \<and> rt_catalog (br_runtime app) = [(action_key demo_action, demo_action)] \<and>
     rt_validator (br_runtime app) = (\<lambda>_ _. [])"
proof -
  note demo_extensions
  moreover have "catalog_of demo_outside default_settings demo_loaded = Inr [(action_key demo_action, demo_action)]"
    by (simp add: catalog_of_def demo_outside_def load_catalog_def catalog_from_path_def catalog_init_def catalog_dict_def list_actions_def
        check_catalogued_def registry_of_def registry_get_def demo_loaded_def core_manifest_def demo_action_def)
  ultimately show ?thesis
    by (simp add: create_app_def identity_key_of_def store_of_def load_audit_key_def default_settings_def load_protected_inventory_def
        Let_def demo_outside_def)
qed

theorem processes_agree_witness:
  "\<exists>app w sd adapter. create_app demo_outside default_settings None None = Inr app \<and> worker_process demo_outside default_settings = Inr (br_store app, w) \<and>
     scheduler_process demo_outside default_settings = Inr (br_store app, sd) \<and>
     registry_get (wk_adapters w) (ad_adapter demo_action) = Inr adapter"
proof -
  obtain app where app: "create_app demo_outside default_settings None None = Inr app"
    "rt_catalog (br_runtime app) = [(action_key demo_action, demo_action)]" "rt_validator (br_runtime app) = (\<lambda>_ _. [])"
    using demo_app by blast
  then have "validate_request (rt_validator (br_runtime app)) (rt_catalog (br_runtime app)) demo_request = Inr demo_action"
    by (simp add: validate_request_def catalog_get_def demo_action_def demo_request_def)
  with processes_agree [OF app(1)] app(1) show ?thesis by blast
qed

theorem default_deployment_closed_witness:
  "\<exists>app. create_app demo_outside default_settings None None = Inr app \<and>
     authenticated_subject (ingress_of demo_outside app 0) (only_headers ''token'') = Inl (unavailable ''identity verification unavailable'')"
proof -
  obtain app where app: "create_app demo_outside default_settings None None = Inr app" using demo_app by blast
  with default_deployment_closed [OF app, of demo_data 0 "only_headers ''token''"] show ?thesis by (auto simp: demo_outside_def)
qed

end
