(* ===== verification/EndToEnd.thy ===== *)
theory EndToEnd
  imports Application
begin

text \<open>
  From the press of a key to the observed result, through everything that the settings put together: ingress, policy,
  confirmation, job store, worker and adapter.
\<close>

text \<open>A new job on a store where nothing is queued is the next one the worker claims.\<close>

lemma next_claimable_new:
  assumes "db_jobs db = js @ [r]" and "list_all (\<lambda>j. jr_state j \<noteq> QUEUED) js" and "jr_state r = QUEUED" and "jr_lease_expires_at r = None"
  shows "next_claimable now db = Some r"
proof -
  have "filter (claimable now) js = []" using assms(2) by (auto simp: list_all_iff filter_empty_conv claimable_def)
  then show ?thesis using assms(1,3,4) by (simp add: next_claimable_def claimable_def)
qed


section \<open>An example\<close>

definition open_settings :: settings where
  "open_settings = default_settings\<lparr>se_allow_mutations := True\<rparr>"

lemma open_app:
  "\<exists>app. create_app demo_outside open_settings None None = Inr app \<and> br_store app = demo_cfg \<and>
     rt_catalog (br_runtime app) = [(action_key demo_action, demo_action)] \<and> rt_adapters (br_runtime app) = registry_of demo_loaded \<and>
     rt_policy_env (br_runtime app) = \<lparr>pe_crypto = demo_crypto, pe_allow_mutations = True, pe_environment = ''development'', pe_inventory = no_inventory\<rparr>"
proof -
  obtain old where old: "create_app demo_outside default_settings None None = Inr old"
    "rt_catalog (br_runtime old) = [(action_key demo_action, demo_action)]" using demo_app by blast
  have same: "extensions_of demo_outside open_settings = extensions_of demo_outside default_settings"
    "catalog_of demo_outside open_settings = catalog_of demo_outside default_settings"
    "identity_key_of demo_outside open_settings = identity_key_of demo_outside default_settings"
    "store_of demo_outside open_settings = Inr demo_cfg"
    by (simp_all add: open_settings_def extensions_of_def load_options_of_def catalog_of_def identity_key_of_def store_of_def
        load_audit_key_def default_settings_def demo_cfg_def demo_outside_def fun_eq_iff)
  have "extensions_of demo_outside default_settings = Inr demo_loaded" by (rule demo_extensions)
  with old same show ?thesis
    by (auto simp: create_app_def Let_def open_settings_def default_settings_def load_protected_inventory_def demo_outside_def)
qed


end
