(* ===== verification/Schema.thy ===== *)
theory Schema
  imports Models
begin

text \<open>
  The database file under the store: \<open>Store.initialize\<close> with the schema of \<open>store.py\<close> and its additive migration. A table
  is its columns and rows, a row is a list of cells by column; types and constraints other than defaults are left to SQLite.
\<close>

datatype cell = CNull | CText string | CInt int

type_synonym sql_row = "(string \<times> cell) list"

record sql_table =
  tb_columns :: "string list"
  tb_rows :: "sql_row list"

type_synonym sql_db = "(string \<times> sql_table) list"

text \<open>The tables of the schema with the default of each column.\<close>

definition SCHEMA :: "(string \<times> (string \<times> cell) list) list" where
  "SCHEMA =
     [(''jobs'', [(''id'', CNull), (''idempotency_key'', CNull), (''request_json'', CNull), (''request_digest'', CNull),
        (''subject_json'', CNull), (''state'', CNull), (''lease_owner'', CNull), (''lease_token'', CNull), (''lease_expires_at'', CNull),
        (''reconcile_attempts'', CInt 0), (''result_json'', CNull), (''error'', CNull), (''created_at'', CNull), (''updated_at'', CNull)]),
      (''confirmations'', [(''id'', CNull), (''token_hash'', CNull), (''confirmation_digest'', CNull), (''subject_name'', CNull),
        (''subject_device'', CNull), (''control'', CNull), (''mode'', CNull), (''expected_response'', CNull), (''expires_at'', CNull),
        (''used_at'', CNull), (''created_at'', CNull)]),
      (''audit_events'', [(''sequence'', CNull), (''occurred_at'', CNull), (''event_type'', CNull), (''payload_json'', CNull),
        (''previous_hash'', CNull), (''event_hash'', CNull)])]"

definition additive_columns :: "(string \<times> (string \<times> cell) list) list" where
  "additive_columns =
     [(''jobs'', [(''lease_token'', CNull), (''reconcile_attempts'', CInt 0)]), (''confirmations'', [(''control'', CNull)])]"

text \<open>\<open>CREATE TABLE IF NOT EXISTS\<close>, \<open>CREATE INDEX IF NOT EXISTS\<close> and \<open>ALTER TABLE ... ADD COLUMN\<close>.\<close>

definition create_table :: "string \<times> (string \<times> cell) list \<Rightarrow> sql_db \<Rightarrow> sql_db" where
  "create_table table db =
     (if fst table \<in> fst ` set db then db else db @ [(fst table, \<lparr>tb_columns = map fst (snd table), tb_rows = []\<rparr>)])"

definition columns_of :: "string \<Rightarrow> sql_db \<Rightarrow> string list" where
  "columns_of name db = (case map_of db name of None \<Rightarrow> [] | Some t \<Rightarrow> tb_columns t)"

definition create_index :: "string \<Rightarrow> string list \<Rightarrow> sql_db \<Rightarrow> exn + unit" where
  "create_index name columns db =
     (if set columns \<subseteq> set (columns_of name db) then Inr () else Inl (StoreError ''no such column''))"

definition with_column :: "string \<times> cell \<Rightarrow> sql_table \<Rightarrow> sql_table" where
  "with_column column t = t\<lparr>tb_columns := tb_columns t @ [fst column], tb_rows := map (\<lambda>r. r @ [column]) (tb_rows t)\<rparr>"

definition add_column :: "string \<Rightarrow> string \<times> cell \<Rightarrow> sql_db \<Rightarrow> sql_db" where
  "add_column name column db = map (\<lambda>(n, t). (n, if n = name then with_column column t else t)) db"

definition migrate_table :: "string \<times> (string \<times> cell) list \<Rightarrow> sql_db \<Rightarrow> sql_db" where
  "migrate_table table db =
     (let existing = columns_of (fst table) db
      in fold (\<lambda>column db. if fst column \<in> set existing then db else add_column (fst table) column db) (snd table) db)"

definition migrate :: "sql_db \<Rightarrow> sql_db" where
  "migrate db = fold migrate_table additive_columns db"

text \<open>The statements of the script commit one by one, so a failing index leaves the table before it.\<close>

definition initialize :: "sql_db \<Rightarrow> (exn + unit) \<times> sql_db" where
  "initialize db =
     (let jobs = SCHEMA ! 0; db1 = create_table jobs db
      in case create_index ''jobs'' [''state'', ''created_at''] db1 of
           Inl e \<Rightarrow> (Inl e, db1)
         | Inr _ \<Rightarrow> (Inr (), migrate (fold create_table (tl SCHEMA) db1)))"

section \<open>Upgrading\<close>

text \<open>A table grown by columns at the end, whose old rows got their defaults.\<close>

definition grown :: "(string \<times> cell) list \<Rightarrow> sql_table \<Rightarrow> sql_table" where
  "grown added t = t\<lparr>tb_columns := tb_columns t @ map fst added, tb_rows := map (\<lambda>r. r @ added) (tb_rows t)\<rparr>"

lemma grown_simps: "grown [] t = t" "with_column c (grown added t) = grown (added @ [c]) t" "tb_columns (grown added t) = tb_columns t @ map fst added"
  by (simp_all add: grown_def with_column_def comp_def)

definition lacking :: "sql_table \<Rightarrow> (string \<times> cell) list \<Rightarrow> (string \<times> cell) list" where
  "lacking t columns = filter (\<lambda>c. fst c \<notin> set (tb_columns t)) columns"

lemma map_of_add_column:
  "map_of (add_column name column db) n = map_option (\<lambda>t. if n = name then with_column column t else t) (map_of db n)"
  unfolding add_column_def by (induction db) auto

lemma fst_add_column: "map fst (add_column name column db) = map fst db"
  by (induction db) (auto simp: add_column_def)

lemma add_columns:
  "map_of (fold (\<lambda>column db. if fst column \<in> existing then db else add_column name column db) columns db) n =
     map_option (\<lambda>t. if n = name then grown (filter (\<lambda>c. fst c \<notin> existing) columns) t else t) (map_of db n)"
proof (induction columns rule: rev_induct)
  case (snoc c columns)
  then show ?case by (cases "map_of db n") (auto simp: map_of_add_column grown_simps)
qed (cases "map_of db n", simp_all add: grown_simps)

lemma map_of_migrate_table:
  "map_of (migrate_table table db) n = map_option (\<lambda>t. if n = fst table then grown (lacking t (snd table)) t else t) (map_of db n)"
  unfolding migrate_table_def Let_def add_columns
  by (cases "map_of db n") (auto simp: columns_of_def lacking_def)

lemma map_of_create_table:
  "map_of (create_table table db) n =
     (case map_of db n of Some t \<Rightarrow> Some t
      | None \<Rightarrow> if n = fst table then Some \<lparr>tb_columns = map fst (snd table), tb_rows = []\<rparr> else None)"
proof -
  have "fst table \<notin> fst ` set db \<longleftrightarrow> map_of db (fst table) = None" by (simp add: map_of_eq_None_iff)
  then show ?thesis by (auto simp: create_table_def map_add_def split: option.split)
qed

lemma migrate_table_complete:
  assumes "set (map fst (snd table)) \<subseteq> set (columns_of (fst table) db)"
  shows "migrate_table table db = db"
proof -
  have "fold (\<lambda>column db. if fst column \<in> existing then db else add_column name column db) columns db = db"
    if "set (map fst columns) \<subseteq> existing" for existing name and columns :: "(string \<times> cell) list"
    using that by (induction columns) auto
  with assms show ?thesis by (simp add: migrate_table_def)
qed

definition additive :: "string \<Rightarrow> (string \<times> cell) list" where
  "additive name = (case map_of additive_columns name of None \<Rightarrow> [] | Some columns \<Rightarrow> columns)"

lemma map_of_migrate: "map_of (migrate db) n = map_option (\<lambda>t. grown (lacking t (additive n)) t) (map_of db n)"
  by (cases "map_of db n") (simp_all add: migrate_def additive_columns_def map_of_migrate_table additive_def lacking_def grown_simps)

lemma migrate_complete:
  assumes "\<And>table. table \<in> set additive_columns \<Longrightarrow> set (map fst (snd table)) \<subseteq> set (columns_of (fst table) db)"
  shows "migrate db = db"
proof -
  have "fold migrate_table tables db = db" if "set tables \<subseteq> set additive_columns" for tables
    using that by (induction tables) (simp_all add: migrate_table_complete [OF assms])
  then show ?thesis by (simp add: migrate_def)
qed

definition fresh_table :: "(string \<times> cell) list \<Rightarrow> sql_table" where
  "fresh_table columns = \<lparr>tb_columns = map fst columns, tb_rows = []\<rparr>"

lemma map_of_create_tables:
  "map_of (fold create_table tables db) n =
     (case map_of db n of Some t \<Rightarrow> Some t | None \<Rightarrow> map_option fresh_table (map_of tables n))"
proof (induction tables arbitrary: db)
  case (Cons table tables)
  have "\<lparr>tb_columns = map fst (snd table), tb_rows = []\<rparr> = fresh_table (snd table)" by (simp add: fresh_table_def)
  with Cons show ?case by (cases table) (auto simp: map_of_create_table split: option.split)
qed (simp split: option.split)

text \<open>A database of this or an earlier version: a table that exists lacks at most columns that the migration adds.\<close>

definition earlier :: "sql_db \<Rightarrow> bool" where
  "earlier db \<longleftrightarrow> list_all (\<lambda>(name, columns). case map_of db name of None \<Rightarrow> True
     | Some t \<Rightarrow> set (map fst columns) \<subseteq> set (tb_columns t) \<union> set (map fst (additive name))) SCHEMA"

lemma initialize_Inr:
  assumes "earlier db"
  shows "initialize db = (Inr (), migrate (fold create_table SCHEMA db))"
proof -
  have "{''state'', ''created_at''} \<subseteq> set (columns_of ''jobs'' (create_table (SCHEMA ! 0) db))"
    using assms by (auto simp: earlier_def SCHEMA_def additive_def additive_columns_def columns_of_def map_of_create_table split: option.splits)
  moreover have "SCHEMA = SCHEMA ! 0 # tl SCHEMA" by (simp add: SCHEMA_def)
  then have "fold create_table SCHEMA db = fold create_table (tl SCHEMA) (create_table (SCHEMA ! 0) db)" by (metis fold_simps(2))
  ultimately show ?thesis by (simp add: initialize_def create_index_def)
qed


section \<open>An example\<close>

text \<open>A database of the version without leases and attempts, with one job.\<close>

definition demo_old :: sql_db where
  "demo_old = [(''jobs'', \<lparr>tb_columns = [''id'', ''idempotency_key'', ''request_json'', ''request_digest'', ''subject_json'', ''state'',
       ''lease_owner'', ''lease_expires_at'', ''result_json'', ''error'', ''created_at'', ''updated_at''],
     tb_rows = [[(''id'', CText ''job_1''), (''state'', CText ''queued'')]]\<rparr>)]"


end
