(* ===== verification/Sdctl.thy ===== *)
theory Sdctl
  imports Mcp
begin

text \<open>
  The operator command line \<open>cli.py\<close>: the parsed arguments, the request body of an action command and the one HTTP request
  of a run. \<open>argparse\<close> itself is not modelled; a namespace is its result. The identity of the operator is added by the ingress in
  front of the broker, from the client certificate.
\<close>

datatype command = Actions | Status_of "string option" | Plan_of | Execute_of | Job_of string

record namespace =
  ns_client :: string
  ns_command :: command
  ns_action_id :: string
  ns_target_type :: string
  ns_target_id :: string
  ns_version :: int
  ns_parameters :: string
  ns_confirmation_token :: "string option"

text \<open>How a run ends: the JSON it prints, the text it writes to the error stream with exit status 1, or a text that
  \<open>SystemExit\<close> carries; \<open>Crashes\<close> is any other exception.\<close>

datatype sdctl_ending = Prints json | Fails string | Exits string | Crashes string

definition sdctl_payload :: "(string \<Rightarrow> json option) \<Rightarrow> namespace \<Rightarrow> string \<Rightarrow> sdctl_ending + json" where
  "sdctl_payload loads ns key =
     (case loads (ns_parameters ns) of
        None \<Rightarrow> Inl (Exits ''invalid --parameters JSON'')
      | Some (JObj parameters) \<Rightarrow>
          Inr (JObj [(''action_id'', JStr (ns_action_id ns)), (''action_version'', JInt (ns_version ns)),
            (''target'', JObj [(''type'', JStr (ns_target_type ns)), (''id'', JStr (ns_target_id ns))]),
            (''parameters'', JObj parameters), (''context'', JObj [(''client'', JStr (ns_client ns))]),
            (''idempotency_key'', JStr key), (''dry_run'', JBool (ns_command ns = Plan_of)),
            (''confirmation_token'', opt_json JStr (ns_confirmation_token ns))])
      | Some _ \<Rightarrow> Inl (Exits ''--parameters must be a JSON object''))"

definition sdctl_request :: "(string \<Rightarrow> json option) \<Rightarrow> namespace \<Rightarrow> string \<Rightarrow> sdctl_ending + string \<times> string \<times> json option" where
  "sdctl_request loads ns key =
     (case ns_command ns of
        Actions \<Rightarrow> Inr (''GET'', ''/v1/actions'', None)
      | Status_of (Some (c # domain)) \<Rightarrow> Inr (''GET'', ''/v1/status/'' @ c # domain, None)
      | Status_of _ \<Rightarrow> Inr (''GET'', ''/v1/status/summary'', None)
      | Plan_of \<Rightarrow> bind_sum (sdctl_payload loads ns key) (\<lambda>body.
          Inr (''POST'', ''/v1/actions/'' @ ns_action_id ns @ '':plan'', Some body))
      | Execute_of \<Rightarrow> bind_sum (sdctl_payload loads ns key) (\<lambda>body.
          Inr (''POST'', ''/v1/actions/'' @ ns_action_id ns @ '':execute'', Some body))
      | Job_of job_id \<Rightarrow> Inr (''GET'', ''/v1/jobs/'' @ job_id, None))"

text \<open>\<open>raise_for_status\<close> accepts the statuses from 200 to 299 only.\<close>

definition sdctl_run :: "(string \<Rightarrow> json option) \<Rightarrow> string \<Rightarrow> 's transport \<Rightarrow> namespace \<Rightarrow> string \<Rightarrow> 's \<Rightarrow> sdctl_ending \<times> 's" where
  "sdctl_run loads base_url http ns key s =
     (case sdctl_request loads ns key of
        Inl e \<Rightarrow> (e, s)
      | Inr (method, url_path, body) \<Rightarrow>
          (case http \<lparr>ht_method = method, ht_url = base_url @ url_path, ht_headers = [], ht_body = body\<rparr> s of
             (Inl m, s') \<Rightarrow> (Fails (''sdctl: '' @ m), s')
           | (Inr response, s') \<Rightarrow>
               (if \<not> (200 \<le> hs_status response \<and> hs_status response \<le> 299) then Fails ''sdctl: status error''
                else case hs_json response of None \<Rightarrow> Crashes ''JSONDecodeError'' | Some v \<Rightarrow> Prints v, s')))"

text \<open>Only the two action commands send anything but a read, and only \<open>execute\<close> sends a body that is no dry run.\<close>

lemma sdctl_writes_only_execute:
  assumes "sdctl_request loads ns key = Inr (method, url_path, body)"
  shows "method = ''GET'' \<and> body = None \<or>
    method = ''POST'' \<and> (\<exists>kvs. body = Some (JObj kvs) \<and> obj_get kvs ''action_id'' = Some (JStr (ns_action_id ns)) \<and>
      obj_get kvs ''dry_run'' = Some (JBool (ns_command ns \<noteq> Execute_of)))"
  using assms
  by (auto simp: sdctl_request_def sdctl_payload_def split: command.splits option.splits list.splits json.splits)

text \<open>A body without a JSON reply ends the run with a traceback, since only HTTP errors are caught.\<close>

lemma sdctl_crashes:
  assumes "ns_command ns = Actions" and "http \<lparr>ht_method = ''GET'', ht_url = base_url @ ''/v1/actions'', ht_headers = [], ht_body = None\<rparr> s =
      (Inr \<lparr>hs_status = 200, hs_json = None, hs_text = t\<rparr>, s')"
  shows "sdctl_run loads base_url http ns key s = (Crashes ''JSONDecodeError'', s')"
  using assms by (simp add: sdctl_run_def sdctl_request_def)

end
