(* ===== verification/WorkerGuard.thy ===== *)
theory WorkerGuard
  imports Worker GuardedCall
begin

text \<open>
  The worker over guarded adapters: \<open>worker.py\<close> calls the plugin through \<open>ResilientAdapter\<close> of \<open>resilience.py\<close>. Each
  operation of the wrapped adapter is one guarded call, under any schedule and from any state of the guard.
\<close>

text \<open>\<open>meets\<close> gives the schedule of each call by its operation label, and the guard it meets.\<close>

definition ResilientAdapter :: "(rat \<Rightarrow> string) \<Rightarrow> (string \<Rightarrow> schedule \<times> guard) \<Rightarrow> adapter \<Rightarrow> adapter" where
  "ResilientAdapter float_repr meets adapter = \<lparr>
     ap_health = fst (health_with_resilience float_repr adapter (fst (meets ''health'')) (sc_finished (fst (meets ''health''))) (snd (meets ''health''))),
     ap_plan = (\<lambda>action request. fst (guard_call (resilient_plan adapter action request) (fst (meets ''plan'')) (snd (meets ''plan'')))),
     ap_execute = (\<lambda>action request. fst (guard_call (resilient_execute adapter action request) (fst (meets ''execute'')) (snd (meets ''execute'')))),
     ap_observe = (\<lambda>action request. fst (guard_call (resilient_observe adapter action request) (fst (meets ''observe'')) (snd (meets ''observe'')))),
     ap_verify = (\<lambda>action request execution observation.
       fst (guard_call (resilient_verify adapter action request execution observation) (fst (meets ''verify'')) (snd (meets ''verify'')))),
     ap_cancel = (\<lambda>action request execution.
       fst (guard_call (resilient_cancel adapter action request execution) (fst (meets ''cancel'')) (snd (meets ''cancel''))))\<rparr>"

text \<open>Whether the plugin's own \<open>execute\<close> was started: the in-flight gauge went up.\<close>

definition execute_started :: "adapter \<Rightarrow> (string \<Rightarrow> schedule \<times> guard) \<Rightarrow> action_definition \<Rightarrow> action_request \<Rightarrow> bool" where
  "execute_started adapter meets action request \<longleftrightarrow>
     In_flight_inc \<in> set (snd (snd (guard_call (resilient_execute adapter action request) (fst (meets ''execute'')) (snd (meets ''execute'')))))"

lemma not_started_refused:
  assumes "enter_circuit (sc_enter s) g = (Inl e, g1)"
  shows "fst (guard_call c s g) = Inl (AdapterExn (as_adapter_error e)) \<and> In_flight_inc \<notin> set (snd (snd (guard_call c s g)))"
proof -
  have flight: "In_flight_inc \<in> set es \<longleftrightarrow> In_flight_inc \<in> set (filter counts_flight es)" for es by simp
  have "In_flight_inc \<notin> set (enter_gauge now g)" "In_flight_inc \<notin> set (end_gauge u st (x :: 'a ending) g)" for now u st x g
    using flight [of "enter_gauge now g"] flight [of "end_gauge u st x g"] by simp_all
  then show ?thesis by (simp add: guard_call_def assms call_end_simps final_events_def Let_def)
qed

lemma error_codes: "ident_ok ''unavailable''" "ident_ok ''timeout''"
  by code_simp+

lemma refusal_error:
  assumes "enter_circuit now g = (Inl e, g1)"
  shows "ae_retry (as_adapter_error e) = RETRY_SAFE" "\<not> ae_reconciliation_required (as_adapter_error e)"
    "\<exists>je. as_job_error (as_adapter_error e) = Inr je \<and> je_retry je = RETRY_SAFE"
  using assms by (auto simp: enter_circuit_def enter_half_open_def circuit_refusal_def as_adapter_error_def AdapterError_def as_job_error_def
    job_error_ok_def len_between_def error_codes Let_def split: if_splits)

lemma worker_fails:
  assumes "reachable cfg db" and "hex_output (sc_crypto cfg)" and "collision_free cfg" and "db_writable db"
    and "alone env" and "next_claimable (env_now env 0) db = Some r"
    and "validate_request (wk_validator w) (wk_catalog w) (jr_request r) = Inr action"
    and "registry_get (wk_adapters w) (ad_adapter action) = Inr adapter"
    and "ap_execute adapter action (jr_request r) = Inl (AdapterExn e)" and "as_job_error e = Inr je"
  shows "\<exists>v db'. worker_run_once cfg w env db = (Inr (Some v), db') \<and> get_job (jr_id r) db' = Inr (Some v) \<and>
    jv_id v = jr_id r \<and> jv_state v = (if ae_reconciliation_required e then UNKNOWN_OUTCOME else FAILED) \<and>
    jv_result v = None \<and> jv_error v = Some je"
proof -
  note env [simp] = assms(5) [unfolded alone_def, rule_format]
  from claimed_lease [OF assms(1-4,6,7)] obtain c db1 where
    c: "claim_next_job cfg (env_now env 0) (env_token env) (wk_id w) 30 (Some (worker_lease_for w)) db = (Inr (Some c), db1)"
    "jv_id (cl_job c) = jr_id r" "cl_lease_token c = env_token env"
    and h: "held cfg (jr_id r) (env_token env) RUNNING db1"
    and x: "get_job_context (jr_id r) db1 = Inr (jr_request r, jr_subject r)"
    and n: "worker_lease_for w (jr_request r) = Inr (ad_timeout_seconds action + 15)" by blast
  have "worker_run_once cfg w env db = worker_failed cfg env (jr_id r) (env_token env) (AdapterExn e) db1"
    using worker_run_claimed [OF c _ assms(7,8) n] x assms(9) by (simp add: worker_attempt_def)
  with failed_outcome [OF assms(2,3,5) h _ assms(10)] show ?thesis by simp
qed


section \<open>An example\<close>

definition demo_guarded :: worker where
  "demo_guarded = demo_worker\<lparr>wk_adapters := [(ad_adapter demo_action,
     ResilientAdapter (\<lambda>x. ''0'') (\<lambda>operation. (demo_schedule, ResilienceGuard demo_resilience 0)) (FakeAdapter 0))]\<rparr>"


end
