(* ===== verification/Services.thy ===== *)
theory Services
  imports Application McpLaws MacAgent
begin

text \<open>
  The processes as they are started: what the entry points of the broker, the local agent, the issuer, the MCP server and the WASM
  host build from their settings, where they listen, and how they fail to start. Reading the settings from the
  environment and the server libraries are left out: a started service is the host and port given to the server and the
  application behind them.
\<close>

type_synonym 'a listener = "string \<times> int \<times> 'a"

section \<open>The broker\<close>

definition broker_run :: "outside \<Rightarrow> settings \<Rightarrow> exn + app listener" where
  "broker_run ou se = bind_sum (create_app ou se None None) (\<lambda>app. Inr (se_bind_host se, se_bind_port se, app))"

section \<open>The local agent\<close>

record mac_settings =
  ms_bind_host :: string
  ms_bind_port :: int
  ms_inventory_path :: string
  ms_token_file :: string

definition mac_settings_ok :: "mac_settings \<Rightarrow> bool" where
  "mac_settings_ok ms \<longleftrightarrow> 1024 \<le> ms_bind_port ms \<and> ms_bind_port ms \<le> 65535"

definition default_mac_settings :: "string \<Rightarrow> mac_settings" where
  "default_mac_settings token_file = \<lparr>ms_bind_host = ''127.0.0.1'', ms_bind_port = 19471, ms_inventory_path = ''config/macos.yaml'',
     ms_token_file = token_file\<rparr>"

text \<open>\<open>Path.expanduser\<close> for the user's own home directory.\<close>

definition expanduser :: "string \<Rightarrow> string \<Rightarrow> string" where
  "expanduser home p = (if p = ''~'' then home else if starts_with ''~/'' p then home @ drop 1 p else p)"

definition mac_expand_paths :: "string \<Rightarrow> mac_settings \<Rightarrow> mac_settings" where
  "mac_expand_paths home ms = ms\<lparr>ms_inventory_path := expanduser home (ms_inventory_path ms), ms_token_file := expanduser home (ms_token_file ms)\<rparr>"

record mac_app =
  ma_inventory :: mac_inventory
  ma_token_file :: string

definition mac_create_app ::
  "string \<Rightarrow> (string \<Rightarrow> exn + json) \<Rightarrow> (json_object \<Rightarrow> mac_inventory option) \<Rightarrow> mac_settings \<Rightarrow> exn + mac_app" where
  "mac_create_app home yaml validate ms =
     bind_sum (yaml (expanduser home (ms_inventory_path ms))) (\<lambda>raw.
     bind_sum (load_inventory validate raw) (\<lambda>inventory.
     Inr \<lparr>ma_inventory = inventory, ma_token_file = ms_token_file ms\<rparr>))"

text \<open>The token file is read at every request.\<close>

definition mac_execute_route ::
  "system \<Rightarrow> (string \<Rightarrow> exn + string) \<Rightarrow> mac_app \<Rightarrow> string option \<Rightarrow> local_request \<Rightarrow> local_result mac" where
  "mac_execute_route sy read app authorization request =
     mac_api_execute sy (ma_inventory app) (read (ma_token_file app)) authorization request"

definition mac_agent_run ::
  "string \<Rightarrow> (string \<Rightarrow> exn + json) \<Rightarrow> (json_object \<Rightarrow> mac_inventory option) \<Rightarrow> mac_settings \<Rightarrow> exn + mac_app listener" where
  "mac_agent_run home yaml validate ms = bind_sum (mac_create_app home yaml validate ms) (\<lambda>app. Inr (ms_bind_host ms, ms_bind_port ms, app))"

section \<open>The issuer\<close>

record issuer_config =
  ic_bind_host :: string
  ic_bind_port :: int
  ic_signing_key_file :: string
  ic_subject :: string
  ic_device :: string
  ic_channel :: string
  ic_token_ttl_seconds :: int
  ic_caller_token_file :: "string option"

definition issuer_config_ok :: "issuer_config \<Rightarrow> bool" where
  "issuer_config_ok ic \<longleftrightarrow> 1024 \<le> ic_bind_port ic \<and> ic_bind_port ic \<le> 65535 \<and> 10 \<le> ic_token_ttl_seconds ic \<and> ic_token_ttl_seconds ic \<le> 300"

definition default_issuer_config :: "string \<Rightarrow> string \<Rightarrow> string \<Rightarrow> issuer_config" where
  "default_issuer_config signing_key_file subject device = \<lparr>ic_bind_host = ''127.0.0.1'', ic_bind_port = 19472,
     ic_signing_key_file = signing_key_file, ic_subject = subject, ic_device = device, ic_channel = ''mgmt-mtls'', ic_token_ttl_seconds = 60,
     ic_caller_token_file = None\<rparr>"

definition issuer_expand_paths :: "string \<Rightarrow> issuer_config \<Rightarrow> issuer_config" where
  "issuer_expand_paths home ic = ic\<lparr>ic_signing_key_file := expanduser home (ic_signing_key_file ic),
     ic_caller_token_file := map_option (expanduser home) (ic_caller_token_file ic)\<rparr>"

text \<open>\<open>pem\<close> is \<open>load_pem_private_key\<close>: a \<open>ValueError\<close> or \<open>TypeError\<close>, a key of another kind, or an Ed25519 key as its signing function.\<close>

definition issuer_load_key :: "(string \<Rightarrow> exn + string) \<Rightarrow> (string \<Rightarrow> exn + 'k option) \<Rightarrow> string \<Rightarrow> exn + 'k" where
  "issuer_load_key read pem file =
     bind_sum (read file) (\<lambda>material. bind_sum (pem material) (\<lambda>key.
     case key of None \<Rightarrow> Inl (PyValueError ''issuer signing key must be an Ed25519 private key'') | Some k \<Rightarrow> Inr k))"

record issuer_app =
  ia_sign :: "string \<Rightarrow> string"
  ia_config :: issuer_config

definition issuer_create_app ::
  "(string \<Rightarrow> exn + string) \<Rightarrow> (string \<Rightarrow> exn + (string \<Rightarrow> string) option) \<Rightarrow> issuer_config \<Rightarrow> exn + issuer_app" where
  "issuer_create_app read pem ic =
     bind_sum (issuer_load_key read pem (ic_signing_key_file ic)) (\<lambda>sign. Inr \<lparr>ia_sign = sign, ia_config = ic\<rparr>)"

text \<open>The settings of a request, with the caller token as it is in its file then.\<close>

definition issuer_settings_at :: "(string \<Rightarrow> exn + string) \<Rightarrow> issuer_config \<Rightarrow> issuer_settings" where
  "issuer_settings_at read ic = \<lparr>is_subject = ic_subject ic, is_device = ic_device ic, is_channel = ic_channel ic,
     is_token_ttl_seconds = ic_token_ttl_seconds ic, is_caller_token = map_option read (ic_caller_token_file ic)\<rparr>"

definition issuer_token_route ::
  "(string \<Rightarrow> exn + string) \<Rightarrow> issuer_app \<Rightarrow> string option \<Rightarrow> string \<Rightarrow> instant \<Rightarrow> exn + string \<times> string" where
  "issuer_token_route read app authorization nonce now =
     issuer_token (ia_sign app) (issuer_settings_at read (ia_config app)) authorization nonce now"

definition issuer_run ::
  "(string \<Rightarrow> exn + string) \<Rightarrow> (string \<Rightarrow> exn + (string \<Rightarrow> string) option) \<Rightarrow> issuer_config \<Rightarrow> exn + issuer_app listener" where
  "issuer_run read pem ic = bind_sum (issuer_create_app read pem ic) (\<lambda>app. Inr (ic_bind_host ic, ic_bind_port ic, app))"

text \<open>Both local services answer \<open>/healthz\<close> alike.\<close>

definition local_health :: json where
  "local_health = JObj [(''status'', JStr ''ok'')]"

section \<open>The MCP server\<close>

text \<open>The server is its name, version and tools; it cannot be built without the optional SDK or without a signing key.\<close>

definition MCP_TOOLS :: "string list" where
  "MCP_TOOLS = [''list_actions'', ''status_summary'', ''plan_action'', ''execute_action'', ''job_status'']"

record mcp_server =
  mv_name :: string
  mv_version :: string
  mv_tools :: "string list"
  mv_client :: broker_client
  mv_caller :: mcp_caller

definition build_server ::
  "bool \<Rightarrow> outside \<Rightarrow> (string \<Rightarrow> unit + (string \<Rightarrow> string) option) \<Rightarrow> (json \<Rightarrow> string) \<Rightarrow> settings \<Rightarrow> mcp_caller \<Rightarrow> exn + mcp_server" where
  "build_server sdk_installed ou private_pem str se caller =
     (if \<not> sdk_installed then Inl (OtherException ''McpConfigError'')
      else bind_sum (build_broker_client (se_identity_signing_key_file se) (load_private_key (ou_read ou) private_pem) (se_mcp_broker_url se) str)
        (\<lambda>client. Inr \<lparr>mv_name = ''deckhand'', mv_version = ''0.5.0'', mv_tools = MCP_TOOLS, mv_client = client, mv_caller = caller\<rparr>))"

definition mcp_run ::
  "bool \<Rightarrow> outside \<Rightarrow> (string \<Rightarrow> unit + (string \<Rightarrow> string) option) \<Rightarrow> (json \<Rightarrow> string) \<Rightarrow> settings \<Rightarrow> exn + mcp_server listener" where
  "mcp_run sdk_installed ou private_pem str se =
     (let caller = \<lparr>mk_subject = se_mcp_default_subject se, mk_device = se_mcp_default_device se\<rparr>
      in bind_sum (build_server sdk_installed ou private_pem str se caller) (\<lambda>server. Inr (se_mcp_bind_host se, se_mcp_bind_port se, server)))"

section \<open>The WASM host\<close>

datatype host_start = Host_serves host_server | Host_exits string

text \<open>\<open>WasmConnection\<close> is validated first. Whatever goes wrong, the process ends with the same text.\<close>

definition wasm_host_run ::
  "(string \<Rightarrow> string) \<Rightarrow> files \<Rightarrow> pydantic \<Rightarrow> (json_object \<Rightarrow> wasm_description option) \<Rightarrow> ganglion_client \<Rightarrow> int \<Rightarrow> path \<Rightarrow> path \<Rightarrow>
     int \<Rightarrow> nat \<Rightarrow> nat \<Rightarrow> host_start" where
  "wasm_host_run sha fs py read_description client uid socket_path artifact_path broker_uid max_frame_bytes max_artifact_bytes =
     (let served = (if wasm_connection_ok (gl_connection client)
        then serve_component sha fs py read_description client uid socket_path artifact_path broker_uid max_frame_bytes max_artifact_bytes
        else Inl (ValidationError ''WasmConnection''))
      in case served of Inr s \<Rightarrow> Host_serves s | Inl _ \<Rightarrow> Host_exits ''Deckhand wasm host failed secure startup'')"

section \<open>What is started\<close>

text \<open>By default every service listens on the loopback interface only. The MCP server and the local agent want the same
  port, so with the defaults only one of them can run on a machine.\<close>

lemma default_listeners_loopback:
  "broker_run ou default_settings = Inr (host, port, app) \<Longrightarrow> host = ''127.0.0.1''"
  "mac_agent_run home yaml validate (default_mac_settings f) = Inr (host, port, mac) \<Longrightarrow> host = ''127.0.0.1''"
  "issuer_run read pem (default_issuer_config k s d) = Inr (host, port, issuer) \<Longrightarrow> host = ''127.0.0.1''"
  "mcp_run sdk ou private_pem str default_settings = Inr (host, port, mcp) \<Longrightarrow> host = ''127.0.0.1''"
  by (auto simp: broker_run_def mac_agent_run_def issuer_run_def mcp_run_def default_settings_def default_mac_settings_def
    default_issuer_config_def Let_def)

lemma default_ports_collide:
  "ms_bind_port (default_mac_settings f) = se_mcp_bind_port default_settings" "ms_bind_host (default_mac_settings f) = se_mcp_bind_host default_settings"
  by (simp_all add: default_mac_settings_def default_settings_def)

text \<open>With the default settings there is no MCP server at all: it has no key to sign for its callers.\<close>

lemma default_mcp_refused: "mcp_run sdk ou private_pem str default_settings = Inl (OtherException ''McpConfigError'')"
  by (simp add: mcp_run_def build_server_def build_broker_client_def default_settings_def)

text \<open>A started issuer mints for its configured identity only, and only for callers with the local token if one is configured.\<close>

lemma issuer_route_token:
  "issuer_run read pem ic = Inr (host, port, app) \<Longrightarrow>
     issuer_token_route read app authorization nonce now =
       bind_sum (issuer_authorize (issuer_settings_at read ic) authorization) (\<lambda>_. issuer_mint (ia_sign app) (issuer_settings_at read ic) nonce now)"
  by (auto simp: issuer_run_def issuer_create_app_def issuer_token_route_def issuer_token_def)

section \<open>From the issuer to the broker\<close>


section \<open>An example\<close>

definition demo_keyed_outside :: outside where
  "demo_keyed_outside = demo_outside\<lparr>ou_read := (\<lambda>_. Inr ''pem''), ou_public_pem := (\<lambda>_. Inr (Some (\<lambda>sig m. sig = m)))\<rparr>"

definition demo_keyed_settings :: settings where
  "demo_keyed_settings = default_settings\<lparr>se_identity_public_key_file := Some ''broker.pem''\<rparr>"

definition demo_issuer_config :: issuer_config where
  "demo_issuer_config = (default_issuer_config ''issuer.pem'' ''operator'' ''deck-1'')\<lparr>ic_channel := ''tailscale''\<rparr>"

lemma demo_broker: "\<exists>app. broker_run demo_keyed_outside demo_keyed_settings = Inr (''127.0.0.1'', 19470, app)"
proof -
  obtain app where "create_app demo_outside default_settings None None = Inr app" using demo_app by blast
  then obtain catalog where catalog: "catalog_of demo_outside default_settings demo_loaded = Inr catalog"
    by (auto simp: create_app_def demo_extensions)
  have "extensions_of demo_keyed_outside demo_keyed_settings = Inr demo_loaded"
    using demo_extensions by (simp add: demo_keyed_outside_def demo_keyed_settings_def extensions_of_def default_manager_def load_options_of_def)
  moreover have "catalog_of demo_keyed_outside demo_keyed_settings demo_loaded = Inr catalog"
    using catalog by (simp add: demo_keyed_outside_def demo_keyed_settings_def catalog_of_def)
  moreover have "store_of demo_keyed_outside demo_keyed_settings = Inr \<lparr>sc_crypto = demo_crypto, sc_audit_hmac_key = None\<rparr>"
    by (simp add: store_of_def load_audit_key_def demo_keyed_settings_def default_settings_def demo_keyed_outside_def demo_outside_def)
  ultimately show ?thesis
    by (simp add: broker_run_def create_app_def identity_key_of_def load_public_key_def load_key_def load_protected_inventory_def
        demo_keyed_settings_def default_settings_def demo_keyed_outside_def Let_def)
qed


end
