(* ===== verification/Spec2Isabelle.thy ===== *)
theory Spec2Isabelle
  imports ApiLaws Events Daemons GuardedCall HostPeers PublicSurface Plugins MacResults McpLaws Conformance EndToEnd Schema Sdctl WorkerGuard Services
begin

text \<open>
  A verification of Deckhand, the broker between a control surface and the actions it may trigger.

  \<^bold>\<open>The program.\<close> A device asks the broker (\<open>api.py\<close>) to plan or execute an action of the catalog. The broker
  authenticates the caller (\<open>identity.py\<close>), validates the request against the catalog and the inventory, asks a policy
  engine (\<open>policy.py\<close>), issues or consumes a confirmation bound to the digest of the request, and queues a job in the
  store (\<open>store.py\<close>, SQLite). Three other processes share the store: the worker executes queued jobs through an
  adapter, the reconciler settles jobs whose outcome is unknown, and a scheduler runs the reconciler, expires stale
  jobs and verifies the audit chain. Every store transition appends to a hash-chained audit log in the same
  transaction. Adapters come from plugins: built in, installed distributions, or WASM components behind the
  \<open>gang\<close> command or behind a separate host process reached over a Unix socket.

  \<^bold>\<open>Theories and sources\<close> (under \<open>src/apps/broker/src/deckhand/\<close>). Definitions keep the names of the code.
  \<^item> \<open>Prelude\<close>: result type \<open>error + value\<close> with \<open>bind_sum\<close>, keyed tables (a SQLite table is a list of rows; the locale
    \<open>keyed_update\<close> carries the laws of an \<open>UPDATE ... WHERE\<close>), dictionaries in insertion order, decimal numerals.
  \<^item> \<open>PyJson\<close>, \<open>JsonLoads\<close>, \<open>Base64\<close>, \<open>PyTime\<close>: what the code uses of Python's \<open>json.dumps\<close>, \<open>json.loads\<close>,
    \<open>base64\<close> and \<open>datetime\<close>; the canonical encoding is shown injective and read back by the decoder.
  \<^item> \<open>Models\<close> (\<open>models.py\<close>), \<open>Catalog\<close>, \<open>Inventory\<close>, \<open>Digests\<close>, \<open>Policy\<close> (\<open>policy.py\<close> and the Rego policy under
    \<open>policies/\<close>), \<open>Adapters\<close>, \<open>StateMachine\<close>: data and pure logic.
  \<^item> \<open>Store\<close>, \<open>Confirmations\<close>, \<open>AuditChain\<close>: the operations of \<open>store.py\<close>, each one transaction, a function from the
    database record to a result and the next database; a failed transaction leaves it unchanged. \<open>StoreLaws\<close>: the
    invariant and that every operation keeps it (locales \<open>job_row_write\<close>, \<open>row_sweep\<close>, \<open>store_operation\<close>).
    \<open>StoreHistory\<close>: all histories of all processes as the step relation \<open>db_step\<close>; every job moves along
    \<open>ALLOWED_TRANSITIONS\<close>. \<open>ConfirmationLaws\<close>: one confirmation followed along any history.
  \<^item> \<open>Process\<close>, \<open>Worker\<close>, \<open>Reconciler\<close>, \<open>Cancellation\<close>, \<open>Api\<close>, \<open>ApiLaws\<close>, \<open>Events\<close>, \<open>Daemons\<close>: programs over the store.
    Between two store calls of a program, and while an adapter runs, an arbitrary environment acts: the argument
    \<open>env\<close>, constrained in theorems to perform \<open>db_steps\<close> only. The locale \<open>store_program\<close> says that a program's own
    effects are store operations too. \<open>Daemons\<close> iterates the loops over lists of rounds (locale \<open>supervised\<close>).
  \<^item> \<open>Application\<close> (\<open>config.py\<close>, \<open>create_app\<close> and the read routes of \<open>api.py\<close>, the start of both daemons): how the processes
    are built from settings and files. \<open>EndToEnd\<close>: from a press to the observed result.
    \<open>Schema\<close>: the script and the migration of \<open>store.py\<close> over tables of cells.
  \<^item> \<open>Identity\<close> (\<open>identity.py\<close> and the ingress of \<open>api.py\<close>): minting and verifying signed identity tokens.
  \<^item> \<open>Resilience\<close> and \<open>ResilienceLaws\<close> (\<open>resilience.py\<close>): circuit breaker, token bucket and concurrency bound, and
    the guard under any interleaving of calls (\<open>call_step\<close>). \<open>GuardedCall\<close>: one whole call with the metrics it reports
    (\<open>metrics.py\<close>), under any schedule, and that alone it is a run of \<open>call_step\<close>; \<open>WorkerGuard\<close>: the worker over guarded adapters.
  \<^item> \<open>PluginApi\<close>, \<open>PublicJson\<close>, \<open>Frames\<close>, \<open>HostFiles\<close>, \<open>HostTransport\<close>, \<open>HostServer\<close>, \<open>HostLaws\<close>, \<open>HostPeers\<close>
    (\<open>plugin_api.py\<close>, \<open>wasm_host_transport.py\<close>): manifests, the guard on everything that crosses the boundary, byte
    frames, the checks of artifact, key and socket, both ends of the transport, and what an adapter behind it
    promises (locale \<open>result_format\<close>). \<open>Ganglion\<close> (\<open>ganglion.py\<close>, \<open>wasm_host_main.py\<close>) and \<open>Plugins\<close> (\<open>plugins.py\<close>,
    \<open>extensions.py\<close>): WASM components and the plugin manager.
  \<^item> \<open>Mcp\<close> and \<open>McpLaws\<close> (\<open>broker_client.py\<close>, \<open>mcp_server.py\<close>): the signed client of the broker and the tools
    offered to language models; \<open>Sdctl\<close> (\<open>cli.py\<close>): the command line of an operator. \<open>Conformance\<close>
    (\<open>conformance.py\<close>): the suite that an adapter of any tier has to pass. \<open>Services\<close> (\<open>main.py\<close> of both applications,
    \<open>issuer.py\<close>, \<open>mcp_server.py\<close>, \<open>wasm_host_main.py\<close>): what the entry points build and where they listen.
  \<^item> \<open>Regex\<close>: the backtracking matcher of Python's \<open>re\<close> for the constructs the code uses, shown exact for a declarative
    meaning, and \<open>finditer\<close>. \<open>PublicSurface\<close> (\<open>src/scripts/check_public_surface.py\<close>): the check that the repository
    contains no private name, address or credential.
  \<^item> \<open>MacModels\<close>, \<open>MacMachine\<close>, \<open>MacObs\<close>, \<open>MacExecutor\<close>, \<open>MacLaws\<close>, \<open>MacAgent\<close>, \<open>MacResults\<close>
    (\<open>src/apps/macos-agent/src/deckhand_macos/\<close>): the local agent on a workstation. Its programs may return, raise or
    wait for ever, over a history of effects (processes started, messages sent); what the machine answers is any function of
    that history. The issuer of \<open>issuer.py\<close> mints the tokens that \<open>Identity\<close> verifies.

  \<^bold>\<open>What is shown.\<close> Fencing and claiming: a stale holder of a lease writes nothing and a job is handed to one worker
  at most. Confirmations: a consumed one was issued to this subject for exactly this request and is never
  consumed again; a mutating request that the policy wants confirmed is never queued without one; a planned
  and confirmed request is queued, and the worker built from the same settings brings it to success. Jobs: allowed transitions only, complete specifications of one round of
  worker, reconciler and canceller, and the reconciler never executes. Audit: any change of a verified log other than
  cutting its end is detected or is a hash collision. Identity: what is minted verifies, and an authenticated subject was
  minted. Guards: rate, concurrency and circuit bounds under every interleaving; a mutation that
  the guard cuts off is reconciled exactly if it had been started. Daemons: which failures they survive.
  Plugins: what is loaded is what configuration, lock and options allow; broker and
  plugin host talk only when each runs as the user the other expects; a hosted adapter behaves as the adapter behind it; a lost reply to a mutation is an unknown outcome; the conformance suite gives the same
  verdict on both tiers. MCP: a tool call is exactly a request to the broker by its caller. Start: the
  default settings authenticate nobody and permit no mutation, the daemons start with what the broker starts with, and an old
  database is upgraded in place. Local agent: it does only what its operator configured, and its
  tokens authenticate exactly the configured identity. Theorems of kind \<open>error\<close> state where the code falls short of that.

  \<^bold>\<open>Parameters.\<close> SHA-256, HMAC, Ed25519, random tokens, clocks, the JSON Schema validator, the files that are read, the
  adapters and the other processes are arguments of the definitions. Theorems that need a property of one (an injective
  hash on the strings at hand, a signature scheme that accepts its own signatures, an HTTP policy service that evaluates the
  Rego policy) name it as a hypothesis, and each has a witness. The validation of a JSON value by a pydantic
  model is the record \<open>pydantic\<close>, one function per model; the constraints of the models that matter to a theorem are
  predicates such as \<open>manifest_ok\<close>.

  \<^bold>\<open>Bounds and termination.\<close> Word arithmetic is used where the code packs integers (frame lengths, user IDs). Recursive readers carry
  fuel that is at least the length of their input, and every step consumes input, so it is never exhausted. Loops that may
  not end are \<open>partial_function\<close>: the walk over socket directories (returns unless socket and root coincide) and
  the acquisition of a rate token (returns under a clock that advances). Daemon loops and event streams
  consume a list of rounds.

  \<^bold>\<open>Not modelled.\<close> Code points above 255 in strings, and beyond ASCII in the texts of the public-surface check; rounding of
  floats (time is rational, JSON floats keep their text); Python's recursion and integer-digit limits; the SQLite engine below
  the granularity of its transactions and the column types and constraints of its tables; HTTP routing, header parsing, the
  metrics other than those of guarded calls, logging and argument parsing; reading settings from the environment;
  and the server libraries behind the entry points.
\<close>

end
